(* ===== verification/Prelude.thy ===== *)
theory Prelude
  imports Main "HOL-Library.Word" "HOL-Library.Finite_Map" "HOL-Library.Sublist"
    "HOL-Library.List_Lexorder" "HOL-Library.Char_ord"
begin

text \<open>
  Shared vocabulary of the development: Go strings as byte strings with the functions of the
  package \<open>strings\<close> the operator calls, decimal formatting, quoting, Go errors with wrapping,
  and the theorem collections and generic lemmas the component theories use.
\<close>

section \<open>Theorem collections\<close>

named_theorems go_string \<open>facts about the string functions\<close>
named_theorems go_const \<open>definitions of the string constants of the source\<close>
named_theorems emits_intro \<open>introduction rules for the request log\<close>

section \<open>Types that stand for Go types\<close>

text \<open>
  A Go string is a byte sequence; a Isabelle \<open>char\<close> is one byte. A Go map with string keys is a
  finite map, whose equality is extensional as \<open>reflect.DeepEqual\<close> is. A 32-bit signed integer
  is a word read with \<open>sint\<close>; a 64-bit counter that is only copied is an \<open>int\<close>.
\<close>

type_synonym 'v gomap = "(string, 'v) fmap"
type_synonym int32 = "32 word"
type_synonym time = int

section \<open>Package strings\<close>

text \<open>
  \<open>unicode.IsSpace\<close> holds of the code points U+0009 to U+000D, U+0020, U+0085, U+00A0, U+1680,
  U+2000 to U+200A, U+2028, U+2029, U+202F, U+205F and U+3000; these are their UTF-8 encodings.
\<close>

definition unicode_spaces :: "string list" where
  "unicode_spaces = map (map (char_of :: nat \<Rightarrow> char))
     [[9], [10], [11], [12], [13], [32], [194, 133], [194, 160], [225, 154, 128],
      [226, 128, 128], [226, 128, 129], [226, 128, 130], [226, 128, 131], [226, 128, 132],
      [226, 128, 133], [226, 128, 134], [226, 128, 135], [226, 128, 136], [226, 128, 137],
      [226, 128, 138], [226, 128, 168], [226, 128, 169], [226, 128, 175], [226, 129, 159],
      [227, 128, 128]]"

text \<open>
  Dropping leading words of a given set, until none of them is a prefix. The trimming loop of
  \<open>strings.TrimSpace\<close> is this loop from the left and, on the reversed string, from the right.
\<close>

function trim_with :: "string list \<Rightarrow> string \<Rightarrow> string" where
  "trim_with ws s =
     (case find (\<lambda>w. w \<noteq> [] \<and> prefix w s) ws of
        None \<Rightarrow> s
      | Some w \<Rightarrow> trim_with ws (drop (length w) s))"
  by pat_completeness auto
termination
proof (relation "measure (\<lambda>(ws, s). length s)", goal_cases)
  case 1
  show ?case by simp
next
  case (2 ws s w)
  then have "w \<noteq> []" and "prefix w s" by (auto simp: find_Some_iff)
  then show ?case by (auto simp: prefix_def)
qed

declare trim_with.simps [simp del]

definition TrimSpace :: "string \<Rightarrow> string" where
  "TrimSpace s = rev (trim_with (map rev unicode_spaces) (rev (trim_with unicode_spaces s)))"

definition HasPrefix :: "string \<Rightarrow> string \<Rightarrow> bool" where
  "HasPrefix s p \<longleftrightarrow> prefix p s"

definition TrimPrefix :: "string \<Rightarrow> string \<Rightarrow> string" where
  "TrimPrefix s p = (if HasPrefix s p then drop (length p) s else s)"

text \<open>\<open>strings.Contains\<close>: \<open>p\<close> occurs as a contiguous block.\<close>

definition Contains :: "string \<Rightarrow> string \<Rightarrow> bool" where
  "Contains s p \<longleftrightarrow> sublist p s"

text \<open>\<open>strings.Index\<close> with a one-byte separator, \<open>None\<close> for the result \<open>-1\<close>.\<close>

fun IndexByte :: "string \<Rightarrow> char \<Rightarrow> nat option" where
  "IndexByte [] c = None"
| "IndexByte (x # xs) c = (if x = c then Some 0 else map_option Suc (IndexByte xs c))"

text \<open>\<open>strings.Cut\<close> with a one-byte separator: before, after, found.\<close>

definition Cut :: "string \<Rightarrow> char \<Rightarrow> string \<times> string \<times> bool" where
  "Cut s c = (case IndexByte s c of
      None \<Rightarrow> (s, [], False)
    | Some i \<Rightarrow> (take i s, drop (Suc i) s, True))"

fun Join :: "string list \<Rightarrow> string \<Rightarrow> string" where
  "Join [] sep = []"
| "Join [x] sep = x"
| "Join (x # xs) sep = x @ sep @ Join xs sep"

text \<open>
  \<open>strings.ToUpper\<close> on ASCII letters; other bytes are kept. The only code points beyond ASCII
  that Go maps to an ASCII letter are U+0131 (to \<open>I\<close>) and U+017F (to \<open>S\<close>), so a test against an
  ASCII prefix without \<open>I\<close> and \<open>S\<close> has the same result on the UTF-8 bytes.
\<close>

definition upper_byte :: "char \<Rightarrow> char" where
  "upper_byte c = (let n = of_char c :: nat in if 97 \<le> n \<and> n \<le> 122 then char_of (n - 32) else c)"

definition ToUpper :: "string \<Rightarrow> string" where
  "ToUpper s = map upper_byte s"

section \<open>Formatting\<close>

definition digit_char :: "nat \<Rightarrow> char" where
  "digit_char d = char_of (48 + d)"

fun show_nat :: "nat \<Rightarrow> string" where
  "show_nat n = (if n < 10 then [digit_char n] else show_nat (n div 10) @ [digit_char (n mod 10)])"

declare show_nat.simps [simp del]

definition show_int :: "int \<Rightarrow> string" where
  "show_int i = (if i < 0 then CHR ''-'' # show_nat (nat (- i)) else show_nat (nat i))"

definition show_bool :: "bool \<Rightarrow> string" where
  "show_bool b = (if b then ''true'' else ''false'')"

text \<open>
  The verb \<open>%q\<close> on bytes: the double quote, the backslash and the control characters are
  escaped, every other byte is copied (as Go does for printable code points).
\<close>

definition hex_digit :: "nat \<Rightarrow> char" where
  "hex_digit d = (if d < 10 then char_of (48 + d) else char_of (87 + d))"

definition quote_byte :: "char \<Rightarrow> string" where
  "quote_byte c = (let n = of_char c :: nat in
     if n = 34 then [CHR 0x5C, CHR 0x22]
     else if n = 92 then [CHR 0x5C, CHR 0x5C]
     else if n = 7 then [CHR 0x5C, CHR ''a'']
     else if n = 8 then [CHR 0x5C, CHR ''b'']
     else if n = 12 then [CHR 0x5C, CHR ''f'']
     else if n = 10 then [CHR 0x5C, CHR ''n'']
     else if n = 13 then [CHR 0x5C, CHR ''r'']
     else if n = 9 then [CHR 0x5C, CHR ''t'']
     else if n = 11 then [CHR 0x5C, CHR ''v'']
     else if n < 32 \<or> n = 127 then [CHR 0x5C, CHR ''x'', hex_digit (n div 16), hex_digit (n mod 16)]
     else [c])"

definition Quote :: "string \<Rightarrow> string" where
  "Quote s = CHR 0x22 # concat (map quote_byte s) @ [CHR 0x22]"

section \<open>Errors\<close>

text \<open>
  The reasons of API status errors the code tells apart, and Go error values: a status error of
  the API server, a missing REST mapping, a plain \<open>fmt.Errorf\<close>, one that wraps another error with
  \<open>%w\<close> (the text before it is kept), and \<open>errors.Join\<close>.
\<close>

datatype api_reason = NotFound | AlreadyExists | OtherReason

datatype go_error =
    StatusError api_reason string
  | NoMatchError string
  | Errorf string
  | Wrapf string go_error
  | Joined "go_error list"

fun Error :: "go_error \<Rightarrow> string" where
  "Error (StatusError r m) = m"
| "Error (NoMatchError m) = m"
| "Error (Errorf m) = m"
| "Error (Wrapf m e) = m @ Error e"
| "Error (Joined es) = Join (map Error es) [CHR 0x0A]"

text \<open>\<open>errors.As\<close> for a status error: the first one of the tree, in pre-order.\<close>

fun status_reason :: "go_error \<Rightarrow> api_reason option"
  and status_reasons :: "go_error list \<Rightarrow> api_reason option" where
  "status_reason (StatusError r m) = Some r"
| "status_reason (NoMatchError m) = None"
| "status_reason (Errorf m) = None"
| "status_reason (Wrapf m e) = status_reason e"
| "status_reason (Joined es) = status_reasons es"
| "status_reasons [] = None"
| "status_reasons (e # es) =
     (case status_reason e of None \<Rightarrow> status_reasons es | Some r \<Rightarrow> Some r)"

definition IsNotFound :: "go_error \<Rightarrow> bool" where
  "IsNotFound e \<longleftrightarrow> status_reason e = Some NotFound"

definition IsAlreadyExists :: "go_error \<Rightarrow> bool" where
  "IsAlreadyExists e \<longleftrightarrow> status_reason e = Some AlreadyExists"

text \<open>\<open>meta.IsNoMatchError\<close>: some error of the tree is a missing mapping.\<close>

fun IsNoMatchError :: "go_error \<Rightarrow> bool" where
  "IsNoMatchError (StatusError r m) = False"
| "IsNoMatchError (NoMatchError m) = True"
| "IsNoMatchError (Errorf m) = False"
| "IsNoMatchError (Wrapf m e) = IsNoMatchError e"
| "IsNoMatchError (Joined es) = list_ex IsNoMatchError es"

text \<open>A function that returns only an error is a check: \<open>None\<close> is \<open>nil\<close>.\<close>

type_synonym check = "go_error option"

text \<open>Running checks in order until one fails.\<close>

fun first_error :: "check list \<Rightarrow> check" where
  "first_error [] = None"
| "first_error (c # cs) = (case c of None \<Rightarrow> first_error cs | Some e \<Rightarrow> Some e)"


section \<open>Lemmas on strings\<close>

lemma trim_with_id [go_string]:
  "find (\<lambda>w. w \<noteq> [] \<and> prefix w s) ws = None \<Longrightarrow> trim_with ws s = s"
  by (subst trim_with.simps) simp

lemma trim_with_normal: "find (\<lambda>w. w \<noteq> [] \<and> prefix w (trim_with ws s)) ws = None"
proof (induction ws s rule: trim_with.induct)
  case (1 ws s)
  show ?case
  proof (cases "find (\<lambda>w. w \<noteq> [] \<and> prefix w s) ws")
    case None
    then show ?thesis by (simp add: trim_with_id)
  next
    case (Some w)
    with "1.IH" show ?thesis by (simp add: trim_with.simps [of ws s])
  qed
qed

lemma trim_with_suffix: "suffix (trim_with ws s) s"
proof (induction ws s rule: trim_with.induct)
  case (1 ws s)
  show ?case
  proof (cases "find (\<lambda>w. w \<noteq> [] \<and> prefix w s) ws")
    case None
    then show ?thesis by (simp add: trim_with_id)
  next
    case (Some w)
    with "1.IH" show ?thesis
      by (auto simp: trim_with.simps [of ws s] intro: suffix_order.trans suffix_drop)
  qed
qed

lemma trim_with_idem [simp]: "trim_with ws (trim_with ws s) = trim_with ws s"
  by (rule trim_with_id) (rule trim_with_normal)

lemma no_leading_mono:
  assumes "find (\<lambda>w. w \<noteq> [] \<and> prefix w s) ws = None" and "prefix t s"
  shows "find (\<lambda>w. w \<noteq> [] \<and> prefix w t) ws = None"
  using assms by (auto simp: find_None_iff dest: prefix_order.trans)

lemma TrimSpace_idem [simp]: "TrimSpace (TrimSpace s) = TrimSpace s"
proof -
  let ?l = "trim_with unicode_spaces s"
  let ?r = "trim_with (map rev unicode_spaces) (rev ?l)"
  have "prefix (rev ?r) ?l"
    using trim_with_suffix [of "map rev unicode_spaces" "rev ?l"] by (simp add: suffix_to_prefix)
  then have "find (\<lambda>w. w \<noteq> [] \<and> prefix w (rev ?r)) unicode_spaces = None"
    by (rule no_leading_mono [OF trim_with_normal])
  then show ?thesis by (simp add: TrimSpace_def trim_with_id)
qed

lemma trim_with_Nil [simp]: "trim_with ws [] = []"
  by (rule trim_with_id) (auto simp: find_None_iff)

lemma TrimSpace_Nil [simp]: "TrimSpace [] = []"
  by (simp add: TrimSpace_def)

text \<open>A string that starts and ends with a byte no space starts or ends with is kept.\<close>

lemma trim_with_hd:
  assumes "\<forall>w \<in> set ws. w \<noteq> [] \<longrightarrow> hd w \<noteq> c"
  shows "trim_with ws (c # s) = c # s"
proof (rule trim_with_id)
  show "find (\<lambda>w. w \<noteq> [] \<and> prefix w (c # s)) ws = None"
    using assms by (auto simp: find_None_iff prefix_Cons)
qed

definition inner_byte :: "char \<Rightarrow> bool" where
  "inner_byte c \<longleftrightarrow> 33 \<le> (of_char c :: nat) \<and> (of_char c :: nat) < 128"

lemma inner_byte_first: "inner_byte c \<Longrightarrow> \<forall>w \<in> set unicode_spaces. w \<noteq> [] \<longrightarrow> hd w \<noteq> c"
  unfolding unicode_spaces_def inner_byte_def by auto

lemma inner_byte_last: "inner_byte c \<Longrightarrow> \<forall>w \<in> set (map rev unicode_spaces). w \<noteq> [] \<longrightarrow> hd w \<noteq> c"
  unfolding unicode_spaces_def inner_byte_def by auto

lemma TrimSpace_inner:
  assumes "s = [] \<or> inner_byte (hd s) \<and> inner_byte (last s)"
  shows "TrimSpace s = s"
proof (cases s)
  case Nil
  then show ?thesis by simp
next
  case (Cons c t)
  with assms have "inner_byte c" and l: "inner_byte (last s)" by auto
  then have "trim_with unicode_spaces s = s"
    unfolding Cons by (intro trim_with_hd inner_byte_first)
  moreover have "rev s = last s # tl (rev s)"
    using Cons by (metis hd_rev list.collapse list.distinct(1) rev_is_Nil_conv)
  then have "trim_with (map rev unicode_spaces) (rev s) = rev s"
    using l by (metis trim_with_hd inner_byte_last)
  ultimately show ?thesis by (simp add: TrimSpace_def)
qed

lemma HasPrefix_append [simp]: "HasPrefix (p @ s) p"
  by (simp add: HasPrefix_def)

lemma TrimPrefix_append [simp]: "TrimPrefix (p @ s) p = s"
  by (simp add: TrimPrefix_def)

lemma HasPrefix_iff: "HasPrefix s p \<longleftrightarrow> (\<exists>t. s = p @ t)"
  by (simp add: HasPrefix_def prefix_def)

lemma IndexByte_None [simp]: "IndexByte s c = None \<longleftrightarrow> c \<notin> set s"
  by (induction s) auto

lemma IndexByte_Some:
  "IndexByte s c = Some i \<longleftrightarrow> (i < length s \<and> s ! i = c \<and> c \<notin> set (take i s))"
proof (induction s arbitrary: i)
  case Nil
  then show ?case by simp
next
  case (Cons x xs)
  then show ?case by (cases i) auto
qed

lemma take_IndexByte: "IndexByte s c = Some i \<Longrightarrow> take i s = takeWhile (\<lambda>x. x \<noteq> c) s"
  by (induction s arbitrary: i) auto

lemma Cut_spec:
  "Cut s c = (b, a, f) \<Longrightarrow> c \<notin> set b \<and> (if f then s = b @ c # a else s = b \<and> a = [])"
  by (auto simp: Cut_def IndexByte_Some id_take_nth_drop split: option.splits)

section \<open>Lemmas on errors\<close>

lemma first_error_None: "first_error cs = None \<longleftrightarrow> (\<forall>c \<in> set cs. c = None)"
  by (induction cs) (auto split: option.splits)

lemma first_error_Some_in: "first_error cs = Some e \<Longrightarrow> Some e \<in> set cs"
  by (induction cs) (auto split: option.splits)

declare first_error.simps [simp del]

lemma IsNotFound_simps [simp]:
  "IsNotFound (StatusError r m) \<longleftrightarrow> r = NotFound"
  "\<not> IsNotFound (NoMatchError m)"
  "\<not> IsNotFound (Errorf m)"
  "IsNotFound (Wrapf m e) \<longleftrightarrow> IsNotFound e"
  by (simp_all add: IsNotFound_def)

lemma IsAlreadyExists_simps [simp]:
  "IsAlreadyExists (StatusError r m) \<longleftrightarrow> r = AlreadyExists"
  "\<not> IsAlreadyExists (Errorf m)"
  "IsAlreadyExists (Wrapf m e) \<longleftrightarrow> IsAlreadyExists e"
  by (simp_all add: IsAlreadyExists_def)

end
