(* ===== verification/Unstructured.thy ===== *)
theory Unstructured
  imports Prelude
begin

text \<open>
  Untyped Kubernetes objects: the JSON values an \<open>unstructured.Unstructured\<close> holds and the
  nested-field helpers of the vendored apimachinery package that the operator uses on them.
  The laws that relate reading, writing and removing a nested field are an interface
  (locale \<open>nested_access\<close>), interpreted on the helpers.
\<close>

section \<open>Values and objects\<close>

text \<open>
  \<open>JInt\<close> is an \<open>int64\<close>, the only integer type of decoded content; \<open>JFloat\<close> keeps a
  \<open>float64\<close> by its text, which the operator never looks into.
\<close>

datatype json =
    JNil
  | JBool bool
  | JInt int
  | JFloat string
  | JStr string
  | JBytes string
  | JList "json list"
  | JMap "json gomap"

type_synonym object = "json gomap"

fun as_map :: "json \<Rightarrow> object option" where
  "as_map (JMap m) = Some m"
| "as_map _ = None"

fun as_str :: "json \<Rightarrow> string option" where
  "as_str (JStr s) = Some s"
| "as_str _ = None"

fun as_list :: "json \<Rightarrow> json list option" where
  "as_list (JList xs) = Some xs"
| "as_list _ = None"

fun as_bool :: "json \<Rightarrow> bool option" where
  "as_bool (JBool b) = Some b"
| "as_bool _ = None"

fun as_int :: "json \<Rightarrow> int option" where
  "as_int (JInt i) = Some i"
| "as_int _ = None"

section \<open>Nested fields\<close>

definition jsonPath :: "string list \<Rightarrow> string" where
  "jsonPath fields = ''.'' @ Join fields ''.''"

text \<open>The error text leaves out the Go rendering of the offending value.\<close>

definition accessor_error :: "string list \<Rightarrow> string \<Rightarrow> go_error" where
  "accessor_error fields expected = Errorf (jsonPath fields @ '' accessor error: expected '' @ expected)"

fun nested_from :: "string list \<Rightarrow> json \<Rightarrow> string list \<Rightarrow> go_error + json option" where
  "nested_from path v [] = Inr (Some v)"
| "nested_from path v (f # fs) =
     (case v of
        JNil \<Rightarrow> Inr None
      | JMap m \<Rightarrow> (case fmlookup m f of
            None \<Rightarrow> Inr None
          | Some v' \<Rightarrow> nested_from (path @ [f]) v' fs)
      | _ \<Rightarrow> Inl (accessor_error (path @ [f]) ''map[string]interface{}''))"

text \<open>The copying and the non-copying reader have the same value: \<open>Inr None\<close> is not found.\<close>

definition NestedField :: "object \<Rightarrow> string list \<Rightarrow> go_error + json option" where
  "NestedField obj fields = nested_from [] (JMap obj) fields"

definition nested_typed ::
    "(json \<Rightarrow> 'a option) \<Rightarrow> string \<Rightarrow> object \<Rightarrow> string list \<Rightarrow> go_error + 'a option" where
  "nested_typed conv expected obj fields =
     (case NestedField obj fields of
        Inl e \<Rightarrow> Inl e
      | Inr None \<Rightarrow> Inr None
      | Inr (Some v) \<Rightarrow> (case conv v of
            None \<Rightarrow> Inl (accessor_error fields expected)
          | Some a \<Rightarrow> Inr (Some a)))"

definition NestedString :: "object \<Rightarrow> string list \<Rightarrow> go_error + string option" where
  "NestedString = nested_typed as_str ''string''"

definition NestedBool :: "object \<Rightarrow> string list \<Rightarrow> go_error + bool option" where
  "NestedBool = nested_typed as_bool ''bool''"

definition NestedInt64 :: "object \<Rightarrow> string list \<Rightarrow> go_error + int option" where
  "NestedInt64 = nested_typed as_int ''int64''"

definition NestedSlice :: "object \<Rightarrow> string list \<Rightarrow> go_error + json list option" where
  "NestedSlice = nested_typed as_list ''[]interface{}''"

definition NestedMap :: "object \<Rightarrow> string list \<Rightarrow> go_error + object option" where
  "NestedMap = nested_typed as_map ''map[string]interface{}''"

definition as_str_map :: "json \<Rightarrow> string gomap option" where
  "as_str_map v = (case v of
      JMap m \<Rightarrow> (if fmpred (\<lambda>_ x. as_str x \<noteq> None) m then Some (fmmap (\<lambda>x. the (as_str x)) m) else None)
    | _ \<Rightarrow> None)"

definition NestedStringMap :: "object \<Rightarrow> string list \<Rightarrow> go_error + string gomap option" where
  "NestedStringMap = nested_typed as_str_map ''map[string]string''"

definition as_str_list :: "json \<Rightarrow> string list option" where
  "as_str_list v = (case v of
      JList xs \<Rightarrow> (if list_all (\<lambda>x. as_str x \<noteq> None) xs then Some (map (\<lambda>x. the (as_str x)) xs) else None)
    | _ \<Rightarrow> None)"

definition NestedStringSlice :: "object \<Rightarrow> string list \<Rightarrow> go_error + string list option" where
  "NestedStringSlice = nested_typed as_str_list ''[]string''"

text \<open>
  Writing. A missing level is created; a level that exists and is not a map is an error, found
  before anything is created, so the object is unchanged then. The empty path indexes a slice at
  \<open>-1\<close> in Go and is never passed.
\<close>

fun set_nested :: "string list \<Rightarrow> object \<Rightarrow> json \<Rightarrow> string list \<Rightarrow> go_error + object" where
  "set_nested path m v [] = Inl (Errorf ''index out of range [-1]'')"
| "set_nested path m v [f] = Inr (fmupd f v m)"
| "set_nested path m v (f # g # fs) =
     (case fmlookup m f of
        None \<Rightarrow> (case set_nested (path @ [f]) fmempty v (g # fs) of
            Inl e \<Rightarrow> Inl e | Inr m' \<Rightarrow> Inr (fmupd f (JMap m') m))
      | Some (JMap m1) \<Rightarrow> (case set_nested (path @ [f]) m1 v (g # fs) of
            Inl e \<Rightarrow> Inl e | Inr m' \<Rightarrow> Inr (fmupd f (JMap m') m))
      | Some _ \<Rightarrow> Inl (Errorf (''value cannot be set because '' @ jsonPath (path @ [f]) @
            '' is not a map[string]interface{}'')))"

definition SetNestedField :: "object \<Rightarrow> json \<Rightarrow> string list \<Rightarrow> go_error + object" where
  "SetNestedField obj value fields = set_nested [] obj value fields"

definition SetNestedSlice :: "object \<Rightarrow> json list \<Rightarrow> string list \<Rightarrow> go_error + object" where
  "SetNestedSlice obj value fields = SetNestedField obj (JList value) fields"

definition SetNestedMap :: "object \<Rightarrow> object \<Rightarrow> string list \<Rightarrow> go_error + object" where
  "SetNestedMap obj value fields = SetNestedField obj (JMap value) fields"

text \<open>A write whose error the caller drops.\<close>

definition try_set :: "object \<Rightarrow> json \<Rightarrow> string list \<Rightarrow> object" where
  "try_set obj value fields = (case SetNestedField obj value fields of Inl e \<Rightarrow> obj | Inr o' \<Rightarrow> o')"

fun RemoveNestedField :: "object \<Rightarrow> string list \<Rightarrow> object" where
  "RemoveNestedField m [] = m"
| "RemoveNestedField m [f] = fmdrop f m"
| "RemoveNestedField m (f # g # fs) =
     (case fmlookup m f of
        Some (JMap m') \<Rightarrow> fmupd f (JMap (RemoveNestedField m' (g # fs))) m
      | _ \<Rightarrow> m)"

section \<open>Metadata accessors\<close>

definition getNestedString :: "object \<Rightarrow> string list \<Rightarrow> string" where
  "getNestedString obj fields = (case NestedString obj fields of Inr (Some s) \<Rightarrow> s | _ \<Rightarrow> [])"

definition GetAPIVersion :: "object \<Rightarrow> string" where
  "GetAPIVersion u = getNestedString u [''apiVersion'']"

definition GetKind :: "object \<Rightarrow> string" where
  "GetKind u = getNestedString u [''kind'']"

definition GetName :: "object \<Rightarrow> string" where
  "GetName u = getNestedString u [''metadata'', ''name'']"

definition GetNamespace :: "object \<Rightarrow> string" where
  "GetNamespace u = getNestedString u [''metadata'', ''namespace'']"

text \<open>Setting a string field of the metadata: the empty string removes it.\<close>

definition set_meta_string :: "string \<Rightarrow> object \<Rightarrow> string \<Rightarrow> object" where
  "set_meta_string field u s =
     (if s = [] then RemoveNestedField u [''metadata'', field]
      else try_set u (JStr s) [''metadata'', field])"

definition SetName :: "object \<Rightarrow> string \<Rightarrow> object" where
  "SetName = set_meta_string ''name''"

definition GetResourceVersion :: "object \<Rightarrow> string" where
  "GetResourceVersion u = getNestedString u [''metadata'', ''resourceVersion'']"

definition SetResourceVersion :: "object \<Rightarrow> string \<Rightarrow> object" where
  "SetResourceVersion = set_meta_string ''resourceVersion''"

definition GetUID :: "object \<Rightarrow> string" where
  "GetUID u = getNestedString u [''metadata'', ''uid'']"

definition SetUID :: "object \<Rightarrow> string \<Rightarrow> object" where
  "SetUID = set_meta_string ''uid''"

definition GetGeneration :: "object \<Rightarrow> int" where
  "GetGeneration u = (case NestedInt64 u [''metadata'', ''generation''] of Inr (Some i) \<Rightarrow> i | _ \<Rightarrow> 0)"

definition SetGeneration :: "object \<Rightarrow> int \<Rightarrow> object" where
  "SetGeneration u i =
     (if i = 0 then RemoveNestedField u [''metadata'', ''generation'']
      else try_set u (JInt i) [''metadata'', ''generation''])"

text \<open>Label and annotation maps: \<open>None\<close> is the nil map, which removes the field when set.\<close>

definition get_meta_map :: "string \<Rightarrow> object \<Rightarrow> string gomap" where
  "get_meta_map field u =
     (case NestedStringMap u [''metadata'', field] of Inr (Some m) \<Rightarrow> m | _ \<Rightarrow> fmempty)"

definition set_meta_map :: "string \<Rightarrow> object \<Rightarrow> string gomap option \<Rightarrow> object" where
  "set_meta_map field u mo = (case mo of
      None \<Rightarrow> RemoveNestedField u [''metadata'', field]
    | Some m \<Rightarrow> try_set u (JMap (fmmap JStr m)) [''metadata'', field])"

definition GetLabels :: "object \<Rightarrow> string gomap" where
  "GetLabels = get_meta_map ''labels''"

definition SetLabels :: "object \<Rightarrow> string gomap option \<Rightarrow> object" where
  "SetLabels = set_meta_map ''labels''"

definition GetAnnotations :: "object \<Rightarrow> string gomap" where
  "GetAnnotations = get_meta_map ''annotations''"

definition SetAnnotations :: "object \<Rightarrow> string gomap option \<Rightarrow> object" where
  "SetAnnotations = set_meta_map ''annotations''"

definition GetFinalizers :: "object \<Rightarrow> string list option" where
  "GetFinalizers u = (case NestedStringSlice u [''metadata'', ''finalizers''] of Inr r \<Rightarrow> r | Inl e \<Rightarrow> None)"

definition SetFinalizers :: "object \<Rightarrow> string list option \<Rightarrow> object" where
  "SetFinalizers u fo = (case fo of
      None \<Rightarrow> RemoveNestedField u [''metadata'', ''finalizers'']
    | Some fs \<Rightarrow> try_set u (JList (map JStr fs)) [''metadata'', ''finalizers''])"

text \<open>\<open>schema.ParseGroupVersion\<close>: group and version of an apiVersion.\<close>

definition ParseGroupVersion :: "string \<Rightarrow> go_error + string \<times> string" where
  "ParseGroupVersion gv =
     (if gv = [] \<or> gv = ''/'' then Inr ([], [])
      else case count_list gv (CHR ''/'') of
          0 \<Rightarrow> Inr ([], gv)
        | Suc 0 \<Rightarrow> (let (g, v, f) = Cut gv (CHR ''/'') in Inr (g, v))
        | _ \<Rightarrow> Inl (Errorf (''unexpected GroupVersion string: '' @ gv)))"

text \<open>\<open>GroupVersionKind\<close> as the group and the kind; both empty when the version does not parse.\<close>

definition GroupKind :: "object \<Rightarrow> string \<times> string" where
  "GroupKind u = (case ParseGroupVersion (GetAPIVersion u) of
      Inl e \<Rightarrow> ([], [])
    | Inr (g, v) \<Rightarrow> (g, GetKind u))"


section \<open>The interface of nested fields\<close>

text \<open>
  What the clients of the helpers rely on: a written field is read back, writing or removing a
  field keeps every field on a path that leaves it, writing the value that is there and removing
  a missing field change nothing.
\<close>

locale nested_access =
  fixes get :: "'o \<Rightarrow> 'p \<Rightarrow> 'e + 'v option"
    and put :: "'o \<Rightarrow> 'v \<Rightarrow> 'p \<Rightarrow> 'e + 'o"
    and remove :: "'o \<Rightarrow> 'p \<Rightarrow> 'o"
    and apart :: "'p \<Rightarrow> 'p \<Rightarrow> bool"
    and proper :: "'p \<Rightarrow> bool"
  assumes get_put: "put m v p = Inr m' \<Longrightarrow> get m' p = Inr (Some v)"
    and get_put_apart: "put m v p = Inr m' \<Longrightarrow> apart p q \<Longrightarrow> get m' q = get m q"
    and put_same: "proper p \<Longrightarrow> get m p = Inr (Some v) \<Longrightarrow> put m v p = Inr m"
    and get_remove: "proper p \<Longrightarrow> get m p = Inr x \<Longrightarrow> get (remove m p) p = Inr None"
    and get_remove_apart: "apart p q \<Longrightarrow> get (remove m p) q = get m q"
    and remove_missing: "get m p = Inr None \<Longrightarrow> remove m p = m"
begin

text \<open>A write that may fail, dropping the error.\<close>

definition try_put :: "'o \<Rightarrow> 'v \<Rightarrow> 'p \<Rightarrow> 'o" where
  "try_put m v p = (case put m v p of Inl e \<Rightarrow> m | Inr m' \<Rightarrow> m')"

lemma get_try_put_apart: "apart p q \<Longrightarrow> get (try_put m v p) q = get m q"
  by (auto simp: try_put_def get_put_apart split: sum.splits)

lemma try_put_same: "proper p \<Longrightarrow> get m p = Inr (Some v) \<Longrightarrow> try_put m v p = m"
  by (simp add: try_put_def put_same)

lemma try_put_idem: "proper p \<Longrightarrow> try_put (try_put m v p) v p = try_put m v p"
proof (cases "put m v p")
  case (Inr m')
  assume "proper p"
  with Inr show ?thesis using get_put [OF Inr] by (simp add: try_put_def put_same)
qed (simp add: try_put_def)

lemma remove_idem: "proper p \<Longrightarrow> get m p = Inr x \<Longrightarrow> remove (remove m p) p = remove m p"
  by (rule remove_missing) (rule get_remove)

text \<open>Copying a field from one object to another, removing it when the source has none.\<close>

definition copy_field :: "'o \<Rightarrow> 'o \<Rightarrow> 'p \<Rightarrow> 'e + 'o" where
  "copy_field t s p = (case get s p of
      Inl e \<Rightarrow> Inl e
    | Inr None \<Rightarrow> Inr (remove t p)
    | Inr (Some v) \<Rightarrow> put t v p)"

lemma copy_field_apart: "copy_field t s p = Inr t' \<Longrightarrow> apart p q \<Longrightarrow> get t' q = get t q"
  by (auto simp: copy_field_def get_put_apart get_remove_apart split: sum.splits option.splits)

lemma copy_field_get:
  assumes "copy_field t s p = Inr t'" and "proper p" and "get t p = Inr x"
  shows "get t' p = get s p"
  using assms get_remove [OF assms(2,3)]
  by (auto simp: copy_field_def get_put split: sum.splits option.splits)

lemma copy_field_same: "proper p \<Longrightarrow> get s p = Inr x \<Longrightarrow> get t p = Inr x \<Longrightarrow> copy_field t s p = Inr t"
  by (cases x) (simp_all add: copy_field_def put_same remove_missing)

end

section \<open>The helpers meet the interface\<close>

fun diverge :: "string list \<Rightarrow> string list \<Rightarrow> bool" where
  "diverge (x # xs) (y # ys) = (if x = y then diverge xs ys else True)"
| "diverge _ _ = False"

lemma diverge_sym: "diverge p q \<Longrightarrow> diverge q p"
  by (induction p q rule: diverge.induct) auto

lemma nested_empty: "fs \<noteq> [] \<Longrightarrow> nested_from p (JMap fmempty) fs = Inr None"
  by (cases fs) auto

lemma set_nested_level:
  assumes "set_nested p m v (f # g # fs) = Inr m'"
  obtains m1 m2 where "fmlookup m f = None \<and> m1 = fmempty \<or> fmlookup m f = Some (JMap m1)"
    and "set_nested (p @ [f]) m1 v (g # fs) = Inr m2" and "m' = fmupd f (JMap m2) m"
  using assms by (auto split: option.splits json.splits sum.splits)

lemma nested_set: "set_nested p m v fs = Inr m' \<Longrightarrow> nested_from q (JMap m') fs = Inr (Some v)"
proof (induction fs arbitrary: p m m' q)
  case (Cons f fs)
  show ?case
  proof (cases fs)
    case Nil
    with Cons.prems show ?thesis by auto
  next
    case (Cons g gs)
    from Cons.prems have "set_nested p m v (f # g # gs) = Inr m'" by (simp only: Cons)
    then obtain m1 m2 where "set_nested (p @ [f]) m1 v fs = Inr m2"
      and "m' = fmupd f (JMap m2) m"
      unfolding Cons by (rule set_nested_level)
    with Cons.IH show ?thesis by simp
  qed
qed simp

lemma nested_set_diverge:
  "set_nested p m v fs = Inr m' \<Longrightarrow> diverge fs gs \<Longrightarrow>
   nested_from q (JMap m') gs = nested_from q (JMap m) gs"
proof (induction fs arbitrary: p m m' q gs)
  case (Cons f fs)
  then obtain h hs where gs: "gs = h # hs" by (cases gs) auto
  show ?case
  proof (cases fs)
    case Nil
    with Cons.prems gs show ?thesis by (auto split: if_splits)
  next
    case (Cons g fs')
    from Cons.prems(1) have "set_nested p m v (f # g # fs') = Inr m'" by (simp only: Cons)
    then obtain m1 m2 where
      m1: "fmlookup m f = None \<and> m1 = fmempty \<or> fmlookup m f = Some (JMap m1)"
      and m2: "set_nested (p @ [f]) m1 v fs = Inr m2" and m': "m' = fmupd f (JMap m2) m"
      unfolding Cons by (rule set_nested_level)
    show ?thesis
    proof (cases "h = f")
      case True
      with Cons.prems(2) gs Cons have d: "diverge fs hs" and "hs \<noteq> []" by (cases hs; simp)+
      from Cons.IH [OF m2 d] m1 m' gs True \<open>hs \<noteq> []\<close> show ?thesis
        by (auto simp: nested_empty)
    qed (use m' gs in simp)
  qed
qed simp

lemma fmupd_same: "fmlookup m f = Some v \<Longrightarrow> fmupd f v m = m"
  by (rule fmap_ext) auto

lemma fmdrop_missing: "fmlookup m f = None \<Longrightarrow> fmdrop f m = m"
  by (rule fmap_ext) auto

lemma set_nested_same:
  "fs \<noteq> [] \<Longrightarrow> nested_from q (JMap m) fs = Inr (Some v) \<Longrightarrow> set_nested p m v fs = Inr m"
proof (induction fs arbitrary: p m q)
  case (Cons f fs)
  then obtain w where w: "fmlookup m f = Some w" and n: "nested_from (q @ [f]) w fs = Inr (Some v)"
    by (auto split: option.splits)
  show ?case
  proof (cases fs)
    case Nil
    with w n show ?thesis by (simp add: fmupd_same)
  next
    case (Cons g gs)
    with n obtain m1 where m1: "w = JMap m1" by (auto split: json.splits)
    with Cons.IH [OF _ n [unfolded m1]] Cons w show ?thesis by (simp add: fmupd_same)
  qed
qed simp

lemma nested_remove:
  "fs \<noteq> [] \<Longrightarrow> nested_from q (JMap m) fs = Inr x \<Longrightarrow>
   nested_from q (JMap (RemoveNestedField m fs)) fs = Inr None"
proof (induction m fs arbitrary: q rule: RemoveNestedField.induct)
  case (3 m f g fs)
  show ?case
  proof (cases "fmlookup m f")
    case None
    then show ?thesis by simp
  next
    case (Some w)
    show ?thesis
    proof (cases w)
      case (JMap m1)
      with Some "3.prems" have "nested_from (q @ [f]) (JMap m1) (g # fs) = Inr x" by simp
      with "3.IH" [OF Some JMap] show ?thesis using Some JMap by simp
    qed (use Some "3.prems" in auto)
  qed
qed auto

lemma nested_remove_diverge:
  "diverge fs gs \<Longrightarrow> nested_from q (JMap (RemoveNestedField m fs)) gs = nested_from q (JMap m) gs"
proof (induction m fs arbitrary: q gs rule: RemoveNestedField.induct)
  case (2 m f)
  then show ?case by (cases gs) (auto split: if_splits)
next
  case (3 m f g fs)
  then obtain h hs where gs: "gs = h # hs" by (cases gs) auto
  with 3 show ?case by (cases "h = f") (auto split: option.splits json.splits)
qed simp

lemma remove_nested_missing:
  "nested_from q (JMap m) fs = Inr None \<Longrightarrow> RemoveNestedField m fs = m"
proof (induction m fs arbitrary: q rule: RemoveNestedField.induct)
  case (3 m f g fs)
  show ?case
  proof (cases "\<exists>m1. fmlookup m f = Some (JMap m1)")
    case True
    then obtain m1 where m1: "fmlookup m f = Some (JMap m1)" by blast
    with "3.prems" have "nested_from (q @ [f]) (JMap m1) (g # fs) = Inr None" by simp
    with "3.IH" [OF m1 refl] m1 show ?thesis by (simp add: fmupd_same)
  qed (auto split: option.splits json.splits)
qed (auto split: option.splits simp: fmdrop_missing)

interpretation nf: nested_access NestedField SetNestedField RemoveNestedField diverge "\<lambda>p. p \<noteq> []"
  rewrites "nested_access.try_put SetNestedField = try_set"
proof -
  show na: "nested_access NestedField SetNestedField RemoveNestedField diverge (\<lambda>p. p \<noteq> [])"
    unfolding NestedField_def SetNestedField_def
    by unfold_locales
      (auto intro: nested_set nested_set_diverge set_nested_same nested_remove
        nested_remove_diverge remove_nested_missing)
  show "nested_access.try_put SetNestedField = try_set"
    by (intro ext) (simp add: nested_access.try_put_def [OF na] try_set_def)
qed

lemmas nested_field_laws =
  nf.get_put nf.get_put_apart nf.put_same nf.get_remove nf.get_remove_apart nf.remove_missing
  nf.get_try_put_apart nf.try_put_same nf.try_put_idem


text \<open>Metadata setters touch their field only.\<close>

lemma set_meta_apart:
  assumes "diverge [''metadata'', f] q"
  shows "NestedField (set_meta_map f u l) q = NestedField u q"
    and "NestedField (set_meta_string f u s) q = NestedField u q"
  using assms
  by (auto simp: set_meta_map_def set_meta_string_def nf.get_try_put_apart nf.get_remove_apart
      simp del: RemoveNestedField.simps diverge.simps split: option.split)

text \<open>Label and annotation maps are read back, and writing the map that is there changes nothing.\<close>

lemma as_str_map_JStr: "as_str_map (JMap (fmmap JStr m)) = Some m"
  by (auto simp: as_str_map_def fmap.map_comp o_def fmap.map_ident fmpred_iff)

lemma set_meta_map_same:
  assumes "case mo of None \<Rightarrow> NestedField u [''metadata'', f] = Inr None
    | Some m \<Rightarrow> NestedField u [''metadata'', f] = Inr (Some (JMap (fmmap JStr m)))"
  shows "set_meta_map f u mo = u"
  using assms by (cases mo) (simp_all add: set_meta_map_def nf.remove_missing nf.try_put_same del: RemoveNestedField.simps)

lemma nested_typed_cong: "NestedField u p = NestedField v p \<Longrightarrow> nested_typed c e u p = nested_typed c e v p"
  by (simp add: nested_typed_def)

lemma getNestedString_cong: "NestedField u p = NestedField v p \<Longrightarrow> getNestedString u p = getNestedString v p"
  by (simp add: getNestedString_def NestedString_def nested_typed_def)

lemma kind_of_field: "NestedField u [''kind''] = NestedField v [''kind''] \<Longrightarrow> GetKind u = GetKind v"
  unfolding GetKind_def by (rule getNestedString_cong)

lemma ParseGroupVersion_slash:
  assumes "CHR ''/'' \<notin> set g" and "CHR ''/'' \<notin> set v" and "g \<noteq> []"
  shows "ParseGroupVersion (g @ CHR ''/'' # v) = Inr (g, v)"
proof -
  have "IndexByte (g @ CHR ''/'' # v) (CHR ''/'') = Some (length g)"
    using assms(1) by (auto simp: IndexByte_Some)
  moreover have "count_list (g @ CHR ''/'' # v) (CHR ''/'') = Suc 0"
    using assms(1,2) by (simp add: count_list_0_iff)
  ultimately show ?thesis using assms(3) by (cases g) (auto simp: ParseGroupVersion_def Cut_def)
qed

end
