(* ===== verification/Api_Types.thy ===== *)
theory Api_Types
  imports Unstructured
begin

text \<open>
  The data the operator works on: the \<open>OCIClusterAutoscaler\<close> resource of \<open>api/v1alpha1\<close>, the typed
  Kubernetes and provider objects it reads and writes (the fields the operator sets or reads), and
  the requests it sends to services outside the repository. The API server, Helm and the clock are
  one parameter \<open>'w server\<close> over an arbitrary world \<open>'w\<close>; every request and its answer is kept in a
  log, so that statements about what the operator does, and in which order, are statements about
  the log and hold for every server.
\<close>

section \<open>Object metadata\<close>

record OwnerReference =
  owr_APIVersion :: string
  owr_Kind :: string
  owr_Name :: string
  owr_UID :: string
  owr_Controller :: "bool option"
  owr_BlockOwnerDeletion :: "bool option"

record objmeta =
  md_Name :: string
  md_Namespace :: string
  md_Labels :: "string gomap"
  md_Annotations :: "string gomap"
  md_OwnerReferences :: "OwnerReference list"
  md_Generation :: int
  md_Finalizers :: "string list"
  md_CreationTimestamp :: time
  md_DeletionTimestamp :: "time option"

definition new_meta :: "string \<Rightarrow> string \<Rightarrow> objmeta" where
  "new_meta namespace name =
     \<lparr>md_Name = name, md_Namespace = namespace, md_Labels = fmempty, md_Annotations = fmempty,
      md_OwnerReferences = [], md_Generation = 0, md_Finalizers = [], md_CreationTimestamp = 0, md_DeletionTimestamp = None\<rparr>"

record nsname =
  nn_Namespace :: string
  nn_Name :: string

section \<open>The OCIClusterAutoscaler resource\<close>

record ShapeConfig =
  sc_CPUs :: "int32 option"
  sc_Memory :: "int32 option"

record AutoscalingConfig =
  as_MinNodes :: "int32 option"
  as_MaxNodes :: "int32 option"
  as_Shape :: string
  as_ShapeConfig :: "ShapeConfig option"
  as_ImageID :: string
  as_PoolIdentifier :: string
  as_EnableRDMA :: bool
  as_RDMAComputeClusterID :: string
  as_RDMAFailureDomain :: string

record CAPIConfig =
  capi_ClusterName :: string

record ClusterAutoscalerConfig =
  ca_RepositoryURL :: string
  ca_Name :: string
  ca_ServiceAccountName :: string
  ca_CloudProvider :: string
  ca_CreateRBAC :: "bool option"
  ca_CreateServiceAccount :: "bool option"
  ca_Version :: string

record OCIClusterAutoscalerSpec =
  spec_Autoscaling :: AutoscalingConfig
  spec_CAPI :: CAPIConfig
  spec_ClusterAutoscaler :: ClusterAutoscalerConfig

datatype condition_status = ConditionTrue | ConditionFalse | ConditionUnknown

record Condition =
  cond_Type :: string
  cond_Status :: condition_status
  cond_ObservedGeneration :: int
  cond_LastTransitionTime :: time
  cond_Reason :: string
  cond_Message :: string

record OCIClusterAutoscalerStatus =
  st_Conditions :: "Condition list"
  st_Phase :: string
  st_CAPIInstalled :: bool
  st_ClusterAutoscalerDeployed :: bool
  st_ObservedGeneration :: int

record OCIClusterAutoscaler =
  oca_meta :: objmeta
  oca_Spec :: OCIClusterAutoscalerSpec
  oca_Status :: OCIClusterAutoscalerStatus

definition ConditionReady :: string where [go_const]: "ConditionReady = ''Ready''"
definition ConditionPolicyAccepted :: string where [go_const]: "ConditionPolicyAccepted = ''PolicyAccepted''"
definition ConditionProvidersReady :: string where [go_const]: "ConditionProvidersReady = ''ProvidersReady''"
definition ConditionAutoscalerReady :: string where [go_const]: "ConditionAutoscalerReady = ''AutoscalerReady''"
definition ConditionScalingResourcesReady :: string where
  [go_const]: "ConditionScalingResourcesReady = ''ScalingResourcesReady''"
definition ConditionCleanupSucceeded :: string where
  [go_const]: "ConditionCleanupSucceeded = ''CleanupSucceeded''"

text \<open>Names of the object and shorthands for the nested fields the controllers touch.\<close>

definition oca_Name :: "OCIClusterAutoscaler \<Rightarrow> string" where
  "oca_Name i = md_Name (oca_meta i)"

definition oca_Namespace :: "OCIClusterAutoscaler \<Rightarrow> string" where
  "oca_Namespace i = md_Namespace (oca_meta i)"

definition oca_key :: "OCIClusterAutoscaler \<Rightarrow> nsname" where
  "oca_key i = \<lparr>nn_Namespace = oca_Namespace i, nn_Name = oca_Name i\<rparr>"

abbreviation oca_Generation :: "OCIClusterAutoscaler \<Rightarrow> int" where
  "oca_Generation i \<equiv> md_Generation (oca_meta i)"

abbreviation oca_Conditions :: "OCIClusterAutoscaler \<Rightarrow> Condition list" where
  "oca_Conditions i \<equiv> st_Conditions (oca_Status i)"

abbreviation oca_Phase :: "OCIClusterAutoscaler \<Rightarrow> string" where
  "oca_Phase i \<equiv> st_Phase (oca_Status i)"

definition set_Phase :: "string \<Rightarrow> OCIClusterAutoscaler \<Rightarrow> OCIClusterAutoscaler" where
  "set_Phase p i = i\<lparr>oca_Status := (oca_Status i)\<lparr>st_Phase := p\<rparr>\<rparr>"

definition set_ObservedGeneration :: "OCIClusterAutoscaler \<Rightarrow> OCIClusterAutoscaler" where
  "set_ObservedGeneration i =
     i\<lparr>oca_Status := (oca_Status i)\<lparr>st_ObservedGeneration := oca_Generation i\<rparr>\<rparr>"

definition set_CAPIInstalled :: "bool \<Rightarrow> OCIClusterAutoscaler \<Rightarrow> OCIClusterAutoscaler" where
  "set_CAPIInstalled b i = i\<lparr>oca_Status := (oca_Status i)\<lparr>st_CAPIInstalled := b\<rparr>\<rparr>"

definition set_Deployed :: "bool \<Rightarrow> OCIClusterAutoscaler \<Rightarrow> OCIClusterAutoscaler" where
  "set_Deployed b i = i\<lparr>oca_Status := (oca_Status i)\<lparr>st_ClusterAutoscalerDeployed := b\<rparr>\<rparr>"

definition set_Conditions :: "Condition list \<Rightarrow> OCIClusterAutoscaler \<Rightarrow> OCIClusterAutoscaler" where
  "set_Conditions cs i = i\<lparr>oca_Status := (oca_Status i)\<lparr>st_Conditions := cs\<rparr>\<rparr>"

definition set_Finalizers :: "string list \<Rightarrow> OCIClusterAutoscaler \<Rightarrow> OCIClusterAutoscaler" where
  "set_Finalizers fs i = i\<lparr>oca_meta := (oca_meta i)\<lparr>md_Finalizers := fs\<rparr>\<rparr>"

lemmas status_setters =
  set_Phase_def set_ObservedGeneration_def set_CAPIInstalled_def set_Deployed_def set_Conditions_def

lemma condition_types_distinct [simp]:
  "distinct [ConditionReady, ConditionPolicyAccepted, ConditionProvidersReady,
     ConditionAutoscalerReady, ConditionScalingResourcesReady, ConditionCleanupSucceeded]"
  by (simp add: go_const)

lemma condition_types_neq [simp]:
  "ConditionReady \<noteq> ConditionPolicyAccepted" "ConditionPolicyAccepted \<noteq> ConditionReady"
  "ConditionReady \<noteq> ConditionProvidersReady" "ConditionProvidersReady \<noteq> ConditionReady"
  "ConditionReady \<noteq> ConditionAutoscalerReady" "ConditionAutoscalerReady \<noteq> ConditionReady"
  "ConditionReady \<noteq> ConditionScalingResourcesReady" "ConditionScalingResourcesReady \<noteq> ConditionReady"
  "ConditionReady \<noteq> ConditionCleanupSucceeded" "ConditionCleanupSucceeded \<noteq> ConditionReady"
  "ConditionPolicyAccepted \<noteq> ConditionProvidersReady" "ConditionProvidersReady \<noteq> ConditionPolicyAccepted"
  "ConditionPolicyAccepted \<noteq> ConditionAutoscalerReady" "ConditionAutoscalerReady \<noteq> ConditionPolicyAccepted"
  "ConditionPolicyAccepted \<noteq> ConditionScalingResourcesReady"
  "ConditionScalingResourcesReady \<noteq> ConditionPolicyAccepted"
  "ConditionProvidersReady \<noteq> ConditionAutoscalerReady" "ConditionAutoscalerReady \<noteq> ConditionProvidersReady"
  "ConditionProvidersReady \<noteq> ConditionScalingResourcesReady"
  "ConditionScalingResourcesReady \<noteq> ConditionProvidersReady"
  "ConditionAutoscalerReady \<noteq> ConditionScalingResourcesReady"
  "ConditionScalingResourcesReady \<noteq> ConditionAutoscalerReady"
  by (simp_all add: go_const)

section \<open>Typed objects\<close>

record DeploymentCondition =
  dc_Type :: string
  dc_Status :: condition_status
  dc_Reason :: string
  dc_Message :: string

record Deployment =
  dep_meta :: objmeta
  dep_Conditions :: "DeploymentCondition list"

datatype address_type = NodeHostName | NodeInternalIP | NodeExternalIP | NodeInternalDNS | NodeExternalDNS

record Node =
  node_Name :: string
  node_Addresses :: "(address_type \<times> string) list"

datatype csr_condition_type = CertificateApproved | CertificateDenied | CertificateFailed

record csr_condition =
  cc_Type :: csr_condition_type
  cc_Status :: condition_status
  cc_Reason :: string
  cc_Message :: string

record CSR =
  csr_Name :: string
  csr_SignerName :: string
  csr_Username :: string
  csr_Groups :: "string list"
  csr_Request :: string
  csr_Conditions :: "csr_condition list"

record Secret =
  sec_meta :: objmeta
  sec_Data :: "string gomap"

record ConfigMap =
  cm_meta :: objmeta
  cm_Data :: "string gomap"

record Infrastructure =
  infra_InfrastructureName :: string
  infra_APIServerInternalURL :: string

record Network =
  net_SpecClusterNetwork :: "string list"
  net_StatusClusterNetwork :: "string list"
  net_SpecServiceNetwork :: "string list"
  net_StatusServiceNetwork :: "string list"

record SecurityContextConstraints =
  scc_meta :: objmeta
  scc_RunAsUser :: string
  scc_SELinuxContext :: string
  scc_FSGroup :: string
  scc_SupplementalGroups :: string
  scc_AllowPrivilegedContainer :: bool
  scc_AllowHostDirVolumePlugin :: bool
  scc_AllowHostNetwork :: bool
  scc_AllowHostPorts :: bool
  scc_AllowHostPID :: bool
  scc_AllowHostIPC :: bool
  scc_AllowPrivilegeEscalation :: "bool option"
  scc_DefaultAllowPrivilegeEscalation :: "bool option"
  scc_DefaultAddCapabilities :: "string list"
  scc_AllowedCapabilities :: "string list"
  scc_RequiredDropCapabilities :: "string list"
  scc_Volumes :: "string list"
  scc_SeccompProfiles :: "string list"
  scc_Users :: "string list"

record PolicyRule =
  pr_APIGroups :: "string list"
  pr_Resources :: "string list"
  pr_Verbs :: "string list"

record ClusterRole =
  cr_meta :: objmeta
  cr_Rules :: "PolicyRule list"

record ClusterRoleBinding =
  crb_meta :: objmeta
  crb_RoleRef :: "string \<times> string \<times> string"
  crb_Subjects :: "(string \<times> string \<times> string) list"

record oci_subnet =
  sub_ID :: string
  sub_Name :: string
  sub_Role :: string

record object_ref =
  ref_APIVersion :: string
  ref_Kind :: string
  ref_Name :: string
  ref_Namespace :: string

record OCIClusterSpec =
  oc_OCIResourceIdentifier :: string
  oc_IdentityRef :: "object_ref option"
  oc_CompartmentId :: string
  oc_EndpointHost :: string
  oc_EndpointPort :: int
  oc_LoadBalancerId :: string
  oc_SkipNetworkManagement :: bool
  oc_VcnID :: string
  oc_Subnets :: "oci_subnet list"
  oc_NSGs :: "oci_subnet list"

record OCICluster =
  oc_meta :: objmeta
  oc_Spec :: OCIClusterSpec

record OCIClusterIdentity =
  oci_meta :: objmeta
  oci_Type :: string
  oci_AllowedNamespaces :: "string list"

record VnicAttachment =
  va_SubnetName :: string
  va_AssignPublicIp :: bool
  va_DisplayName :: string
  va_NicIndex :: "int option"

record OCIMachineSpec =
  ms_ImageId :: string
  ms_Shape :: string
  ms_Ocpus :: string
  ms_MemoryInGBs :: string
  ms_IsPvEncryptionInTransitEnabled :: bool
  ms_SubnetName :: string
  ms_AssignPrivateDnsRecord :: "bool option"
  ms_FreeformTags :: "string gomap"
  ms_DefinedTags :: "string gomap gomap"
  ms_BootVolumeType :: "string option"
  ms_VnicAttachments :: "VnicAttachment list"
  ms_ComputeClusterId :: "string option"
  ms_AgentPlugins :: "(string \<times> string) list option"

record OCIMachineTemplate =
  mt_meta :: objmeta
  mt_Spec :: OCIMachineSpec

text \<open>A value of the interface \<open>client.Object\<close>.\<close>

datatype kobj =
    OAutoscaler OCIClusterAutoscaler
  | ODeployment Deployment
  | ONode Node
  | OCSR CSR
  | OSecret Secret
  | OConfigMap ConfigMap
  | ONamespace objmeta
  | OInfrastructure Infrastructure
  | ONetwork Network
  | OSCC SecurityContextConstraints
  | OClusterRole ClusterRole
  | OClusterRoleBinding ClusterRoleBinding
  | OOCICluster OCICluster
  | OOCIClusterIdentity OCIClusterIdentity
  | OOCIMachineTemplate OCIMachineTemplate
  | OOCIMachine objmeta
  | OUnstructured object

section \<open>Requests to the outside\<close>

text \<open>Requests name the kind they ask for as \<open>apiVersion/Kind\<close>.\<close>

record helm_chart_spec =
  hc_ReleaseName :: string
  hc_ChartName :: string
  hc_Namespace :: string
  hc_ValuesYaml :: string
  hc_Version :: string
  hc_Labels :: "string gomap"

datatype helm_request =
    HelmNewClient string
  | HelmGetChart string
  | HelmAddRepo string string
  | HelmGetRelease string
  | HelmGetReleaseValues string
  | HelmInstall helm_chart_spec
  | HelmUpgrade helm_chart_spec
  | HelmUninstall helm_chart_spec

datatype request =
    ReqGet string nsname
  | ReqList string string "string gomap"
  | ReqCreate kobj
  | ReqUpdate kobj
  | ReqStatusUpdate kobj
  | ReqPatch kobj kobj
  | ReqStatusPatch kobj kobj
  | ReqDelete kobj
  | ReqToken nsname "string list" int
  | ReqUpdateApproval CSR
  | ReqHelm helm_request

text \<open>
  Answers: an error, an object (the stored one, for a write), a list, plain success, a token, and
  Helm's: a release with the chart version if it has one, release values, whether a chart is there.
\<close>

datatype response =
    RespErr go_error
  | RespObj kobj
  | RespList "kobj list"
  | RespOk
  | RespToken string
  | RespChart bool
  | RespRelease "string option option"
  | RespValues object

record 'w server =
  srv_handle :: "request \<Rightarrow> 'w \<Rightarrow> response \<times> 'w"
  srv_now :: "'w \<Rightarrow> time"

record event =
  ev_Type :: string
  ev_Reason :: string
  ev_Message :: string

record 'w io =
  io_world :: 'w
  io_log :: "(request \<times> response) list"
  io_events :: "event list"

definition call :: "'w server \<Rightarrow> request \<Rightarrow> 'w io \<Rightarrow> response \<times> 'w io" where
  "call srv req io = (let (r, w) = srv_handle srv req (io_world io) in
     (r, io\<lparr>io_world := w, io_log := io_log io @ [(req, r)]\<rparr>))"

text \<open>An answer of a kind the request cannot have is a decoding error of the client.\<close>

definition decode_error :: go_error where
  "decode_error = Errorf ''unexpected response''"

definition expect :: "(response \<Rightarrow> 'a option) \<Rightarrow> response \<Rightarrow> go_error + 'a" where
  "expect f r = (case r of
      RespErr e \<Rightarrow> Inl e
    | _ \<Rightarrow> (case f r of None \<Rightarrow> Inl decode_error | Some a \<Rightarrow> Inr a))"

fun resp_unit :: "response \<Rightarrow> unit option" where
  "resp_unit r = Some ()"

fun resp_autoscaler :: "response \<Rightarrow> OCIClusterAutoscaler option" where
  "resp_autoscaler (RespObj (OAutoscaler a)) = Some a"
| "resp_autoscaler _ = None"

fun resp_deployment :: "response \<Rightarrow> Deployment option" where
  "resp_deployment (RespObj (ODeployment d)) = Some d"
| "resp_deployment _ = None"

fun resp_node :: "response \<Rightarrow> Node option" where
  "resp_node (RespObj (ONode n)) = Some n"
| "resp_node _ = None"

fun resp_csr :: "response \<Rightarrow> CSR option" where
  "resp_csr (RespObj (OCSR c)) = Some c"
| "resp_csr _ = None"

fun resp_secret :: "response \<Rightarrow> Secret option" where
  "resp_secret (RespObj (OSecret x)) = Some x"
| "resp_secret _ = None"

fun resp_configmap :: "response \<Rightarrow> ConfigMap option" where
  "resp_configmap (RespObj (OConfigMap x)) = Some x"
| "resp_configmap _ = None"

fun resp_network :: "response \<Rightarrow> Network option" where
  "resp_network (RespObj (ONetwork x)) = Some x"
| "resp_network _ = None"

fun resp_object :: "response \<Rightarrow> kobj option" where
  "resp_object (RespObj x) = Some x"
| "resp_object _ = None"

fun resp_unstructured :: "response \<Rightarrow> object option" where
  "resp_unstructured (RespObj (OUnstructured x)) = Some x"
| "resp_unstructured _ = None"

fun kobj_autoscaler :: "kobj \<Rightarrow> OCIClusterAutoscaler option" where
  "kobj_autoscaler (OAutoscaler a) = Some a"
| "kobj_autoscaler _ = None"

fun kobj_machine :: "kobj \<Rightarrow> objmeta option" where
  "kobj_machine (OOCIMachine a) = Some a"
| "kobj_machine _ = None"

fun kobj_infrastructure :: "kobj \<Rightarrow> Infrastructure option" where
  "kobj_infrastructure (OInfrastructure a) = Some a"
| "kobj_infrastructure _ = None"

text \<open>The items of a list answer, all of the asked kind.\<close>

definition resp_items :: "(kobj \<Rightarrow> 'a option) \<Rightarrow> response \<Rightarrow> 'a list option" where
  "resp_items f r = (case r of
      RespList xs \<Rightarrow> (if list_all (\<lambda>x. f x \<noteq> None) xs then Some (map (\<lambda>x. the (f x)) xs) else None)
    | _ \<Rightarrow> None)"

definition request_as :: "'w server \<Rightarrow> (response \<Rightarrow> 'a option) \<Rightarrow> request \<Rightarrow> 'w io \<Rightarrow> (go_error + 'a) \<times> 'w io" where
  "request_as srv f req io = (let (r, io') = call srv req io in (expect f r, io'))"


section \<open>A sample resource and a quiet server\<close>

text \<open>A minimal resource and a server that answers every request with the same reply, for the witnesses.\<close>

definition sample_autoscaler :: "string \<Rightarrow> string \<Rightarrow> time \<Rightarrow> Condition list \<Rightarrow> OCIClusterAutoscaler" where
  "sample_autoscaler namespace name created conds =
     \<lparr>oca_meta = (new_meta namespace name)\<lparr>md_CreationTimestamp := created, md_Generation := 1\<rparr>,
      oca_Spec = \<lparr>spec_Autoscaling = \<lparr>as_MinNodes = None, as_MaxNodes = None, as_Shape = [],
          as_ShapeConfig = None, as_ImageID = [], as_PoolIdentifier = [], as_EnableRDMA = False,
          as_RDMAComputeClusterID = [], as_RDMAFailureDomain = []\<rparr>,
        spec_CAPI = \<lparr>capi_ClusterName = []\<rparr>,
        spec_ClusterAutoscaler = \<lparr>ca_RepositoryURL = [], ca_Name = [], ca_ServiceAccountName = [],
          ca_CloudProvider = [], ca_CreateRBAC = None, ca_CreateServiceAccount = None, ca_Version = []\<rparr>\<rparr>,
      oca_Status = \<lparr>st_Conditions = conds, st_Phase = [], st_CAPIInstalled = False,
        st_ClusterAutoscalerDeployed = False, st_ObservedGeneration = 0\<rparr>\<rparr>"

definition sample_condition :: "string \<Rightarrow> condition_status \<Rightarrow> Condition" where
  "sample_condition t st = \<lparr>cond_Type = t, cond_Status = st, cond_ObservedGeneration = 1,
     cond_LastTransitionTime = 5, cond_Reason = ''R'', cond_Message = ''M''\<rparr>"

definition const_server :: "response \<Rightarrow> unit server" where
  "const_server r = \<lparr>srv_handle = (\<lambda>req w. (r, w)), srv_now = (\<lambda>w. 0)\<rparr>"

definition start_io :: "'w \<Rightarrow> 'w io" where
  "start_io w = \<lparr>io_world = w, io_log = [], io_events = []\<rparr>"

lemmas sample_defs = sample_autoscaler_def sample_condition_def const_server_def start_io_def new_meta_def

end
