(* ===== verification/Trace.thy ===== *)
theory Trace
  imports Api_Types
begin

text \<open>
  The request log as a specification device: \<open>emits P io io'\<close> says that going from \<open>io\<close> to \<open>io'\<close>
  only appended exchanges that satisfy \<open>P\<close>. An operation that always does so is a \<open>requester\<close>;
  the loop lemmas are proved once for every requester.
\<close>

definition emits :: "(request \<times> response \<Rightarrow> bool) \<Rightarrow> 'w io \<Rightarrow> 'w io \<Rightarrow> bool" where
  "emits P io io' \<longleftrightarrow> (\<exists>new. io_log io' = io_log io @ new \<and> list_all P new)"

text \<open>The exchanges appended between two states.\<close>

definition sent :: "'w io \<Rightarrow> 'w io \<Rightarrow> (request \<times> response) list" where
  "sent io io' = drop (length (io_log io)) (io_log io')"

fun read_only :: "request \<Rightarrow> bool" where
  "read_only (ReqGet k n) = True"
| "read_only (ReqList k n l) = True"
| "read_only _ = False"

lemma emits_refl [simp, emits_intro]: "emits P io io"
  by (simp add: emits_def)

lemma emits_trans: "emits P io io' \<Longrightarrow> emits P io' io'' \<Longrightarrow> emits P io io''"
  by (auto simp: emits_def)

lemma emits_mono: "emits P io io' \<Longrightarrow> (\<And>x. P x \<Longrightarrow> Q x) \<Longrightarrow> emits Q io io'"
  by (fastforce simp: emits_def list_all_iff)

lemma emits_same_log: "io_log io' = io_log io \<Longrightarrow> emits P io io'"
  by (simp add: emits_def)

lemma emits_sent: "emits P io io' \<Longrightarrow> x \<in> set (sent io io') \<Longrightarrow> P x"
  by (auto simp: emits_def sent_def list_all_iff)

lemma emits_log_in: "emits P io io' \<Longrightarrow> x \<in> set (io_log io') \<Longrightarrow> x \<notin> set (io_log io) \<Longrightarrow> P x"
  by (auto simp: emits_def list_all_iff)

lemma emits_eventless [simp]: "emits P io (io'\<lparr>io_events := es\<rparr>) = emits P io io'"
  by (simp add: emits_def)

lemma emits_call:
  assumes "call srv req io = (r, io')" and "P (req, r)"
  shows "emits P io io'"
  using assms by (auto simp: call_def emits_def split: prod.splits)

lemma emits_request_as:
  assumes "request_as srv f req io = (x, io')" and "\<And>r. P (req, r)"
  shows "emits P io io'"
  using assms by (auto simp: request_as_def split: prod.splits intro: emits_call)

lemma call_log: "call srv req io = (r, io') \<Longrightarrow> io_log io' = io_log io @ [(req, r)]"
  by (auto simp: call_def split: prod.splits)

lemma request_as_log:
  "request_as srv f req io = (x, io') \<Longrightarrow> \<exists>r. io_log io' = io_log io @ [(req, r)] \<and> x = expect f r"
  by (auto simp: request_as_def dest: call_log split: prod.splits)

lemma call_events: "call srv req io = (r, io') \<Longrightarrow> io_events io' = io_events io"
  by (auto simp: call_def split: prod.splits)

lemma expect_Inr: "expect f r = Inr a \<longleftrightarrow> (f r = Some a \<and> (\<forall>e. r \<noteq> RespErr e))"
  by (auto simp: expect_def split: response.splits option.splits)

lemma expect_unit_Inl: "expect resp_unit a = Inl e \<longleftrightarrow> a = RespErr e"
  by (cases a) (auto simp: expect_def)

section \<open>Operations that only send permitted requests\<close>

text \<open>Two loops of the source: over every element, and until a result says stop.\<close>

fun run_all :: "('x \<Rightarrow> 'w io \<Rightarrow> 'a \<times> 'w io) \<Rightarrow> 'x list \<Rightarrow> 'w io \<Rightarrow> 'a list \<times> 'w io" where
  "run_all act [] io = ([], io)"
| "run_all act (x # xs) io =
     (let (a, io1) = act x io; (as, io2) = run_all act xs io1 in (a # as, io2))"

fun run_until ::
    "('x \<Rightarrow> 'w io \<Rightarrow> 'a \<times> 'w io) \<Rightarrow> ('a \<Rightarrow> bool) \<Rightarrow> 'x list \<Rightarrow> 'w io \<Rightarrow> 'a option \<times> 'w io" where
  "run_until act stop [] io = (None, io)"
| "run_until act stop (x # xs) io =
     (let (a, io1) = act x io in if stop a then (Some a, io1) else run_until act stop xs io1)"

lemma run_all_length: "run_all act xs io = (as, io') \<Longrightarrow> length as = length xs"
  by (induction xs arbitrary: io as) (auto split: prod.splits)

lemma run_until_stops: "run_until act stop xs io = (Some a, io') \<Longrightarrow> stop a"
  by (induction xs arbitrary: io) (auto split: prod.splits if_splits)

locale requester =
  fixes act :: "'x \<Rightarrow> 'w io \<Rightarrow> 'a \<times> 'w io"
    and valid :: "'x \<Rightarrow> bool"
    and permitted :: "request \<times> response \<Rightarrow> bool"
  assumes act_emits: "valid x \<Longrightarrow> act x io = (a, io') \<Longrightarrow> emits permitted io io'"
begin

lemma run_all_emits: "list_all valid xs \<Longrightarrow> run_all act xs io = (as, io') \<Longrightarrow> emits permitted io io'"
  by (induction xs arbitrary: io as) (auto split: prod.splits intro: emits_trans dest: act_emits)

lemma run_until_emits: "list_all valid xs \<Longrightarrow> run_until act stop xs io = (r, io') \<Longrightarrow> emits permitted io io'"
  by (induction xs arbitrary: io) (auto split: prod.splits if_splits intro: emits_trans dest: act_emits)

text \<open>Every element is acted on: some state of the run is the one its action started from.\<close>

lemma run_all_visits:
  assumes "list_all valid xs" and "run_all act xs io = (as, io')" and "i < length xs"
  obtains io1 io2 where "emits permitted io io1" and "act (xs ! i) io1 = (as ! i, io2)" and "emits permitted io2 io'"
  using assms
proof (induction xs arbitrary: io as i thesis)
  case (Cons x xs)
  obtain a io1 where a: "act x io = (a, io1)" by (cases "act x io")
  with Cons.prems(3) obtain bs where b: "run_all act xs io1 = (bs, io')" and as: "as = a # bs"
    by (auto split: prod.splits)
  from Cons.prems(2) have v: "valid x" "list_all valid xs" by simp_all
  show ?case
  proof (cases i)
    case 0
    with a as v b run_all_emits show ?thesis by (intro Cons.prems(1) [of io io1]) auto
  next
    case (Suc j)
    with Cons.prems(4) have "j < length xs" by simp
    from Cons.IH [OF _ v(2) b this] obtain io2 io3 where
      "emits permitted io1 io2" "act (xs ! j) io2 = (bs ! j, io3)" "emits permitted io3 io'" by blast
    with a as Suc v show ?thesis
      by (intro Cons.prems(1) [of io2 io3]) (auto intro: emits_trans act_emits)
  qed
qed simp

end

end
