(* ===== verification/KubeApi.thy ===== *)
theory KubeApi
  imports Trace
begin

text \<open>
  Helpers over the cluster's API (\<open>internal/utils/kubeapi.go\<close>): labels the operator owns, annotations
  for certificates, discovery of cluster facts, and the log-safe renderings of
  \<open>internal/logging/redact.go\<close>.
\<close>

section \<open>Labels\<close>

definition CertManagerCAInjectAnnotation :: string where
  [go_const]: "CertManagerCAInjectAnnotation = ''cert-manager.io/inject-ca-from''"
definition OpenshiftCABundleAnnotation :: string where
  [go_const]: "OpenshiftCABundleAnnotation = ''service.beta.openshift.io/inject-cabundle''"
definition OpenshiftServiceCertAnnotation :: string where
  [go_const]: "OpenshiftServiceCertAnnotation = ''service.beta.openshift.io/serving-cert-secret-name''"
definition ManagedByLabel :: string where [go_const]: "ManagedByLabel = ''capi.openshift.io/managed-by''"
definition ComponentLabel :: string where [go_const]: "ComponentLabel = ''capi.openshift.io/component''"
definition SubcomponentLabel :: string where [go_const]: "SubcomponentLabel = ''capi.openshift.io/subcomponent''"
definition AppNameLabel :: string where [go_const]: "AppNameLabel = ''app.kubernetes.io/name''"
definition AppInstanceLabel :: string where [go_const]: "AppInstanceLabel = ''app.kubernetes.io/instance''"
definition AppComponentLabel :: string where [go_const]: "AppComponentLabel = ''app.kubernetes.io/component''"
definition AppPartOfLabel :: string where [go_const]: "AppPartOfLabel = ''app.kubernetes.io/part-of''"
definition AppManagedByLabel :: string where [go_const]: "AppManagedByLabel = ''app.kubernetes.io/managed-by''"
definition AppName :: string where [go_const]: "AppName = ''oci-capi-autoscaling-operator''"
definition ProviderLabel :: string where [go_const]: "ProviderLabel = ''cluster.x-k8s.io/provider''"

definition OCIInstanceManagedByTag :: string where
  [go_const]: "OCIInstanceManagedByTag = ''oci-capi-operator-managed-by''"
definition OCIInstanceAutoscalerNamespaceTag :: string where
  [go_const]: "OCIInstanceAutoscalerNamespaceTag = ''oci-capi-operator-autoscaler-namespace''"
definition OCIInstanceAutoscalerClusterNameTag :: string where
  [go_const]: "OCIInstanceAutoscalerClusterNameTag = ''oci-capi-operator-cluster-name''"
definition OCIInstanceAutoscalerPoolTag :: string where
  [go_const]: "OCIInstanceAutoscalerPoolTag = ''oci-capi-operator-pool-identifier''"

definition GetDefaultLabels :: "string \<Rightarrow> string gomap" where
  "GetDefaultLabels instanceName = fmap_of_list
     [(ProviderLabel, ''cluster-api''), (ManagedByLabel, instanceName), (AppNameLabel, AppName),
      (AppInstanceLabel, instanceName), (AppPartOfLabel, AppName), (AppManagedByLabel, AppName)]"

definition GetComponentLabels :: "string \<Rightarrow> string \<Rightarrow> string \<Rightarrow> string gomap" where
  "GetComponentLabels instanceName componentName subcomponentName =
     (let labels = GetDefaultLabels instanceName;
          labels = (if componentName \<noteq> []
            then fmupd AppComponentLabel componentName (fmupd ComponentLabel componentName labels) else labels)
      in if subcomponentName \<noteq> [] then fmupd SubcomponentLabel subcomponentName labels else labels)"

definition isOperatorOwnedLabel :: "string \<Rightarrow> bool" where
  "isOperatorOwnedLabel key \<longleftrightarrow> key \<in> set
     [ManagedByLabel, ComponentLabel, SubcomponentLabel, AppNameLabel, AppInstanceLabel,
      AppComponentLabel, AppPartOfLabel, AppManagedByLabel]"

text \<open>Reading a missing key of a Go map of strings gives the empty string.\<close>

definition get_or_empty :: "string gomap \<Rightarrow> string \<Rightarrow> string" where
  "get_or_empty m k = (case fmlookup m k of None \<Rightarrow> [] | Some v \<Rightarrow> v)"

definition mergeManagedLabels :: "string gomap \<Rightarrow> string gomap \<Rightarrow> string gomap" where
  "mergeManagedLabels existing managed =
     existing ++\<^sub>f fmfilter (\<lambda>k. isOperatorOwnedLabel k \<or> get_or_empty existing k = []) managed"

text \<open>
  The two setters on the metadata of a typed object and on an untyped one; their nil check never
  fires, since every caller passes the address of an object.
\<close>

definition SetDefaultLabels :: "string \<Rightarrow> objmeta \<Rightarrow> objmeta" where
  "SetDefaultLabels instanceName m =
     m\<lparr>md_Labels := mergeManagedLabels (md_Labels m) (GetDefaultLabels instanceName)\<rparr>"

definition SetComponentLabels :: "string \<Rightarrow> string \<Rightarrow> string \<Rightarrow> objmeta \<Rightarrow> objmeta" where
  "SetComponentLabels instanceName componentName subcomponentName m =
     m\<lparr>md_Labels := mergeManagedLabels (md_Labels m)
       (GetComponentLabels instanceName componentName subcomponentName)\<rparr>"

definition SetDefaultLabels_u :: "string \<Rightarrow> object \<Rightarrow> object" where
  "SetDefaultLabels_u instanceName u =
     SetLabels u (Some (mergeManagedLabels (GetLabels u) (GetDefaultLabels instanceName)))"

definition SetComponentLabels_u :: "string \<Rightarrow> string \<Rightarrow> string \<Rightarrow> object \<Rightarrow> object" where
  "SetComponentLabels_u instanceName componentName subcomponentName u =
     SetLabels u (Some (mergeManagedLabels (GetLabels u)
       (GetComponentLabels instanceName componentName subcomponentName)))"

section \<open>Annotations and certificates\<close>

definition SetOpenshiftServiceCertAnnotation :: "object \<Rightarrow> string \<Rightarrow> object" where
  "SetOpenshiftServiceCertAnnotation obj name =
     (if GetName obj \<noteq> name then obj
      else SetAnnotations obj (Some (fmdrop CertManagerCAInjectAnnotation
        (fmupd OpenshiftServiceCertAnnotation name fmempty ++\<^sub>f GetAnnotations obj))))"

definition SetOpenshiftCABundleAnnotation :: "object \<Rightarrow> object" where
  "SetOpenshiftCABundleAnnotation obj =
     SetAnnotations obj (Some (fmdrop CertManagerCAInjectAnnotation
       (fmupd OpenshiftCABundleAnnotation ''true'' fmempty ++\<^sub>f GetAnnotations obj)))"

text \<open>
  A typed deployment as far as certificates go: its volumes (a name and a source) and the rest. The
  scheme's conversions between untyped and typed objects are a parameter.
\<close>

datatype volume_source = SecretVolume string | OtherVolume json

record volume =
  vol_Name :: string
  vol_Source :: volume_source

record 'r typed_deployment =
  td_Volumes :: "volume list"
  td_rest :: 'r

record 'r scheme =
  sch_to_Deployment :: "object \<Rightarrow> go_error + 'r typed_deployment"
  sch_from_Deployment :: "'r typed_deployment \<Rightarrow> go_error + object"

fun replace_cert_volume :: "string \<Rightarrow> volume list \<Rightarrow> volume list" where
  "replace_cert_volume secretName [] = []"
| "replace_cert_volume secretName (v # vs) =
     (if vol_Name v = ''cert'' then \<lparr>vol_Name = ''cert'', vol_Source = SecretVolume secretName\<rparr> # vs
      else v # replace_cert_volume secretName vs)"

definition EditDeploymentCerts :: "'r scheme \<Rightarrow> object \<Rightarrow> string \<Rightarrow> go_error + object" where
  "EditDeploymentCerts scheme obj secretName =
     (case sch_to_Deployment scheme obj of
        Inl e \<Rightarrow> Inl (Wrapf ''failed to convert unstructured to Deployment: '' e)
      | Inr d \<Rightarrow>
          (case sch_from_Deployment scheme (d\<lparr>td_Volumes := replace_cert_volume secretName (td_Volumes d)\<rparr>) of
             Inl e \<Rightarrow> Inl (Wrapf ''failed to convert Deployment back to unstructured: '' e)
           | Inr obj' \<Rightarrow> Inr obj'))"

section \<open>Facts of the cluster\<close>

definition secret_kind :: string where "secret_kind = ''v1/Secret''"
definition configmap_kind :: string where "configmap_kind = ''v1/ConfigMap''"
definition infrastructure_kind :: string where "infrastructure_kind = ''config.openshift.io/v1/Infrastructure''"
definition network_kind :: string where "network_kind = ''config.openshift.io/v1/Network''"

definition GetSecret :: "'w server \<Rightarrow> string \<Rightarrow> string \<Rightarrow> 'w io \<Rightarrow> (go_error + Secret) \<times> 'w io" where
  "GetSecret srv secretName namespace io =
     request_as srv resp_secret (ReqGet secret_kind \<lparr>nn_Namespace = namespace, nn_Name = secretName\<rparr>) io"

definition GetSecretData ::
    "'w server \<Rightarrow> string \<Rightarrow> string \<Rightarrow> string \<Rightarrow> 'w io \<Rightarrow> (go_error + string) \<times> 'w io" where
  "GetSecretData srv secretName namespace keyName io =
     (case GetSecret srv secretName namespace io of
        (Inl e, io') \<Rightarrow> (Inl (Wrapf ''failed to get secret: '' e), io')
      | (Inr secret, io') \<Rightarrow> (case fmlookup (sec_Data secret) keyName of
            None \<Rightarrow> (Inl (Errorf (''key '' @ keyName @ '' not found in secret '' @ secretName)), io')
          | Some d \<Rightarrow> (Inr d, io')))"

fun GetDeploymentCondition :: "DeploymentCondition list \<Rightarrow> string \<Rightarrow> DeploymentCondition option" where
  "GetDeploymentCondition [] t = None"
| "GetDeploymentCondition (c # cs) t = (if dc_Type c = t then Some c else GetDeploymentCondition cs t)"

definition GetInfrastructureCluster :: "'w server \<Rightarrow> 'w io \<Rightarrow> (go_error + Infrastructure) \<times> 'w io" where
  "GetInfrastructureCluster srv io =
     (case request_as srv (resp_items kobj_infrastructure) (ReqList infrastructure_kind [] fmempty) io of
        (Inl e, io') \<Rightarrow> (Inl (Wrapf ''failed to get infrastructure cluster: '' e), io')
      | (Inr clusters, io') \<Rightarrow> (case clusters of
            [c] \<Rightarrow> (Inr c, io')
          | _ \<Rightarrow> (Inl (Errorf (''expected 1 infrastructure cluster, got '' @ show_nat (length clusters))), io')))"

definition GetClusterName :: "'w server \<Rightarrow> 'w io \<Rightarrow> (go_error + string) \<times> 'w io" where
  "GetClusterName srv io =
     (case GetInfrastructureCluster srv io of
        (Inl e, io') \<Rightarrow> (Inl (Wrapf ''failed to get infrastructure cluster: '' e), io')
      | (Inr c, io') \<Rightarrow> (Inr (infra_InfrastructureName c), io'))"

definition GetClusterAPIServerInternalURL :: "'w server \<Rightarrow> 'w io \<Rightarrow> (go_error + string) \<times> 'w io" where
  "GetClusterAPIServerInternalURL srv io =
     (case GetInfrastructureCluster srv io of
        (Inl e, io') \<Rightarrow> (Inl (Wrapf ''failed to get infrastructure cluster: '' e), io')
      | (Inr c, io') \<Rightarrow> (Inr (infra_APIServerInternalURL c), io'))"

definition GetMachineConfigCA :: "'w server \<Rightarrow> 'w io \<Rightarrow> (go_error + string) \<times> 'w io" where
  "GetMachineConfigCA srv io =
     (case request_as srv resp_secret (ReqGet secret_kind
         \<lparr>nn_Namespace = ''openshift-machine-config-operator'', nn_Name = ''machine-config-server-tls''\<rparr>) io of
        (Inl e, io') \<Rightarrow> (Inl (Wrapf ''failed to get machine config server CA: '' e), io')
      | (Inr secret, io') \<Rightarrow> (Inr (get_or_empty (sec_Data secret) ''tls.crt''), io'))"

definition GetKubeconfigCA :: "'w server \<Rightarrow> 'w io \<Rightarrow> (go_error + string) \<times> 'w io" where
  "GetKubeconfigCA srv io =
     (case request_as srv resp_configmap (ReqGet configmap_kind
         \<lparr>nn_Namespace = ''kube-system'', nn_Name = ''kube-root-ca.crt''\<rparr>) io of
        (Inl e, io') \<Rightarrow> (Inl (Wrapf ''failed to get kubeconfig CA: '' e), io')
      | (Inr cm, io') \<Rightarrow> (Inr (get_or_empty (cm_Data cm) ''ca.crt''), io'))"

definition network_request :: request where
  "network_request = ReqGet network_kind \<lparr>nn_Namespace = [], nn_Name = ''cluster''\<rparr>"

definition GetClusterNetworkCIDRBlock :: "'w server \<Rightarrow> 'w io \<Rightarrow> (go_error + string) \<times> 'w io" where
  "GetClusterNetworkCIDRBlock srv io =
     (case request_as srv resp_network network_request io of
        (Inl e, io') \<Rightarrow> (Inl (Wrapf ''failed to get cluster network CIDR block: '' e), io')
      | (Inr n, io') \<Rightarrow>
          if net_SpecClusterNetwork n \<noteq> [] \<and> hd (net_SpecClusterNetwork n) \<noteq> []
          then (Inr (hd (net_SpecClusterNetwork n)), io')
          else if net_StatusClusterNetwork n \<noteq> [] \<and> hd (net_StatusClusterNetwork n) \<noteq> []
          then (Inr (hd (net_StatusClusterNetwork n)), io')
          else (Inl (Errorf ''cluster network CIDR block not found in network.config.openshift.io/cluster (spec.clusterNetwork/status.clusterNetwork empty)''), io'))"

definition GetServiceNetworkCIDRBlock :: "'w server \<Rightarrow> 'w io \<Rightarrow> (go_error + string) \<times> 'w io" where
  "GetServiceNetworkCIDRBlock srv io =
     (case request_as srv resp_network network_request io of
        (Inl e, io') \<Rightarrow> (Inl (Wrapf ''failed to get service network CIDR block: '' e), io')
      | (Inr n, io') \<Rightarrow>
          if net_SpecServiceNetwork n \<noteq> [] \<and> hd (net_SpecServiceNetwork n) \<noteq> []
          then (Inr (hd (net_SpecServiceNetwork n)), io')
          else if net_StatusServiceNetwork n \<noteq> [] \<and> hd (net_StatusServiceNetwork n) \<noteq> []
          then (Inr (hd (net_StatusServiceNetwork n)), io')
          else (Inl (Errorf ''service network CIDR block not found in network.config.openshift.io/cluster (spec.serviceNetwork/status.serviceNetwork empty)''), io'))"

section \<open>Values in logs\<close>

definition RedactedValue :: string where "RedactedValue = ''<redacted>''"
definition idHintWidth :: nat where "idHintWidth = 8"

definition HasValue :: "string \<Rightarrow> bool" where
  "HasValue value \<longleftrightarrow> TrimSpace value \<noteq> []"

definition RedactString :: "string \<Rightarrow> string" where
  "RedactString value = (if \<not> HasValue value then [] else RedactedValue)"

definition SafeResourceIdentifier :: "string \<Rightarrow> string" where
  "SafeResourceIdentifier value = TrimSpace value"

definition IdentifierHint :: "string \<Rightarrow> string" where
  "IdentifierHint value =
     (let trimmed = TrimSpace value in
      if trimmed = [] then []
      else if length trimmed \<le> idHintWidth then trimmed
      else ''...'' @ drop (length trimmed - idHintWidth) trimmed)"

definition SortedMapKeys :: "'v gomap \<Rightarrow> string list" where
  "SortedMapKeys values = sorted_list_of_fset (fmdom values)"

text \<open>Two paths may give the same text when a key holds a slash; both stay in the list.\<close>

definition SortedNestedMapKeys :: "'v gomap gomap \<Rightarrow> string list" where
  "SortedNestedMapKeys values = sort (concat (map (\<lambda>namespace. case fmlookup values namespace of
      None \<Rightarrow> [] | Some nested \<Rightarrow> map (\<lambda>key. namespace @ ''/'' @ key) (SortedMapKeys nested)) (SortedMapKeys values)))"

section \<open>What is established\<close>

text \<open>The renderings of maps show their keys only: they are the same whatever the values.\<close>

lemma SortedMapKeys_values: "SortedMapKeys (fmmap f values) = SortedMapKeys values"
  by (simp add: SortedMapKeys_def)

lemma SortedNestedMapKeys_values: "SortedNestedMapKeys (fmmap (fmmap f) values) = SortedNestedMapKeys values"
proof -
  have "(case fmlookup (fmmap (fmmap f) values) n of None \<Rightarrow> [] | Some nested \<Rightarrow> map (\<lambda>key. n @ ''/'' @ key) (SortedMapKeys nested)) =
      (case fmlookup values n of None \<Rightarrow> [] | Some nested \<Rightarrow> map (\<lambda>key. n @ ''/'' @ key) (SortedMapKeys nested))" for n
    by (simp add: SortedMapKeys_values split: option.split)
  then show ?thesis by (simp add: SortedNestedMapKeys_def SortedMapKeys_values)
qed

lemma discovery_read_only:
  "GetSecretData srv a b c io = (r, io') \<Longrightarrow> emits (\<lambda>(q, a). read_only q) io io'"
  "GetClusterName srv io = (r2, io2) \<Longrightarrow> emits (\<lambda>(q, a). read_only q) io io2"
  "GetClusterAPIServerInternalURL srv io = (r2, io2) \<Longrightarrow> emits (\<lambda>(q, a). read_only q) io io2"
  "GetMachineConfigCA srv io = (r2, io2) \<Longrightarrow> emits (\<lambda>(q, a). read_only q) io io2"
  "GetKubeconfigCA srv io = (r2, io2) \<Longrightarrow> emits (\<lambda>(q, a). read_only q) io io2"
  "GetClusterNetworkCIDRBlock srv io = (r2, io2) \<Longrightarrow> emits (\<lambda>(q, a). read_only q) io io2"
  "GetServiceNetworkCIDRBlock srv io = (r2, io2) \<Longrightarrow> emits (\<lambda>(q, a). read_only q) io io2"
  by (auto simp: GetSecretData_def GetSecret_def GetClusterName_def GetClusterAPIServerInternalURL_def
      GetInfrastructureCluster_def GetMachineConfigCA_def GetKubeconfigCA_def network_request_def
      GetClusterNetworkCIDRBlock_def GetServiceNetworkCIDRBlock_def
      split: prod.splits sum.splits option.splits list.splits if_splits intro!: emits_request_as)

text \<open>A discovered block is never empty.\<close>

lemma discovered_nonempty:
  "GetClusterNetworkCIDRBlock srv io = (Inr b, io') \<Longrightarrow> b \<noteq> []"
  "GetServiceNetworkCIDRBlock srv io = (Inr b, io') \<Longrightarrow> b \<noteq> []"
  by (auto simp: GetClusterNetworkCIDRBlock_def GetServiceNetworkCIDRBlock_def
      split: prod.splits sum.splits if_splits)

lemma merge_lookup:
  "fmlookup (mergeManagedLabels existing managed) k =
     (case fmlookup managed k of
        Some v \<Rightarrow> if isOperatorOwnedLabel k \<or> get_or_empty existing k = [] then Some v else fmlookup existing k
      | None \<Rightarrow> fmlookup existing k)"
  by (auto simp: mergeManagedLabels_def split: option.split)

lemma merge_idem: "mergeManagedLabels (mergeManagedLabels existing managed) managed = mergeManagedLabels existing managed"
  by (rule fmap_ext) (auto simp: merge_lookup get_or_empty_def split: option.splits)

lemma SetComponentLabels_idem [simp]:
  "SetComponentLabels i c s (SetComponentLabels i c s m) = SetComponentLabels i c s m"
  by (simp add: SetComponentLabels_def merge_idem)

lemma SetDefaultLabels_idem [simp]:
  "SetDefaultLabels i (SetDefaultLabels i m) = SetDefaultLabels i m"
  by (simp add: SetDefaultLabels_def merge_idem)

lemma owned_labels [simp]:
  "isOperatorOwnedLabel ManagedByLabel" "isOperatorOwnedLabel ComponentLabel"
  "isOperatorOwnedLabel SubcomponentLabel" "isOperatorOwnedLabel AppNameLabel"
  "isOperatorOwnedLabel AppInstanceLabel" "isOperatorOwnedLabel AppComponentLabel"
  "isOperatorOwnedLabel AppPartOfLabel" "isOperatorOwnedLabel AppManagedByLabel"
  by (simp_all add: isOperatorOwnedLabel_def)

lemma ProviderLabel_not_owned [simp]: "\<not> isOperatorOwnedLabel ProviderLabel"
  by (simp add: isOperatorOwnedLabel_def go_const)

lemma GetDefaultLabels_lookup:
  "fmlookup (GetDefaultLabels name) ManagedByLabel = Some name"
  "fmlookup (GetDefaultLabels name) AppNameLabel = Some AppName"
  "fmlookup (GetDefaultLabels name) AppInstanceLabel = Some name"
  "fmlookup (GetDefaultLabels name) ProviderLabel = Some ''cluster-api''"
  by (simp_all add: GetDefaultLabels_def fmlookup_of_list go_const)

lemma label_neqs:
  "ComponentLabel \<notin> {ManagedByLabel, AppNameLabel, AppInstanceLabel, ProviderLabel, AppComponentLabel, SubcomponentLabel}"
  "AppComponentLabel \<notin> {ManagedByLabel, AppNameLabel, AppInstanceLabel, ProviderLabel, SubcomponentLabel}"
  "SubcomponentLabel \<notin> {ManagedByLabel, AppNameLabel, AppInstanceLabel, ProviderLabel, ComponentLabel, AppComponentLabel}"
  by (simp_all add: go_const)

lemma GetComponentLabels_lookup:
  assumes "c \<noteq> []" and "s \<noteq> []"
  shows "fmlookup (GetComponentLabels name c s) ManagedByLabel = Some name"
    and "fmlookup (GetComponentLabels name c s) AppNameLabel = Some AppName"
    and "fmlookup (GetComponentLabels name c s) AppInstanceLabel = Some name"
    and "fmlookup (GetComponentLabels name c s) ProviderLabel = Some ''cluster-api''"
    and "fmlookup (GetComponentLabels name c s) ComponentLabel = Some c"
    and "fmlookup (GetComponentLabels name c s) AppComponentLabel = Some c"
    and "fmlookup (GetComponentLabels name c s) SubcomponentLabel = Some s"
  using assms label_neqs by (simp_all add: GetComponentLabels_def Let_def GetDefaultLabels_lookup)

lemma GetDefaultLabels_only:
  "\<not> isOperatorOwnedLabel k \<Longrightarrow> k \<noteq> ProviderLabel \<Longrightarrow> fmlookup (GetDefaultLabels name) k = None"
  by (auto simp: GetDefaultLabels_def fmlookup_of_list)

lemma GetComponentLabels_only:
  "\<not> isOperatorOwnedLabel k \<Longrightarrow> k \<noteq> ProviderLabel \<Longrightarrow> fmlookup (GetComponentLabels name c s) k = None"
  by (auto simp: GetComponentLabels_def Let_def GetDefaultLabels_only)

lemma SetComponentLabels_lookup:
  "fmlookup (md_Labels (SetComponentLabels name c s m)) k =
     fmlookup (mergeManagedLabels (md_Labels m) (GetComponentLabels name c s)) k"
  by (simp add: SetComponentLabels_def)

section \<open>Properties\<close>

text \<open>
  Reconciling labels repairs drift and keeps what users add: afterwards every label the operator
  owns has the value derived from the resource and component, the provider label is kept if it has a
  value and set otherwise, labels outside the managed set are untouched, and doing it again changes
  nothing.
\<close>

theorem SetComponentLabels_contract:
  assumes "component \<noteq> []" and "subcomponent \<noteq> []"
  shows "let old = md_Labels m; new = md_Labels (SetComponentLabels name component subcomponent m)
    in fmlookup new ManagedByLabel = Some name \<and> fmlookup new AppInstanceLabel = Some name \<and>
       fmlookup new ComponentLabel = Some component \<and> fmlookup new AppComponentLabel = Some component \<and>
       fmlookup new SubcomponentLabel = Some subcomponent \<and> fmlookup new AppNameLabel = Some AppName \<and>
       fmlookup new ProviderLabel =
         (if get_or_empty old ProviderLabel = [] then Some ''cluster-api'' else fmlookup old ProviderLabel) \<and>
       (\<forall>k. \<not> isOperatorOwnedLabel k \<and> k \<noteq> ProviderLabel \<longrightarrow> fmlookup new k = fmlookup old k) \<and>
       SetComponentLabels name component subcomponent (SetComponentLabels name component subcomponent m) =
         SetComponentLabels name component subcomponent m"
  unfolding Let_def SetComponentLabels_idem
  by (simp add: SetComponentLabels_lookup merge_lookup GetComponentLabels_lookup [OF assms]
      GetComponentLabels_only)

theorem SetComponentLabels_contract_witness:
  "fmlookup (md_Labels (SetComponentLabels ''a'' ''CAPI'' ''Service'' (new_meta ''n'' ''x''))) ManagedByLabel = Some ''a''"
  using SetComponentLabels_contract [of "''CAPI''" "''Service''" "new_meta ''n'' ''x''" "''a''"]
  by (simp only: Let_def) simp

end
