(* ===== verification/Config.thy ===== *)
theory Config
  imports KubeApi
begin

text \<open>
  The configuration of the scaling resources (\<open>internal/components/enable_autoscaler/config.go\<close>,
  \<open>shapes.go\<close>, \<open>ValidateMinMaxNodes\<close> of \<open>capi.go\<close>): operator defaults, overrides from the custom
  resource, validation, and discovery of the network blocks.
\<close>

section \<open>Types\<close>

record AutoScalingConfig =
  cfg_CPUs :: int32
  cfg_Memory :: int32
  cfg_MinNodes :: int32
  cfg_MaxNodes :: int32
  cfg_Shape :: string
  cfg_ImageID :: string
  cfg_DefinedTagsNamespace :: string
  cfg_EnableRDMA :: bool
  cfg_RDMAComputeClusterID :: string
  cfg_RDMAFailureDomain :: string

record NetworkConfig =
  cfg_VCNID :: string
  cfg_OCPSubnetID :: string
  cfg_OCPSubnetName :: string
  cfg_ComputeNsgName :: string
  cfg_NetworkSecurityGroupID :: string
  cfg_ControlPlaneEndpoint :: string
  cfg_APIServerLoadBalancerID :: string
  cfg_ClusterNetworkCIDRBlock :: string
  cfg_ServiceNetworkCIDRBlock :: string
  cfg_BareMetalSubnetID :: string
  cfg_BareMetalSubnetName :: string

record Config =
  cfg_CompartmentID :: string
  cfg_Network :: NetworkConfig
  cfg_AutoScaling :: AutoScalingConfig

section \<open>Shapes\<close>

definition IsBareMetalShape :: "string \<Rightarrow> bool" where
  "IsBareMetalShape shape =
     (let s = TrimSpace shape in if s = [] then False else HasPrefix (ToUpper s) ''BM.'')"

section \<open>Validation\<close>

definition ascii_letter :: "char \<Rightarrow> bool" where
  "ascii_letter c \<longleftrightarrow> (let n = of_char c :: nat in (65 \<le> n \<and> n \<le> 90) \<or> (97 \<le> n \<and> n \<le> 122))"

definition ascii_digit :: "char \<Rightarrow> bool" where
  "ascii_digit c \<longleftrightarrow> (let n = of_char c :: nat in 48 \<le> n \<and> n \<le> 57)"

text \<open>The regular expression \<open>^[A-Za-z][A-Za-z0-9_.-]{0,99}$\<close>.\<close>

definition definedTagsNamespaceNamePattern :: "string \<Rightarrow> bool" where
  "definedTagsNamespaceNamePattern s \<longleftrightarrow>
     (case s of [] \<Rightarrow> False
      | c # cs \<Rightarrow> ascii_letter c \<and> length cs \<le> 99 \<and>
          list_all (\<lambda>x. ascii_letter x \<or> ascii_digit x \<or> x \<in> set ''_.-'') cs)"

text \<open>The value of a pointer field, or the operator's default.\<close>

definition override :: "'a option \<Rightarrow> 'a \<Rightarrow> 'a" where
  "override v0 d = (case v0 of None \<Rightarrow> d | Some v \<Rightarrow> v)"

definition override_str :: "string \<Rightarrow> string \<Rightarrow> string" where
  "override_str s d = (if s \<noteq> [] then s else d)"

definition shape_cpus :: "OCIClusterAutoscaler \<Rightarrow> int32 option" where
  "shape_cpus i = (case as_ShapeConfig (spec_Autoscaling (oca_Spec i)) of None \<Rightarrow> None | Some s \<Rightarrow> sc_CPUs s)"

definition shape_memory :: "OCIClusterAutoscaler \<Rightarrow> int32 option" where
  "shape_memory i = (case as_ShapeConfig (spec_Autoscaling (oca_Spec i)) of None \<Rightarrow> None | Some s \<Rightarrow> sc_Memory s)"

text \<open>The instance may be nil, here \<open>None\<close>.\<close>

definition ValidateShapeConfig :: "OCIClusterAutoscaler option \<Rightarrow> Config \<Rightarrow> check" where
  "ValidateShapeConfig instance0 config =
     (let cpus = override (case instance0 of None \<Rightarrow> None | Some i \<Rightarrow> shape_cpus i) (cfg_CPUs (cfg_AutoScaling config));
          memory = override (case instance0 of None \<Rightarrow> None | Some i \<Rightarrow> shape_memory i) (cfg_Memory (cfg_AutoScaling config))
      in if sint cpus \<le> 0 then Some (Errorf ''shapeConfig.cpus must be greater than 0'')
         else if sint memory \<le> 0 then Some (Errorf ''shapeConfig.memory must be greater than 0'')
         else None)"

definition ValidateDefinedTagsNamespace :: "Config \<Rightarrow> check" where
  "ValidateDefinedTagsNamespace config =
     (let namespace = TrimSpace (cfg_DefinedTagsNamespace (cfg_AutoScaling config)) in
      if namespace = [] then None
      else if \<not> definedTagsNamespaceNamePattern namespace then
        Some (Errorf (''defined tags namespace must start with a letter, contain only letters, numbers, '' @
          [CHR 0x27] @ ''.'' @ [CHR 0x27] @ '', '' @ [CHR 0x27] @ ''_'' @ [CHR 0x27] @ '' or '' @
          [CHR 0x27] @ ''-'' @ [CHR 0x27] @ '', and be at most 100 characters''))
      else None)"

definition require_value :: "string \<Rightarrow> string \<Rightarrow> check" where
  "require_value what v = (if TrimSpace v = [] then Some (Errorf (what @ '' must not be empty'')) else None)"

definition ValidateRequiredConfigFields :: "Config \<Rightarrow> check" where
  "ValidateRequiredConfigFields config = first_error
     [require_value ''compartment ID'' (cfg_CompartmentID config),
      require_value ''VCN ID'' (cfg_VCNID (cfg_Network config)),
      require_value ''OCP subnet ID'' (cfg_OCPSubnetID (cfg_Network config)),
      require_value ''OCP subnet name'' (cfg_OCPSubnetName (cfg_Network config)),
      require_value ''compute NSG name'' (cfg_ComputeNsgName (cfg_Network config)),
      require_value ''network security group ID'' (cfg_NetworkSecurityGroupID (cfg_Network config)),
      require_value ''control plane endpoint'' (cfg_ControlPlaneEndpoint (cfg_Network config)),
      require_value ''API server load balancer ID'' (cfg_APIServerLoadBalancerID (cfg_Network config))]"

definition ValidateBareMetalSubnetConfig :: "Config \<Rightarrow> check" where
  "ValidateBareMetalSubnetConfig config =
     (if \<not> IsBareMetalShape (cfg_Shape (cfg_AutoScaling config)) then None
      else if TrimSpace (cfg_BareMetalSubnetID (cfg_Network config)) = [] then
        Some (Errorf ''bare metal subnet ID must not be empty for BM shapes'')
      else if TrimSpace (cfg_BareMetalSubnetName (cfg_Network config)) = [] then
        Some (Errorf ''bare metal subnet name must not be empty for BM shapes'')
      else None)"

definition ValidateRDMAConfig :: "Config \<Rightarrow> check" where
  "ValidateRDMAConfig config =
     (if \<not> cfg_EnableRDMA (cfg_AutoScaling config) then None
      else if \<not> IsBareMetalShape (cfg_Shape (cfg_AutoScaling config)) then
        Some (Errorf ''RDMA autoscaling requires a bare-metal shape'')
      else if TrimSpace (cfg_RDMAComputeClusterID (cfg_AutoScaling config)) = [] then
        Some (Errorf ''RDMA compute cluster ID must not be empty when RDMA autoscaling is enabled'')
      else if TrimSpace (cfg_RDMAFailureDomain (cfg_AutoScaling config)) = [] then
        Some (Errorf ''RDMA failure domain must not be empty when RDMA autoscaling is enabled'')
      else None)"

definition ValidateMinMaxNodes :: "OCIClusterAutoscaler \<Rightarrow> Config \<Rightarrow> check" where
  "ValidateMinMaxNodes autoscaler config =
     (let minNodes = override (as_MinNodes (spec_Autoscaling (oca_Spec autoscaler))) (cfg_MinNodes (cfg_AutoScaling config));
          maxNodes = override (as_MaxNodes (spec_Autoscaling (oca_Spec autoscaler))) (cfg_MaxNodes (cfg_AutoScaling config))
      in if sint minNodes < 0 then Some (Errorf ''min nodes must be equal to or greater than 0'')
         else if sint maxNodes < 0 then Some (Errorf ''max nodes must be equal to or greater than 0'')
         else if sint minNodes > sint maxNodes then Some (Errorf ''min nodes must be less than max nodes'')
         else None)"

section \<open>Resolving the configuration\<close>

definition SetNetworkConfig :: "'w server \<Rightarrow> Config \<Rightarrow> 'w io \<Rightarrow> (go_error + Config) \<times> 'w io" where
  "SetNetworkConfig srv config io =
     (let n = cfg_Network config in
      if cfg_BareMetalSubnetID n \<noteq> [] \<and> cfg_BareMetalSubnetID n = cfg_OCPSubnetID n then
        (Inl (Errorf (''secondary subnet must differ from primary subnet (bareMetalSubnetID='' @
           cfg_BareMetalSubnetID n @ '', ocpSubnetID='' @ cfg_OCPSubnetID n @ '')'')), io)
      else
        (case (if cfg_ClusterNetworkCIDRBlock n = [] then GetClusterNetworkCIDRBlock srv io
               else (Inr (cfg_ClusterNetworkCIDRBlock n), io)) of
           (Inl e, io1) \<Rightarrow> (Inl (Wrapf ''failed to get cluster network CIDR block: '' e), io1)
         | (Inr clusterBlock, io1) \<Rightarrow>
             (case (if cfg_ServiceNetworkCIDRBlock n = [] then GetServiceNetworkCIDRBlock srv io1
                    else (Inr (cfg_ServiceNetworkCIDRBlock n), io1)) of
                (Inl e, io2) \<Rightarrow> (Inl (Wrapf ''failed to get service network CIDR block: '' e), io2)
              | (Inr serviceBlock, io2) \<Rightarrow>
                  (Inr (config\<lparr>cfg_Network := n\<lparr>cfg_ClusterNetworkCIDRBlock := clusterBlock,
                      cfg_ServiceNetworkCIDRBlock := serviceBlock\<rparr>\<rparr>), io2))))"

text \<open>The assignments of \<open>SetAutoScalingConfig\<close> from the custom resource.\<close>

definition apply_overrides :: "OCIClusterAutoscaler \<Rightarrow> Config \<Rightarrow> Config" where
  "apply_overrides i config =
     (let s = spec_Autoscaling (oca_Spec i); a = cfg_AutoScaling config
      in config\<lparr>cfg_AutoScaling := a\<lparr>
           cfg_CPUs := override (shape_cpus i) (cfg_CPUs a),
           cfg_Memory := override (shape_memory i) (cfg_Memory a),
           cfg_MinNodes := override (as_MinNodes s) (cfg_MinNodes a),
           cfg_MaxNodes := override (as_MaxNodes s) (cfg_MaxNodes a),
           cfg_Shape := override_str (as_Shape s) (cfg_Shape a),
           cfg_ImageID := override_str (as_ImageID s) (cfg_ImageID a),
           cfg_EnableRDMA := (if as_EnableRDMA s then True else cfg_EnableRDMA a),
           cfg_RDMAComputeClusterID := override_str (as_RDMAComputeClusterID s) (cfg_RDMAComputeClusterID a),
           cfg_RDMAFailureDomain := override_str (as_RDMAFailureDomain s) (cfg_RDMAFailureDomain a)\<rparr>\<rparr>)"

text \<open>
  The statement \<open>if config, err := SetNetworkConfig(...); err != nil\<close> declares a new variable
  \<open>config\<close> whose scope is the statement: on success the discovered blocks go out of scope with it and
  the function returns the outer configuration.
\<close>

definition SetAutoScalingConfig ::
    "'w server \<Rightarrow> OCIClusterAutoscaler \<Rightarrow> Config \<Rightarrow> 'w io \<Rightarrow> (go_error + Config) \<times> 'w io" where
  "SetAutoScalingConfig srv instance0 config0 io =
     (case ValidateShapeConfig (Some instance0) config0 of
        Some e \<Rightarrow> (Inl e, io)
      | None \<Rightarrow>
          let config = apply_overrides instance0 config0 in
          case first_error [ValidateRequiredConfigFields config, ValidateBareMetalSubnetConfig config,
              ValidateRDMAConfig config, ValidateDefinedTagsNamespace config] of
            Some e \<Rightarrow> (Inl e, io)
          | None \<Rightarrow> (case SetNetworkConfig srv config io of
                (Inl e, io1) \<Rightarrow> (Inl (Wrapf ''failed to set network config: '' e), io1)
              | (Inr shadowed, io1) \<Rightarrow> (Inr config, io1)))"

definition stringSource :: "string \<Rightarrow> string" where
  "stringSource value = (if TrimSpace value \<noteq> [] then ''customResource'' else ''operatorConfig'')"

definition int32Source :: "bool \<Rightarrow> string" where
  "int32Source fromCustomResource = (if fromCustomResource then ''customResource'' else ''operatorConfig'')"

definition discoveredSource :: "bool \<Rightarrow> string" where
  "discoveredSource provided = (if provided then ''operatorConfig'' else ''discovered'')"


section \<open>Accepted configurations\<close>

definition valid_config :: "Config \<Rightarrow> bool" where
  "valid_config c \<longleftrightarrow>
     (let n = cfg_Network c; a = cfg_AutoScaling c in
      0 < sint (cfg_CPUs a) \<and> 0 < sint (cfg_Memory a) \<and>
      list_all (\<lambda>v. TrimSpace v \<noteq> []) [cfg_CompartmentID c, cfg_VCNID n, cfg_OCPSubnetID n, cfg_OCPSubnetName n,
        cfg_ComputeNsgName n, cfg_NetworkSecurityGroupID n, cfg_ControlPlaneEndpoint n, cfg_APIServerLoadBalancerID n] \<and>
      (IsBareMetalShape (cfg_Shape a) \<longrightarrow>
         TrimSpace (cfg_BareMetalSubnetID n) \<noteq> [] \<and> TrimSpace (cfg_BareMetalSubnetName n) \<noteq> []) \<and>
      (cfg_EnableRDMA a \<longrightarrow> IsBareMetalShape (cfg_Shape a) \<and>
         TrimSpace (cfg_RDMAComputeClusterID a) \<noteq> [] \<and> TrimSpace (cfg_RDMAFailureDomain a) \<noteq> []) \<and>
      (TrimSpace (cfg_DefinedTagsNamespace a) = [] \<or>
         definedTagsNamespaceNamePattern (TrimSpace (cfg_DefinedTagsNamespace a))))"

definition distinct_subnets :: "Config \<Rightarrow> bool" where
  "distinct_subnets c \<longleftrightarrow>
     cfg_BareMetalSubnetID (cfg_Network c) = [] \<or> cfg_BareMetalSubnetID (cfg_Network c) \<noteq> cfg_OCPSubnetID (cfg_Network c)"

lemma require_value_None [simp]: "require_value w v = None \<longleftrightarrow> TrimSpace v \<noteq> []"
  by (simp add: require_value_def)

lemma checks_valid:
  "ValidateShapeConfig (Some i) c = None \<and>
   first_error [ValidateRequiredConfigFields (apply_overrides i c), ValidateBareMetalSubnetConfig (apply_overrides i c),
     ValidateRDMAConfig (apply_overrides i c), ValidateDefinedTagsNamespace (apply_overrides i c)] = None \<longleftrightarrow>
   valid_config (apply_overrides i c)"
proof -
  have "ValidateShapeConfig (Some i) c = None \<longleftrightarrow>
      0 < sint (cfg_CPUs (cfg_AutoScaling (apply_overrides i c))) \<and>
      0 < sint (cfg_Memory (cfg_AutoScaling (apply_overrides i c)))"
    by (auto simp: ValidateShapeConfig_def apply_overrides_def Let_def)
  moreover define d where "d = apply_overrides i c"
  ultimately show ?thesis
    unfolding d_def [symmetric]
    by (auto simp: valid_config_def Let_def first_error_None ValidateRequiredConfigFields_def
        ValidateBareMetalSubnetConfig_def ValidateRDMAConfig_def ValidateDefinedTagsNamespace_def)
qed

lemma SetAutoScalingConfig_valid:
  "SetAutoScalingConfig srv i c io = (r, io') \<Longrightarrow>
     (if valid_config (apply_overrides i c)
      then (case SetNetworkConfig srv (apply_overrides i c) io of
          (Inl e, io1) \<Rightarrow> r = Inl (Wrapf ''failed to set network config: '' e) \<and> io' = io1
        | (Inr x, io1) \<Rightarrow> r = Inr (apply_overrides i c) \<and> io' = io1)
      else (\<exists>e. r = Inl e) \<and> io' = io)"
  unfolding checks_valid [symmetric]
  by (auto simp: SetAutoScalingConfig_def Let_def split: option.splits prod.splits sum.splits)

lemma SetNetworkConfig_given:
  assumes "cfg_ClusterNetworkCIDRBlock (cfg_Network c) \<noteq> []" and "cfg_ServiceNetworkCIDRBlock (cfg_Network c) \<noteq> []"
  shows "SetNetworkConfig srv c io = (r, io') \<Longrightarrow>
    io' = io \<and> (if distinct_subnets c then r = Inr c else \<exists>e. r = Inl e)"
  using assms by (auto simp: SetNetworkConfig_def distinct_subnets_def Let_def split: if_splits)

lemma network_of_overrides [simp]: "cfg_Network (apply_overrides i c) = cfg_Network c"
  by (simp add: apply_overrides_def Let_def)

lemma SetNetworkConfig_read_only:
  "SetNetworkConfig srv c io = (r, io') \<Longrightarrow> emits (\<lambda>(q, a). read_only q) io io'"
  by (auto simp: SetNetworkConfig_def Let_def split: if_splits prod.splits sum.splits
      dest!: discovery_read_only intro: emits_trans)

lemma SetAutoScalingConfig_read_only:
  "SetAutoScalingConfig srv i c io = (r, io') \<Longrightarrow> emits (\<lambda>(q, a). read_only q) io io'"
  by (auto simp: SetAutoScalingConfig_def Let_def split: option.splits prod.splits sum.splits
      dest!: SetNetworkConfig_read_only)

section \<open>A sample configuration\<close>

definition sample_config :: "string \<Rightarrow> Config" where
  "sample_config block = \<lparr>cfg_CompartmentID = ''c'',
     cfg_Network = \<lparr>cfg_VCNID = ''v'', cfg_OCPSubnetID = ''s'', cfg_OCPSubnetName = ''p'', cfg_ComputeNsgName = ''n'',
       cfg_NetworkSecurityGroupID = ''g'', cfg_ControlPlaneEndpoint = ''e'', cfg_APIServerLoadBalancerID = ''l'',
       cfg_ClusterNetworkCIDRBlock = block, cfg_ServiceNetworkCIDRBlock = block,
       cfg_BareMetalSubnetID = [], cfg_BareMetalSubnetName = []\<rparr>,
     cfg_AutoScaling = \<lparr>cfg_CPUs = 2, cfg_Memory = 4, cfg_MinNodes = 1, cfg_MaxNodes = 3, cfg_Shape = ''oc3'',
       cfg_ImageID = [], cfg_DefinedTagsNamespace = [], cfg_EnableRDMA = False,
       cfg_RDMAComputeClusterID = [], cfg_RDMAFailureDomain = []\<rparr>\<rparr>"

lemma sample_trim: "TrimSpace ''c'' = ''c''" "TrimSpace ''v'' = ''v''" "TrimSpace ''s'' = ''s''" "TrimSpace ''p'' = ''p''"
    "TrimSpace ''n'' = ''n''" "TrimSpace ''g'' = ''g''" "TrimSpace ''e'' = ''e''" "TrimSpace ''l'' = ''l''"
    "TrimSpace ''oc3'' = ''oc3''"
  by (rule TrimSpace_inner; simp add: inner_byte_def)+

lemma sample_overrides: "apply_overrides (sample_autoscaler ns nm t cs) (sample_config b) = sample_config b"
  by (simp add: apply_overrides_def sample_autoscaler_def sample_config_def override_def override_str_def
      shape_cpus_def shape_memory_def)

lemma sample_valid: "valid_config (sample_config b)"
proof -
  have "\<not> IsBareMetalShape ''oc3''"
    by (simp add: IsBareMetalShape_def sample_trim Let_def ToUpper_def upper_byte_def HasPrefix_def)
  then show ?thesis by (simp add: valid_config_def sample_config_def Let_def sample_trim)
qed

lemma sample_distinct: "distinct_subnets (sample_config b)"
  by (simp add: distinct_subnets_def sample_config_def)

section \<open>Properties\<close>

text \<open>
  C33. With the network blocks configured, resolving the configuration succeeds exactly when the
  configuration with the resource's overrides applied is valid (positive sizes, required OCI
  identifiers, a secondary subnet for bare-metal shapes, RDMA only on bare metal and with its
  identifiers, a well-formed tag namespace, distinct subnets); the result is then that configuration
  and no request is sent.
\<close>

theorem SetAutoScalingConfig_accepts_iff:
  assumes "cfg_ClusterNetworkCIDRBlock (cfg_Network c) \<noteq> []" and "cfg_ServiceNetworkCIDRBlock (cfg_Network c) \<noteq> []"
  shows "(SetAutoScalingConfig srv i c io = (Inr d, io) \<longleftrightarrow>
      d = apply_overrides i c \<and> valid_config d \<and> distinct_subnets d) \<and>
    snd (SetAutoScalingConfig srv i c io) = io"
proof -
  obtain r io' where r: "SetAutoScalingConfig srv i c io = (r, io')" by (cases "SetAutoScalingConfig srv i c io")
  obtain x io1 where x: "SetNetworkConfig srv (apply_overrides i c) io = (x, io1)"
    by (cases "SetNetworkConfig srv (apply_overrides i c) io")
  from SetNetworkConfig_given [OF _ _ x] assms have
    "io1 = io \<and> (if distinct_subnets (apply_overrides i c) then x = Inr (apply_overrides i c) else \<exists>e. x = Inl e)"
    by simp
  with SetAutoScalingConfig_valid [OF r] r x show ?thesis
    by (auto split: if_splits sum.splits)
qed

theorem SetAutoScalingConfig_accepts_iff_witness:
  "SetAutoScalingConfig (const_server RespOk) (sample_autoscaler ''n'' ''x'' 1 []) (sample_config ''10.0.0.0/16'') (start_io ()) =
    (Inr (sample_config ''10.0.0.0/16''), start_io ())"
proof -
  have "cfg_ClusterNetworkCIDRBlock (cfg_Network (sample_config ''10.0.0.0/16'')) \<noteq> []"
    and "cfg_ServiceNetworkCIDRBlock (cfg_Network (sample_config ''10.0.0.0/16'')) \<noteq> []"
    by (simp_all add: sample_config_def)
  from SetAutoScalingConfig_accepts_iff [OF this, of "const_server RespOk" "sample_autoscaler ''n'' ''x'' 1 []"
      "start_io ()" "sample_config ''10.0.0.0/16''"]
  show ?thesis by (simp add: sample_overrides sample_valid sample_distinct)
qed

text \<open>
  C34. Discovery of the network blocks has no effect on the resolved configuration: whatever the
  cluster reports, a successful result carries the blocks of the operator's own configuration, so
  blocks left empty for discovery stay empty.
\<close>

theorem discovered_blocks_dropped:
  assumes "fst (SetAutoScalingConfig srv i c io) = Inr d"
  shows "cfg_Network d = cfg_Network c"
proof -
  obtain io' where "SetAutoScalingConfig srv i c io = (Inr d, io')" using assms by (metis prod.collapse)
  from SetAutoScalingConfig_valid [OF this] show ?thesis by (auto split: if_splits prod.splits sum.splits)
qed

definition sample_network :: Network where
  "sample_network = \<lparr>net_SpecClusterNetwork = [''10.128.0.0/14''], net_StatusClusterNetwork = [],
     net_SpecServiceNetwork = [''172.30.0.0/16''], net_StatusServiceNetwork = []\<rparr>"

theorem discovered_blocks_dropped_witness:
  "let srv = const_server (RespObj (ONetwork sample_network)); i = sample_autoscaler ''n'' ''x'' 1 [];
       found = fst (SetNetworkConfig srv (sample_config []) (start_io ()));
       used = fst (SetAutoScalingConfig srv i (sample_config []) (start_io ()))
   in (\<exists>d. found = Inr d \<and> cfg_ClusterNetworkCIDRBlock (cfg_Network d) = ''10.128.0.0/14'') \<and>
      (\<exists>d. used = Inr d \<and> cfg_ClusterNetworkCIDRBlock (cfg_Network d) = [])"
proof -
  let ?srv = "const_server (RespObj (ONetwork sample_network))"
  let ?i = "sample_autoscaler ''n'' ''x'' 1 []"
  obtain d io1 where n: "SetNetworkConfig ?srv (sample_config []) (start_io ()) = (Inr d, io1)"
      and d: "cfg_ClusterNetworkCIDRBlock (cfg_Network d) = ''10.128.0.0/14''"
    by (auto simp: SetNetworkConfig_def sample_config_def Let_def GetClusterNetworkCIDRBlock_def
        GetServiceNetworkCIDRBlock_def request_as_def call_def const_server_def expect_def sample_network_def)
  obtain r io' where r: "SetAutoScalingConfig ?srv ?i (sample_config []) (start_io ()) = (r, io')"
    by (cases "SetAutoScalingConfig ?srv ?i (sample_config []) (start_io ())")
  from SetAutoScalingConfig_valid [OF this] n have u: "r = Inr (sample_config [])"
    by (simp add: sample_overrides sample_valid)
  with r have "fst (SetAutoScalingConfig ?srv ?i (sample_config []) (start_io ())) = Inr (sample_config [])" by simp
  from discovered_blocks_dropped [OF this] have "cfg_ClusterNetworkCIDRBlock (cfg_Network (sample_config [])) = []"
    by (simp add: sample_config_def)
  with n d r u show ?thesis by (simp only: Let_def fst_conv) blast
qed

text \<open>
  The node bounds are accepted exactly when, read as signed 32-bit numbers after the resource's
  overrides, they satisfy \<open>0 \<le> min \<le> max\<close>.
\<close>

theorem ValidateMinMaxNodes_iff:
  "ValidateMinMaxNodes i c = None \<longleftrightarrow>
     (let a = cfg_AutoScaling (apply_overrides i c)
      in 0 \<le> sint (cfg_MinNodes a) \<and> sint (cfg_MinNodes a) \<le> sint (cfg_MaxNodes a))"
  by (auto simp: ValidateMinMaxNodes_def apply_overrides_def Let_def)

end
