(* ===== verification/Components.thy ===== *)
theory Components
  imports KubeApi
begin

text \<open>
  Components as lists of objects with mutation functions (\<open>internal/components/component.go\<close>), the
  vendored \<open>controllerutil.CreateOrPatch\<close>, and the controller's loops over them:
  \<open>reconcileComponents\<close>, \<open>removeComponent\<close> and \<open>removeClusterctlComponents\<close>.
\<close>

section \<open>Objects\<close>

text \<open>Metadata of an object that carries some, and writing it back.\<close>

fun obj_meta :: "kobj \<Rightarrow> objmeta option" where
  "obj_meta (OAutoscaler x) = Some (oca_meta x)"
| "obj_meta (ODeployment x) = Some (dep_meta x)"
| "obj_meta (OSecret x) = Some (sec_meta x)"
| "obj_meta (OConfigMap x) = Some (cm_meta x)"
| "obj_meta (ONamespace m) = Some m"
| "obj_meta (OSCC x) = Some (scc_meta x)"
| "obj_meta (OClusterRole x) = Some (cr_meta x)"
| "obj_meta (OClusterRoleBinding x) = Some (crb_meta x)"
| "obj_meta (OOCICluster x) = Some (oc_meta x)"
| "obj_meta (OOCIClusterIdentity x) = Some (oci_meta x)"
| "obj_meta (OOCIMachineTemplate x) = Some (mt_meta x)"
| "obj_meta (OOCIMachine m) = Some m"
| "obj_meta _ = None"

fun map_meta :: "(objmeta \<Rightarrow> objmeta) \<Rightarrow> kobj \<Rightarrow> kobj" where
  "map_meta f (OAutoscaler x) = OAutoscaler (oca_meta_update f x)"
| "map_meta f (ODeployment x) = ODeployment (dep_meta_update f x)"
| "map_meta f (OSecret x) = OSecret (sec_meta_update f x)"
| "map_meta f (OConfigMap x) = OConfigMap (cm_meta_update f x)"
| "map_meta f (ONamespace m) = ONamespace (f m)"
| "map_meta f (OSCC x) = OSCC (scc_meta_update f x)"
| "map_meta f (OClusterRole x) = OClusterRole (cr_meta_update f x)"
| "map_meta f (OClusterRoleBinding x) = OClusterRoleBinding (crb_meta_update f x)"
| "map_meta f (OOCICluster x) = OOCICluster (oc_meta_update f x)"
| "map_meta f (OOCIClusterIdentity x) = OOCIClusterIdentity (oci_meta_update f x)"
| "map_meta f (OOCIMachineTemplate x) = OOCIMachineTemplate (mt_meta_update f x)"
| "map_meta f (OOCIMachine m) = OOCIMachine (f m)"
| "map_meta f x = x"

fun obj_kind :: "kobj \<Rightarrow> string" where
  "obj_kind (OAutoscaler x) = ''capi.openshift.io/v1alpha1/OCIClusterAutoscaler''"
| "obj_kind (ODeployment x) = ''apps/v1/Deployment''"
| "obj_kind (ONode x) = ''v1/Node''"
| "obj_kind (OCSR x) = ''certificates.k8s.io/v1/CertificateSigningRequest''"
| "obj_kind (OSecret x) = ''v1/Secret''"
| "obj_kind (OConfigMap x) = ''v1/ConfigMap''"
| "obj_kind (ONamespace x) = ''v1/Namespace''"
| "obj_kind (OInfrastructure x) = ''config.openshift.io/v1/Infrastructure''"
| "obj_kind (ONetwork x) = ''config.openshift.io/v1/Network''"
| "obj_kind (OSCC x) = ''security.openshift.io/v1/SecurityContextConstraints''"
| "obj_kind (OClusterRole x) = ''rbac.authorization.k8s.io/v1/ClusterRole''"
| "obj_kind (OClusterRoleBinding x) = ''rbac.authorization.k8s.io/v1/ClusterRoleBinding''"
| "obj_kind (OOCICluster x) = ''infrastructure.cluster.x-k8s.io/v1beta2/OCICluster''"
| "obj_kind (OOCIClusterIdentity x) = ''infrastructure.cluster.x-k8s.io/v1beta2/OCIClusterIdentity''"
| "obj_kind (OOCIMachineTemplate x) = ''infrastructure.cluster.x-k8s.io/v1beta2/OCIMachineTemplate''"
| "obj_kind (OOCIMachine x) = ''infrastructure.cluster.x-k8s.io/v1beta2/OCIMachine''"
| "obj_kind (OUnstructured u) = GetAPIVersion u @ ''/'' @ GetKind u"

text \<open>\<open>client.ObjectKeyFromObject\<close>.\<close>

fun obj_key :: "kobj \<Rightarrow> nsname" where
  "obj_key (OUnstructured u) = \<lparr>nn_Namespace = GetNamespace u, nn_Name = GetName u\<rparr>"
| "obj_key (ONode n) = \<lparr>nn_Namespace = [], nn_Name = node_Name n\<rparr>"
| "obj_key (OCSR c) = \<lparr>nn_Namespace = [], nn_Name = csr_Name c\<rparr>"
| "obj_key x = (case obj_meta x of
      Some m \<Rightarrow> \<lparr>nn_Namespace = md_Namespace m, nn_Name = md_Name m\<rparr>
    | None \<Rightarrow> \<lparr>nn_Namespace = [], nn_Name = []\<rparr>)"

definition SetComponentLabels_obj :: "string \<Rightarrow> string \<Rightarrow> string \<Rightarrow> kobj \<Rightarrow> kobj" where
  "SetComponentLabels_obj instanceName componentName subcomponentName x =
     (case x of
        OUnstructured u \<Rightarrow> OUnstructured (SetComponentLabels_u instanceName componentName subcomponentName u)
      | _ \<Rightarrow> map_meta (SetComponentLabels instanceName componentName subcomponentName) x)"

section \<open>Components\<close>

text \<open>
  A mutation function closes over the object it changes: here it takes the object as read from the
  server and returns it changed. It may send requests of its own.
\<close>

type_synonym 'w mutate_fn = "kobj \<Rightarrow> 'w io \<Rightarrow> (go_error + kobj) \<times> 'w io"

record 'w Subcomponent =
  subc_Name :: string
  subc_Object :: kobj
  subc_MutateFn :: "'w mutate_fn option"

record 'w Component =
  comp_InstanceName :: string
  comp_Name :: string
  comp_Subcomponents :: "'w Subcomponent list"

definition subcomponentNames :: "'w Component \<Rightarrow> string list" where
  "subcomponentNames c = map subc_Name (comp_Subcomponents c)"

text \<open>A mutation that sends nothing and cannot fail, on the objects of one kind.\<close>

definition pure_mutate :: "(kobj \<Rightarrow> kobj) \<Rightarrow> 'w mutate_fn" where
  "pure_mutate f x io = (Inr (f x), io)"

section \<open>CreateOrPatch\<close>

datatype operation_result = OperationResultNone | OperationResultCreated | OperationResultUpdated

definition mutate :: "'w mutate_fn \<Rightarrow> nsname \<Rightarrow> 'w mutate_fn" where
  "mutate f key x io =
     (case f x io of
        (Inl e, io') \<Rightarrow> (Inl e, io')
      | (Inr x', io') \<Rightarrow>
          if obj_key x' \<noteq> key
          then (Inl (Errorf ''MutateFn cannot mutate object name and/or object namespace''), io')
          else (Inr x', io'))"

text \<open>The answer of a read into a typed object: an object of the same kind.\<close>

definition resp_same_kind :: "kobj \<Rightarrow> response \<Rightarrow> kobj option" where
  "resp_same_kind x r = (case r of
      RespObj y \<Rightarrow> (if obj_kind y = obj_kind x then Some y else None)
    | _ \<Rightarrow> None)"

text \<open>
  The mutation functions of the operator never write a status, so the status patch of the library
  function is not reached and comparing the whole objects is comparing them without status.
\<close>

definition CreateOrPatch ::
    "'w server \<Rightarrow> kobj \<Rightarrow> 'w mutate_fn \<Rightarrow> 'w io \<Rightarrow> (go_error + operation_result) \<times> 'w io" where
  "CreateOrPatch srv obj f io =
     (let key = obj_key obj in
      case request_as srv (resp_same_kind obj) (ReqGet (obj_kind obj) key) io of
        (Inl e, io1) \<Rightarrow>
          if \<not> IsNotFound e then (Inl e, io1)
          else (case mutate f key obj io1 of
              (Inl e, io2) \<Rightarrow> (Inl e, io2)
            | (Inr obj', io2) \<Rightarrow> (case request_as srv resp_unit (ReqCreate obj') io2 of
                  (Inl e, io3) \<Rightarrow> (Inl e, io3)
                | (Inr u, io3) \<Rightarrow> (Inr OperationResultCreated, io3)))
      | (Inr stored, io1) \<Rightarrow>
          (case mutate f key stored io1 of
             (Inl e, io2) \<Rightarrow> (Inl e, io2)
           | (Inr changed, io2) \<Rightarrow>
               if stored \<noteq> changed then
                 (case request_as srv resp_unit (ReqPatch stored changed) io2 of
                    (Inl e, io3) \<Rightarrow> (Inl e, io3)
                  | (Inr u, io3) \<Rightarrow> (Inr OperationResultUpdated, io3))
               else (Inr OperationResultNone, io2)))"

section \<open>Loops of the controller\<close>

definition component_mutate :: "'w Component \<Rightarrow> 'w Subcomponent \<Rightarrow> 'w mutate_fn" where
  "component_mutate c s x io =
     (case (case subc_MutateFn s of None \<Rightarrow> (Inr x, io) | Some f \<Rightarrow> f x io) of
        (Inl e, io') \<Rightarrow> (Inl e, io')
      | (Inr x', io') \<Rightarrow>
          if comp_InstanceName c = []
          then (Inl (Errorf (''component '' @ comp_Name c @ ''/'' @ subc_Name s @ '' has no instance metadata'')), io')
          else (Inr (SetComponentLabels_obj (comp_InstanceName c) (comp_Name c) (subc_Name s) x'), io'))"

text \<open>One iteration; an error is collected and the loop goes on.\<close>

definition reconcile_one :: "'w server \<Rightarrow> 'w Component \<Rightarrow> 'w Subcomponent \<Rightarrow> 'w io \<Rightarrow> check \<times> 'w io" where
  "reconcile_one srv c s io =
     (case CreateOrPatch srv (subc_Object s) (component_mutate c s) io of
        (Inl e, io') \<Rightarrow> (Some e, io')
      | (Inr r, io') \<Rightarrow> (None, io'))"

definition reconcileComponents :: "'w server \<Rightarrow> 'w Component \<Rightarrow> 'w io \<Rightarrow> check \<times> 'w io" where
  "reconcileComponents srv c io =
     (let (results, io') = run_all (reconcile_one srv c) (comp_Subcomponents c) io;
          allErrs = List.map_filter id results
      in (if allErrs = [] then None
          else Some (Errorf (''failed to reconcile components: ['' @ Join (map Error allErrs) '' '' @ '']'')), io'))"

fun is_namespace :: "kobj \<Rightarrow> bool" where
  "is_namespace (ONamespace m) = True"
| "is_namespace _ = False"

definition delete_ignoring_absent :: "'w server \<Rightarrow> kobj \<Rightarrow> 'w io \<Rightarrow> check \<times> 'w io" where
  "delete_ignoring_absent srv x io =
     (case request_as srv resp_unit (ReqDelete x) io of
        (Inl e, io') \<Rightarrow> (if IsNotFound e then None else Some e, io')
      | (Inr u, io') \<Rightarrow> (None, io'))"

definition remove_one :: "'w server \<Rightarrow> 'w Subcomponent \<Rightarrow> 'w io \<Rightarrow> check \<times> 'w io" where
  "remove_one srv s io =
     (if is_namespace (subc_Object s) then (None, io) else delete_ignoring_absent srv (subc_Object s) io)"

definition first_failure :: "check option \<times> 'w io \<Rightarrow> check \<times> 'w io" where
  "first_failure x = (case x of (None, io) \<Rightarrow> (None, io) | (Some c, io) \<Rightarrow> (c, io))"

definition removeComponent :: "'w server \<Rightarrow> 'w Component \<Rightarrow> 'w io \<Rightarrow> check \<times> 'w io" where
  "removeComponent srv c io =
     first_failure (run_until (remove_one srv) (\<lambda>r. r \<noteq> None) (comp_Subcomponents c) io)"

definition removeClusterctlComponents :: "'w server \<Rightarrow> object list \<Rightarrow> 'w io \<Rightarrow> check \<times> 'w io" where
  "removeClusterctlComponents srv objs io =
     first_failure (run_until (\<lambda>u. delete_ignoring_absent srv (OUnstructured u)) (\<lambda>r. r \<noteq> None) objs io)"

section \<open>What the loops send\<close>

fun deletes :: "request \<Rightarrow> bool" where
  "deletes (ReqDelete x) = True"
| "deletes _ = False"

text \<open>Requests of cleanup: deletions of anything but a namespace.\<close>

fun cleanup_request :: "request \<Rightarrow> bool" where
  "cleanup_request (ReqDelete x) = (\<not> is_namespace x)"
| "cleanup_request _ = False"

lemma delete_emits:
  "\<not> is_namespace x \<Longrightarrow> delete_ignoring_absent srv x io = (r, io') \<Longrightarrow> emits (\<lambda>(q, a). cleanup_request q) io io'"
  by (auto simp: delete_ignoring_absent_def split: prod.splits sum.splits intro!: emits_request_as)

lemma remove_one_emits: "remove_one srv s io = (r, io') \<Longrightarrow> emits (\<lambda>(q, a). cleanup_request q) io io'"
  by (auto simp: remove_one_def split: if_splits intro: delete_emits)

interpretation rm: requester "remove_one srv" "\<lambda>s. True" "\<lambda>(q, a). cleanup_request q" for srv :: "'w server"
  by unfold_locales (rule remove_one_emits)

interpretation rmu: requester "\<lambda>u. delete_ignoring_absent srv (OUnstructured u)"
    "\<lambda>u. True" "\<lambda>(q, a). cleanup_request q" for srv :: "'w server"
  by unfold_locales (rule delete_emits, simp_all)

lemma removeComponent_emits:
  "removeComponent srv c io = (r, io') \<Longrightarrow> emits (\<lambda>(q, a). cleanup_request q) io io'"
  by (auto simp: removeComponent_def first_failure_def split: prod.splits option.splits
      intro: rm.run_until_emits simp: list_all_iff)

lemma removeClusterctlComponents_emits:
  "removeClusterctlComponents srv us io = (r, io') \<Longrightarrow> emits (\<lambda>(q, a). cleanup_request q) io io'"
  by (auto simp: removeClusterctlComponents_def first_failure_def split: prod.splits option.splits
      intro: rmu.run_until_emits simp: list_all_iff)

text \<open>A loop that stops at the first failure and one delete request per element.\<close>

definition delete_answered :: "response \<Rightarrow> bool" where
  "delete_answered a = (case a of RespErr e \<Rightarrow> IsNotFound e | _ \<Rightarrow> True)"

lemma delete_log:
  assumes "delete_ignoring_absent srv x io = (r, io')"
  obtains a where "io_log io' = io_log io @ [(ReqDelete x, a)]" and "r = None \<longleftrightarrow> delete_answered a"
proof -
  obtain y where q: "request_as srv resp_unit (ReqDelete x) io = (y, io')"
      and r: "r = (case y of Inl e \<Rightarrow> if IsNotFound e then None else Some e | Inr u \<Rightarrow> None)"
    using assms by (auto simp: delete_ignoring_absent_def split: prod.splits sum.splits)
  from request_as_log [OF q] obtain a where a: "io_log io' = io_log io @ [(ReqDelete x, a)]"
      and y: "y = expect resp_unit a" by blast
  have "r = None \<longleftrightarrow> delete_answered a"
    using r y by (auto simp: expect_def delete_answered_def split: response.splits)
  with a show ?thesis by (rule that)
qed

lemma remove_until_None:
  assumes "run_until (remove_one srv) (\<lambda>r. r \<noteq> None) ss io = (None, io')"
  shows "map fst (sent io io') = map ReqDelete (filter (\<lambda>x. \<not> is_namespace x) (map subc_Object ss)) \<and>
    list_all (\<lambda>(q, a). delete_answered a) (sent io io') \<and> io_log io' = io_log io @ sent io io'"
  using assms
proof (induction ss arbitrary: io)
  case (Cons s ss)
  obtain r io1 where r: "remove_one srv s io = (r, io1)" by (cases "remove_one srv s io")
  with Cons.prems have rest: "run_until (remove_one srv) (\<lambda>r. r \<noteq> None) ss io1 = (None, io')" and n: "r = None"
    by (auto split: if_splits)
  note ih = Cons.IH [OF rest]
  show ?case
  proof (cases "is_namespace (subc_Object s)")
    case True
    with r ih show ?thesis by (auto simp: remove_one_def)
  next
    case False
    with r have "delete_ignoring_absent srv (subc_Object s) io = (r, io1)" by (simp add: remove_one_def)
    then obtain a where a: "io_log io1 = io_log io @ [(ReqDelete (subc_Object s), a)]" "delete_answered a"
      using n by (auto elim: delete_log)
    then have "sent io io' = (ReqDelete (subc_Object s), a) # sent io1 io'"
      using ih by (metis append_Cons append_Nil append_assoc append_eq_conv_conj sent_def)
    with a ih False show ?thesis by auto
  qed
qed (simp add: sent_def)


text \<open>Requests of provisioning: reads, creations, patches and service-account tokens.\<close>

fun provisioning :: "request \<Rightarrow> bool" where
  "provisioning (ReqCreate x) = True"
| "provisioning (ReqPatch x y) = True"
| "provisioning (ReqToken n a e) = True"
| "provisioning q = read_only q"

text \<open>
  A mutation function that only sends what \<open>permitted\<close> allows and whose result stands in the relation \<open>frame\<close> to the
  object it was given; a subcomponent with such a function, if any, and a desired object that is \<open>fresh\<close>.
\<close>

definition behaves :: "(request \<times> response \<Rightarrow> bool) \<Rightarrow> (kobj \<Rightarrow> kobj \<Rightarrow> bool) \<Rightarrow> 'w mutate_fn \<Rightarrow> bool" where
  "behaves permitted frame f \<longleftrightarrow> (\<forall>x io r io'. f x io = (r, io') \<longrightarrow>
     emits permitted io io' \<and> (case r of Inl e \<Rightarrow> True | Inr y \<Rightarrow> frame x y))"

definition sub_behaves ::
    "(request \<times> response \<Rightarrow> bool) \<Rightarrow> (kobj \<Rightarrow> kobj \<Rightarrow> bool) \<Rightarrow> (kobj \<Rightarrow> bool) \<Rightarrow> 'w Subcomponent \<Rightarrow> bool" where
  "sub_behaves permitted frame fresh s \<longleftrightarrow> fresh (subc_Object s) \<and>
     (case subc_MutateFn s of None \<Rightarrow> True | Some f \<Rightarrow> behaves permitted frame f)"

lemma behavesI:
  "(\<And>x io r io'. f x io = (r, io') \<Longrightarrow> emits permitted io io' \<and> (case r of Inl e \<Rightarrow> True | Inr y \<Rightarrow> frame x y)) \<Longrightarrow>
   behaves permitted frame f"
  unfolding behaves_def by (intro allI impI)

lemma behavesD:
  "behaves permitted frame f \<Longrightarrow> f x io = (r, io') \<Longrightarrow>
   emits permitted io io' \<and> (case r of Inl e \<Rightarrow> True | Inr y \<Rightarrow> frame x y)"
  unfolding behaves_def by (elim allE impE)

lemma behaves_pure: "behaves permitted frame (pure_mutate f) \<longleftrightarrow> (\<forall>x. frame x (f x))"
  by (simp add: behaves_def pure_mutate_def)

lemma behaves_mutate:
  assumes "behaves permitted frame f" shows "behaves permitted frame (mutate f key)"
proof (rule behavesI)
  fix x io r io' assume m: "mutate f key x io = (r, io')"
  obtain y io1 where f: "f x io = (y, io1)" by fastforce
  from behavesD [OF assms f] m f show "emits permitted io io' \<and> (case r of Inl e \<Rightarrow> True | Inr y \<Rightarrow> frame x y)"
    by (cases y) (auto simp: mutate_def split: if_splits)
qed

text \<open>
  The contract of provisioning: when reads, creations from a fresh object and patches within the frame are permitted, and
  the component labels stay within the frame, the loop over a component of well-behaved subcomponents sends only what is
  permitted.
\<close>

locale provisioner =
  fixes permitted :: "request \<times> response \<Rightarrow> bool"
    and frame :: "kobj \<Rightarrow> kobj \<Rightarrow> bool"
    and fresh :: "kobj \<Rightarrow> bool"
  assumes permits_reads: "permitted (ReqGet k n, a)"
    and permits_creates: "fresh x \<Longrightarrow> frame x y \<Longrightarrow> permitted (ReqCreate y, a)"
    and permits_patches: "frame x y \<Longrightarrow> permitted (ReqPatch x y, a)"
    and frame_refl: "frame x x"
    and frame_labels: "frame x y \<Longrightarrow> frame x (SetComponentLabels_obj i c l y)"
begin

lemma behaves_component:
  assumes "sub_behaves permitted frame fresh s"
  shows "behaves permitted frame (component_mutate c s)"
proof (rule behavesI)
  fix x io r io' assume m: "component_mutate c s x io = (r, io')"
  show "emits permitted io io' \<and> (case r of Inl e \<Rightarrow> True | Inr y \<Rightarrow> frame x y)"
  proof (cases "subc_MutateFn s")
    case None
    with m show ?thesis by (auto simp: component_mutate_def frame_refl frame_labels split: if_splits)
  next
    case (Some f)
    with assms have f: "behaves permitted frame f" by (simp add: sub_behaves_def)
    obtain y io1 where y: "f x io = (y, io1)" by fastforce
    from behavesD [OF f y] m y Some show ?thesis
      by (cases y) (auto simp: component_mutate_def frame_labels split: if_splits)
  qed
qed

lemma CreateOrPatch_permitted:
  assumes f: "behaves permitted frame f" and "fresh obj" and c: "CreateOrPatch srv obj f io = (r, io')"
  shows "emits permitted io io'"
proof -
  obtain x io1 where x: "request_as srv (resp_same_kind obj) (ReqGet (obj_kind obj) (obj_key obj)) io = (x, io1)" by fastforce
  then have e1: "emits permitted io io1" by (rule emits_request_as) (rule permits_reads)
  have m: "emits permitted io1 io2 \<and> (case z of Inl e \<Rightarrow> True | Inr y' \<Rightarrow> frame y y')"
    if "mutate f (obj_key obj) y io1 = (z, io2)" for y z io2
    using behaves_mutate [OF f] that by (rule behavesD)
  have w: "emits permitted io2 io3" if "request_as srv resp_unit q io2 = (y, io3)" "\<And>a. permitted (q, a)" for q y io2 io3
    using that by (rule emits_request_as)
  show ?thesis
  proof (cases x)
    case (Inl e)
    obtain y io2 where y: "mutate f (obj_key obj) obj io1 = (y, io2)" by fastforce
    from m [OF y] c x Inl y e1 assms(2) show ?thesis
      by (cases y) (auto simp: CreateOrPatch_def split: if_splits prod.splits sum.splits
          dest!: w intro: permits_creates emits_trans)
  next
    case (Inr stored)
    obtain y io2 where y: "mutate f (obj_key obj) stored io1 = (y, io2)" by fastforce
    from m [OF y] c x Inr y e1 show ?thesis
      by (cases y) (auto simp: CreateOrPatch_def split: if_splits prod.splits sum.splits
          dest!: w intro: permits_patches emits_trans)
  qed
qed

lemma reconcile_one_permitted:
  "sub_behaves permitted frame fresh s \<Longrightarrow> reconcile_one srv c s io = (r, io') \<Longrightarrow> emits permitted io io'"
  by (auto simp: reconcile_one_def sub_behaves_def split: prod.splits sum.splits
      intro: CreateOrPatch_permitted behaves_component [unfolded sub_behaves_def])

sublocale run: requester "reconcile_one srv c" "sub_behaves permitted frame fresh" permitted
  for srv :: "'w server" and c :: "'w Component"
  by unfold_locales (rule reconcile_one_permitted)

lemma reconcileComponents_permitted:
  "list_all (sub_behaves permitted frame fresh) (comp_Subcomponents c) \<Longrightarrow> reconcileComponents srv c io = (r, io') \<Longrightarrow>
   emits permitted io io'"
  by (auto simp: reconcileComponents_def Let_def split: prod.splits intro: run.run_all_emits)

end

text \<open>The first contract: a mutation function may do anything to its object but sends requests of provisioning only.\<close>

definition polite :: "'w mutate_fn \<Rightarrow> bool" where
  "polite f \<longleftrightarrow> (\<forall>x io r io'. f x io = (r, io') \<longrightarrow> emits (\<lambda>(q, a). provisioning q) io io')"

definition polite_sub :: "'w Subcomponent \<Rightarrow> bool" where
  "polite_sub s \<longleftrightarrow> (\<forall>f. subc_MutateFn s = Some f \<longrightarrow> polite f)"

lemma politeD: "polite f \<Longrightarrow> f x io = (r, io') \<Longrightarrow> emits (\<lambda>(q, a). provisioning q) io io'"
  by (simp add: polite_def)

lemma polite_pure [simp]: "polite (pure_mutate f)"
  by (simp add: polite_def pure_mutate_def)

lemma polite_behaves: "behaves (\<lambda>(q, a). provisioning q) (\<lambda>x y. True) f = polite f"
  by (auto simp: behaves_def polite_def split: sum.split)

lemma polite_sub_behaves: "sub_behaves (\<lambda>(q, a). provisioning q) (\<lambda>x y. True) (\<lambda>x. True) s = polite_sub s"
  by (auto simp: sub_behaves_def polite_sub_def polite_behaves split: option.split)

interpretation prov: provisioner "\<lambda>(q, a). provisioning q" "\<lambda>x y. True" "\<lambda>x. True"
  by unfold_locales simp_all

lemmas polite_mutate = behaves_mutate [of "\<lambda>(q, a). provisioning q" "\<lambda>x y. True", unfolded polite_behaves]

lemmas polite_component = prov.behaves_component [unfolded polite_sub_behaves polite_behaves]

lemmas reconcile_one_emits = prov.reconcile_one_permitted [unfolded polite_sub_behaves]

lemma read_only_provisioning: "read_only q \<Longrightarrow> provisioning q"
  by (cases q) auto

interpretation rec: requester "reconcile_one srv c" polite_sub "\<lambda>(q, a). provisioning q"
    for srv :: "'w server" and c :: "'w Component"
  by unfold_locales (rule reconcile_one_emits)

lemmas reconcileComponents_emits = prov.reconcileComponents_permitted [unfolded polite_sub_behaves]

text \<open>Each iteration begins by reading its object.\<close>

lemma reconcile_one_reads:
  assumes "polite_sub s" and "reconcile_one srv c s io = (r, io')"
  shows "\<exists>a. (ReqGet (obj_kind (subc_Object s)) (obj_key (subc_Object s)), a) \<in> set (sent io io')"
proof -
  let ?q = "ReqGet (obj_kind (subc_Object s)) (obj_key (subc_Object s))"
  obtain x io1 where x: "request_as srv (resp_same_kind (subc_Object s)) ?q io = (x, io1)"
    by (cases "request_as srv (resp_same_kind (subc_Object s)) ?q io")
  from request_as_log [OF this] obtain a where a: "io_log io1 = io_log io @ [(?q, a)]" by blast
  have "\<exists>r. (reconcile_one srv c s io = (r, io')) \<and> emits (\<lambda>(q, a). provisioning q) io1 io'"
  proof -
    have m: "emits (\<lambda>(q, a). provisioning q) io1 io2" if "mutate (component_mutate c s) k y io1 = (z, io2)" for k y z io2
      using polite_mutate [OF polite_component [OF assms(1)]] that by (rule politeD)
    have w: "emits (\<lambda>(q, a). provisioning q) io2 io3"
      if "request_as srv resp_unit q io2 = (y, io3)" "provisioning q" for q y io2 io3
      using that by (auto intro: emits_request_as)
    show ?thesis using assms(2) x
      by (auto simp: reconcile_one_def CreateOrPatch_def Let_def split: sum.splits prod.splits if_splits
          dest!: m w intro: emits_trans)
  qed
  with a show ?thesis by (auto simp: emits_def sent_def)
qed


lemma remove_until_Some:
  assumes "run_until (remove_one srv) (\<lambda>r. r \<noteq> None) ss io = (Some r, io')"
  shows "\<exists>e x log. r = Some e \<and> \<not> IsNotFound e \<and> x \<in> set (map subc_Object ss) \<and>
    io_log io' = io_log io @ log @ [(ReqDelete x, RespErr e)]"
  using assms
proof (induction ss arbitrary: io)
  case (Cons s ss)
  obtain r1 io1 where r1: "remove_one srv s io = (r1, io1)" by (cases "remove_one srv s io")
  show ?case
  proof (cases r1)
    case None
    with Cons.prems r1 have "run_until (remove_one srv) (\<lambda>r. r \<noteq> None) ss io1 = (Some r, io')" by simp
    from Cons.IH [OF this] rm.act_emits [OF _ r1] show ?thesis by (auto simp: emits_def)
  next
    case (Some e)
    with Cons.prems r1 have r: "r = Some e" "io' = io1" by auto
    from r1 Some obtain y where q: "request_as srv resp_unit (ReqDelete (subc_Object s)) io = (Inl e, io1)"
        and "\<not> IsNotFound e"
      by (auto simp: remove_one_def delete_ignoring_absent_def split: if_splits prod.splits sum.splits)
    moreover from request_as_log [OF q] have "io_log io1 = io_log io @ [(ReqDelete (subc_Object s), RespErr e)]"
      by (metis expect_unit_Inl)
    ultimately show ?thesis using r by auto
  qed
qed simp

section \<open>Properties\<close>

text \<open>
  Cleanup of a component: it sends deletions only, never of a namespace. When it reports success,
  every object of the component that is not a namespace was sent a deletion, in order, and each
  was deleted or already absent; when it reports an error, that error is the server's answer to
  the last deletion and is not "not found".
\<close>

theorem removeComponent_outcome:
  "case removeComponent srv c io of (r, io') \<Rightarrow>
     list_all (\<lambda>(q, a). cleanup_request q) (sent io io') \<and>
     (case r of
        None \<Rightarrow> map fst (sent io io') =
            map ReqDelete (filter (\<lambda>x. \<not> is_namespace x) (map subc_Object (comp_Subcomponents c))) \<and>
          list_all (\<lambda>(q, a). delete_answered a) (sent io io')
      | Some e \<Rightarrow> \<not> IsNotFound e \<and> sent io io' \<noteq> [] \<and> snd (last (sent io io')) = RespErr e)"
proof -
  obtain r io' where r: "removeComponent srv c io = (r, io')" by (cases "removeComponent srv c io")
  have 1: "list_all (\<lambda>(q, a). cleanup_request q) (sent io io')"
    using removeComponent_emits [OF r] by (auto simp: emits_def sent_def)
  obtain x where x: "run_until (remove_one srv) (\<lambda>r. r \<noteq> None) (comp_Subcomponents c) io = (x, io')"
      and rx: "r = (case x of None \<Rightarrow> None | Some y \<Rightarrow> y)"
    using r by (auto simp: removeComponent_def first_failure_def split: prod.splits option.splits)
  show ?thesis
  proof (cases x)
    case None
    with 1 x rx remove_until_None [of srv "comp_Subcomponents c" io io'] r show ?thesis by simp
  next
    case (Some y)
    from remove_until_Some [OF x [unfolded Some]] obtain e z log where
      "y = Some e" "\<not> IsNotFound e" "io_log io' = io_log io @ log @ [(ReqDelete z, RespErr e)]" by blast
    with 1 Some rx r show ?thesis by (simp add: sent_def)
  qed
qed

text \<open>
  Provisioning of a component: when its mutation functions only read, create, patch or request
  tokens, so does the whole loop (it never deletes), and every object of the component is looked at,
  also those after one that failed.
\<close>

theorem reconcileComponents_visits_all:
  assumes "list_all polite_sub (comp_Subcomponents c)" and "reconcileComponents srv c io = (r, io')"
  shows "list_all (\<lambda>(q, a). provisioning q) (sent io io') \<and>
    (\<forall>s \<in> set (comp_Subcomponents c).
       \<exists>a. (ReqGet (obj_kind (subc_Object s)) (obj_key (subc_Object s)), a) \<in> set (sent io io'))"
proof -
  obtain rs where rs: "run_all (reconcile_one srv c) (comp_Subcomponents c) io = (rs, io')"
    using assms(2) by (auto simp: reconcileComponents_def Let_def split: prod.splits)
  have "\<exists>a. (ReqGet (obj_kind (subc_Object s)) (obj_key (subc_Object s)), a) \<in> set (sent io io')"
    if s: "s \<in> set (comp_Subcomponents c)" for s
  proof -
    from s obtain i where i: "i < length (comp_Subcomponents c)" "s = comp_Subcomponents c ! i"
      by (auto simp: in_set_conv_nth)
    from rec.run_all_visits [OF assms(1) rs i(1)] obtain io1 io2 where
      e: "emits (\<lambda>(q, a). provisioning q) io io1" "emits (\<lambda>(q, a). provisioning q) io2 io'"
      and s1: "reconcile_one srv c s io1 = (rs ! i, io2)" using i by metis
    from assms(1) s have p: "polite_sub s" by (auto simp: list_all_iff)
    from reconcile_one_reads [OF p s1] reconcile_one_emits [OF p s1] e show ?thesis
      by (auto simp: emits_def sent_def)
  qed
  moreover have "list_all (\<lambda>(q, a). provisioning q) (sent io io')"
    using reconcileComponents_emits [OF assms] by (auto simp: emits_def sent_def)
  ultimately show ?thesis by blast
qed

definition sample_component :: "unit Component" where
  "sample_component = \<lparr>comp_InstanceName = ''a'', comp_Name = ''CAPI'', comp_Subcomponents =
     [\<lparr>subc_Name = ''one'', subc_Object = ONamespace (new_meta [] ''n1''), subc_MutateFn = Some (pure_mutate id)\<rparr>,
      \<lparr>subc_Name = ''two'', subc_Object = ONamespace (new_meta [] ''n2''), subc_MutateFn = None\<rparr>]\<rparr>"

theorem reconcileComponents_visits_all_witness:
  "let srv = const_server (RespErr (StatusError OtherReason ''down''));
       io' = snd (reconcileComponents srv sample_component (start_io ()))
   in \<exists>a. (ReqGet ''v1/Namespace'' \<lparr>nn_Namespace = [], nn_Name = ''n2''\<rparr>, a) \<in> set (sent (start_io ()) io')"
proof -
  let ?srv = "const_server (RespErr (StatusError OtherReason ''down''))"
  have p: "list_all polite_sub (comp_Subcomponents sample_component)"
    by (simp add: sample_component_def polite_sub_def)
  let ?s = "\<lparr>subc_Name = ''two'', subc_Object = ONamespace (new_meta [] ''n2''), subc_MutateFn = None\<rparr> :: unit Subcomponent"
  have "?s \<in> set (comp_Subcomponents sample_component)" by (simp add: sample_component_def)
  with reconcileComponents_visits_all [OF p surjective_pairing, where srv = ?srv and io = "start_io ()"] have
    "\<exists>a. (ReqGet (obj_kind (subc_Object ?s)) (obj_key (subc_Object ?s)), a) \<in>
      set (sent (start_io ()) (snd (reconcileComponents ?srv sample_component (start_io ()))))" by blast
  then show ?thesis by (simp only: Let_def) (simp add: new_meta_def)
qed

text \<open>
  Reconciliation comes to rest: an object that already is the result of an idempotent mutation is
  read and left alone.
\<close>

theorem CreateOrPatch_converges:
  assumes "\<And>x. f (f x) = f x"
    and "srv_handle srv (ReqGet (obj_kind obj) (obj_key obj)) (io_world io) = (RespObj (f x), w)"
    and "obj_kind (f x) = obj_kind obj" and "obj_key (f x) = obj_key obj"
  shows "CreateOrPatch srv obj (pure_mutate f) io =
    (Inr OperationResultNone,
     io\<lparr>io_world := w, io_log := io_log io @ [(ReqGet (obj_kind obj) (obj_key obj), RespObj (f x))]\<rparr>)"
  using assms
  by (simp add: CreateOrPatch_def request_as_def call_def expect_def resp_same_kind_def mutate_def pure_mutate_def)

theorem CreateOrPatch_converges_witness:
  "fst (CreateOrPatch (const_server (RespObj (ONamespace (SetDefaultLabels ''a'' (new_meta [] ''n'')))))
      (ONamespace (new_meta [] ''n'')) (pure_mutate (map_meta (SetDefaultLabels ''a''))) (start_io ())) =
   Inr OperationResultNone"
proof -
  have i: "map_meta (SetDefaultLabels ''a'') (map_meta (SetDefaultLabels ''a'') x) = map_meta (SetDefaultLabels ''a'') x" for x
    by (cases x) (simp_all add: o_def)
  show ?thesis
    by (subst CreateOrPatch_converges [where x = "ONamespace (new_meta [] ''n'')" and w = "()", OF i])
      (simp_all add: const_server_def SetDefaultLabels_def new_meta_def)
qed

end
