(* ===== verification/Providers.thy ===== *)
theory Providers
  imports Config Components
begin

text \<open>
  Provider manifests: versions, references and required contents
  (\<open>internal/utils/clusterctl.go\<close>), and the adaptation of the generated objects to OpenShift
  (\<open>internal/components/capi/capi.go\<close>, \<open>capoci/capoci.go\<close>, \<open>crds/crds.go\<close>). The clusterctl library,
  which downloads the manifests, is a parameter.
\<close>

section \<open>Versions\<close>

text \<open>
  The regular expression \<open>^v\d+\.\d+\.\d+(-[0-9A-Za-z.-]+)?$\<close> as a recogniser: a digit run is taken
  greedily, which loses nothing because what must follow it is not a digit.
\<close>

definition eat_digits :: "string \<Rightarrow> string option" where
  "eat_digits s = (if takeWhile ascii_digit s = [] then None else Some (dropWhile ascii_digit s))"

definition eat_char :: "char \<Rightarrow> string \<Rightarrow> string option" where
  "eat_char c s = (case s of [] \<Rightarrow> None | x # xs \<Rightarrow> if x = c then Some xs else None)"

definition prerelease_byte :: "char \<Rightarrow> bool" where
  "prerelease_byte c \<longleftrightarrow> ascii_digit c \<or> ascii_letter c \<or> c = CHR ''.'' \<or> c = CHR ''-''"

definition version_tail :: "string \<Rightarrow> bool" where
  "version_tail s \<longleftrightarrow> (case s of [] \<Rightarrow> True | c # cs \<Rightarrow> c = CHR ''-'' \<and> cs \<noteq> [] \<and> list_all prerelease_byte cs)"

definition providerVersionPattern :: "string \<Rightarrow> bool" where
  "providerVersionPattern s \<longleftrightarrow>
     (case Option.bind (Option.bind (Option.bind (Option.bind (Option.bind
         (eat_char (CHR ''v'') s) eat_digits) (eat_char (CHR ''.''))) eat_digits) (eat_char (CHR ''.''))) eat_digits of
        None \<Rightarrow> False | Some r \<Rightarrow> version_tail r)"

definition ValidateProviderVersion :: "string \<Rightarrow> check" where
  "ValidateProviderVersion version =
     (let trimmed = TrimSpace version in
      if trimmed = [] then Some (Errorf ''provider version must not be empty'')
      else if \<not> providerVersionPattern trimmed then
        Some (Errorf (''provider version '' @ Quote trimmed @ '' must match vMAJOR.MINOR.PATCH (optionally with prerelease)''))
      else None)"

section \<open>Provider references\<close>

definition coreProviderName :: string where [go_const]: "coreProviderName = ''cluster-api''"
definition infrastructureOCIProviderName :: string where [go_const]: "infrastructureOCIProviderName = ''oci''"
definition CoreProviderType :: string where [go_const]: "CoreProviderType = ''CoreProvider''"
definition InfrastructureProviderType :: string where [go_const]: "InfrastructureProviderType = ''InfrastructureProvider''"

definition requiresExplicitProviderVersion :: "string \<Rightarrow> string \<Rightarrow> bool" where
  "requiresExplicitProviderVersion provider providerType \<longleftrightarrow>
     (provider = coreProviderName \<and> providerType = CoreProviderType) \<or>
     (provider = infrastructureOCIProviderName \<and> providerType = InfrastructureProviderType)"

definition ProviderWithVersion :: "string \<Rightarrow> string \<Rightarrow> string" where
  "ProviderWithVersion provider providerVersion =
     (if TrimSpace providerVersion = [] then provider else provider @ '':'' @ providerVersion)"

definition providerRef :: "string \<Rightarrow> string \<Rightarrow> string \<Rightarrow> go_error + string" where
  "providerRef provider providerType versionOverride =
     (let version = TrimSpace versionOverride in
      if requiresExplicitProviderVersion provider providerType then
        (if version = [] then
           Inl (Errorf (''provider version is required for '' @ provider @ '' '' @ providerType @
             ''; set CAPI_VERSION or CAPOCI_VERSION''))
         else case ValidateProviderVersion version of
             Some e \<Rightarrow> Inl e
           | None \<Rightarrow> Inr (provider @ '':'' @ version))
      else if version = [] then Inr provider
      else case ValidateProviderVersion version of
          Some e \<Rightarrow> Inl e
        | None \<Rightarrow> Inr (provider @ '':'' @ version))"

section \<open>Required contents\<close>

definition kindKey :: "string \<Rightarrow> string" where
  "kindKey kind = kind"

definition namespacedKindKey :: "string \<Rightarrow> string \<Rightarrow> string" where
  "namespacedKindKey kind namespace = kind @ ''/'' @ namespace"

text \<open>The keys and descriptions of \<open>requiredKinds\<close> and \<open>requiredCRDs\<close>, or none for another provider.\<close>

definition requirements ::
    "string \<Rightarrow> string \<Rightarrow> string \<Rightarrow> ((string \<times> string) list \<times> (string \<times> string) list) option" where
  "requirements provider providerType namespace =
     (let namespaced = (TrimSpace namespace \<noteq> []) in
      if provider = coreProviderName \<and> providerType = CoreProviderType then Some
        ((if namespaced then
            [(namespacedKindKey ''Deployment'' namespace, ''core provider deployment''),
             (namespacedKindKey ''Service'' namespace, ''core provider service'')] else []) @
         [(kindKey ''ValidatingWebhookConfiguration'', ''core provider validating webhook''),
          (kindKey ''MutatingWebhookConfiguration'', ''core provider mutating webhook'')],
         [(''clusters.cluster.x-k8s.io'', ''Cluster API Cluster CRD''),
          (''machinedeployments.cluster.x-k8s.io'', ''Cluster API MachineDeployment CRD'')])
      else if provider = infrastructureOCIProviderName \<and> providerType = InfrastructureProviderType then Some
        ((if namespaced then
            [(namespacedKindKey ''Deployment'' namespace, ''CAPOCI deployment''),
             (namespacedKindKey ''Service'' namespace, ''CAPOCI service'')] else []) @
         [(kindKey ''ValidatingWebhookConfiguration'', ''CAPOCI validating webhook''),
          (kindKey ''MutatingWebhookConfiguration'', ''CAPOCI mutating webhook'')],
         [(''ociclusters.infrastructure.cluster.x-k8s.io'', ''CAPOCI OCICluster CRD''),
          (''ocimachinetemplates.infrastructure.cluster.x-k8s.io'', ''CAPOCI OCIMachineTemplate CRD'')])
      else None)"

definition seenKinds :: "string \<Rightarrow> object list \<Rightarrow> string set" where
  "seenKinds namespace objs = set (concat (map (\<lambda>obj. kindKey (GetKind obj) #
     (if GetNamespace obj = namespace then [namespacedKindKey (GetKind obj) namespace] else [])) objs))"

definition seenCRDs :: "object list \<Rightarrow> string set" where
  "seenCRDs objs = set (map GetName (filter (\<lambda>obj. GetKind obj = ''CustomResourceDefinition'') objs))"

text \<open>
  The checks range over maps, in no fixed order: which missing entry is reported is the first of the
  lists here, whether one is reported does not depend on the order.
\<close>

definition missing_component :: "string \<Rightarrow> string \<Rightarrow> string \<times> string \<Rightarrow> go_error" where
  "missing_component provider providerType req = (case req of (key, description) \<Rightarrow>
     Errorf (''generated '' @ provider @ '' '' @ providerType @ '' components are missing '' @ description @
       '' ('' @ key @ ''); review provider version compatibility before deploying''))"

definition ValidateGeneratedProviderComponents :: "string \<Rightarrow> string \<Rightarrow> string \<Rightarrow> object list \<Rightarrow> check" where
  "ValidateGeneratedProviderComponents provider providerType namespace objs =
     (case requirements provider providerType namespace of
        None \<Rightarrow> None
      | Some (kinds, crds) \<Rightarrow>
          (case find (\<lambda>(key, d). key \<notin> seenKinds namespace objs) kinds of
             Some r \<Rightarrow> Some (missing_component provider providerType r)
           | None \<Rightarrow> (case find (\<lambda>(key, d). key \<notin> seenCRDs objs) crds of
                 Some r \<Rightarrow> Some (missing_component provider providerType r)
               | None \<Rightarrow> None)))"

text \<open>The provider versions the operator is configured with.\<close>

record ProviderConfig =
  pc_CAPIVersion :: string
  pc_CAPOCIVersion :: string
  pc_Version :: string

text \<open>The clusterctl client: creating it may fail, and so may fetching components.\<close>

record clusterctl =
  ctl_New :: check
  ctl_GetProviderComponents :: "string \<Rightarrow> string \<Rightarrow> string \<Rightarrow> go_error + object list"

definition GenerateCAPIComponents ::
    "clusterctl \<Rightarrow> string \<Rightarrow> string \<Rightarrow> string \<Rightarrow> string \<Rightarrow> go_error + object list" where
  "GenerateCAPIComponents ctl provider providerType namespace versionOverride =
     (case providerRef provider providerType versionOverride of
        Inl e \<Rightarrow> Inl e
      | Inr ref \<Rightarrow> (case ctl_New ctl of
            Some e \<Rightarrow> Inl (Wrapf ''error creating clusterctl client: '' e)
          | None \<Rightarrow> (case ctl_GetProviderComponents ctl ref providerType namespace of
                Inl e \<Rightarrow> Inl (Wrapf ''error getting provider components: '' e)
              | Inr objs \<Rightarrow> (case ValidateGeneratedProviderComponents provider providerType namespace objs of
                    Some e \<Rightarrow> Inl e
                  | None \<Rightarrow> Inr objs))))"

section \<open>Adapting the objects\<close>

definition componentNameCAPI :: string where [go_const]: "componentNameCAPI = ''CAPI''"
definition componentNameCAPOCI :: string where [go_const]: "componentNameCAPOCI = ''CAPOCI''"

definition skipped_kinds :: "string list" where
  "skipped_kinds = [''Certificate'', ''Issuer'', ''Namespace'', ''Secret'', ''CustomResourceDefinition'']"

definition webhook_kinds :: "string list" where
  "webhook_kinds = [''ValidatingWebhookConfiguration'', ''MutatingWebhookConfiguration'']"

text \<open>Rewriting a deployment's certificate volume; the callers drop the error and keep the object.\<close>

definition edit_certs :: "'r scheme \<Rightarrow> object \<Rightarrow> string \<Rightarrow> object" where
  "edit_certs scheme obj secretName = (case EditDeploymentCerts scheme obj secretName of Inl e \<Rightarrow> obj | Inr obj' \<Rightarrow> obj')"

text \<open>The loop over the generated objects: an object is kept (changed), skipped, or an error ends it.\<close>

fun adapt_all :: "(object \<Rightarrow> go_error + object option) \<Rightarrow> object list \<Rightarrow> go_error + object list" where
  "adapt_all f [] = Inr []"
| "adapt_all f (x # xs) = (case f x of
      Inl e \<Rightarrow> Inl e
    | Inr y \<Rightarrow> (case adapt_all f xs of
          Inl e \<Rightarrow> Inl e
        | Inr ys \<Rightarrow> Inr (case y of None \<Rightarrow> ys | Some z \<Rightarrow> z # ys)))"

definition capi_adapt :: "string \<Rightarrow> string \<Rightarrow> string \<Rightarrow> string \<Rightarrow> 'r scheme \<Rightarrow> object \<Rightarrow> go_error + object option" where
  "capi_adapt instanceName deploymentName serviceAccountName webhookServiceName scheme component0 =
     (let component = SetComponentLabels_u instanceName componentNameCAPI (GetKind component0) component0;
          kind = GetKind component
      in if kind = ''Service'' then Inr (Some (SetOpenshiftServiceCertAnnotation component webhookServiceName))
         else if kind \<in> set webhook_kinds then Inr (Some (SetOpenshiftCABundleAnnotation component))
         else if kind = ''Deployment'' then Inr (Some (SetName (edit_certs scheme component webhookServiceName) deploymentName))
         else if kind = ''ServiceAccount'' then
           Inr (Some (SetName (SetComponentLabels_u instanceName componentNameCAPI kind component) serviceAccountName))
         else if kind \<in> set skipped_kinds then Inr None
         else Inr (Some component))"

definition GetClusterctlComponents_capi ::
    "clusterctl \<Rightarrow> string \<Rightarrow> string \<Rightarrow> string \<Rightarrow> OCIClusterAutoscaler \<Rightarrow> string \<Rightarrow> 'r scheme \<Rightarrow> string \<Rightarrow>
     go_error + object list" where
  "GetClusterctlComponents_capi ctl deploymentName serviceAccountName capiSystemNamespace autoscaler
     webhookServiceName scheme providerVersion =
     (case GenerateCAPIComponents ctl coreProviderName CoreProviderType capiSystemNamespace providerVersion of
        Inl e \<Rightarrow> Inl e
      | Inr components \<Rightarrow>
          adapt_all (capi_adapt (oca_Name autoscaler) deploymentName serviceAccountName webhookServiceName scheme) components)"

definition GetClusterctlComponents_crds :: "clusterctl \<Rightarrow> string \<Rightarrow> string \<Rightarrow> string \<Rightarrow> go_error + object list" where
  "GetClusterctlComponents_crds ctl provider providerType providerVersion =
     (case GenerateCAPIComponents ctl provider providerType [] providerVersion of
        Inl e \<Rightarrow> Inl (Wrapf ''error generating CAPI components: '' e)
      | Inr components \<Rightarrow> Inr (map SetOpenshiftCABundleAnnotation
          (filter (\<lambda>c. GetKind c = ''CustomResourceDefinition'') components)))"

section \<open>Credentials\<close>

record CAPOCICredentials =
  cred_TenancyID :: string
  cred_UserID :: string
  cred_Region :: string
  cred_Fingerprint :: string
  cred_PrivateKey :: string
  cred_UseInstancePrincipal :: string
  cred_Passphrase :: string

text \<open>\<open>strconv.ParseBool\<close>.\<close>

definition ParseBool :: "string \<Rightarrow> bool option" where
  "ParseBool s =
     (if s \<in> set [''1'', ''t'', ''T'', ''true'', ''TRUE'', ''True''] then Some True
      else if s \<in> set [''0'', ''f'', ''F'', ''false'', ''FALSE'', ''False''] then Some False
      else None)"

definition parseUseInstancePrincipal :: "string \<Rightarrow> go_error + bool" where
  "parseUseInstancePrincipal value = (case ParseBool (TrimSpace value) of
      None \<Rightarrow> Inl (Errorf (''invalid OCI_USE_INSTANCE_PRINCIPAL '' @ Quote value @ '': must be true or false''))
    | Some b \<Rightarrow> Inr b)"

definition UsesInstancePrincipal :: "CAPOCICredentials option \<Rightarrow> bool" where
  "UsesInstancePrincipal c = (case c of None \<Rightarrow> False
    | Some cr \<Rightarrow> (case parseUseInstancePrincipal (cred_UseInstancePrincipal cr) of Inl e \<Rightarrow> False | Inr b \<Rightarrow> b))"

definition requireCredentialValues :: "string \<Rightarrow> (string \<times> string) list \<Rightarrow> check" where
  "requireCredentialValues mode values =
     (let missing = map fst (filter (\<lambda>(name, value). TrimSpace value = []) values) in
      if missing = [] then None else Some (Errorf (mode @ '' requires '' @ Join missing '', '')))"

definition Validate_credentials :: "CAPOCICredentials option \<Rightarrow> check" where
  "Validate_credentials c0 = (case c0 of
      None \<Rightarrow> Some (Errorf ''CAPOCI credentials are required'')
    | Some c \<Rightarrow> (case parseUseInstancePrincipal (cred_UseInstancePrincipal c) of
          Inl e \<Rightarrow> Some e
        | Inr useInstancePrincipal \<Rightarrow>
            if useInstancePrincipal
            then requireCredentialValues ''instance-principal auth'' [(''OCI_REGION'', cred_Region c)]
            else requireCredentialValues ''key-based auth''
              [(''OCI_TENANCY_ID'', cred_TenancyID c), (''OCI_USER_ID'', cred_UserID c), (''OCI_REGION'', cred_Region c),
               (''OCI_CREDENTIALS_FINGERPRINT'', cred_Fingerprint c), (''OCI_CREDENTIALS_KEY'', cred_PrivateKey c)]))"

definition authConfigData :: "CAPOCICredentials option \<Rightarrow> string gomap" where
  "authConfigData auth0 = (case auth0 of
      None \<Rightarrow> fmempty
    | Some auth \<Rightarrow>
        let data = fmupd ''useInstancePrincipal'' (cred_UseInstancePrincipal auth) (fmupd ''region'' (cred_Region auth) fmempty)
        in if UsesInstancePrincipal auth0 then data
           else let data = fmupd ''key'' (cred_PrivateKey auth) (fmupd ''fingerprint'' (cred_Fingerprint auth)
                  (fmupd ''user'' (cred_UserID auth) (fmupd ''tenancy'' (cred_TenancyID auth) data)))
             in if TrimSpace (cred_Passphrase auth) \<noteq> [] then fmupd ''passphrase'' (cred_Passphrase auth) data else data)"

section \<open>CAPOCI startup arguments\<close>

definition enableIMDSArgPrefix :: string where
  [go_const]: "enableIMDSArgPrefix = ''--enable-instance-metadata-service-lookup=''"
definition initOCIClientsOnStartupArgPrefix :: string where
  [go_const]: "initOCIClientsOnStartupArgPrefix = ''--init-oci-clients-on-startup=''"

definition has_arg_prefix :: "string \<Rightarrow> json \<Rightarrow> bool" where
  "has_arg_prefix p a = (case a of JStr s \<Rightarrow> HasPrefix s p | _ \<Rightarrow> False)"

fun setOrReplaceArg :: "json list \<Rightarrow> string \<Rightarrow> string \<Rightarrow> json list" where
  "setOrReplaceArg [] p value = [JStr (p @ value)]"
| "setOrReplaceArg (a # as) p value =
     (if has_arg_prefix p a then JStr (p @ value) # as else a # setOrReplaceArg as p value)"

text \<open>The verb \<open>%T\<close> on a JSON value.\<close>

fun json_type :: "json \<Rightarrow> string" where
  "json_type JNil = ''<nil>''"
| "json_type (JBool b) = ''bool''"
| "json_type (JInt i) = ''int64''"
| "json_type (JFloat f) = ''float64''"
| "json_type (JStr s) = ''string''"
| "json_type (JBytes s) = ''[]uint8''"
| "json_type (JList l) = ''[]interface {}''"
| "json_type (JMap m) = ''map[string]interface {}''"

definition startup_args :: "CAPOCICredentials option \<Rightarrow> json list \<Rightarrow> json list" where
  "startup_args auth args =
     (let useIMDS = UsesInstancePrincipal auth;
          args = setOrReplaceArg args enableIMDSArgPrefix (show_bool useIMDS)
      in if useIMDS then setOrReplaceArg args initOCIClientsOnStartupArgPrefix (show_bool False) else args)"

abbreviation pod_spec :: "string \<Rightarrow> string list" where
  "pod_spec f \<equiv> [''spec'', ''template'', ''spec'', f]"

definition setStartupArgs :: "object \<Rightarrow> CAPOCICredentials option \<Rightarrow> bool \<Rightarrow> go_error + object" where
  "setStartupArgs component auth useHostNetwork =
     (if auth = None then Inr component
      else case NestedSlice component (pod_spec ''containers'') of
        Inl e \<Rightarrow> Inl (Wrapf ''failed to read deployment containers: '' e)
      | Inr None \<Rightarrow> Inl (Errorf ''deployment is missing containers'')
      | Inr (Some []) \<Rightarrow> Inl (Errorf ''deployment is missing containers'')
      | Inr (Some (c # cs)) \<Rightarrow> (case c of
          JMap container \<Rightarrow> (case NestedSlice container [''args''] of
              Inl e \<Rightarrow> Inl (Wrapf ''failed to read deployment args: '' e)
            | Inr args0 \<Rightarrow>
                let args = startup_args auth (case args0 of None \<Rightarrow> [] | Some as \<Rightarrow> as) in
                case SetNestedSlice container args [''args''] of
                  Inl e \<Rightarrow> Inl (Wrapf ''failed to set deployment args: '' e)
                | Inr container' \<Rightarrow>
                    (case SetNestedSlice component (JMap container' # cs) (pod_spec ''containers'') of
                       Inl e \<Rightarrow> Inl (Wrapf ''failed to write deployment containers: '' e)
                     | Inr component1 \<Rightarrow>
                         (case SetNestedField component1 (JBool useHostNetwork) (pod_spec ''hostNetwork'') of
                            Inl e \<Rightarrow> Inl (Wrapf ''failed to set hostNetwork: '' e)
                          | Inr component2 \<Rightarrow>
                              (case SetNestedField component2
                                  (JStr (if useHostNetwork then ''ClusterFirstWithHostNet'' else ''ClusterFirst''))
                                  (pod_spec ''dnsPolicy'') of
                                 Inl e \<Rightarrow> Inl (Wrapf ''failed to set dnsPolicy: '' e)
                               | Inr component3 \<Rightarrow> Inr component3))))
        | _ \<Rightarrow> Inl (Errorf (''deployment container has unexpected type '' @ json_type c))))"

definition capoci_adapt ::
    "string \<Rightarrow> string \<Rightarrow> string \<Rightarrow> string \<Rightarrow> CAPOCICredentials option \<Rightarrow> 'r scheme \<Rightarrow> bool \<Rightarrow> object \<Rightarrow>
     go_error + object option" where
  "capoci_adapt instanceName deploymentName serviceAccountName webhookServiceName auth scheme useHostNetwork component0 =
     (let component = SetComponentLabels_u instanceName componentNameCAPOCI (GetKind component0) component0;
          kind = GetKind component
      in if kind = ''Service'' then Inr (Some (SetOpenshiftServiceCertAnnotation component webhookServiceName))
         else if kind \<in> set webhook_kinds then Inr (Some (SetOpenshiftCABundleAnnotation component))
         else if kind = ''Deployment'' then
           let edited = edit_certs scheme component webhookServiceName in
           (case setStartupArgs edited auth useHostNetwork of
              Inl e \<Rightarrow> Inl (Wrapf (''failed to configure CAPOCI deployment '' @ Quote (GetName edited) @ '': '') e)
            | Inr component' \<Rightarrow> Inr (Some (SetName component' deploymentName)))
         else if kind = ''ServiceAccount'' then Inr (Some (SetName component serviceAccountName))
         else if kind \<in> set skipped_kinds then Inr None
         else Inr (Some component))"

definition GetClusterctlComponents_capoci ::
    "clusterctl \<Rightarrow> string \<Rightarrow> string \<Rightarrow> string \<Rightarrow> OCIClusterAutoscaler \<Rightarrow> string \<Rightarrow> CAPOCICredentials option \<Rightarrow>
     'r scheme \<Rightarrow> string \<Rightarrow> bool \<Rightarrow> go_error + object list" where
  "GetClusterctlComponents_capoci ctl deploymentName serviceAccountName capociNamespace autoscaler
     webhookServiceName auth scheme capociProviderVersion useHostNetwork =
     (case GenerateCAPIComponents ctl infrastructureOCIProviderName InfrastructureProviderType capociNamespace
         capociProviderVersion of
        Inl e \<Rightarrow> Inl e
      | Inr components \<Rightarrow>
          adapt_all (capoci_adapt (oca_Name autoscaler) deploymentName serviceAccountName webhookServiceName auth
            scheme useHostNetwork) components)"

section \<open>Components of the providers\<close>

fun label_namespace :: "OCIClusterAutoscaler \<Rightarrow> kobj \<Rightarrow> kobj" where
  "label_namespace i (ONamespace m) = ONamespace (SetDefaultLabels (oca_Name i) m)"
| "label_namespace i x = x"

definition CAPINamespace :: "string \<Rightarrow> OCIClusterAutoscaler \<Rightarrow> kobj \<times> 'w mutate_fn" where
  "CAPINamespace capiSystemNamespace instance0 =
     (ONamespace (new_meta [] capiSystemNamespace), pure_mutate (label_namespace instance0))"

definition Namespace_capoci :: "string \<Rightarrow> OCIClusterAutoscaler \<Rightarrow> kobj \<times> 'w mutate_fn" where
  "Namespace_capoci capociNamespace autoscaler =
     (ONamespace (new_meta [] capociNamespace), pure_mutate (label_namespace autoscaler))"

definition serviceAccountSubject :: "string \<Rightarrow> string \<Rightarrow> string" where
  "serviceAccountSubject namespace name = ''system:serviceaccount:'' @ namespace @ '':'' @ name"

fun mutate_scc :: "string list \<Rightarrow> OCIClusterAutoscaler \<Rightarrow> bool \<Rightarrow> kobj \<Rightarrow> kobj" where
  "mutate_scc users i allowHostNetwork (OSCC scc) = OSCC (scc\<lparr>
     scc_RunAsUser := ''MustRunAsRange'',
     scc_SELinuxContext := ''MustRunAs'',
     scc_FSGroup := ''MustRunAs'',
     scc_SupplementalGroups := ''RunAsAny'',
     scc_AllowPrivilegedContainer := False,
     scc_AllowHostDirVolumePlugin := False,
     scc_AllowHostNetwork := allowHostNetwork,
     scc_AllowHostPorts := False,
     scc_AllowHostPID := False,
     scc_AllowHostIPC := False,
     scc_AllowPrivilegeEscalation := Some False,
     scc_DefaultAllowPrivilegeEscalation := Some False,
     scc_DefaultAddCapabilities := [],
     scc_AllowedCapabilities := [],
     scc_RequiredDropCapabilities := [''ALL''],
     scc_Volumes := [''configMap'', ''downwardAPI'', ''emptyDir'', ''persistentVolumeClaim'', ''projected'', ''secret''],
     scc_SeccompProfiles := [''runtime/default''],
     scc_Users := users,
     scc_meta := SetDefaultLabels (oca_Name i) (scc_meta scc)\<rparr>)"
| "mutate_scc users i allowHostNetwork x = x"

definition new_scc :: "string \<Rightarrow> SecurityContextConstraints" where
  "new_scc name = \<lparr>scc_meta = new_meta [] name, scc_RunAsUser = [], scc_SELinuxContext = [], scc_FSGroup = [],
     scc_SupplementalGroups = [], scc_AllowPrivilegedContainer = False, scc_AllowHostDirVolumePlugin = False,
     scc_AllowHostNetwork = False, scc_AllowHostPorts = False, scc_AllowHostPID = False, scc_AllowHostIPC = False,
     scc_AllowPrivilegeEscalation = None, scc_DefaultAllowPrivilegeEscalation = None, scc_DefaultAddCapabilities = [],
     scc_AllowedCapabilities = [], scc_RequiredDropCapabilities = [], scc_Volumes = [], scc_SeccompProfiles = [],
     scc_Users = []\<rparr>"

definition SecurityContextConstraints_of :: "string \<Rightarrow> string list \<Rightarrow> OCIClusterAutoscaler \<Rightarrow> bool \<Rightarrow> kobj \<times> 'w mutate_fn" where
  "SecurityContextConstraints_of name users instance0 allowHostNetwork =
     (OSCC (new_scc name), pure_mutate (mutate_scc users instance0 allowHostNetwork))"

definition subcomponent :: "string \<Rightarrow> kobj \<times> 'w mutate_fn \<Rightarrow> 'w Subcomponent" where
  "subcomponent name x = \<lparr>subc_Name = name, subc_Object = fst x, subc_MutateFn = Some (snd x)\<rparr>"

definition GetComponents_capi ::
    "string \<Rightarrow> string \<Rightarrow> string \<Rightarrow> string \<Rightarrow> OCIClusterAutoscaler \<Rightarrow> bool \<Rightarrow> 'w Component" where
  "GetComponents_capi capiSystemNamespace capociSystemNamespace capiServiceAccountName capociServiceAccountName
     instance0 allowCAPOCIHostNetwork =
     \<lparr>comp_InstanceName = oca_Name instance0, comp_Name = componentNameCAPI, comp_Subcomponents =
       [subcomponent ''capiSCC'' (SecurityContextConstraints_of ''oci-capi''
          [serviceAccountSubject capiSystemNamespace capiServiceAccountName] instance0 False),
        subcomponent ''capociSCC'' (SecurityContextConstraints_of ''oci-capoci''
          [serviceAccountSubject capociSystemNamespace capociServiceAccountName] instance0 allowCAPOCIHostNetwork),
        subcomponent ''namespace'' (CAPINamespace capiSystemNamespace instance0)]\<rparr>"

fun mutate_auth_secret :: "OCIClusterAutoscaler \<Rightarrow> CAPOCICredentials option \<Rightarrow> kobj \<Rightarrow> kobj" where
  "mutate_auth_secret i auth (OSecret s) =
     OSecret (s\<lparr>sec_meta := SetDefaultLabels (oca_Name i) (sec_meta s), sec_Data := authConfigData auth\<rparr>)"
| "mutate_auth_secret i auth x = x"

definition AuthConfigSecret :: "OCIClusterAutoscaler \<Rightarrow> string \<Rightarrow> CAPOCICredentials option \<Rightarrow> kobj \<times> 'w mutate_fn" where
  "AuthConfigSecret autoscaler capociNamespace auth =
     (OSecret \<lparr>sec_meta = new_meta capociNamespace ''capoci-auth-config'', sec_Data = fmempty\<rparr>,
      pure_mutate (mutate_auth_secret autoscaler auth))"

definition GetComponents_capoci :: "string \<Rightarrow> OCIClusterAutoscaler \<Rightarrow> CAPOCICredentials option \<Rightarrow> 'w Component" where
  "GetComponents_capoci capociNamespace instance0 auth =
     \<lparr>comp_InstanceName = oca_Name instance0, comp_Name = componentNameCAPOCI, comp_Subcomponents =
       [subcomponent ''namespace'' (Namespace_capoci capociNamespace instance0),
        subcomponent ''authConfigSecret'' (AuthConfigSecret instance0 capociNamespace auth)]\<rparr>"


section \<open>Versions as a language\<close>

lemma eat_digits_Some:
  "eat_digits s = Some r \<longleftrightarrow>
     (\<exists>d. s = d @ r \<and> d \<noteq> [] \<and> list_all ascii_digit d \<and> (r = [] \<or> \<not> ascii_digit (hd r)))"
proof
  assume "eat_digits s = Some r"
  then have "takeWhile ascii_digit s \<noteq> []" and r: "r = dropWhile ascii_digit s"
    by (auto simp: eat_digits_def split: if_splits)
  moreover have "list_all ascii_digit (takeWhile ascii_digit s)"
    by (auto simp: list_all_iff dest: set_takeWhileD)
  moreover have "r = [] \<or> \<not> ascii_digit (hd r)" using r hd_dropWhile by blast
  ultimately show "\<exists>d. s = d @ r \<and> d \<noteq> [] \<and> list_all ascii_digit d \<and> (r = [] \<or> \<not> ascii_digit (hd r))"
    by (metis takeWhile_dropWhile_id)
next
  assume "\<exists>d. s = d @ r \<and> d \<noteq> [] \<and> list_all ascii_digit d \<and> (r = [] \<or> \<not> ascii_digit (hd r))"
  then obtain d where d: "s = d @ r" "d \<noteq> []" "list_all ascii_digit d" "r = [] \<or> \<not> ascii_digit (hd r)" by blast
  then have "takeWhile ascii_digit s = d" and "dropWhile ascii_digit s = r"
    by (cases r; force simp: list_all_iff takeWhile_append2 dropWhile_append2)+
  with d show "eat_digits s = Some r" by (simp add: eat_digits_def)
qed

lemma eat_char_Some: "eat_char c s = Some r \<longleftrightarrow> s = c # r"
  by (auto simp: eat_char_def split: list.splits)

lemma not_digit [simp]: "\<not> ascii_digit (CHR ''.'')" "\<not> ascii_digit (CHR ''-'')"
  by (simp_all add: ascii_digit_def)

definition number :: "string \<Rightarrow> bool" where
  "number d \<longleftrightarrow> d \<noteq> [] \<and> list_all ascii_digit d"

lemma eat_digits_number: "number d \<Longrightarrow> r = [] \<or> \<not> ascii_digit (hd r) \<Longrightarrow> eat_digits (d @ r) = Some r"
  unfolding eat_digits_Some number_def by blast

lemma version_tail_hd: "version_tail t \<Longrightarrow> t = [] \<or> \<not> ascii_digit (hd t)"
  by (auto simp: version_tail_def split: list.splits)

lemma version_language:
  "providerVersionPattern s \<longleftrightarrow>
     (\<exists>a b c t. s = ''v'' @ a @ ''.'' @ b @ ''.'' @ c @ t \<and> number a \<and> number b \<and> number c \<and> version_tail t)"
proof
  assume "providerVersionPattern s"
  then obtain r1 r2 r3 r4 r5 t where "eat_char (CHR ''v'') s = Some r1" "eat_digits r1 = Some r2"
      "eat_char (CHR ''.'') r2 = Some r3" "eat_digits r3 = Some r4" "eat_char (CHR ''.'') r4 = Some r5"
      "eat_digits r5 = Some t" "version_tail t"
    by (auto simp: providerVersionPattern_def bind_eq_Some_conv split: option.splits)
  then show "\<exists>a b c t. s = ''v'' @ a @ ''.'' @ b @ ''.'' @ c @ t \<and> number a \<and> number b \<and> number c \<and> version_tail t"
    unfolding eat_char_Some eat_digits_Some number_def append_Cons append_Nil by metis
next
  assume "\<exists>a b c t. s = ''v'' @ a @ ''.'' @ b @ ''.'' @ c @ t \<and> number a \<and> number b \<and> number c \<and> version_tail t"
  then obtain a b c t where s: "s = ''v'' @ a @ ''.'' @ b @ ''.'' @ c @ t"
      and n: "number a" "number b" "number c" and t: "version_tail t" by blast
  then show "providerVersionPattern s"
    using version_tail_hd [OF t]
    by (simp add: providerVersionPattern_def eat_char_def eat_digits_number)
qed

lemma inner_digit: "ascii_digit c \<Longrightarrow> inner_byte c"
  by (auto simp: ascii_digit_def inner_byte_def Let_def)

section \<open>Objects keep their kind\<close>

lemma SetLabels_kind [simp]: "GetKind (SetLabels u l) = GetKind u"
  unfolding SetLabels_def by (rule kind_of_field, rule set_meta_apart) simp

lemma SetAnnotations_kind [simp]: "GetKind (SetAnnotations u l) = GetKind u"
  unfolding SetAnnotations_def by (rule kind_of_field, rule set_meta_apart) simp

lemma SetName_kind [simp]: "GetKind (SetName u n) = GetKind u"
  unfolding SetName_def by (rule kind_of_field, rule set_meta_apart) simp

lemma SetComponentLabels_u_kind [simp]: "GetKind (SetComponentLabels_u i c s u) = GetKind u"
  by (simp add: SetComponentLabels_u_def)

lemma cert_annotations_kind [simp]:
  "GetKind (SetOpenshiftServiceCertAnnotation u n) = GetKind u" "GetKind (SetOpenshiftCABundleAnnotation u) = GetKind u"
  by (simp_all add: SetOpenshiftServiceCertAnnotation_def SetOpenshiftCABundleAnnotation_def)

text \<open>What the scheme promises: converting a typed deployment gives an object of kind \<open>Deployment\<close>.\<close>

definition scheme_keeps_kind :: "'r scheme \<Rightarrow> bool" where
  "scheme_keeps_kind scheme \<longleftrightarrow> (\<forall>d u. sch_from_Deployment scheme d = Inr u \<longrightarrow> GetKind u = ''Deployment'')"

lemma edit_certs_kind:
  "scheme_keeps_kind scheme \<Longrightarrow> GetKind u = ''Deployment'' \<Longrightarrow> GetKind (edit_certs scheme u n) = ''Deployment''"
  by (auto simp: edit_certs_def EditDeploymentCerts_def scheme_keeps_kind_def split: sum.split)

lemma setStartupArgs_apart:
  assumes "setStartupArgs u auth h = Inr u'"
    and "diverge (pod_spec ''containers'') q" "diverge (pod_spec ''hostNetwork'') q" "diverge (pod_spec ''dnsPolicy'') q"
  shows "NestedField u' q = NestedField u q"
  using assms
  by (auto simp: setStartupArgs_def Let_def SetNestedSlice_def nf.get_put_apart
      split: if_splits sum.splits option.splits list.splits json.splits)

lemma setStartupArgs_kind: "setStartupArgs u auth h = Inr u' \<Longrightarrow> GetKind u' = GetKind u"
  by (rule kind_of_field) (erule setStartupArgs_apart; simp)

lemma capi_adapt_kind:
  assumes "scheme_keeps_kind scheme" and "capi_adapt i d sa w scheme u = Inr r"
  shows "if GetKind u \<in> set skipped_kinds then r = None else \<exists>v. r = Some v \<and> GetKind v = GetKind u"
  using assms edit_certs_kind [OF assms(1)]
  by (auto simp: capi_adapt_def Let_def skipped_kinds_def webhook_kinds_def split: if_splits)

lemma capoci_adapt_kind:
  assumes "scheme_keeps_kind scheme" and "capoci_adapt i d sa w auth scheme h u = Inr r"
  shows "if GetKind u \<in> set skipped_kinds then r = None else \<exists>v. r = Some v \<and> GetKind v = GetKind u"
  using assms edit_certs_kind [OF assms(1)]
  by (auto simp: capoci_adapt_def Let_def skipped_kinds_def webhook_kinds_def
      split: if_splits sum.splits dest!: setStartupArgs_kind)

lemma adapt_all_kinds:
  assumes "\<And>u r. f u = Inr r \<Longrightarrow>
      if GetKind u \<in> S then r = None else \<exists>v. r = Some v \<and> GetKind v = GetKind u"
    and "adapt_all f us = Inr vs"
  shows "map GetKind vs = filter (\<lambda>k. k \<notin> S) (map GetKind us)"
  using assms(2)
proof (induction us arbitrary: vs)
  case (Cons u us)
  then obtain r ws where "f u = Inr r" "adapt_all f us = Inr ws" "vs = (case r of None \<Rightarrow> ws | Some z \<Rightarrow> z # ws)"
    by (auto split: sum.splits)
  with assms(1) [of u r] Cons.IH [of ws] show ?case by (auto split: if_splits)
qed simp


section \<open>Startup arguments\<close>

lemma has_arg_prefix_self [simp]: "has_arg_prefix p (JStr (p @ v))"
  by (simp add: has_arg_prefix_def)

lemma set_arg_find: "find (has_arg_prefix p) (setOrReplaceArg as p v) = Some (JStr (p @ v))"
  by (induction as) auto

lemma set_arg_idem: "setOrReplaceArg (setOrReplaceArg as p v) p v = setOrReplaceArg as p v"
  by (induction as) auto

lemma set_arg_others:
  assumes "\<not> has_arg_prefix q (JStr (p @ v))" and "\<And>a. has_arg_prefix p a \<Longrightarrow> \<not> has_arg_prefix q a"
  shows "filter (has_arg_prefix q) (setOrReplaceArg as p v) = filter (has_arg_prefix q) as"
  using assms by (induction as) auto

lemma set_arg_rest: "filter (\<lambda>a. \<not> has_arg_prefix p a) (setOrReplaceArg as p v) = filter (\<lambda>a. \<not> has_arg_prefix p a) as"
  by (induction as) auto

lemma arg_prefixes_apart:
  "has_arg_prefix initOCIClientsOnStartupArgPrefix a \<Longrightarrow> \<not> has_arg_prefix enableIMDSArgPrefix a"
  by (auto simp: has_arg_prefix_def HasPrefix_def go_const prefix_def split: json.splits)

lemma find_filter: "find P xs = (case filter P xs of [] \<Rightarrow> None | x # _ \<Rightarrow> Some x)"
  by (induction xs) auto

text \<open>Reading back what the deployment's pod template was given.\<close>

lemma setStartupArgs_effect:
  assumes "setStartupArgs u (Some auth) h = Inr u'"
  obtains c cs args0 c' where "NestedSlice u (pod_spec ''containers'') = Inr (Some (JMap c # cs))"
    and "NestedSlice c [''args''] = Inr args0"
    and "SetNestedSlice c (startup_args (Some auth) (case args0 of None \<Rightarrow> [] | Some as \<Rightarrow> as)) [''args''] = Inr c'"
    and "NestedField u' (pod_spec ''containers'') = Inr (Some (JList (JMap c' # cs)))"
    and "NestedField u' (pod_spec ''hostNetwork'') = Inr (Some (JBool h))"
    and "NestedField u' (pod_spec ''dnsPolicy'') =
      Inr (Some (JStr (if h then ''ClusterFirstWithHostNet'' else ''ClusterFirst'')))"
proof -
  let ?dns = "JStr (if h then ''ClusterFirstWithHostNet'' else ''ClusterFirst'')"
  from assms obtain c cs args0 c' u1 u2 where
    1: "NestedSlice u (pod_spec ''containers'') = Inr (Some (JMap c # cs))"
    and 2: "NestedSlice c [''args''] = Inr args0"
    and 3: "SetNestedSlice c (startup_args (Some auth) (case args0 of None \<Rightarrow> [] | Some as \<Rightarrow> as)) [''args''] = Inr c'"
    and u1: "SetNestedField u (JList (JMap c' # cs)) (pod_spec ''containers'') = Inr u1"
    and u2: "SetNestedField u1 (JBool h) (pod_spec ''hostNetwork'') = Inr u2"
    and u3: "SetNestedField u2 ?dns (pod_spec ''dnsPolicy'') = Inr u'"
    by (auto simp: setStartupArgs_def Let_def SetNestedSlice_def split: sum.splits option.splits list.splits json.splits)
  have "NestedField u' (pod_spec ''containers'') = Inr (Some (JList (JMap c' # cs)))"
    using nf.get_put [OF u1] nf.get_put_apart [OF u2] nf.get_put_apart [OF u3] by simp
  moreover have "NestedField u' (pod_spec ''hostNetwork'') = Inr (Some (JBool h))"
    using nf.get_put [OF u2] nf.get_put_apart [OF u3] by simp
  ultimately show ?thesis using that [OF 1 2 3] nf.get_put [OF u3] by simp
qed

section \<open>Properties\<close>

text \<open>
  A provider version is accepted exactly when, without surrounding white space, it is \<open>v\<close>, three
  decimal numbers separated by dots, and optionally a dash with a non-empty pre-release part.
\<close>

theorem ValidateProviderVersion_iff:
  "ValidateProviderVersion s = None \<longleftrightarrow>
     (\<exists>a b c t. TrimSpace s = ''v'' @ a @ ''.'' @ b @ ''.'' @ c @ t \<and> number a \<and> number b \<and> number c \<and>
        (t = [] \<or> (\<exists>q. t = ''-'' @ q \<and> q \<noteq> [] \<and> list_all prerelease_byte q)))"
proof -
  have t: "version_tail t \<longleftrightarrow> (t = [] \<or> (\<exists>q. t = ''-'' @ q \<and> q \<noteq> [] \<and> list_all prerelease_byte q))" for t
    by (auto simp: version_tail_def split: list.splits)
  have "ValidateProviderVersion s = None \<longleftrightarrow> providerVersionPattern (TrimSpace s)"
    by (auto simp: ValidateProviderVersion_def Let_def version_language)
  then show ?thesis unfolding version_language t .
qed

text \<open>
  The manifests of the two providers are only fetched for an explicit valid version and only used
  when complete: a successful generation means that the trimmed version is valid, clusterctl was asked
  for exactly that version, the objects are clusterctl's answer, and all required kinds and CRDs are
  among them.
\<close>

theorem GenerateCAPIComponents_checked:
  assumes "requiresExplicitProviderVersion p ty" and "GenerateCAPIComponents ctl p ty ns v = Inr objs"
  shows "providerVersionPattern (TrimSpace v) \<and>
    ctl_GetProviderComponents ctl (p @ '':'' @ TrimSpace v) ty ns = Inr objs \<and>
    (\<exists>kinds crds. requirements p ty ns = Some (kinds, crds) \<and>
       fst ` set kinds \<subseteq> seenKinds ns objs \<and> fst ` set crds \<subseteq> seenCRDs objs)"
proof -
  from assms have v: "providerVersionPattern (TrimSpace v)"
      and g: "ctl_GetProviderComponents ctl (p @ '':'' @ TrimSpace v) ty ns = Inr objs"
      and c: "ValidateGeneratedProviderComponents p ty ns objs = None"
    by (auto simp: GenerateCAPIComponents_def providerRef_def ValidateProviderVersion_def Let_def
        split: sum.splits option.splits if_splits)
  from assms(1) have "requirements p ty ns \<noteq> None"
    by (auto simp: requiresExplicitProviderVersion_def requirements_def Let_def split: if_split)
  then obtain kinds crds where r: "requirements p ty ns = Some (kinds, crds)" by auto
  with c have "fst ` set kinds \<subseteq> seenKinds ns objs" and "fst ` set crds \<subseteq> seenCRDs objs"
    by (auto simp: ValidateGeneratedProviderComponents_def find_None_iff split: option.splits)
  with v g r show ?thesis by blast
qed

definition sample_object :: "string \<Rightarrow> string \<Rightarrow> string \<Rightarrow> object" where
  "sample_object kind namespace name = fmap_of_list [(''kind'', JStr kind),
     (''metadata'', JMap (fmap_of_list [(''name'', JStr name), (''namespace'', JStr namespace)]))]"

definition sample_provider :: "object list" where
  "sample_provider =
     [sample_object ''Deployment'' ''n'' ''d'', sample_object ''Service'' ''n'' ''s'',
      sample_object ''ValidatingWebhookConfiguration'' [] ''v'', sample_object ''MutatingWebhookConfiguration'' [] ''m'',
      sample_object ''Namespace'' [] ''n'',
      sample_object ''CustomResourceDefinition'' [] ''clusters.cluster.x-k8s.io'',
      sample_object ''CustomResourceDefinition'' [] ''machinedeployments.cluster.x-k8s.io'']"

definition sample_clusterctl :: clusterctl where
  "sample_clusterctl = \<lparr>ctl_New = None, ctl_GetProviderComponents = (\<lambda>r t n. Inr sample_provider)\<rparr>"

lemma sample_object_fields [simp]:
  "GetKind (sample_object k ns n) = k" "GetName (sample_object k ns n) = n" "GetNamespace (sample_object k ns n) = ns"
  by (simp_all add: sample_object_def GetKind_def GetName_def GetNamespace_def getNestedString_def NestedString_def
      nested_typed_def NestedField_def fmlookup_of_list)

lemma sample_version: "TrimSpace ''v1.2.3'' = ''v1.2.3''" "providerVersionPattern ''v1.2.3''"
proof -
  show "TrimSpace ''v1.2.3'' = ''v1.2.3''" by (rule TrimSpace_inner) (simp add: inner_byte_def)
  show "providerVersionPattern ''v1.2.3''"
    by (simp add: providerVersionPattern_def eat_char_def eat_digits_def ascii_digit_def version_tail_def)
qed

lemma sample_generated:
  "GenerateCAPIComponents sample_clusterctl coreProviderName CoreProviderType ''n'' ''v1.2.3'' = Inr sample_provider"
  by (simp add: GenerateCAPIComponents_def providerRef_def requiresExplicitProviderVersion_def
      ValidateProviderVersion_def sample_version Let_def sample_clusterctl_def
      ValidateGeneratedProviderComponents_def requirements_def sample_trim seenKinds_def sample_provider_def
      kindKey_def namespacedKindKey_def seenCRDs_def)

theorem GenerateCAPIComponents_checked_witness:
  "ctl_GetProviderComponents sample_clusterctl ''cluster-api:v1.2.3'' CoreProviderType ''n'' = Inr sample_provider"
  using GenerateCAPIComponents_checked [OF _ sample_generated]
  by (simp add: requiresExplicitProviderVersion_def sample_version) (simp add: coreProviderName_def)

text \<open>
  The core provider's objects the operator applies, and at cleanup deletes, are the generated ones
  in order without namespaces, secrets, CRDs, certificates and issuers: adaptation drops exactly these
  kinds and changes no other kind.
\<close>

theorem capi_components_kinds:
  assumes "scheme_keeps_kind scheme"
    and "GenerateCAPIComponents ctl coreProviderName CoreProviderType ns v = Inr objs"
    and "GetClusterctlComponents_capi ctl d sa ns i w scheme v = Inr out"
  shows "map GetKind out = filter (\<lambda>k. k \<notin> {''Certificate'', ''Issuer'', ''Namespace'', ''Secret'', ''CustomResourceDefinition''})
    (map GetKind objs)"
proof -
  from assms(2,3) have "adapt_all (capi_adapt (oca_Name i) d sa w scheme) objs = Inr out"
    by (simp add: GetClusterctlComponents_capi_def)
  from adapt_all_kinds [OF capi_adapt_kind [OF assms(1)] this] show ?thesis by (simp add: skipped_kinds_def)
qed

definition sample_scheme :: "unit scheme" where
  "sample_scheme = \<lparr>sch_to_Deployment = (\<lambda>u. Inl (Errorf ''x'')), sch_from_Deployment = (\<lambda>d. Inl (Errorf ''x''))\<rparr>"

theorem capi_components_kinds_witness:
  "\<exists>out. GetClusterctlComponents_capi sample_clusterctl ''d'' ''sa'' ''n'' (sample_autoscaler ''n'' ''x'' 1 []) ''w''
      sample_scheme ''v1.2.3'' = Inr out \<and>
    map GetKind out = [''Deployment'', ''Service'', ''ValidatingWebhookConfiguration'', ''MutatingWebhookConfiguration'']"
proof -
  let ?r = "GetClusterctlComponents_capi sample_clusterctl ''d'' ''sa'' ''n'' (sample_autoscaler ''n'' ''x'' 1 []) ''w''
      sample_scheme ''v1.2.3''"
  have k: "scheme_keeps_kind sample_scheme" by (simp add: scheme_keeps_kind_def sample_scheme_def)
  have "\<exists>out. ?r = Inr out"
    unfolding GetClusterctlComponents_capi_def sample_generated
    by (simp add: sample_provider_def capi_adapt_def Let_def webhook_kinds_def skipped_kinds_def)
  then obtain out where out: "?r = Inr out" by blast
  from capi_components_kinds [OF k sample_generated out] out show ?thesis by (simp add: sample_provider_def)
qed

text \<open>
  The CAPOCI deployment is started for the configured authentication: after a successful rewrite
  the first argument for the metadata service says whether instance principals are used, with
  instance principals the early client initialisation is off, all other arguments, containers and
  fields are as before, host networking is as configured and the DNS policy fits it.
\<close>

theorem setStartupArgs_configures:
  assumes "setStartupArgs u (Some auth) h = Inr u'"
  shows "\<exists>c cs c' args args'.
    NestedSlice u (pod_spec ''containers'') = Inr (Some (JMap c # cs)) \<and>
    NestedField u' (pod_spec ''containers'') = Inr (Some (JList (JMap c' # cs))) \<and>
    NestedField c' [''args''] = Inr (Some (JList args')) \<and>
    (\<forall>k. k \<noteq> ''args'' \<longrightarrow> fmlookup c' k = fmlookup c k) \<and>
    NestedSlice c [''args''] \<in> {Inr (Some args), Inr None} \<and> (NestedSlice c [''args''] = Inr None \<longrightarrow> args = []) \<and>
    find (has_arg_prefix ''--enable-instance-metadata-service-lookup='') args' =
      Some (JStr (''--enable-instance-metadata-service-lookup='' @ show_bool (UsesInstancePrincipal (Some auth)))) \<and>
    (UsesInstancePrincipal (Some auth) \<longrightarrow>
       find (has_arg_prefix ''--init-oci-clients-on-startup='') args' = Some (JStr ''--init-oci-clients-on-startup=false'')) \<and>
    filter (\<lambda>a. \<not> has_arg_prefix ''--enable-instance-metadata-service-lookup='' a \<and>
        \<not> has_arg_prefix ''--init-oci-clients-on-startup='' a) args' =
      filter (\<lambda>a. \<not> has_arg_prefix ''--enable-instance-metadata-service-lookup='' a \<and>
        \<not> has_arg_prefix ''--init-oci-clients-on-startup='' a) args \<and>
    NestedField u' (pod_spec ''hostNetwork'') = Inr (Some (JBool h)) \<and>
    NestedField u' (pod_spec ''dnsPolicy'') = Inr (Some (JStr (if h then ''ClusterFirstWithHostNet'' else ''ClusterFirst'')))"
proof -
  let ?e = "enableIMDSArgPrefix" and ?i = "initOCIClientsOnStartupArgPrefix"
  from assms obtain c cs args0 c' where
    c: "NestedSlice u (pod_spec ''containers'') = Inr (Some (JMap c # cs))" "NestedSlice c [''args''] = Inr args0"
    and set: "SetNestedSlice c (startup_args (Some auth) (case args0 of None \<Rightarrow> [] | Some as \<Rightarrow> as)) [''args''] = Inr c'"
    and u': "NestedField u' (pod_spec ''containers'') = Inr (Some (JList (JMap c' # cs)))"
      "NestedField u' (pod_spec ''hostNetwork'') = Inr (Some (JBool h))"
      "NestedField u' (pod_spec ''dnsPolicy'') = Inr (Some (JStr (if h then ''ClusterFirstWithHostNet'' else ''ClusterFirst'')))"
    by (rule setStartupArgs_effect)
  define args where "args = (case args0 of None \<Rightarrow> [] | Some as \<Rightarrow> as)"
  define args' where "args' = startup_args (Some auth) args"
  from set have c': "c' = fmupd ''args'' (JList args') c"
    by (simp add: SetNestedSlice_def SetNestedField_def args_def args'_def)
  have f1: "find (has_arg_prefix ?e) args' = Some (JStr (?e @ show_bool (UsesInstancePrincipal (Some auth))))"
    using set_arg_others [of ?e ?i "show_bool False"] arg_prefixes_apart
    by (simp add: args'_def startup_args_def Let_def set_arg_find find_filter [of "has_arg_prefix ?e"])
      (simp add: find_filter [of "has_arg_prefix ?e", symmetric] set_arg_find)
  have f2: "UsesInstancePrincipal (Some auth) \<longrightarrow> find (has_arg_prefix ?i) args' = Some (JStr (?i @ ''false''))"
    by (simp add: args'_def startup_args_def Let_def set_arg_find show_bool_def)
  have f3: "filter (\<lambda>a. \<not> has_arg_prefix ?e a \<and> \<not> has_arg_prefix ?i a) args' =
      filter (\<lambda>a. \<not> has_arg_prefix ?e a \<and> \<not> has_arg_prefix ?i a) args"
  proof -
    have "filter (\<lambda>a. \<not> has_arg_prefix p a \<and> \<not> has_arg_prefix q a) (setOrReplaceArg as p v) =
        filter (\<lambda>a. \<not> has_arg_prefix p a \<and> \<not> has_arg_prefix q a) as"
      "filter (\<lambda>a. \<not> has_arg_prefix q a \<and> \<not> has_arg_prefix p a) (setOrReplaceArg as p v) =
        filter (\<lambda>a. \<not> has_arg_prefix q a \<and> \<not> has_arg_prefix p a) as" for p q v as
      by (induction as) auto
    then show ?thesis by (simp add: args'_def startup_args_def Let_def)
  qed
  have "NestedField c' [''args''] = Inr (Some (JList args'))" by (simp add: c' NestedField_def)
  moreover have "NestedSlice c [''args''] \<in> {Inr (Some args), Inr None} \<and> (NestedSlice c [''args''] = Inr None \<longrightarrow> args = [])"
    using c(2) by (auto simp: args_def split: option.split)
  moreover have "\<forall>k. k \<noteq> ''args'' \<longrightarrow> fmlookup c' k = fmlookup c k" by (simp add: c')
  ultimately show ?thesis
    using c(1) u' f1 f2 f3 unfolding enableIMDSArgPrefix_def initOCIClientsOnStartupArgPrefix_def append_Cons append_Nil
    by blast
qed


definition sample_auth :: CAPOCICredentials where
  "sample_auth = \<lparr>cred_TenancyID = [], cred_UserID = [], cred_Region = ''r'', cred_Fingerprint = [], cred_PrivateKey = [],
     cred_UseInstancePrincipal = ''true'', cred_Passphrase = []\<rparr>"

definition sample_deployment :: object where
  "sample_deployment = fmap_of_list [(''spec'', JMap (fmap_of_list [(''template'', JMap (fmap_of_list
     [(''spec'', JMap (fmap_of_list [(''containers'', JList [JMap fmempty])]))]))]))]"

theorem setStartupArgs_configures_witness:
  "\<exists>u'. setStartupArgs sample_deployment (Some sample_auth) True = Inr u' \<and>
     NestedField u' (pod_spec ''dnsPolicy'') = Inr (Some (JStr ''ClusterFirstWithHostNet''))"
proof -
  have "\<exists>u'. setStartupArgs sample_deployment (Some sample_auth) True = Inr u'"
    by (simp add: setStartupArgs_def sample_deployment_def NestedSlice_def nested_typed_def NestedField_def
        fmlookup_of_list SetNestedSlice_def SetNestedField_def Let_def)
  then obtain u' where u': "setStartupArgs sample_deployment (Some sample_auth) True = Inr u'" by blast
  from setStartupArgs_configures [OF this] have
    "NestedField u' (pod_spec ''dnsPolicy'') = Inr (Some (JStr ''ClusterFirstWithHostNet''))" by (simp only: if_True) blast
  with u' show ?thesis by blast
qed

text \<open>
  Credential validation is exactly what the provider's secret needs: the credentials are accepted
  if and only if the mode parses and every entry its mode requires is in the generated secret and
  not blank; with instance principals the secret holds no key material.
\<close>

theorem auth_secret_complete:
  "Validate_credentials (Some c) = None \<longleftrightarrow>
     (case ParseBool (TrimSpace (cred_UseInstancePrincipal c)) of
        None \<Rightarrow> False
      | Some ip \<Rightarrow>
          list_all (\<lambda>k. \<exists>v. fmlookup (authConfigData (Some c)) k = Some v \<and> TrimSpace v \<noteq> [])
            (if ip then [''region''] else [''tenancy'', ''user'', ''region'', ''fingerprint'', ''key'']) \<and>
          list_all (\<lambda>k. fmlookup (authConfigData (Some c)) k = None)
            (if ip then [''tenancy'', ''user'', ''fingerprint'', ''key'', ''passphrase''] else []))"
  by (auto simp: Validate_credentials_def parseUseInstancePrincipal_def requireCredentialValues_def authConfigData_def
      UsesInstancePrincipal_def Let_def split: option.splits if_splits)

end
