(* ===== verification/ClusterctlUpdate.thy ===== *)
theory ClusterctlUpdate
  imports Providers
begin

text \<open>
  Applying the provider objects (\<open>internal/controllers/ociclusterautoscaler_controller.go\<close>): the
  update loop over untyped objects, what it preserves of the stored object, and the status of the
  existing cluster's \<open>Cluster\<close> object. The conversion of timestamps and managed-field entries through
  their typed forms is a parameter (record \<open>meta_conv\<close>).
\<close>

section \<open>Values\<close>

fun isEmptyUnstructuredValue :: "json \<Rightarrow> bool" where
  "isEmptyUnstructuredValue JNil = True"
| "isEmptyUnstructuredValue (JStr s) = (s = [])"
| "isEmptyUnstructuredValue (JList l) = (l = [])"
| "isEmptyUnstructuredValue (JBytes b) = (b = [])"
| "isEmptyUnstructuredValue (JInt i) = (i = 0)"
| "isEmptyUnstructuredValue _ = False"

text \<open>A field that is found, without error, and not empty.\<close>

definition present :: "object \<Rightarrow> string list \<Rightarrow> json option" where
  "present obj path = (case NestedField obj path of
      Inr (Some v) \<Rightarrow> (if isEmptyUnstructuredValue v then None else Some v)
    | _ \<Rightarrow> None)"

definition preserveNestedFieldIfDesiredEmpty :: "object \<Rightarrow> string list \<Rightarrow> object \<Rightarrow> object" where
  "preserveNestedFieldIfDesiredEmpty current path desired =
     (case present current path of
        None \<Rightarrow> desired
      | Some v \<Rightarrow> (case present desired path of None \<Rightarrow> try_set desired v path | Some w \<Rightarrow> desired))"

section \<open>Services\<close>

text \<open>
  Reading a field of a port; Go compares the results as interface values, which for the scalar fields
  of a port is equality of the JSON values.
\<close>

definition servicePortIdentity :: "object \<Rightarrow> string \<Rightarrow> json" where
  "servicePortIdentity port field = (case fmlookup port field of
      Some v \<Rightarrow> v
    | None \<Rightarrow> if field = ''protocol'' then JStr ''TCP'' else JNil)"

definition same_port :: "object \<Rightarrow> object \<Rightarrow> bool" where
  "same_port p q \<longleftrightarrow>
     servicePortIdentity p ''name'' = servicePortIdentity q ''name'' \<and>
     servicePortIdentity p ''port'' = servicePortIdentity q ''port'' \<and>
     servicePortIdentity p ''protocol'' = servicePortIdentity q ''protocol''"

fun matchingServicePort :: "object \<Rightarrow> json list \<Rightarrow> object option" where
  "matchingServicePort desiredPort [] = None"
| "matchingServicePort desiredPort (p # ps) = (case p of
      JMap currentPort \<Rightarrow> (if same_port desiredPort currentPort then Some currentPort else matchingServicePort desiredPort ps)
    | _ \<Rightarrow> matchingServicePort desiredPort ps)"

definition node_port :: "object \<Rightarrow> json option" where
  "node_port p = (case fmlookup p ''nodePort'' of
      Some v \<Rightarrow> (if isEmptyUnstructuredValue v then None else Some v) | None \<Rightarrow> None)"

definition preserve_port :: "json list \<Rightarrow> json \<Rightarrow> json" where
  "preserve_port currentPorts p = (case p of
      JMap desiredPort \<Rightarrow>
        (if node_port desiredPort \<noteq> None then p
         else case matchingServicePort desiredPort currentPorts of
             None \<Rightarrow> p
           | Some currentPort \<Rightarrow> (case node_port currentPort of
                 None \<Rightarrow> p
               | Some v \<Rightarrow> JMap (fmupd ''nodePort'' v desiredPort)))
    | _ \<Rightarrow> p)"

definition preserveServiceNodePorts :: "object \<Rightarrow> object \<Rightarrow> object" where
  "preserveServiceNodePorts current desired =
     (case (NestedSlice desired [''spec'', ''ports''], NestedSlice current [''spec'', ''ports'']) of
        (Inr (Some desiredPorts), Inr (Some currentPorts)) \<Rightarrow>
          try_set desired (JList (map (preserve_port currentPorts) desiredPorts)) [''spec'', ''ports'']
      | _ \<Rightarrow> desired)"

definition allocated_fields :: "string list" where
  "allocated_fields = [''clusterIP'', ''clusterIPs'', ''ipFamilies'', ''ipFamilyPolicy'', ''internalTrafficPolicy'',
     ''healthCheckNodePort'']"

definition preserveServiceAllocatedFields :: "object \<Rightarrow> object \<Rightarrow> object" where
  "preserveServiceAllocatedFields current desired =
     (if GroupKind desired \<noteq> ([], ''Service'') then desired
      else preserveServiceNodePorts current
        (fold (\<lambda>f. preserveNestedFieldIfDesiredEmpty current [''spec'', f]) allocated_fields desired))"

section \<open>Webhooks\<close>

definition ca_path :: "string list" where
  "ca_path = [''clientConfig'', ''caBundle'']"

definition webhook_name :: "object \<Rightarrow> string option" where
  "webhook_name w = (case NestedString w [''name''] of
      Inr (Some n) \<Rightarrow> (if n = [] then None else Some n) | _ \<Rightarrow> None)"

text \<open>The map from webhook names to injected bundles; a later webhook of the same name wins.\<close>

definition add_bundle :: "json \<Rightarrow> json gomap \<Rightarrow> json gomap" where
  "add_bundle x m = (case x of
      JMap w \<Rightarrow> (case (webhook_name w, present w ca_path) of (Some n, Some b) \<Rightarrow> fmupd n b m | _ \<Rightarrow> m)
    | _ \<Rightarrow> m)"

definition currentCABundles :: "json list \<Rightarrow> json gomap" where
  "currentCABundles ws = fold add_bundle ws fmempty"

definition preserve_bundle :: "json gomap \<Rightarrow> json \<Rightarrow> json" where
  "preserve_bundle bundles x = (case x of
      JMap w \<Rightarrow> (case webhook_name w of
          None \<Rightarrow> x
        | Some n \<Rightarrow>
            if present w ca_path \<noteq> None then x
            else (case fmlookup bundles n of
                None \<Rightarrow> x
              | Some b \<Rightarrow> JMap (try_set w b ca_path)))
    | _ \<Rightarrow> x)"

definition is_webhook_config :: "object \<Rightarrow> bool" where
  "is_webhook_config u \<longleftrightarrow> GroupKind u = (''admissionregistration.k8s.io'', ''ValidatingWebhookConfiguration'') \<or>
     GroupKind u = (''admissionregistration.k8s.io'', ''MutatingWebhookConfiguration'')"

definition preserveWebhookInjectedCABundles :: "object \<Rightarrow> object \<Rightarrow> object" where
  "preserveWebhookInjectedCABundles current desired =
     (if \<not> is_webhook_config desired then desired
      else case (NestedSlice desired [''webhooks''], NestedSlice current [''webhooks'']) of
          (Inr (Some desiredWebhooks), Inr (Some currentWebhooks)) \<Rightarrow>
            try_set desired (JList (map (preserve_bundle (currentCABundles currentWebhooks)) desiredWebhooks)) [''webhooks'']
        | _ \<Rightarrow> desired)"

section \<open>Preparing an update\<close>

text \<open>
  Timestamps: the stored text parsed and printed again, empty for no or an unreadable time. Managed
  fields: an entry through its typed form, \<open>None\<close> when it does not convert.
\<close>

record meta_conv =
  mc_time :: "string \<Rightarrow> string"
  mc_managed :: "object \<Rightarrow> object option"

definition copyCreationTimestamp :: "meta_conv \<Rightarrow> object \<Rightarrow> object \<Rightarrow> object" where
  "copyCreationTimestamp mc current desired =
     set_meta_string ''creationTimestamp'' desired
       (mc_time mc (getNestedString current [''metadata'', ''creationTimestamp'']))"

definition GetManagedFields :: "meta_conv \<Rightarrow> object \<Rightarrow> json list option" where
  "GetManagedFields mc u = (case NestedSlice u [''metadata'', ''managedFields''] of
      Inr (Some items) \<Rightarrow>
        (let outs = map (\<lambda>x. Option.bind (as_map x) (mc_managed mc)) items
         in if list_all (\<lambda>x. x \<noteq> None) outs then Some (map (\<lambda>x. JMap (the x)) outs) else None)
    | _ \<Rightarrow> None)"

definition SetManagedFields :: "object \<Rightarrow> json list option \<Rightarrow> object" where
  "SetManagedFields u items = (case items of
      None \<Rightarrow> RemoveNestedField u [''metadata'', ''managedFields'']
    | Some xs \<Rightarrow> try_set u (JList xs) [''metadata'', ''managedFields''])"

definition copy_status :: "object \<Rightarrow> object \<Rightarrow> object" where
  "copy_status current desired = (case NestedField current [''status''] of
      Inr (Some status) \<Rightarrow> try_set desired status [''status'']
    | _ \<Rightarrow> RemoveNestedField desired [''status''])"

definition copy_identity :: "meta_conv \<Rightarrow> object \<Rightarrow> object \<Rightarrow> object" where
  "copy_identity mc current desired0 =
     (let desired1 = SetResourceVersion desired0 (GetResourceVersion current);
          desired2 = SetUID desired1 (GetUID current);
          desired3 = copyCreationTimestamp mc current desired2;
          desired4 = SetGeneration desired3 (GetGeneration current);
          desired5 = SetManagedFields desired4 (GetManagedFields mc current)
      in SetFinalizers desired5 (GetFinalizers current))"

definition prepareClusterctlObjectForUpdate :: "meta_conv \<Rightarrow> object \<Rightarrow> object \<Rightarrow> object" where
  "prepareClusterctlObjectForUpdate mc desired current =
     preserveWebhookInjectedCABundles current
       (preserveServiceAllocatedFields current (copy_status current (copy_identity mc current desired)))"

definition rollout_strategy :: object where
  "rollout_strategy = fmap_of_list [(''type'', JStr ''RollingUpdate''),
     (''rollingUpdate'', JMap (fmap_of_list [(''maxSurge'', JInt 1), (''maxUnavailable'', JInt 0)]))]"

definition setDeploymentRolloutDefaults :: "object \<Rightarrow> go_error + object" where
  "setDeploymentRolloutDefaults desired =
     (if GroupKind desired \<noteq> (''apps'', ''Deployment'') then Inr desired
      else case NestedMap desired [''spec'', ''strategy''] of
        Inl e \<Rightarrow> Inl (Wrapf ''failed to read Deployment strategy: '' e)
      | Inr (Some m) \<Rightarrow> Inr desired
      | Inr None \<Rightarrow> (case SetNestedMap desired rollout_strategy [''spec'', ''strategy''] of
            Inl e \<Rightarrow> Inl (Wrapf ''failed to set Deployment rollout defaults: '' e)
          | Inr desired' \<Rightarrow> Inr desired'))"

section \<open>The update loop\<close>

definition reconcile_clusterctl_one :: "meta_conv \<Rightarrow> 'w server \<Rightarrow> object \<Rightarrow> 'w io \<Rightarrow> check \<times> 'w io" where
  "reconcile_clusterctl_one mc srv component io =
     (case setDeploymentRolloutDefaults component of
        Inl e \<Rightarrow> (Some e, io)
      | Inr desired \<Rightarrow>
          (case request_as srv resp_unstructured (ReqGet (obj_kind (OUnstructured desired)) (obj_key (OUnstructured desired))) io of
             (Inl e, io1) \<Rightarrow>
               if IsNotFound e then
                 (case request_as srv resp_unit (ReqCreate (OUnstructured desired)) io1 of
                    (Inl e, io2) \<Rightarrow> (Some e, io2)
                  | (Inr u, io2) \<Rightarrow> (None, io2))
               else (Some e, io1)
           | (Inr current, io1) \<Rightarrow>
               let reconciled = prepareClusterctlObjectForUpdate mc desired current in
               if current = reconciled then (None, io1)
               else (case request_as srv resp_unit (ReqUpdate (OUnstructured reconciled)) io1 of
                   (Inl e, io2) \<Rightarrow> (Some e, io2)
                 | (Inr u, io2) \<Rightarrow> (None, io2))))"

definition reconcileClusterctlComponents :: "meta_conv \<Rightarrow> 'w server \<Rightarrow> object list \<Rightarrow> 'w io \<Rightarrow> check \<times> 'w io" where
  "reconcileClusterctlComponents mc srv components io =
     first_failure (run_until (reconcile_clusterctl_one mc srv) (\<lambda>r. r \<noteq> None) components io)"

section \<open>Status of the existing cluster\<close>

definition condition_type :: "json \<Rightarrow> json option" where
  "condition_type c = (case c of JMap m \<Rightarrow> Some (case fmlookup m ''type'' of None \<Rightarrow> JNil | Some v \<Rightarrow> v) | _ \<Rightarrow> None)"

fun condition_status_is_true :: "json list \<Rightarrow> string \<Rightarrow> bool" where
  "condition_status_is_true [] t = False"
| "condition_status_is_true (c # cs) t = (case c of
      JMap m \<Rightarrow> (if fmlookup m ''type'' = Some (JStr t) then fmlookup m ''status'' = Some (JStr ''True'')
                else condition_status_is_true cs t)
    | _ \<Rightarrow> condition_status_is_true cs t)"

definition clusterStatusConditionIsTrue :: "object \<Rightarrow> string \<Rightarrow> go_error + bool" where
  "clusterStatusConditionIsTrue cluster conditionType = (case NestedSlice cluster [''status'', ''conditions''] of
      Inl e \<Rightarrow> Inl (Wrapf ''failed to read Cluster status.conditions: '' e)
    | Inr None \<Rightarrow> Inr False
    | Inr (Some conditions) \<Rightarrow> Inr (condition_status_is_true conditions conditionType))"

fun put_condition :: "json list \<Rightarrow> object \<Rightarrow> json list" where
  "put_condition [] desired = [JMap desired]"
| "put_condition (c # cs) desired =
     (if condition_type c = condition_type (JMap desired) then JMap desired # cs else c # put_condition cs desired)"

definition setClusterStatusCondition :: "object \<Rightarrow> object \<Rightarrow> go_error + object" where
  "setClusterStatusCondition cluster desired = (case NestedSlice cluster [''status'', ''conditions''] of
      Inl e \<Rightarrow> Inl (Wrapf ''failed to read Cluster status.conditions: '' e)
    | Inr found \<Rightarrow> SetNestedSlice cluster
        (put_condition (case found of None \<Rightarrow> [] | Some conditions \<Rightarrow> conditions) desired) [''status'', ''conditions''])"

definition initialized_path :: "string list" where
  "initialized_path = [''status'', ''initialization'', ''controlPlaneInitialized'']"

text \<open>\<open>fmt_time\<close> is the RFC 3339 format of a time.\<close>

definition initialized_condition :: "(time \<Rightarrow> string) \<Rightarrow> time \<Rightarrow> object \<Rightarrow> object" where
  "initialized_condition fmt_time now cluster = fmap_of_list
     [(''type'', JStr ''ControlPlaneInitialized''), (''status'', JStr ''True''), (''reason'', JStr ''Initialized''),
      (''message'', JStr ''External OpenShift control plane is initialized''),
      (''observedGeneration'', JInt (GetGeneration cluster)), (''lastTransitionTime'', JStr (fmt_time now))]"

text \<open>The changed cluster object, or \<open>None\<close> when nothing has to change.\<close>

definition mark_initialized :: "(time \<Rightarrow> string) \<Rightarrow> time \<Rightarrow> object \<Rightarrow> go_error + object option" where
  "mark_initialized fmt_time now cluster =
     (case NestedBool cluster initialized_path of
        Inl e \<Rightarrow> Inl (Wrapf ''failed to read Cluster status.initialization.controlPlaneInitialized: '' e)
      | Inr initialized \<Rightarrow> (case clusterStatusConditionIsTrue cluster ''ControlPlaneInitialized'' of
            Inl e \<Rightarrow> Inl e
          | Inr conditionInitialized \<Rightarrow>
              if initialized = Some True \<and> conditionInitialized then Inr None
              else (case (if initialized \<noteq> Some True then SetNestedField cluster (JBool True) initialized_path
                          else Inr cluster) of
                  Inl e \<Rightarrow> Inl (Wrapf ''failed to set Cluster status.initialization.controlPlaneInitialized: '' e)
                | Inr cluster1 \<Rightarrow>
                    (case (if \<not> conditionInitialized
                           then setClusterStatusCondition cluster1 (initialized_condition fmt_time now cluster1)
                           else Inr cluster1) of
                       Inl e \<Rightarrow> Inl e
                     | Inr cluster2 \<Rightarrow> Inr (Some cluster2)))))"

definition markExistingClusterControlPlaneInitializedForVersion ::
    "(time \<Rightarrow> string) \<Rightarrow> 'w server \<Rightarrow> string \<Rightarrow> string \<Rightarrow> string \<Rightarrow> 'w io \<Rightarrow> check \<times> 'w io" where
  "markExistingClusterControlPlaneInitializedForVersion fmt_time srv namespace clusterName apiVersion io =
     (case request_as srv resp_unstructured
         (ReqGet (apiVersion @ ''/Cluster'') \<lparr>nn_Namespace = namespace, nn_Name = clusterName\<rparr>) io of
        (Inl e, io1) \<Rightarrow> (Some e, io1)
      | (Inr cluster, io1) \<Rightarrow> (case mark_initialized fmt_time (srv_now srv (io_world io1)) cluster of
            Inl e \<Rightarrow> (Some e, io1)
          | Inr None \<Rightarrow> (None, io1)
          | Inr (Some cluster') \<Rightarrow>
              (case request_as srv resp_unit (ReqStatusPatch (OUnstructured cluster) (OUnstructured cluster')) io1 of
                 (Inl e, io2) \<Rightarrow> (Some (Wrapf ''failed to patch Cluster control plane initialization status: '' e), io2)
               | (Inr u, io2) \<Rightarrow> (None, io2))))"

fun mark_versions ::
    "(time \<Rightarrow> string) \<Rightarrow> 'w server \<Rightarrow> string \<Rightarrow> string \<Rightarrow> string list \<Rightarrow> check \<Rightarrow> 'w io \<Rightarrow> check \<times> 'w io" where
  "mark_versions fmt_time srv namespace clusterName [] lastNotFound io = (lastNotFound, io)"
| "mark_versions fmt_time srv namespace clusterName (v # vs) lastNotFound io =
     (case markExistingClusterControlPlaneInitializedForVersion fmt_time srv namespace clusterName v io of
        (Some e, io') \<Rightarrow>
          if IsNotFound e then mark_versions fmt_time srv namespace clusterName vs (Some e) io' else (Some e, io')
      | (None, io') \<Rightarrow> (None, io'))"

definition markExistingClusterControlPlaneInitialized ::
    "(time \<Rightarrow> string) \<Rightarrow> 'w server \<Rightarrow> string \<Rightarrow> string \<Rightarrow> 'w io \<Rightarrow> check \<times> 'w io" where
  "markExistingClusterControlPlaneInitialized fmt_time srv namespace clusterName io =
     mark_versions fmt_time srv namespace clusterName [''cluster.x-k8s.io/v1beta2'', ''cluster.x-k8s.io/v1beta1''] None io"

text \<open>What it sends: reads, and patches of the status from the object read to the marked one.\<close>

inductive marking :: "request \<Rightarrow> bool" where
  marking_read: "read_only q \<Longrightarrow> marking q"
| marking_patch: "mark_initialized fmt_time now u = Inr (Some v) \<Longrightarrow> marking (ReqStatusPatch (OUnstructured u) (OUnstructured v))"

lemma markForVersion_sends:
  "markExistingClusterControlPlaneInitializedForVersion fmt_time srv ns c v io = (r, io') \<Longrightarrow> emits (\<lambda>(q, a). marking q) io io'"
  by (auto simp: markExistingClusterControlPlaneInitializedForVersion_def split: prod.splits option.splits sum.splits
      dest!: emits_request_as [where P = "\<lambda>(q, a). marking q"] intro: emits_trans marking.intros)

lemma mark_versions_sends: "mark_versions fmt_time srv ns c vs n io = (r, io') \<Longrightarrow> emits (\<lambda>(q, a). marking q) io io'"
  by (induction vs arbitrary: n io)
    (auto split: prod.splits option.splits if_splits dest!: markForVersion_sends intro: emits_trans)

lemma markExisting_sends:
  "markExistingClusterControlPlaneInitialized fmt_time srv ns c io = (r, io') \<Longrightarrow> emits (\<lambda>(q, a). marking q) io io'"
  by (simp only: markExistingClusterControlPlaneInitialized_def mark_versions_sends)

section \<open>Objects with metadata\<close>

definition has_map :: "string \<Rightarrow> object \<Rightarrow> bool" where
  "has_map k u \<longleftrightarrow> (\<exists>m. fmlookup u k = Some (JMap m))"

lemma try_set_level:
  "has_map k u \<Longrightarrow> SetNestedField u v [k, f] = Inr (try_set u v [k, f])"
  by (auto simp: has_map_def SetNestedField_def try_set_def)

lemma get_try_set_level: "has_map k u \<Longrightarrow> NestedField (try_set u v [k, f]) [k, f] = Inr (Some v)"
  using nf.get_put [OF try_set_level] .

lemma has_map_try_set [simp]: "has_map k u \<Longrightarrow> has_map k (try_set u v [k', f])"
  by (auto simp: has_map_def SetNestedField_def try_set_def split: option.split json.split)

lemma has_map_try_set_top [simp]: "k \<noteq> k' \<Longrightarrow> has_map k (try_set u v [k']) = has_map k u"
  by (auto simp: has_map_def SetNestedField_def try_set_def)

lemma has_map_remove [simp]: "has_map k u \<Longrightarrow> has_map k (RemoveNestedField u [k', f])"
  by (auto simp: has_map_def split: option.split json.split)

lemma has_map_set_string [simp]: "has_map k u \<Longrightarrow> has_map k (set_meta_string f u s)"
  unfolding set_meta_string_def by (simp del: RemoveNestedField.simps)

lemma get_remove_level: "has_map k u \<Longrightarrow> NestedField (RemoveNestedField u [k, f]) [k, f] = Inr None"
  by (auto simp: has_map_def NestedField_def)

lemma get_set_meta_string:
  "has_map ''metadata'' u \<Longrightarrow> getNestedString (set_meta_string f u s) [''metadata'', f] = s"
  by (auto simp: set_meta_string_def getNestedString_def NestedString_def nested_typed_def get_try_set_level
      get_remove_level simp del: RemoveNestedField.simps)

lemma GetGeneration_set: "has_map ''metadata'' u \<Longrightarrow> GetGeneration (SetGeneration u i) = i"
  by (auto simp: GetGeneration_def SetGeneration_def NestedInt64_def nested_typed_def get_try_set_level
      get_remove_level simp del: RemoveNestedField.simps)

text \<open>Setters that leave a path alone.\<close>

lemma setters_apart:
  "diverge [''metadata'', ''resourceVersion''] q \<Longrightarrow> NestedField (SetResourceVersion u s) q = NestedField u q"
  "diverge [''metadata'', ''uid''] q \<Longrightarrow> NestedField (SetUID u s) q = NestedField u q"
  "diverge [''metadata'', ''creationTimestamp''] q \<Longrightarrow> NestedField (copyCreationTimestamp mc c u) q = NestedField u q"
  "diverge [''metadata'', ''generation''] q \<Longrightarrow> NestedField (SetGeneration u i) q = NestedField u q"
  "diverge [''metadata'', ''managedFields''] q \<Longrightarrow> NestedField (SetManagedFields u l) q = NestedField u q"
  "diverge [''metadata'', ''finalizers''] q \<Longrightarrow> NestedField (SetFinalizers u fs) q = NestedField u q"
  "diverge [''status''] q \<Longrightarrow> NestedField (copy_status c u) q = NestedField u q"
  by (auto simp: SetResourceVersion_def SetUID_def copyCreationTimestamp_def SetGeneration_def SetManagedFields_def
      SetFinalizers_def copy_status_def set_meta_apart nf.get_try_put_apart nf.get_remove_apart
      simp del: RemoveNestedField.simps diverge.simps split: option.split sum.split)

lemma has_map_setters [simp]:
  "has_map k u \<Longrightarrow> has_map k (SetResourceVersion u s)"
  "has_map k u \<Longrightarrow> has_map k (SetUID u s)"
  "has_map k u \<Longrightarrow> has_map k (copyCreationTimestamp mc c u)"
  "has_map k u \<Longrightarrow> has_map k (SetGeneration u i)"
  "has_map k u \<Longrightarrow> has_map k (SetManagedFields u l)"
  "has_map k u \<Longrightarrow> has_map k (SetFinalizers u fs)"
  by (auto simp: SetResourceVersion_def SetUID_def copyCreationTimestamp_def SetGeneration_def SetManagedFields_def
      SetFinalizers_def simp del: RemoveNestedField.simps split: option.split)

lemma has_map_copy_identity [simp]: "has_map k u \<Longrightarrow> has_map k (copy_identity mc c u)"
  by (simp add: copy_identity_def Let_def)

lemma has_map_copy_status [simp]: "has_map k u \<Longrightarrow> k \<noteq> ''status'' \<Longrightarrow> has_map k (copy_status c u)"
  by (auto simp: copy_status_def has_map_try_set_top split: sum.split option.split) (auto simp: has_map_def)

definition identity_fields :: "string list" where
  "identity_fields = [''resourceVersion'', ''uid'', ''creationTimestamp'', ''generation'', ''managedFields'', ''finalizers'']"

lemma copy_identity_apart:
  assumes "\<And>f. f \<in> set identity_fields \<Longrightarrow> diverge [''metadata'', f] q"
  shows "NestedField (copy_identity mc c u) q = NestedField u q"
  using assms unfolding copy_identity_def Let_def identity_fields_def
  by (simp add: setters_apart del: diverge.simps)

lemma copy_identity_values:
  assumes "has_map ''metadata'' u"
  shows "GetResourceVersion (copy_identity mc c u) = GetResourceVersion c"
    and "GetUID (copy_identity mc c u) = GetUID c" and "GetGeneration (copy_identity mc c u) = GetGeneration c"
proof -
  let ?u1 = "SetResourceVersion u (GetResourceVersion c)"
  let ?u2 = "SetUID ?u1 (GetUID c)"
  let ?u4 = "SetGeneration (copyCreationTimestamp mc c ?u2) (GetGeneration c)"
  have n: "NestedField (copy_identity mc c u) [''metadata'', ''resourceVersion''] = NestedField ?u1 [''metadata'', ''resourceVersion'']"
    "NestedField (copy_identity mc c u) [''metadata'', ''uid''] = NestedField ?u2 [''metadata'', ''uid'']"
    "NestedField (copy_identity mc c u) [''metadata'', ''generation''] = NestedField ?u4 [''metadata'', ''generation'']"
    unfolding copy_identity_def Let_def by (simp_all add: setters_apart)
  have m: "has_map ''metadata'' ?u1" using assms by simp
  have "getNestedString (copy_identity mc c u) [''metadata'', ''resourceVersion''] = GetResourceVersion c"
    unfolding getNestedString_cong [OF n(1)] by (simp add: SetResourceVersion_def get_set_meta_string [OF assms])
  then show "GetResourceVersion (copy_identity mc c u) = GetResourceVersion c" by (simp only: GetResourceVersion_def)
  have "getNestedString (copy_identity mc c u) [''metadata'', ''uid''] = GetUID c"
    unfolding getNestedString_cong [OF n(2)] by (simp add: SetUID_def get_set_meta_string [OF m])
  then show "GetUID (copy_identity mc c u) = GetUID c" by (simp only: GetUID_def)
  have "GetGeneration (copy_identity mc c u) = GetGeneration ?u4"
    using n(3) by (simp add: GetGeneration_def NestedInt64_def nested_typed_def)
  with assms show "GetGeneration (copy_identity mc c u) = GetGeneration c" by (simp add: GetGeneration_set)
qed

section \<open>What the preserving steps leave alone\<close>

lemma preserve_apart:
  "diverge p q \<Longrightarrow> NestedField (preserveNestedFieldIfDesiredEmpty c p u) q = NestedField u q"
  by (auto simp: preserveNestedFieldIfDesiredEmpty_def nf.get_try_put_apart split: option.split)

lemma preserve_fold_apart:
  "(\<And>f. f \<in> set fs \<Longrightarrow> diverge [''spec'', f] q) \<Longrightarrow>
   NestedField (fold (\<lambda>f. preserveNestedFieldIfDesiredEmpty c [''spec'', f]) fs u) q = NestedField u q"
  by (induction fs arbitrary: u) (auto simp: preserve_apart simp del: diverge.simps)

lemma ports_apart:
  "diverge [''spec'', ''ports''] q \<Longrightarrow> NestedField (preserveServiceNodePorts c u) q = NestedField u q"
  by (auto simp: preserveServiceNodePorts_def nf.get_try_put_apart split: sum.split option.split)

lemma service_apart:
  assumes "\<And>f. f \<in> set (''ports'' # allocated_fields) \<Longrightarrow> diverge [''spec'', f] q"
  shows "NestedField (preserveServiceAllocatedFields c u) q = NestedField u q"
  using assms unfolding preserveServiceAllocatedFields_def
  by (simp add: ports_apart preserve_fold_apart del: diverge.simps)

lemma webhooks_apart:
  "diverge [''webhooks''] q \<Longrightarrow> NestedField (preserveWebhookInjectedCABundles c u) q = NestedField u q"
  by (auto simp: preserveWebhookInjectedCABundles_def nf.get_try_put_apart split: sum.split option.split)

lemma GroupKind_cong:
  "NestedField u [''apiVersion''] = NestedField v [''apiVersion''] \<Longrightarrow> NestedField u [''kind''] = NestedField v [''kind''] \<Longrightarrow>
   GroupKind u = GroupKind v"
  unfolding GroupKind_def GetAPIVersion_def GetKind_def
  by (simp only: getNestedString_cong [of u "[''apiVersion'']" v] getNestedString_cong [of u "[''kind'']" v])

lemma prepared_outside:
  assumes "f \<noteq> ''metadata''" "f \<noteq> ''status''" "f \<noteq> ''spec''" "f \<noteq> ''webhooks''"
  shows "NestedField (prepareClusterctlObjectForUpdate mc d c) (f # q) = NestedField d (f # q)"
  unfolding prepareClusterctlObjectForUpdate_def using assms
  by (simp add: webhooks_apart service_apart setters_apart copy_identity_apart)

lemma prepared_metadata:
  "NestedField (prepareClusterctlObjectForUpdate mc d c) (''metadata'' # q) =
   NestedField (copy_identity mc c d) (''metadata'' # q)"
  unfolding prepareClusterctlObjectForUpdate_def
  by (simp add: webhooks_apart service_apart setters_apart)

lemma group_kind_stage:
  "GroupKind (copy_status c (copy_identity mc c d)) = GroupKind d"
  by (rule GroupKind_cong) (simp_all add: setters_apart copy_identity_apart)

lemma service_group_kind: "GroupKind (preserveServiceAllocatedFields c u) = GroupKind u"
  by (rule GroupKind_cong) (simp_all add: service_apart)


section \<open>Webhook bundles\<close>

lemma present_Some: "present u p = Some v \<longleftrightarrow> NestedField u p = Inr (Some v) \<and> \<not> isEmptyUnstructuredValue v"
  by (auto simp: present_def split: sum.splits option.splits)

lemma add_bundle_other:
  "(\<And>v. x = JMap v \<Longrightarrow> webhook_name v = Some n \<Longrightarrow> present v ca_path = Some b) \<Longrightarrow>
   fmlookup m n = Some b \<Longrightarrow> fmlookup (add_bundle x m) n = Some b"
  by (auto simp: add_bundle_def split: json.splits option.splits)

lemma fold_bundles_keep:
  assumes "\<And>v. JMap v \<in> set ws \<Longrightarrow> webhook_name v = Some n \<Longrightarrow> present v ca_path = Some b"
    and "fmlookup m n = Some b"
  shows "fmlookup (fold add_bundle ws m) n = Some b"
  using assms
proof (induction ws arbitrary: m)
  case (Cons x ws)
  have "fmlookup (add_bundle x m) n = Some b"
    by (rule add_bundle_other) (use Cons.prems in auto)
  with Cons show ?case by simp
qed simp

lemma currentCABundles_lookup:
  assumes "JMap v \<in> set ws" and "webhook_name v = Some n" and "present v ca_path = Some b"
    and "\<And>v'. JMap v' \<in> set ws \<Longrightarrow> webhook_name v' = Some n \<Longrightarrow> present v' ca_path = Some b"
  shows "fmlookup (currentCABundles ws) n = Some b"
proof -
  from assms(1) obtain xs ys where ws: "ws = xs @ JMap v # ys" by (auto dest: split_list)
  have "fmlookup (add_bundle (JMap v) (fold add_bundle xs fmempty)) n = Some b"
    using assms(2,3) by (simp add: add_bundle_def)
  then have "fmlookup (fold add_bundle ys (add_bundle (JMap v) (fold add_bundle xs fmempty))) n = Some b"
    by (rule fold_bundles_keep [rotated]) (use assms(4) ws in auto)
  then show ?thesis by (simp add: currentCABundles_def ws)
qed

lemma preserve_bundle_sets:
  assumes "webhook_name w = Some n" and "present w ca_path = None" and "fmlookup bundles n = Some b"
    and "NestedMap w [''clientConfig''] = Inr x" and "\<not> isEmptyUnstructuredValue b"
  obtains w' where "preserve_bundle bundles (JMap w) = JMap w'" and "present w' ca_path = Some b"
    and "webhook_name w' = Some n"
proof -
  from assms(4) have "\<exists>w'. SetNestedField w b ca_path = Inr w'"
    by (auto simp: NestedMap_def nested_typed_def NestedField_def SetNestedField_def ca_path_def
        split: sum.splits option.splits json.splits)
  then obtain w' where w': "SetNestedField w b ca_path = Inr w'" by blast
  have "preserve_bundle bundles (JMap w) = JMap w'"
    using assms(1-3) w' by (simp add: preserve_bundle_def try_set_def)
  moreover have "present w' ca_path = Some b" using nf.get_put [OF w'] assms(5) by (simp add: present_Some)
  moreover have "webhook_name w' = Some n"
    using nf.get_put_apart [OF w', of "[''name'']"] assms(1)
    by (simp add: webhook_name_def NestedString_def nested_typed_def ca_path_def)
  ultimately show ?thesis by (rule that)
qed

lemma NestedSlice_cong: "NestedField u p = NestedField v p \<Longrightarrow> NestedSlice u p = NestedSlice v p"
  by (simp add: NestedSlice_def nested_typed_def)

lemma NestedSlice_put: "SetNestedField u (JList xs) p = Inr v \<Longrightarrow> NestedSlice v p = Inr (Some xs)"
  using nf.get_put [of u "JList xs" p v] by (simp add: NestedSlice_def nested_typed_def)

lemma preserve_webhooks_eq:
  "is_webhook_config u \<Longrightarrow> NestedSlice u [''webhooks''] = Inr (Some ds) \<Longrightarrow>
   NestedSlice c [''webhooks''] = Inr (Some cs) \<Longrightarrow>
   preserveWebhookInjectedCABundles c u = try_set u (JList (map (preserve_bundle (currentCABundles cs)) ds)) [''webhooks'']"
  by (simp add: preserveWebhookInjectedCABundles_def)

lemma prepared_webhooks:
  assumes "is_webhook_config d" and "NestedSlice d [''webhooks''] = Inr (Some ds)"
    and "NestedSlice c [''webhooks''] = Inr (Some cs)"
  shows "NestedSlice (prepareClusterctlObjectForUpdate mc d c) [''webhooks''] =
    Inr (Some (map (preserve_bundle (currentCABundles cs)) ds))"
proof -
  let ?u = "preserveServiceAllocatedFields c (copy_status c (copy_identity mc c d))"
  have k: "is_webhook_config ?u" using assms(1)
    by (simp add: is_webhook_config_def service_group_kind group_kind_stage)
  have "NestedField ?u [''webhooks''] = NestedField d [''webhooks'']"
    by (simp add: service_apart setters_apart copy_identity_apart)
  from NestedSlice_cong [OF this] assms(2) have ds: "NestedSlice ?u [''webhooks''] = Inr (Some ds)" by simp
  have "prepareClusterctlObjectForUpdate mc d c =
      try_set ?u (JList (map (preserve_bundle (currentCABundles cs)) ds)) [''webhooks'']"
    unfolding prepareClusterctlObjectForUpdate_def by (rule preserve_webhooks_eq [OF k ds assms(3)])
  moreover have p: "SetNestedField ?u v [''webhooks''] = Inr (try_set ?u v [''webhooks''])" for v
    by (simp add: SetNestedField_def try_set_def)
  ultimately show ?thesis using NestedSlice_put [OF p] by simp
qed

section \<open>Allocated service fields\<close>

lemma has_map_preserve [simp]: "has_map k u \<Longrightarrow> has_map k (preserveNestedFieldIfDesiredEmpty c [k', f] u)"
  by (auto simp: preserveNestedFieldIfDesiredEmpty_def split: option.split)

lemma present_cong: "NestedField u p = NestedField v p \<Longrightarrow> present u p = present v p"
  by (simp add: present_def)

lemma preserve_fold_sets:
  assumes "distinct fs" and "f \<in> set fs" and "has_map ''spec'' u"
    and "present c [''spec'', f] = Some v" and "present u [''spec'', f] = None"
  shows "present (fold (\<lambda>f. preserveNestedFieldIfDesiredEmpty c [''spec'', f]) fs u) [''spec'', f] = Some v"
  using assms
proof (induction fs arbitrary: u)
  case (Cons g gs)
  let ?u = "preserveNestedFieldIfDesiredEmpty c [''spec'', g] u"
  show ?case
  proof (cases "f = g")
    case True
    have "NestedField ?u [''spec'', g] = Inr (Some v)"
      using Cons.prems True by (simp add: preserveNestedFieldIfDesiredEmpty_def get_try_set_level)
    then have "present ?u [''spec'', f] = Some v"
      using Cons.prems(4) True by (simp add: present_Some)
    moreover have "NestedField (fold (\<lambda>f. preserveNestedFieldIfDesiredEmpty c [''spec'', f]) gs ?u) [''spec'', f] =
        NestedField ?u [''spec'', f]"
      using Cons.prems(1) True by (intro preserve_fold_apart) auto
    from present_cong [OF this] have
      "present (fold (\<lambda>f. preserveNestedFieldIfDesiredEmpty c [''spec'', f]) gs ?u) [''spec'', f] = present ?u [''spec'', f]" .
    ultimately show ?thesis by simp
  next
    case False
    have "NestedField ?u [''spec'', f] = NestedField u [''spec'', f]" using False by (intro preserve_apart) simp
    from present_cong [OF this] Cons.prems(5) have "present ?u [''spec'', f] = None" by simp
    with Cons False show ?thesis by (simp add: present_Some)
  qed
qed simp

section \<open>The loop\<close>

text \<open>Requests of the update loop: reads, creations and full updates.\<close>

fun apply_request :: "request \<Rightarrow> bool" where
  "apply_request (ReqCreate x) = True"
| "apply_request (ReqUpdate x) = True"
| "apply_request q = read_only q"

lemma clusterctl_one_emits:
  "reconcile_clusterctl_one mc srv u io = (r, io') \<Longrightarrow> emits (\<lambda>(q, a). apply_request q) io io'"
  by (auto simp: reconcile_clusterctl_one_def Let_def split: sum.splits prod.splits if_splits
      dest!: emits_request_as [where P = "\<lambda>(q, a). apply_request q"] intro: emits_trans)

interpretation cu: requester "reconcile_clusterctl_one mc srv" "\<lambda>u. True" "\<lambda>(q, a). apply_request q"
    for mc and srv :: "'w server"
  by unfold_locales (rule clusterctl_one_emits)

lemma reconcileClusterctlComponents_emits:
  "reconcileClusterctlComponents mc srv us io = (r, io') \<Longrightarrow> emits (\<lambda>(q, a). apply_request q) io io'"
  by (auto simp: reconcileClusterctlComponents_def first_failure_def list_all_iff
      split: prod.splits option.splits intro: cu.run_until_emits)


section \<open>Cluster status\<close>

lemma put_condition_true:
  assumes "fmlookup d ''type'' = Some (JStr t)" and "fmlookup d ''status'' = Some (JStr ''True'')"
  shows "condition_status_is_true (put_condition cs d) t"
proof (induction cs)
  case Nil
  with assms show ?case by simp
next
  case (Cons c cs)
  show ?case
  proof (cases c)
    case (JMap m)
    with assms Cons show ?thesis
      by (cases "fmlookup m ''type''") (auto simp: condition_type_def)
  qed (use Cons in \<open>auto simp: condition_type_def\<close>)
qed

lemma NestedBool_cong: "NestedField u p = NestedField v p \<Longrightarrow> NestedBool u p = NestedBool v p"
  by (simp add: NestedBool_def nested_typed_def)

lemma setClusterStatusCondition_true:
  assumes "setClusterStatusCondition u d = Inr v"
    and "fmlookup d ''type'' = Some (JStr t)" and "fmlookup d ''status'' = Some (JStr ''True'')"
  shows "clusterStatusConditionIsTrue v t = Inr True"
    and "NestedField v initialized_path = NestedField u initialized_path"
proof -
  from assms(1) obtain found where
    p: "SetNestedField u (JList (put_condition (case found of None \<Rightarrow> [] | Some cs \<Rightarrow> cs) d)) [''status'', ''conditions''] = Inr v"
    by (auto simp: setClusterStatusCondition_def SetNestedSlice_def split: sum.splits)
  from NestedSlice_put [OF p] put_condition_true [OF assms(2,3)]
  show "clusterStatusConditionIsTrue v t = Inr True" by (simp add: clusterStatusConditionIsTrue_def)
  show "NestedField v initialized_path = NestedField u initialized_path"
    by (rule nf.get_put_apart [OF p]) (simp add: initialized_path_def)
qed

lemma conditions_apart:
  "SetNestedField u b initialized_path = Inr v \<Longrightarrow>
   clusterStatusConditionIsTrue v t = clusterStatusConditionIsTrue u t"
  using nf.get_put_apart [of u b initialized_path v "[''status'', ''conditions'']"]
  by (simp add: clusterStatusConditionIsTrue_def NestedSlice_def nested_typed_def initialized_path_def)

lemma mark_initialized_effect:
  assumes "mark_initialized fmt now u = Inr (Some v)"
  shows "NestedBool v initialized_path = Inr (Some True)" and "clusterStatusConditionIsTrue v ''ControlPlaneInitialized'' = Inr True"
proof -
  from assms obtain ini ct u1 where ini: "NestedBool u initialized_path = Inr ini"
    and ct: "clusterStatusConditionIsTrue u ''ControlPlaneInitialized'' = Inr ct"
    and u1: "(if ini \<noteq> Some True then SetNestedField u (JBool True) initialized_path else Inr u) = Inr u1"
    and v: "(if \<not> ct then setClusterStatusCondition u1 (initialized_condition fmt now u1) else Inr u1) = Inr v"
    by (auto simp: mark_initialized_def split: sum.splits if_splits)
  have b1: "NestedBool u1 initialized_path = Inr (Some True)"
    using u1 ini nf.get_put [of u "JBool True" initialized_path u1]
    by (auto simp: NestedBool_def nested_typed_def split: if_splits)
  have c1: "clusterStatusConditionIsTrue u1 ''ControlPlaneInitialized'' = Inr ct"
    using u1 ct conditions_apart by (auto split: if_splits)
  have t: "fmlookup (initialized_condition fmt now u1) ''type'' = Some (JStr ''ControlPlaneInitialized'')"
      "fmlookup (initialized_condition fmt now u1) ''status'' = Some (JStr ''True'')"
    by (simp_all add: initialized_condition_def fmlookup_of_list)
  have "NestedBool v initialized_path = Inr (Some True) \<and> clusterStatusConditionIsTrue v ''ControlPlaneInitialized'' = Inr True"
  proof (cases ct)
    case True
    with v b1 c1 show ?thesis by simp
  next
    case False
    with v have sv: "setClusterStatusCondition u1 (initialized_condition fmt now u1) = Inr v" by simp
    from NestedBool_cong [OF setClusterStatusCondition_true(2) [OF sv t]] setClusterStatusCondition_true(1) [OF sv t] b1
    show ?thesis by simp
  qed
  then show "NestedBool v initialized_path = Inr (Some True)"
    and "clusterStatusConditionIsTrue v ''ControlPlaneInitialized'' = Inr True" by auto
qed

section \<open>Properties\<close>

text \<open>
  C27. An update of a provider object is a conditional write of the stored object: the prepared object
  carries the stored resource version, UID, generation and status, keeps the generated name,
  namespace, labels, annotations and every top-level field other than metadata, status, spec and
  webhooks, and, unless the object is a service, the generated spec.
\<close>

theorem prepared_update_identity:
  assumes "has_map ''metadata'' desired"
  shows "let r = prepareClusterctlObjectForUpdate mc desired current in
    GetResourceVersion r = GetResourceVersion current \<and> GetUID r = GetUID current \<and>
    GetGeneration r = GetGeneration current \<and> NestedField r [''status''] = NestedField current [''status''] \<and>
    GetName r = GetName desired \<and> GetNamespace r = GetNamespace desired \<and>
    GetLabels r = GetLabels desired \<and> GetAnnotations r = GetAnnotations desired \<and> GetKind r = GetKind desired \<and>
    (\<forall>f. f \<notin> {''metadata'', ''status'', ''spec'', ''webhooks''} \<longrightarrow> NestedField r [f] = NestedField desired [f]) \<and>
    (GroupKind desired \<noteq> ([], ''Service'') \<longrightarrow> NestedField r [''spec''] = NestedField desired [''spec''])"
proof -
  let ?r = "prepareClusterctlObjectForUpdate mc desired current"
  let ?i = "copy_identity mc current desired"
  have m: "NestedField ?r [''metadata'', f] = NestedField ?i [''metadata'', f]" for f by (rule prepared_metadata)
  have g: "NestedField ?r [''metadata'', f] = NestedField desired [''metadata'', f]" if "f \<notin> set identity_fields" for f
    unfolding m using that by (intro copy_identity_apart) auto
  have s: "getNestedString ?r [''metadata'', f] = getNestedString ?i [''metadata'', f]" for f
    by (rule getNestedString_cong [OF m])
  have "GetResourceVersion ?r = GetResourceVersion current" "GetUID ?r = GetUID current"
    using copy_identity_values(1,2) [OF assms, of mc current] s by (simp_all add: GetResourceVersion_def GetUID_def)
  moreover have "GetGeneration ?r = GetGeneration current"
    using copy_identity_values(3) [OF assms, of mc current] m [of "''generation''"]
    by (simp add: GetGeneration_def NestedInt64_def nested_typed_def)
  moreover have "NestedField ?r [''status''] = NestedField current [''status'']"
  proof -
    have "NestedField ?r [''status''] = NestedField (copy_status current ?i) [''status'']"
      unfolding prepareClusterctlObjectForUpdate_def by (simp add: webhooks_apart service_apart)
    also have "\<dots> = NestedField current [''status'']"
      by (auto simp: copy_status_def try_set_def SetNestedField_def NestedField_def split: option.split)
    finally show ?thesis .
  qed
  moreover have "GetName ?r = GetName desired" "GetNamespace ?r = GetNamespace desired"
    unfolding GetName_def GetNamespace_def by (rule getNestedString_cong, rule g, simp add: identity_fields_def)+
  moreover have "GetLabels ?r = GetLabels desired" "GetAnnotations ?r = GetAnnotations desired"
    using g [of "''labels''"] g [of "''annotations''"]
    by (simp_all add: GetLabels_def GetAnnotations_def get_meta_map_def NestedStringMap_def nested_typed_def identity_fields_def)
  moreover have "\<forall>f. f \<notin> {''metadata'', ''status'', ''spec'', ''webhooks''} \<longrightarrow> NestedField ?r [f] = NestedField desired [f]"
    using prepared_outside [where q = "[]"] by auto
  moreover from this have "GetKind ?r = GetKind desired" by (intro kind_of_field) simp
  moreover have "NestedField ?r [''spec''] = NestedField desired [''spec'']" if "GroupKind desired \<noteq> ([], ''Service'')"
    unfolding prepareClusterctlObjectForUpdate_def preserveServiceAllocatedFields_def
    using that by (simp add: group_kind_stage webhooks_apart setters_apart copy_identity_apart)
  ultimately show ?thesis by (simp only: Let_def) blast
qed

definition sample_stored :: object where
  "sample_stored = fmap_of_list [(''kind'', JStr ''Role''), (''metadata'', JMap (fmap_of_list
     [(''name'', JStr ''x''), (''resourceVersion'', JStr ''7'')]))]"

theorem prepared_update_identity_witness:
  "has_map ''metadata'' (sample_object ''Role'' ''n'' ''x'') \<and>
   GetResourceVersion (prepareClusterctlObjectForUpdate \<lparr>mc_time = id, mc_managed = Some\<rparr>
     (sample_object ''Role'' ''n'' ''x'') sample_stored) = ''7''"
proof -
  have h: "has_map ''metadata'' (sample_object ''Role'' ''n'' ''x'')"
    by (simp add: has_map_def sample_object_def fmlookup_of_list)
  have "GetResourceVersion sample_stored = ''7''"
    by (simp add: sample_stored_def GetResourceVersion_def getNestedString_def NestedString_def nested_typed_def
        NestedField_def fmlookup_of_list)
  with h prepared_update_identity [OF h, of "\<lparr>mc_time = id, mc_managed = Some\<rparr>" sample_stored] show ?thesis
    by (simp only: Let_def)
qed


text \<open>
  An injected CA bundle survives the update: when the generated webhook configuration has a webhook
  without a bundle and the stored one has, under the same unique name, an injected bundle, the
  prepared object has that webhook with that bundle, in the same position.
\<close>

theorem injected_bundle_survives:
  assumes "is_webhook_config desired" and "NestedSlice desired [''webhooks''] = Inr (Some ds)"
    and "NestedSlice current [''webhooks''] = Inr (Some cs)"
    and "i < length ds" and "ds ! i = JMap w" and "webhook_name w = Some n" and "present w ca_path = None"
    and "NestedMap w [''clientConfig''] = Inr x"
    and "JMap v \<in> set cs" and "webhook_name v = Some n" and "present v ca_path = Some b"
    and "\<And>v'. JMap v' \<in> set cs \<Longrightarrow> webhook_name v' = Some n \<Longrightarrow> v' = v"
  shows "\<exists>rs w'. NestedSlice (prepareClusterctlObjectForUpdate mc desired current) [''webhooks''] = Inr (Some rs) \<and>
    length rs = length ds \<and> rs ! i = JMap w' \<and> webhook_name w' = Some n \<and> present w' ca_path = Some b"
proof -
  have l: "fmlookup (currentCABundles cs) n = Some b"
  proof (rule currentCABundles_lookup [OF assms(9-11)])
    fix v'
    assume "JMap v' \<in> set cs" and "webhook_name v' = Some n"
    with assms(12) have "v' = v" .
    with assms(11) show "present v' ca_path = Some b" by simp
  qed
  have "\<not> isEmptyUnstructuredValue b" using assms(11) by (simp add: present_Some)
  then obtain w' where w': "preserve_bundle (currentCABundles cs) (JMap w) = JMap w'"
      "present w' ca_path = Some b" "webhook_name w' = Some n"
    using preserve_bundle_sets [OF assms(6,7) l assms(8)] by blast
  with prepared_webhooks [OF assms(1-3)] assms(4,5) show ?thesis by auto
qed

definition sample_webhook :: "json list \<Rightarrow> object" where
  "sample_webhook ws = fmap_of_list [(''apiVersion'', JStr ''admissionregistration.k8s.io/v1''),
     (''kind'', JStr ''ValidatingWebhookConfiguration''), (''webhooks'', JList ws)]"

lemma sample_group_version: "ParseGroupVersion ''admissionregistration.k8s.io/v1'' = Inr (''admissionregistration.k8s.io'', ''v1'')"
  using ParseGroupVersion_slash [of "''admissionregistration.k8s.io''" "''v1''"] by simp

lemma sample_webhook_facts:
  "is_webhook_config (sample_webhook ws)" "NestedSlice (sample_webhook ws) [''webhooks''] = Inr (Some ws)"
proof -
  have f: "NestedField (sample_webhook ws) [''apiVersion''] = Inr (Some (JStr ''admissionregistration.k8s.io/v1''))"
    "NestedField (sample_webhook ws) [''kind''] = Inr (Some (JStr ''ValidatingWebhookConfiguration''))"
    "NestedField (sample_webhook ws) [''webhooks''] = Inr (Some (JList ws))"
    by (simp_all add: NestedField_def sample_webhook_def fmlookup_of_list)
  then have "GetAPIVersion (sample_webhook ws) = ''admissionregistration.k8s.io/v1''"
    "GetKind (sample_webhook ws) = ''ValidatingWebhookConfiguration''"
    by (simp_all add: GetAPIVersion_def GetKind_def getNestedString_def NestedString_def nested_typed_def)
  then show "is_webhook_config (sample_webhook ws)"
    by (simp only: is_webhook_config_def GroupKind_def sample_group_version) simp
  from f show "NestedSlice (sample_webhook ws) [''webhooks''] = Inr (Some ws)"
    by (simp add: NestedSlice_def nested_typed_def)
qed

theorem injected_bundle_survives_witness:
  "let w = fmap_of_list [(''name'', JStr ''a'')];
       v = fmap_of_list [(''name'', JStr ''a''), (''clientConfig'', JMap (fmap_of_list [(''caBundle'', JStr ''B'')]))];
       r = prepareClusterctlObjectForUpdate \<lparr>mc_time = id, mc_managed = Some\<rparr>
         (sample_webhook [JMap w]) (sample_webhook [JMap v])
   in \<exists>rs w'. NestedSlice r [''webhooks''] = Inr (Some rs) \<and> rs ! 0 = JMap w' \<and> present w' ca_path = Some (JStr ''B'')"
proof -
  let ?w = "fmap_of_list [(''name'', JStr ''a'')]"
  let ?v = "fmap_of_list [(''name'', JStr ''a''), (''clientConfig'', JMap (fmap_of_list [(''caBundle'', JStr ''B'')]))]"
  note d = webhook_name_def NestedString_def nested_typed_def NestedField_def fmlookup_of_list present_def ca_path_def
    NestedMap_def
  have "webhook_name ?w = Some ''a''" "present ?w ca_path = None" "NestedMap ?w [''clientConfig''] = Inr None"
    "webhook_name ?v = Some ''a''" "present ?v ca_path = Some (JStr ''B'')"
    by (simp_all add: d)
  then have "\<exists>rs w'. NestedSlice (prepareClusterctlObjectForUpdate \<lparr>mc_time = id, mc_managed = Some\<rparr>
      (sample_webhook [JMap ?w]) (sample_webhook [JMap ?v])) [''webhooks''] = Inr (Some rs) \<and>
    length rs = length [JMap ?w] \<and> rs ! 0 = JMap w' \<and> webhook_name w' = Some ''a'' \<and> present w' ca_path = Some (JStr ''B'')"
    by (intro injected_bundle_survives [where v = ?v and w = ?w and cs = "[JMap ?v]"]) (auto simp: sample_webhook_facts)
  then show ?thesis by (simp only: Let_def) blast
qed

text \<open>
  A service keeps what the cluster allocated: an address or policy field that the stored service
  has and the generated one leaves empty is in the prepared object.
\<close>

theorem allocated_field_survives:
  assumes "GroupKind desired = ([], ''Service'')" and "has_map ''spec'' desired"
    and "f \<in> {''clusterIP'', ''clusterIPs'', ''ipFamilies'', ''ipFamilyPolicy'', ''internalTrafficPolicy'', ''healthCheckNodePort''}"
    and "present current [''spec'', f] = Some v" and "present desired [''spec'', f] = None"
  shows "present (prepareClusterctlObjectForUpdate mc desired current) [''spec'', f] = Some v"
proof -
  let ?u = "copy_status current (copy_identity mc current desired)"
  let ?F = "fold (\<lambda>f. preserveNestedFieldIfDesiredEmpty current [''spec'', f]) allocated_fields ?u"
  have "NestedField ?u [''spec'', f] = NestedField desired [''spec'', f]"
    by (simp add: setters_apart copy_identity_apart)
  from present_cong [OF this] have u: "present ?u [''spec'', f] = None" using assms(5) by simp
  have s: "present ?F [''spec'', f] = Some v"
    by (rule preserve_fold_sets) (use assms(2-4) u in \<open>auto simp: allocated_fields_def\<close>)
  have "NestedField (prepareClusterctlObjectForUpdate mc desired current) [''spec'', f] =
      NestedField (preserveServiceNodePorts current ?F) [''spec'', f]"
    unfolding prepareClusterctlObjectForUpdate_def preserveServiceAllocatedFields_def
    using assms(1) by (simp add: group_kind_stage webhooks_apart)
  also have "\<dots> = NestedField ?F [''spec'', f]" using assms(3) by (intro ports_apart) auto
  finally show ?thesis using s by (simp add: present_Some)
qed

definition sample_service :: "object \<Rightarrow> object" where
  "sample_service spec = fmap_of_list [(''apiVersion'', JStr ''v1''), (''kind'', JStr ''Service''), (''spec'', JMap spec)]"

theorem allocated_field_survives_witness:
  "present (prepareClusterctlObjectForUpdate \<lparr>mc_time = id, mc_managed = Some\<rparr> (sample_service fmempty)
     (sample_service (fmap_of_list [(''clusterIP'', JStr ''10.0.0.1'')]))) [''spec'', ''clusterIP''] = Some (JStr ''10.0.0.1'')"
  by (rule allocated_field_survives)
    (simp_all add: sample_service_def GroupKind_def GetAPIVersion_def GetKind_def getNestedString_def NestedString_def
      nested_typed_def NestedField_def fmlookup_of_list ParseGroupVersion_def has_map_def present_def)

text \<open>
  One step of the update loop, for every server: it reads the object first; then it creates the
  generated object if that was not found, does nothing if the stored object already is the prepared
  one, and otherwise sends one update with the prepared object. Nothing is ever deleted.
\<close>

theorem clusterctl_step_outcome:
  assumes "setDeploymentRolloutDefaults u = Inr d" and "reconcile_clusterctl_one mc srv u io = (r, io')"
  shows "\<exists>a. let get = (ReqGet (obj_kind (OUnstructured d)) (obj_key (OUnstructured d)), a) in
    sent io io' = [get] \<and>
      (case a of RespObj (OUnstructured c) \<Rightarrow> r = None \<and> prepareClusterctlObjectForUpdate mc d c = c | _ \<Rightarrow> r \<noteq> None) \<or>
    (\<exists>e b. a = RespErr e \<and> IsNotFound e \<and> sent io io' = [get, (ReqCreate (OUnstructured d), b)] \<and>
       (r = None \<longleftrightarrow> (\<forall>e. b \<noteq> RespErr e))) \<or>
    (\<exists>c b. a = RespObj (OUnstructured c) \<and> prepareClusterctlObjectForUpdate mc d c \<noteq> c \<and>
       sent io io' = [get, (ReqUpdate (OUnstructured (prepareClusterctlObjectForUpdate mc d c)), b)] \<and>
       (r = None \<longleftrightarrow> (\<forall>e. b \<noteq> RespErr e)))"
proof -
  let ?g = "ReqGet (obj_kind (OUnstructured d)) (obj_key (OUnstructured d))"
  obtain x io1 where q: "request_as srv resp_unstructured ?g io = (x, io1)"
    by (cases "request_as srv resp_unstructured ?g io")
  from request_as_log [OF q] obtain a where a: "io_log io1 = io_log io @ [(?g, a)]"
      and x: "x = expect resp_unstructured a" by blast
  have wr: "\<exists>b. sent io io' = [(?g, a), (w, b)] \<and> (r = None \<longleftrightarrow> (\<forall>e. b \<noteq> RespErr e))"
    if "(case request_as srv resp_unit w io1 of (Inl e, io2) \<Rightarrow> (Some e, io2) | (Inr u, io2) \<Rightarrow> (None, io2)) = (r, io')" for w
  proof -
    obtain y io2 where y: "request_as srv resp_unit w io1 = (y, io2)" by (cases "request_as srv resp_unit w io1")
    from request_as_log [OF y] obtain b where b: "io_log io2 = io_log io1 @ [(w, b)]" "y = expect resp_unit b" by blast
    with that y a show ?thesis by (cases b) (auto simp: sent_def expect_def)
  qed
  consider (obj) c where "a = RespObj (OUnstructured c)" | (missing) e where "a = RespErr e" "IsNotFound e"
    | (failed) e where "x = Inl e" "\<not> IsNotFound e" "\<forall>c. a \<noteq> RespObj (OUnstructured c)"
  proof -
    have "(\<exists>c. a = RespObj (OUnstructured c)) \<or> (\<exists>e. a = RespErr e \<and> IsNotFound e) \<or>
        (\<exists>e. x = Inl e \<and> \<not> IsNotFound e \<and> (\<forall>c. a \<noteq> RespObj (OUnstructured c)))"
      unfolding x by (cases a rule: resp_unstructured.cases) (auto simp: expect_def decode_error_def)
    then show thesis using that by blast
  qed
  then show ?thesis
  proof cases
    case obj
    then have "x = Inr c" by (simp add: x expect_def)
    with obj assms q wr [of "ReqUpdate (OUnstructured (prepareClusterctlObjectForUpdate mc d c))"] a show ?thesis
      by (auto simp: reconcile_clusterctl_one_def Let_def sent_def split: if_splits)
  next
    case missing
    then have "x = Inl e" by (simp add: x expect_def)
    with missing assms q wr [of "ReqCreate (OUnstructured d)"] show ?thesis
      by (auto simp: reconcile_clusterctl_one_def Let_def)
  next
    case failed
    with assms q a show ?thesis
      by (intro exI [of _ a]) (auto simp: reconcile_clusterctl_one_def Let_def sent_def split: response.split kobj.split)
  qed
qed


theorem clusterctl_step_outcome_witness:
  "let u = sample_object ''Role'' ''n'' ''x'';
       io' = snd (reconcile_clusterctl_one \<lparr>mc_time = id, mc_managed = Some\<rparr> (const_server RespOk) u (start_io ()))
   in setDeploymentRolloutDefaults u = Inr u \<and>
      fst (hd (sent (start_io ()) io')) = ReqGet (obj_kind (OUnstructured u)) (obj_key (OUnstructured u))"
proof -
  let ?u = "sample_object ''Role'' ''n'' ''x''"
  let ?mc = "\<lparr>mc_time = id, mc_managed = Some\<rparr>"
  have "GetAPIVersion ?u = []"
    by (simp add: GetAPIVersion_def getNestedString_def NestedString_def nested_typed_def NestedField_def
        sample_object_def fmlookup_of_list)
  then have "GroupKind ?u = ([], ''Role'')" by (simp add: GroupKind_def ParseGroupVersion_def)
  then have d: "setDeploymentRolloutDefaults ?u = Inr ?u" by (simp add: setDeploymentRolloutDefaults_def)
  from clusterctl_step_outcome [OF d surjective_pairing, where mc = ?mc and srv = "const_server RespOk" and io = "start_io ()"]
  have "fst (hd (sent (start_io ()) (snd (reconcile_clusterctl_one ?mc (const_server RespOk) ?u (start_io ()))))) =
      ReqGet (obj_kind (OUnstructured ?u)) (obj_key (OUnstructured ?u))"
    by (simp only: Let_def) (elim exE disjE conjE; simp only: list.sel fst_conv)
  with d show ?thesis by (simp only: Let_def)
qed

text \<open>
  Marking the existing control plane as initialised is effective and done once: after a computed
  change both the status field and the condition say so, and computing the change again, at any
  time, asks for nothing.
\<close>

theorem mark_initialized_settles:
  assumes "mark_initialized fmt now cluster = Inr (Some cluster')"
  shows "NestedBool cluster' [''status'', ''initialization'', ''controlPlaneInitialized''] = Inr (Some True) \<and>
    clusterStatusConditionIsTrue cluster' ''ControlPlaneInitialized'' = Inr True \<and>
    mark_initialized fmt now' cluster' = Inr None"
  using mark_initialized_effect [OF assms] by (simp add: mark_initialized_def initialized_path_def)

theorem mark_initialized_settles_witness:
  "\<exists>c'. mark_initialized (\<lambda>t. show_int t) 5 fmempty = Inr (Some c') \<and>
     mark_initialized (\<lambda>t. show_int t) 6 c' = Inr None"
proof -
  have "\<exists>c'. mark_initialized (\<lambda>t. show_int t) 5 fmempty = Inr (Some c')"
    by (simp add: mark_initialized_def NestedBool_def nested_typed_def NestedField_def initialized_path_def
        clusterStatusConditionIsTrue_def NestedSlice_def SetNestedField_def setClusterStatusCondition_def SetNestedSlice_def)
  then obtain c' where c': "mark_initialized (\<lambda>t. show_int t) 5 fmempty = Inr (Some c')" by blast
  from mark_initialized_settles [OF this, of 6] c' show ?thesis by blast
qed

end
