(* ===== verification/Convergence.thy ===== *)
theory Convergence
  imports ClusterctlUpdate
begin

text \<open>
  The update of generated manifests settles: preparing a manifest against the object that an earlier
  pass stored gives that object again, so that the loop
  (\<open>internal/controllers/ociclusterautoscaler_controller.go\<close>) reads it and sends nothing. What a manifest
  must satisfy for this (\<open>settles\<close>) is what the API server demands of services and webhook
  configurations: no two different ports or webhooks with one identity.
\<close>

section \<open>Manifests that settle\<close>

definition same_webhook :: "object \<Rightarrow> object \<Rightarrow> bool" where
  "same_webhook v w \<longleftrightarrow> webhook_name v \<noteq> None \<and> webhook_name v = webhook_name w"

text \<open>Elements with the same identity are equal.\<close>

definition identified_by :: "(object \<Rightarrow> object \<Rightarrow> bool) \<Rightarrow> json list \<Rightarrow> bool" where
  "identified_by same xs \<longleftrightarrow> list_all (\<lambda>x. list_all (\<lambda>y. case (as_map x, as_map y) of
     (Some v, Some w) \<Rightarrow> (if same v w then v = w else True) | _ \<Rightarrow> True) xs) xs"

definition slice_identified :: "(object \<Rightarrow> object \<Rightarrow> bool) \<Rightarrow> object \<Rightarrow> string list \<Rightarrow> bool" where
  "slice_identified same u p = (case NestedSlice u p of Inr (Some xs) \<Rightarrow> identified_by same xs | _ \<Rightarrow> True)"

definition settles :: "object \<Rightarrow> bool" where
  "settles u \<longleftrightarrow> has_map ''metadata'' u \<and>
     (if GroupKind u = ([], ''Service'') then has_map ''spec'' u \<and> slice_identified same_port u [''spec'', ''ports''] else True) \<and>
     (if is_webhook_config u then slice_identified same_webhook u [''webhooks''] else True)"

lemma identified_byD:
  "identified_by same xs \<Longrightarrow> JMap v \<in> set xs \<Longrightarrow> JMap w \<in> set xs \<Longrightarrow> same v w \<Longrightarrow> v = w"
  by (fastforce simp: identified_by_def list_all_iff)

section \<open>Ports\<close>

lemma same_port_refl [simp]: "same_port p p"
  by (simp add: same_port_def)

lemma preserve_port_Nil [simp]: "preserve_port [] = (\<lambda>p. p)"
  by (intro ext) (simp add: preserve_port_def split: json.split)

lemma preserve_port_map:
  obtains p' where "preserve_port cs (JMap p) = JMap p'" and "same_port q p' = same_port q p"
proof -
  have "\<exists>p'. preserve_port cs (JMap p) = JMap p' \<and> (\<forall>f. f \<noteq> ''nodePort'' \<longrightarrow> fmlookup p' f = fmlookup p f)"
    by (auto simp: preserve_port_def split: option.split)
  then obtain p' where p': "preserve_port cs (JMap p) = JMap p'" "\<forall>f. f \<noteq> ''nodePort'' \<longrightarrow> fmlookup p' f = fmlookup p f"
    by blast
  then have "same_port q p' = same_port q p" by (simp add: same_port_def servicePortIdentity_def)
  with p'(1) show ?thesis by (rule that)
qed

lemma preserve_port_keeps_kind: "(\<forall>p. x \<noteq> JMap p) \<Longrightarrow> preserve_port cs x = x"
  by (cases x) (auto simp: preserve_port_def)

lemma matching_own_port:
  assumes "JMap p \<in> set ds" and "\<And>q. JMap q \<in> set ds \<Longrightarrow> same_port p q \<Longrightarrow> p = q"
    and "preserve_port cs (JMap p) = JMap p'"
  shows "matchingServicePort p (map (preserve_port cs) ds) = Some p'"
  using assms(1,2)
proof (induction ds)
  case (Cons x ds)
  show ?case
  proof (cases "\<exists>q. x = JMap q")
    case True
    then obtain q where q: "x = JMap q" by blast
    obtain q' where q': "preserve_port cs (JMap q) = JMap q'" "same_port p q' = same_port p q"
      by (rule preserve_port_map)
    show ?thesis
    proof (cases "same_port p q")
      case True
      with Cons.prems q have "p = q" by auto
      with q q' assms(3) True show ?thesis by simp
    next
      case False
      then have "p \<noteq> q" by auto
      with Cons q q' False show ?thesis by simp
    qed
  next
    case False
    with Cons show ?thesis by (cases x) (auto simp: preserve_port_keeps_kind)
  qed
qed simp

lemma node_port_set: "node_port p = Some v \<Longrightarrow> node_port (fmupd ''nodePort'' v q) = Some v"
  by (auto simp: node_port_def split: option.splits if_splits)

lemma preserve_port_settles:
  assumes "identified_by same_port ds" and "x \<in> set ds"
  shows "preserve_port (map (preserve_port cs) ds) x = preserve_port cs x"
proof (cases "\<exists>p. x = JMap p")
  case True
  then obtain p where p: "x = JMap p" by blast
  obtain p' where p': "preserve_port cs (JMap p) = JMap p'" by (rule preserve_port_map)
  from assms p have m: "matchingServicePort p (map (preserve_port cs) ds) = Some p'"
    by (intro matching_own_port [OF _ _ p']) (auto dest: identified_byD)
  show ?thesis
  proof (cases "node_port p")
    case None
    show ?thesis
    proof (cases "p' = p")
      case True
      with None m p p' show ?thesis by (simp add: preserve_port_def)
    next
      case False
      with p' None obtain c v where "matchingServicePort p cs = Some c" "node_port c = Some v" "p' = fmupd ''nodePort'' v p"
        by (auto simp: preserve_port_def split: option.splits)
      with None m p show ?thesis by (simp add: preserve_port_def node_port_set)
    qed
  qed (simp add: p preserve_port_def)
qed (simp add: preserve_port_keeps_kind)

lemma preserve_ports_settle:
  "identified_by same_port ds \<Longrightarrow> map (preserve_port (map (preserve_port cs) ds)) ds = map (preserve_port cs) ds"
  by (simp add: preserve_port_settles)

section \<open>Webhooks\<close>

lemma bundles_not_empty:
  assumes "fmlookup (currentCABundles ws) n = Some b"
  shows "\<not> isEmptyUnstructuredValue b"
proof -
  have "fmlookup (fold add_bundle ws m) n = Some b \<Longrightarrow>
      (\<And>n b. fmlookup m n = Some b \<Longrightarrow> \<not> isEmptyUnstructuredValue b) \<Longrightarrow> \<not> isEmptyUnstructuredValue b" for m
  proof (induction ws arbitrary: m)
    case (Cons x ws)
    have "\<not> isEmptyUnstructuredValue c" if "fmlookup (add_bundle x m) k = Some c" for k c
      using that Cons.prems(2)
      by (auto simp: add_bundle_def present_Some split: json.splits option.splits if_splits)
    with Cons show ?case by auto
  qed auto
  from this [of fmempty] assms show ?thesis by (simp add: currentCABundles_def)
qed

lemma no_bundle:
  assumes "\<And>v. JMap v \<in> set ws \<Longrightarrow> webhook_name v = Some n \<Longrightarrow> present v ca_path = None"
  shows "fmlookup (currentCABundles ws) n = None"
proof -
  have "fmlookup (fold add_bundle ws m) n = fmlookup m n" for m
    using assms
  proof (induction ws arbitrary: m)
    case (Cons x ws)
    have "fmlookup (add_bundle x m) n = fmlookup m n"
      using Cons.prems [of "the (as_map x)"] by (auto simp: add_bundle_def split: json.split option.split)
    with Cons show ?case by simp
  qed simp
  then show ?thesis by (simp add: currentCABundles_def)
qed

lemma webhook_name_set_ca: "webhook_name (try_set w b ca_path) = webhook_name w"
  using nf.get_try_put_apart [of ca_path "[''name'']" w b]
  by (simp add: webhook_name_def NestedString_def nested_typed_def ca_path_def)

lemma preserve_bundle_map:
  obtains w' where "preserve_bundle bs (JMap w) = JMap w'" and "webhook_name w' = webhook_name w"
proof -
  have "\<exists>w'. preserve_bundle bs (JMap w) = JMap w' \<and> webhook_name w' = webhook_name w"
    by (auto simp: preserve_bundle_def webhook_name_set_ca split: option.split)
  then show ?thesis using that by blast
qed

lemma preserve_bundle_inv: "preserve_bundle bs x = JMap w' \<Longrightarrow> \<exists>w. x = JMap w"
  by (cases x) (auto simp: preserve_bundle_def)

lemma preserve_bundle_keeps_kind: "(\<forall>p. x \<noteq> JMap p) \<Longrightarrow> preserve_bundle bs x = x"
  by (cases x) (auto simp: preserve_bundle_def)

text \<open>The bundles of the prepared webhooks: for every name the bundle its webhook ended with.\<close>

lemma bundles_of_prepared:
  assumes "identified_by same_webhook ds" and "JMap w \<in> set ds" and "webhook_name w = Some n"
    and "preserve_bundle bs (JMap w) = JMap w'"
  shows "fmlookup (currentCABundles (map (preserve_bundle bs) ds)) n = present w' ca_path"
proof -
  have only: "v' = w'" if "JMap v' \<in> set (map (preserve_bundle bs) ds)" and "webhook_name v' = Some n" for v'
  proof -
    from that obtain x where x: "x \<in> set ds" "preserve_bundle bs x = JMap v'" by auto
    with preserve_bundle_inv obtain v where v: "x = JMap v" by blast
    obtain u where "preserve_bundle bs (JMap v) = JMap u" "webhook_name u = webhook_name v" by (rule preserve_bundle_map)
    with x v that(2) have "webhook_name v = Some n" by simp
    then have "same_webhook w v" by (simp add: same_webhook_def assms(3))
    with assms(1,2) x v have "w = v" by (auto dest: identified_byD)
    with x v assms(4) show "v' = w'" by simp
  qed
  have "JMap w' \<in> set (map (preserve_bundle bs) ds)" using assms(2,4) by (force simp flip: assms(4))
  moreover have "webhook_name w' = Some n"
    using assms(3,4) by (rule_tac preserve_bundle_map [of bs w]) simp
  ultimately show ?thesis
  proof (cases "present w' ca_path")
    case None
    with only show ?thesis by (auto intro: no_bundle)
  next
    case (Some b)
    with \<open>JMap w' \<in> _\<close> \<open>webhook_name w' = Some n\<close>
    have "fmlookup (currentCABundles (map (preserve_bundle bs) ds)) n = Some b"
    proof (rule currentCABundles_lookup)
      fix v' assume "JMap v' \<in> set (map (preserve_bundle bs) ds)" "webhook_name v' = Some n"
      from only [OF this] Some show "present v' ca_path = Some b" by simp
    qed
    with Some show ?thesis by simp
  qed
qed

lemma preserve_bundle_settles:
  assumes "identified_by same_webhook ds" and "x \<in> set ds" and "bs = currentCABundles cs"
  shows "preserve_bundle (currentCABundles (map (preserve_bundle bs) ds)) x = preserve_bundle bs x"
proof (cases "\<exists>w. x = JMap w")
  case True
  then obtain w where w: "x = JMap w" by blast
  obtain w' where w': "preserve_bundle bs (JMap w) = JMap w'" by (rule preserve_bundle_map)
  show ?thesis
  proof (cases "webhook_name w")
    case (Some n)
    from assms(1,2) w Some w' have l:
      "fmlookup (currentCABundles (map (preserve_bundle bs) ds)) n = present w' ca_path"
      by (intro bundles_of_prepared) auto
    show ?thesis
    proof (cases "present w ca_path")
      case None
      show ?thesis
      proof (cases "fmlookup bs n")
        case None
        with Some \<open>present w ca_path = None\<close> w' have "w' = w" by (simp add: preserve_bundle_def)
        with l None Some \<open>present w ca_path = None\<close> w show ?thesis by (simp add: preserve_bundle_def)
      next
        case b: (Some b)
        with assms(3) bundles_not_empty have e: "\<not> isEmptyUnstructuredValue b" by blast
        from b Some None w' have s: "w' = try_set w b ca_path" by (simp add: preserve_bundle_def)
        show ?thesis
        proof (cases "SetNestedField w b ca_path")
          case (Inl e)
          then have "w' = w" by (simp add: s try_set_def)
          with l Some None w w' show ?thesis by (simp add: preserve_bundle_def)
        next
          case (Inr v)
          then have "present w' ca_path = Some b"
            using nf.get_put [OF Inr] e by (simp add: s try_set_def present_Some)
          with l Some None b w show ?thesis by (simp add: preserve_bundle_def)
        qed
      qed
    qed (simp add: w Some preserve_bundle_def)
  qed (simp add: w preserve_bundle_def)
qed (simp add: preserve_bundle_keeps_kind)

lemma preserve_bundles_settle:
  "identified_by same_webhook ds \<Longrightarrow>
   map (preserve_bundle (currentCABundles (map (preserve_bundle (currentCABundles cs)) ds))) ds =
   map (preserve_bundle (currentCABundles cs)) ds"
  by (simp add: preserve_bundle_settles)

lemma preserve_bundle_none [simp]: "preserve_bundle fmempty = (\<lambda>x. x)"
  by (intro ext) (simp add: preserve_bundle_def split: json.split option.split)

lemma currentCABundles_Nil [simp]: "currentCABundles [] = fmempty"
  by (simp add: currentCABundles_def)

section \<open>Identity and status\<close>

text \<open>Reading a timestamp or a managed field that was written by a conversion gives it back.\<close>

definition stable_conv :: "meta_conv \<Rightarrow> bool" where
  "stable_conv mc \<longleftrightarrow> (\<forall>s. mc_time mc (mc_time mc s) = mc_time mc s) \<and>
     (\<forall>u v. mc_managed mc u = Some v \<longrightarrow> mc_managed mc v = Some v)"

lemma managed_fields_converted:
  assumes "GetManagedFields mc c = Some xs" and "x \<in> set xs"
  shows "\<exists>u v. mc_managed mc u = Some v \<and> x = JMap v"
proof -
  from assms(1) obtain items where items: "NestedSlice c [''metadata'', ''managedFields''] = Inr (Some items)"
    by (auto simp: GetManagedFields_def split: sum.splits option.splits)
  with assms obtain i where i: "i \<in> set items" "x = JMap (the (Option.bind (as_map i) (mc_managed mc)))"
    and "Option.bind (as_map i) (mc_managed mc) \<noteq> None"
    by (auto simp: GetManagedFields_def Let_def list_all_iff split: if_splits)
  then show ?thesis by (auto simp: bind_eq_None_conv split: option.splits)
qed

lemma metadata_cong:
  assumes "NestedField u p = NestedField v p"
  shows "NestedInt64 u p = NestedInt64 v p" and "NestedSlice u p = NestedSlice v p"
    and "NestedStringSlice u p = NestedStringSlice v p"
  using assms by (simp_all add: NestedInt64_def NestedSlice_def NestedStringSlice_def nested_typed_def)

lemma copy_identity_fields:
  assumes "has_map ''metadata'' u" and "stable_conv mc"
  shows "mc_time mc (getNestedString (copy_identity mc c u) [''metadata'', ''creationTimestamp'']) =
      mc_time mc (getNestedString c [''metadata'', ''creationTimestamp''])"
    and "GetManagedFields mc (copy_identity mc c u) = GetManagedFields mc c"
    and "GetFinalizers (copy_identity mc c u) = GetFinalizers c"
proof -
  let ?u2 = "SetUID (SetResourceVersion u (GetResourceVersion c)) (GetUID c)"
  let ?u3 = "copyCreationTimestamp mc c ?u2"
  let ?u4 = "SetGeneration ?u3 (GetGeneration c)"
  let ?u5 = "SetManagedFields ?u4 (GetManagedFields mc c)"
  let ?v = "copy_identity mc c u"
  have "NestedField ?v [''metadata'', ''creationTimestamp''] = NestedField ?u3 [''metadata'', ''creationTimestamp'']"
    unfolding copy_identity_def Let_def by (simp add: setters_apart)
  moreover have "has_map ''metadata'' ?u2" using assms(1) by simp
  ultimately have "getNestedString ?v [''metadata'', ''creationTimestamp''] =
      mc_time mc (getNestedString c [''metadata'', ''creationTimestamp''])"
    by (metis copyCreationTimestamp_def getNestedString_cong get_set_meta_string)
  with assms(2) show "mc_time mc (getNestedString ?v [''metadata'', ''creationTimestamp'']) =
      mc_time mc (getNestedString c [''metadata'', ''creationTimestamp''])" by (simp add: stable_conv_def)
  have m5: "has_map ''metadata'' ?u4" "has_map ''metadata'' ?u5" using assms(1) by simp_all
  have n5: "NestedField ?v [''metadata'', ''managedFields''] = NestedField ?u5 [''metadata'', ''managedFields'']"
    unfolding copy_identity_def Let_def by (simp add: setters_apart)
  show "GetManagedFields mc ?v = GetManagedFields mc c"
  proof (cases "GetManagedFields mc c")
    case None
    then have "NestedField ?v [''metadata'', ''managedFields''] = Inr None"
      using n5 get_remove_level [OF m5(1)] by (simp add: SetManagedFields_def del: RemoveNestedField.simps)
    with None show ?thesis by (simp add: GetManagedFields_def NestedSlice_def nested_typed_def)
  next
    case (Some xs)
    then have f: "NestedField ?v [''metadata'', ''managedFields''] = Inr (Some (JList xs))"
      using n5 get_try_set_level [OF m5(1)] by (simp add: SetManagedFields_def)
    have "\<forall>x \<in> set xs. \<exists>v. x = JMap v \<and> mc_managed mc v = Some v"
    proof
      fix x assume "x \<in> set xs"
      with managed_fields_converted [OF Some] obtain o' v where "mc_managed mc o' = Some v" "x = JMap v" by blast
      with assms(2) show "\<exists>v. x = JMap v \<and> mc_managed mc v = Some v" by (auto simp: stable_conv_def)
    qed
    then have "list_all (\<lambda>x. x \<noteq> None) (map (\<lambda>x. Option.bind (as_map x) (mc_managed mc)) xs)"
      and "map (\<lambda>x. JMap (the (Option.bind (as_map x) (mc_managed mc)))) xs = xs"
      by (auto simp: list_all_iff intro!: map_idI)
    with Some f show ?thesis by (simp add: GetManagedFields_def NestedSlice_def nested_typed_def Let_def comp_def)
  qed
  show "GetFinalizers ?v = GetFinalizers c"
  proof (cases "GetFinalizers c")
    case None
    then have "NestedField ?v [''metadata'', ''finalizers''] = Inr None"
      using get_remove_level [OF m5(2)]
      by (simp add: copy_identity_def Let_def SetFinalizers_def del: RemoveNestedField.simps)
    with None show ?thesis by (simp add: GetFinalizers_def NestedStringSlice_def nested_typed_def)
  next
    case (Some fs)
    then have "NestedField ?v [''metadata'', ''finalizers''] = Inr (Some (JList (map JStr fs)))"
      using get_try_set_level [OF m5(2)] by (simp add: copy_identity_def Let_def SetFinalizers_def)
    with Some show ?thesis
      by (simp add: GetFinalizers_def NestedStringSlice_def nested_typed_def as_str_list_def list_all_iff comp_def)
  qed
qed

lemma copy_identity_settles:
  assumes "has_map ''metadata'' d" and "stable_conv mc"
    and "\<And>f. f \<in> set identity_fields \<Longrightarrow>
      NestedField c' [''metadata'', f] = NestedField (copy_identity mc c d) [''metadata'', f]"
  shows "copy_identity mc c' u = copy_identity mc c u"
proof -
  let ?v = "copy_identity mc c d"
  have n: "f \<in> set identity_fields \<Longrightarrow> getNestedString c' [''metadata'', f] = getNestedString ?v [''metadata'', f]" for f
    by (rule getNestedString_cong) (rule assms(3))
  have g: "NestedField c' [''metadata'', ''generation''] = NestedField ?v [''metadata'', ''generation'']"
    and m: "NestedField c' [''metadata'', ''managedFields''] = NestedField ?v [''metadata'', ''managedFields'']"
    and f: "NestedField c' [''metadata'', ''finalizers''] = NestedField ?v [''metadata'', ''finalizers'']"
    by (simp_all add: assms(3) identity_fields_def)
  have "GetResourceVersion c' = GetResourceVersion c" "GetUID c' = GetUID c"
    using copy_identity_values(1,2) [OF assms(1), of mc c] n [of "''resourceVersion''"] n [of "''uid''"]
    by (simp_all add: GetResourceVersion_def GetUID_def identity_fields_def)
  moreover have "GetGeneration c' = GetGeneration c"
    using copy_identity_values(3) [OF assms(1), of mc c] metadata_cong(1) [OF g] by (simp add: GetGeneration_def)
  moreover have "copyCreationTimestamp mc c' = copyCreationTimestamp mc c"
    using copy_identity_fields(1) [OF assms(1,2), of c] n [of "''creationTimestamp''"]
    by (intro ext) (simp add: copyCreationTimestamp_def identity_fields_def)
  moreover have "GetManagedFields mc c' = GetManagedFields mc c"
    using copy_identity_fields(2) [OF assms(1,2), of c] metadata_cong(2) [OF m] by (simp add: GetManagedFields_def)
  moreover have "GetFinalizers c' = GetFinalizers c"
    using copy_identity_fields(3) [OF assms(1,2), of c] metadata_cong(3) [OF f] by (simp add: GetFinalizers_def)
  ultimately show ?thesis by (simp add: copy_identity_def)
qed

lemma copy_status_settles:
  assumes "NestedField c' [''status''] = NestedField (copy_status c u) [''status'']"
  shows "copy_status c' v = copy_status c v"
proof -
  have "NestedField (copy_status c u) [''status''] = NestedField c [''status'']"
    by (auto simp: copy_status_def NestedField_def try_set_def SetNestedField_def split: option.splits)
  with assms show ?thesis by (simp add: copy_status_def)
qed

section \<open>Services and webhooks of the stored object\<close>

definition preserve_fields :: "object \<Rightarrow> string list \<Rightarrow> object \<Rightarrow> object" where
  "preserve_fields c fs u = fold (\<lambda>f. preserveNestedFieldIfDesiredEmpty c [''spec'', f]) fs u"

lemma preserve_fields_simps [simp]:
  "preserve_fields c [] u = u"
  "preserve_fields c (f # fs) u = preserve_fields c fs (preserveNestedFieldIfDesiredEmpty c [''spec'', f] u)"
  by (simp_all add: preserve_fields_def)

lemma has_map_preserve_fields: "has_map k u \<Longrightarrow> has_map k (preserve_fields c fs u)"
  by (induction fs arbitrary: u) simp_all

lemma preserve_one_present:
  assumes "has_map ''spec'' u"
  shows "present (preserveNestedFieldIfDesiredEmpty c [''spec'', f] u) [''spec'', f] =
    (case present u [''spec'', f] of None \<Rightarrow> present c [''spec'', f] | Some w \<Rightarrow> Some w)"
proof (cases "present c [''spec'', f]")
  case (Some v)
  then have "\<not> isEmptyUnstructuredValue v" by (simp add: present_Some)
  then have "present (try_set u v [''spec'', f]) [''spec'', f] = Some v"
    by (simp add: present_Some get_try_set_level [OF assms])
  with Some show ?thesis by (simp add: preserveNestedFieldIfDesiredEmpty_def split: option.split)
qed (simp add: preserveNestedFieldIfDesiredEmpty_def split: option.split)

lemma preserve_fields_present:
  assumes "distinct fs" and "f \<in> set fs" and "has_map ''spec'' u"
  shows "present (preserve_fields c fs u) [''spec'', f] =
    (case present u [''spec'', f] of None \<Rightarrow> present c [''spec'', f] | Some w \<Rightarrow> Some w)"
  using assms
proof (induction fs arbitrary: u)
  case (Cons g gs)
  let ?u = "preserveNestedFieldIfDesiredEmpty c [''spec'', g] u"
  show ?case
  proof (cases "f = g")
    case True
    have "NestedField (preserve_fields c gs ?u) [''spec'', f] = NestedField ?u [''spec'', f]"
      unfolding preserve_fields_def using Cons.prems(1) True by (intro preserve_fold_apart) auto
    from present_cong [OF this] preserve_one_present [OF Cons.prems(3), of c g] show ?thesis
      unfolding preserve_fields_simps True by simp
  next
    case False
    have "NestedField ?u [''spec'', f] = NestedField u [''spec'', f]" using False by (intro preserve_apart) simp
    from present_cong [OF this] Cons False show ?thesis by simp
  qed
qed simp

lemma preserve_fields_cong:
  assumes "distinct fs" and "\<And>f. f \<in> set fs \<Longrightarrow> present u [''spec'', f] = None \<Longrightarrow> present c' [''spec'', f] = present c [''spec'', f]"
  shows "preserve_fields c' fs u = preserve_fields c fs u"
  using assms
proof (induction fs arbitrary: u)
  case (Cons g gs)
  let ?u = "preserveNestedFieldIfDesiredEmpty c [''spec'', g] u"
  have "preserveNestedFieldIfDesiredEmpty c' [''spec'', g] u = ?u"
    using Cons.prems(2) [of g] by (cases "present u [''spec'', g]") (auto simp: preserveNestedFieldIfDesiredEmpty_def split: option.split)
  moreover have "preserve_fields c' gs ?u = preserve_fields c gs ?u"
  proof (rule Cons.IH)
    fix f assume f: "f \<in> set gs" and "present ?u [''spec'', f] = None"
    moreover have "NestedField ?u [''spec'', f] = NestedField u [''spec'', f]"
      using f Cons.prems(1) by (intro preserve_apart) auto
    ultimately show "present c' [''spec'', f] = present c [''spec'', f]"
      using Cons.prems(2) [of f] present_cong [of ?u "[''spec'', f]" u] by simp
  qed (use Cons.prems(1) in simp)
  ultimately show ?case by simp
qed simp

text \<open>Mapping over the list at a path with the list of the stored object, absent taken as empty.\<close>

definition slice_of :: "object \<Rightarrow> string list \<Rightarrow> json list" where
  "slice_of c p = (case NestedSlice c p of Inr (Some xs) \<Rightarrow> xs | _ \<Rightarrow> [])"

lemma NestedSlice_field: "NestedSlice u p = Inr (Some xs) \<Longrightarrow> NestedField u p = Inr (Some (JList xs))"
  unfolding NestedSlice_def nested_typed_def
  by (auto split: sum.splits option.splits elim: as_list.elims)

lemma slice_put_same: "p \<noteq> [] \<Longrightarrow> NestedSlice u p = Inr (Some xs) \<Longrightarrow> try_set u (JList xs) p = u"
  using nf.try_put_same [OF _ NestedSlice_field] by simp

lemma node_ports_eq:
  "preserveServiceNodePorts c u = (case NestedSlice u [''spec'', ''ports''] of
     Inr (Some ds) \<Rightarrow> try_set u (JList (map (preserve_port (slice_of c [''spec'', ''ports''])) ds)) [''spec'', ''ports'']
   | _ \<Rightarrow> u)"
  by (auto simp: preserveServiceNodePorts_def slice_of_def slice_put_same split: sum.split option.split)

lemma webhook_bundles_eq:
  "preserveWebhookInjectedCABundles c u = (if is_webhook_config u then (case NestedSlice u [''webhooks''] of
     Inr (Some ds) \<Rightarrow> try_set u (JList (map (preserve_bundle (currentCABundles (slice_of c [''webhooks'']))) ds)) [''webhooks'']
   | _ \<Rightarrow> u) else u)"
  by (auto simp: preserveWebhookInjectedCABundles_def slice_of_def slice_put_same split: sum.split option.split)

lemma slice_of_try_set:
  "SetNestedField u (JList xs) p = Inr v \<Longrightarrow> slice_of (try_set u (JList xs) p) p = xs"
  by (simp add: slice_of_def NestedSlice_put try_set_def)

lemma service_settles:
  assumes "GroupKind u = ([], ''Service'')" and "has_map ''spec'' u" and "slice_identified same_port u [''spec'', ''ports'']"
    and spec: "\<And>q. NestedField c' (''spec'' # q) = NestedField (preserveServiceAllocatedFields c u) (''spec'' # q)"
  shows "preserveServiceAllocatedFields c' u = preserveServiceAllocatedFields c u"
proof -
  let ?f = "preserve_fields c allocated_fields u"
  have split: "preserveServiceAllocatedFields x u = preserveServiceNodePorts x (preserve_fields x allocated_fields u)" for x
    using assms(1) by (simp add: preserveServiceAllocatedFields_def preserve_fields_def)
  have m: "has_map ''spec'' ?f" using assms(2) by (rule has_map_preserve_fields)
  have "preserve_fields c' allocated_fields u = ?f"
  proof (rule preserve_fields_cong)
    fix f assume f: "f \<in> set allocated_fields" and n: "present u [''spec'', f] = None"
    from f have "f \<noteq> ''ports''" by (auto simp: allocated_fields_def)
    then have "NestedField c' [''spec'', f] = NestedField ?f [''spec'', f]"
      unfolding spec split by (intro ports_apart) simp
    then have "present c' [''spec'', f] = present ?f [''spec'', f]" by (rule present_cong)
    also have "\<dots> = present c [''spec'', f]"
      using preserve_fields_present [OF _ f assms(2), of c] n by (simp add: allocated_fields_def)
    finally show "present c' [''spec'', f] = present c [''spec'', f]" .
  qed (simp add: allocated_fields_def)
  moreover have "preserveServiceNodePorts c' ?f = preserveServiceNodePorts c ?f"
  proof (cases "\<exists>ds. NestedSlice ?f [''spec'', ''ports''] = Inr (Some ds)")
    case True
    then obtain ds where ds: "NestedSlice ?f [''spec'', ''ports''] = Inr (Some ds)" by blast
    have "NestedField ?f [''spec'', ''ports''] = NestedField u [''spec'', ''ports'']"
      unfolding preserve_fields_def by (rule preserve_fold_apart) (auto simp: allocated_fields_def)
    from NestedSlice_cong [OF this] ds have "NestedSlice u [''spec'', ''ports''] = Inr (Some ds)" by simp
    with assms(3) have i: "identified_by same_port ds" by (simp add: slice_identified_def)
    have "NestedSlice c' [''spec'', ''ports''] = NestedSlice (preserveServiceNodePorts c ?f) [''spec'', ''ports'']"
      by (rule NestedSlice_cong) (simp only: spec split)
    then have "slice_of c' [''spec'', ''ports''] = slice_of (preserveServiceNodePorts c ?f) [''spec'', ''ports'']"
      by (simp add: slice_of_def)
    also have "\<dots> = map (preserve_port (slice_of c [''spec'', ''ports''])) ds"
      by (simp add: node_ports_eq ds slice_of_try_set [OF try_set_level [OF m]])
    finally show ?thesis by (simp add: node_ports_eq [of c'] node_ports_eq [of c ?f] ds preserve_ports_settle [OF i])
  next
    case False
    then show ?thesis by (auto simp: node_ports_eq split: sum.split option.split)
  qed
  ultimately show ?thesis by (simp add: split)
qed

lemma webhooks_settle:
  assumes "slice_identified same_webhook u [''webhooks'']"
    and c': "NestedField c' [''webhooks''] = NestedField (preserveWebhookInjectedCABundles c u) [''webhooks'']"
    and "is_webhook_config u"
  shows "preserveWebhookInjectedCABundles c' u = preserveWebhookInjectedCABundles c u"
proof (cases "\<exists>ds. NestedSlice u [''webhooks''] = Inr (Some ds)")
  case True
  then obtain ds where ds: "NestedSlice u [''webhooks''] = Inr (Some ds)" by blast
  with assms(1) have i: "identified_by same_webhook ds" by (simp add: slice_identified_def)
  have p: "SetNestedField u v [''webhooks''] = Inr (try_set u v [''webhooks''])" for v
    by (simp add: SetNestedField_def try_set_def)
  have "slice_of c' [''webhooks''] = slice_of (preserveWebhookInjectedCABundles c u) [''webhooks'']"
    using NestedSlice_cong [OF c'] by (simp add: slice_of_def)
  also have "\<dots> = map (preserve_bundle (currentCABundles (slice_of c [''webhooks'']))) ds"
    using assms(3) by (simp add: webhook_bundles_eq [of c u] ds slice_of_try_set [OF p])
  finally show ?thesis
    by (simp add: webhook_bundles_eq [of c'] webhook_bundles_eq [of c u] ds preserve_bundles_settle [OF i])
next
  case False
  then show ?thesis by (auto simp: webhook_bundles_eq split: sum.split option.split)
qed

section \<open>The loop settles\<close>

lemma service_other: "GroupKind u \<noteq> ([], ''Service'') \<Longrightarrow> preserveServiceAllocatedFields c u = u"
  by (simp add: preserveServiceAllocatedFields_def)

lemma webhooks_other: "\<not> is_webhook_config u \<Longrightarrow> preserveWebhookInjectedCABundles c u = u"
  by (simp add: preserveWebhookInjectedCABundles_def)

lemma slice_identified_cong: "NestedField u p = NestedField v p \<Longrightarrow> slice_identified s u p = slice_identified s v p"
  by (simp add: slice_identified_def NestedSlice_def nested_typed_def)

lemma prepare_settles:
  assumes "settles d" and "stable_conv mc" and c': "c' = prepareClusterctlObjectForUpdate mc d c"
  shows "prepareClusterctlObjectForUpdate mc d c' = c'"
proof -
  let ?i = "copy_identity mc c d"
  let ?u = "copy_status c ?i"
  let ?s = "preserveServiceAllocatedFields c ?u"
  from assms(1) have m: "has_map ''metadata'' d" by (simp add: settles_def)
  have cs: "c' = preserveWebhookInjectedCABundles c ?s" by (simp add: c' prepareClusterctlObjectForUpdate_def)
  have "copy_identity mc c' d = ?i"
    by (rule copy_identity_settles [OF m assms(2)]) (simp add: c' prepared_metadata)
  moreover have "copy_status c' ?i = ?u"
    by (rule copy_status_settles) (simp add: cs webhooks_apart service_apart)
  moreover have "preserveServiceAllocatedFields c' ?u = ?s"
  proof (cases "GroupKind ?u = ([], ''Service'')")
    case True
    with assms(1) have s: "has_map ''spec'' d" "slice_identified same_port d [''spec'', ''ports'']"
      by (simp_all add: settles_def group_kind_stage)
    have "NestedField ?u [''spec'', ''ports''] = NestedField d [''spec'', ''ports'']"
      by (simp add: setters_apart copy_identity_apart)
    from slice_identified_cong [OF this, of same_port] s show ?thesis
      by (intro service_settles [OF True]) (simp_all add: cs webhooks_apart)
  qed (simp add: service_other)
  moreover have "preserveWebhookInjectedCABundles c' ?s = c'"
  proof (cases "is_webhook_config ?s")
    case True
    then have "is_webhook_config d" by (simp add: is_webhook_config_def service_group_kind group_kind_stage)
    with assms(1) have s: "slice_identified same_webhook d [''webhooks'']" by (simp add: settles_def)
    have "NestedField ?s [''webhooks''] = NestedField d [''webhooks'']"
      by (simp add: service_apart setters_apart copy_identity_apart)
    from slice_identified_cong [OF this, of same_webhook] s show ?thesis
      unfolding cs by (intro webhooks_settle [OF _ _ True]) (simp_all flip: cs)
  qed (simp add: cs webhooks_other)
  ultimately show ?thesis by (simp add: prepareClusterctlObjectForUpdate_def)
qed

lemma clusterctl_one_found:
  assumes "setDeploymentRolloutDefaults u = Inr d" and "reconcile_clusterctl_one mc srv u io = (r, io')"
    and "hd (sent io io') = (g, RespObj (OUnstructured c))" and "prepareClusterctlObjectForUpdate mc d c = c"
  shows "r = None \<and> sent io io' = [(g, RespObj (OUnstructured c))]"
proof -
  let ?g = "ReqGet (obj_kind (OUnstructured d)) (obj_key (OUnstructured d))"
  obtain x io1 where q: "request_as srv resp_unstructured ?g io = (x, io1)"
    by (cases "request_as srv resp_unstructured ?g io")
  from request_as_log [OF q] obtain a where a: "io_log io1 = io_log io @ [(?g, a)]"
    and x: "x = expect resp_unstructured a" by blast
  have "emits (\<lambda>_. True) io1 io'"
    using assms(1,2) q
    by (auto simp: reconcile_clusterctl_one_def Let_def split: sum.splits prod.splits if_splits
      dest!: emits_request_as [where P = "\<lambda>_. True"])
  then obtain rest where "io_log io' = io_log io1 @ rest" by (auto simp: emits_def)
  with a have s: "sent io io' = (?g, a) # rest" by (simp add: sent_def)
  with assms(3) have ga: "g = ?g" "a = RespObj (OUnstructured c)" by simp_all
  then have "x = Inr c" by (simp add: x expect_def)
  with assms(1,2,4) q have "r = None" "io' = io1" by (simp_all add: reconcile_clusterctl_one_def Let_def)
  with a ga show ?thesis by (simp add: sent_def)
qed

lemma clusterctl_one_updates:
  assumes "setDeploymentRolloutDefaults u = Inr d" and "reconcile_clusterctl_one mc srv u io = (r, io')"
    and "(ReqUpdate x, a) \<in> set (sent io io')"
  obtains c where "x = OUnstructured (prepareClusterctlObjectForUpdate mc d c)"
proof -
  let ?P = "\<lambda>(q, a). \<forall>x. q = ReqUpdate x \<longrightarrow> (\<exists>c. x = OUnstructured (prepareClusterctlObjectForUpdate mc d c))"
  have "emits ?P io io'"
    using assms(1,2)
    by (auto simp: reconcile_clusterctl_one_def Let_def split: sum.splits prod.splits if_splits
      dest!: emits_request_as [where P = ?P] intro: emits_trans)
  from emits_sent [OF this assms(3)] that show ?thesis by auto
qed


lemma sample_role_default:
  "setDeploymentRolloutDefaults (sample_object ''Role'' ''n'' ''x'') = Inr (sample_object ''Role'' ''n'' ''x'')"
  "GroupKind (sample_object ''Role'' ''n'' ''x'') = ([], ''Role'')"
  by (simp_all add: setDeploymentRolloutDefaults_def GroupKind_def GetAPIVersion_def GetKind_def getNestedString_def
      NestedString_def nested_typed_def NestedField_def sample_object_def fmlookup_of_list ParseGroupVersion_def)


section \<open>A pass is bounded\<close>

lemma run_until_bound:
  assumes "\<And>x io a io'. act x io = (a, io') \<Longrightarrow> \<exists>new. io_log io' = io_log io @ new \<and> length new \<le> n"
  shows "run_until act stop xs io = (r, io') \<Longrightarrow> \<exists>new. io_log io' = io_log io @ new \<and> length new \<le> n * length xs"
proof (induction xs arbitrary: io)
  case (Cons x xs)
  obtain a io1 where a: "act x io = (a, io1)" by (cases "act x io")
  from assms [OF a] obtain new where new: "io_log io1 = io_log io @ new" "length new \<le> n" by blast
  show ?case
  proof (cases "stop a")
    case True
    with Cons.prems a new show ?thesis by (auto intro: exI [of _ new] trans_le_add1)
  next
    case False
    with Cons.prems a have "run_until act stop xs io1 = (r, io')" by simp
    from Cons.IH [OF this] obtain rest where "io_log io' = io_log io1 @ rest" "length rest \<le> n * length xs" by blast
    with new show ?thesis by (intro exI [of _ "new @ rest"]) simp
  qed
qed simp

lemma clusterctl_one_bound:
  assumes "reconcile_clusterctl_one mc srv u io = (r, io')"
  shows "\<exists>new. io_log io' = io_log io @ new \<and> length new \<le> 2"
  using assms
  by (auto simp: reconcile_clusterctl_one_def Let_def split: sum.splits prod.splits if_splits dest!: request_as_log)

text \<open>
  C29. A pass of the update loop ends after at most two requests for every generated object, whatever the server
  answers: it neither retries a conflict nor waits.
\<close>

theorem clusterctl_pass_bounded:
  "case reconcileClusterctlComponents mc srv us io of (r, io') \<Rightarrow> length (sent io io') \<le> 2 * length us"
proof -
  obtain r io' where r: "reconcileClusterctlComponents mc srv us io = (r, io')"
    by (cases "reconcileClusterctlComponents mc srv us io")
  then obtain x where "run_until (reconcile_clusterctl_one mc srv) (\<lambda>r. r \<noteq> None) us io = (x, io')"
    by (auto simp: reconcileClusterctlComponents_def first_failure_def split: prod.splits option.splits)
  then have "\<exists>new. io_log io' = io_log io @ new \<and> length new \<le> 2 * length us"
    by (rule run_until_bound [rotated]) (rule clusterctl_one_bound)
  then obtain new
    where "io_log io' = io_log io @ new" "length new \<le> 2 * length us" by blast
  with r show ?thesis by (simp add: sent_def)
qed

end
