(* ===== verification/Namespaces.thy ===== *)
theory Namespaces
  imports Api_Types
begin

text \<open>
  Deployment-level namespace configuration (\<open>internal/controllers/namespaces.go\<close>) and the RFC 1123
  label check of the vendored apimachinery validation package it rests on.
\<close>

section \<open>RFC 1123 labels\<close>

definition lower_alnum :: "char \<Rightarrow> bool" where
  "lower_alnum c \<longleftrightarrow> (let n = of_char c :: nat in (97 \<le> n \<and> n \<le> 122) \<or> (48 \<le> n \<and> n \<le> 57))"

definition label_byte :: "char \<Rightarrow> bool" where
  "label_byte c \<longleftrightarrow> lower_alnum c \<or> c = CHR ''-''"

text \<open>The regular expression \<open>^[a-z0-9]([-a-z0-9]*[a-z0-9])?$\<close>.\<close>

definition dns1123LabelRegexp :: "string \<Rightarrow> bool" where
  "dns1123LabelRegexp s \<longleftrightarrow>
     s \<noteq> [] \<and> lower_alnum (hd s) \<and> lower_alnum (last s) \<and> list_all label_byte s"

fun split_dots :: "string \<Rightarrow> string list" where
  "split_dots [] = [[]]"
| "split_dots (c # cs) =
     (if c = CHR ''.'' then [] # split_dots cs
      else (case split_dots cs of [] \<Rightarrow> [[c]] | w # ws \<Rightarrow> (c # w) # ws))"

text \<open>The regular expression \<open>^label(\.label)*$\<close>.\<close>

definition dns1123SubdomainRegexp :: "string \<Rightarrow> bool" where
  "dns1123SubdomainRegexp s \<longleftrightarrow> list_all dns1123LabelRegexp (split_dots s)"

definition DNS1123LabelMaxLength :: nat where
  "DNS1123LabelMaxLength = 63"

definition MaxLenError :: "nat \<Rightarrow> string" where
  "MaxLenError n = ''must be no more than '' @ show_nat n @ '' characters''"

definition dns1123LabelErrMsg :: string where
  "dns1123LabelErrMsg = ''a lowercase RFC 1123 label must consist of lower case alphanumeric characters or '' @
     [CHR 0x27] @ ''-'' @ [CHR 0x27] @ '', and must start and end with an alphanumeric character (e.g. '' @
     [CHR 0x27] @ ''my-name'' @ [CHR 0x27] @ '',  or '' @ [CHR 0x27] @ ''123-abc'' @ [CHR 0x27] @
     '', regex used for validation is '' @ [CHR 0x27] @ ''[a-z0-9]([-a-z0-9]*[a-z0-9])?'' @ [CHR 0x27] @ '')''"

definition IsDNS1123Label :: "string \<Rightarrow> string list" where
  "IsDNS1123Label value =
     (if length value > DNS1123LabelMaxLength then [MaxLenError DNS1123LabelMaxLength] else []) @
     (if dns1123LabelRegexp value then []
      else if dns1123SubdomainRegexp value then [''must not contain dots'']
      else [dns1123LabelErrMsg])"

section \<open>Configuration\<close>

record NamespaceConfig =
  OperatorNamespace :: string
  CAPIProviderNamespace :: string
  CAPOCIProviderNamespace :: string
  ManagedResourceNamespace :: string
  AutoscalerNamespace :: string
  AutoscalerDiscoveryNamespace :: string

definition DefaultOperatorNamespace :: string where
  "DefaultOperatorNamespace = ''oci-openshift-autoscaling-operator''"

definition defaultNamespace :: "string \<Rightarrow> string \<Rightarrow> string" where
  "defaultNamespace value fallback =
     (if TrimSpace value \<noteq> [] then TrimSpace value else TrimSpace fallback)"

definition WithDefaults :: "NamespaceConfig \<Rightarrow> NamespaceConfig" where
  "WithDefaults c =
     (let oper = defaultNamespace (OperatorNamespace c) DefaultOperatorNamespace;
          managed = defaultNamespace (ManagedResourceNamespace c) oper
      in c\<lparr>OperatorNamespace := oper,
           CAPIProviderNamespace := defaultNamespace (CAPIProviderNamespace c) oper,
           CAPOCIProviderNamespace := defaultNamespace (CAPOCIProviderNamespace c) oper,
           ManagedResourceNamespace := managed,
           AutoscalerNamespace := defaultNamespace (AutoscalerNamespace c) oper,
           AutoscalerDiscoveryNamespace := defaultNamespace (AutoscalerDiscoveryNamespace c) managed\<rparr>)"

definition validateRequiredNamespace :: "string \<Rightarrow> string \<Rightarrow> check" where
  "validateRequiredNamespace name value =
     (let errs = IsDNS1123Label value in
      if errs \<noteq> [] then Some (Errorf (name @ '' '' @ Quote value @
        '' must be a valid Kubernetes namespace: '' @ Join errs ''; ''))
      else None)"

definition validateOptionalNamespace :: "string \<Rightarrow> string \<Rightarrow> check" where
  "validateOptionalNamespace name value =
     (if TrimSpace value = [] then None else validateRequiredNamespace name (TrimSpace value))"

definition validateOptionalObjectName :: "string \<Rightarrow> string \<Rightarrow> check" where
  "validateOptionalObjectName name value =
     (if TrimSpace value = [] then None
      else let errs = IsDNS1123Label (TrimSpace value) in
        if errs \<noteq> [] then Some (Errorf (name @ '' '' @ Quote (TrimSpace value) @
          '' must be a valid Kubernetes object name: '' @ Join errs ''; ''))
        else None)"

definition Validate_namespaces :: "NamespaceConfig \<Rightarrow> check" where
  "Validate_namespaces c0 =
     (let c = WithDefaults c0 in
      first_error (map (\<lambda>(name, value). validateRequiredNamespace name value)
        [(''operator namespace'', OperatorNamespace c),
         (''CAPI provider namespace'', CAPIProviderNamespace c),
         (''CAPOCI provider namespace'', CAPOCIProviderNamespace c),
         (''managed resource namespace'', ManagedResourceNamespace c),
         (''autoscaler namespace'', AutoscalerNamespace c),
         (''autoscaler discovery namespace'', AutoscalerDiscoveryNamespace c)]))"

text \<open>
  The method \<open>Namespaces\<close> of the reconciler: \<open>None\<close> is a nil receiver, whose configuration is the
  zero value.
\<close>

definition zero_namespaces :: NamespaceConfig where
  "zero_namespaces = \<lparr>OperatorNamespace = [], CAPIProviderNamespace = [], CAPOCIProviderNamespace = [],
     ManagedResourceNamespace = [], AutoscalerNamespace = [], AutoscalerDiscoveryNamespace = []\<rparr>"

definition Namespaces_of :: "NamespaceConfig option \<Rightarrow> NamespaceConfig" where
  "Namespaces_of r = (case r of None \<Rightarrow> WithDefaults zero_namespaces | Some c \<Rightarrow> WithDefaults c)"

section \<open>Labels\<close>

text \<open>A string is a label when the check reports nothing.\<close>

definition dns_label :: "string \<Rightarrow> bool" where
  "dns_label s \<longleftrightarrow> dns1123LabelRegexp s \<and> length s \<le> 63"

lemma IsDNS1123Label_Nil: "IsDNS1123Label s = [] \<longleftrightarrow> dns_label s"
  by (auto simp: IsDNS1123Label_def dns_label_def DNS1123LabelMaxLength_def split: if_splits)

lemma label_byte_inner: "lower_alnum c \<Longrightarrow> inner_byte c"
  by (auto simp: lower_alnum_def inner_byte_def Let_def)

lemma dns1123_TrimSpace: "dns1123LabelRegexp s \<Longrightarrow> TrimSpace s = s"
  by (rule TrimSpace_inner) (auto simp: dns1123LabelRegexp_def label_byte_inner)

lemma validateRequiredNamespace_None: "validateRequiredNamespace n v = None \<longleftrightarrow> dns_label v"
  by (auto simp: validateRequiredNamespace_def Let_def IsDNS1123Label_Nil split: if_splits)

lemma validateOptionalObjectName_None:
  "validateOptionalObjectName n v = None \<longleftrightarrow> TrimSpace v = [] \<or> dns_label (TrimSpace v)"
  by (auto simp: validateOptionalObjectName_def Let_def IsDNS1123Label_Nil split: if_splits)

text \<open>The regular expression as a language: one block, or two alphanumeric ends around a middle.\<close>

lemma dns1123_language:
  "dns1123LabelRegexp s \<longleftrightarrow>
     (\<exists>c. s = [c] \<and> lower_alnum c) \<or>
     (\<exists>a m b. s = a # m @ [b] \<and> lower_alnum a \<and> list_all label_byte m \<and> lower_alnum b)"
proof (cases s)
  case Nil
  then show ?thesis by (simp add: dns1123LabelRegexp_def)
next
  case (Cons a t)
  then show ?thesis
    by (cases t rule: rev_cases) (auto simp: dns1123LabelRegexp_def label_byte_def)
qed

lemma dns1123_append:
  assumes "dns1123LabelRegexp s" and "list_all label_byte m" and "m \<noteq> []" and "lower_alnum (last m)"
  shows "dns1123LabelRegexp (s @ m)"
  using assms by (auto simp: dns1123LabelRegexp_def)

section \<open>Defaults\<close>

lemma defaultNamespace_trim [simp]: "TrimSpace (defaultNamespace v f) = defaultNamespace v f"
  by (simp add: defaultNamespace_def)

lemma defaultNamespace_idem [simp]: "defaultNamespace (defaultNamespace v f) g =
    (if defaultNamespace v f = [] then TrimSpace g else defaultNamespace v f)"
  by (simp add: defaultNamespace_def)

lemma DefaultOperatorNamespace_label: "dns_label DefaultOperatorNamespace"
  unfolding DefaultOperatorNamespace_def by code_simp

lemma defaultNamespace_nonempty: "TrimSpace f \<noteq> [] \<Longrightarrow> defaultNamespace v f \<noteq> []"
  by (simp add: defaultNamespace_def)

lemma trim_default [simp]: "TrimSpace DefaultOperatorNamespace = DefaultOperatorNamespace"
  using DefaultOperatorNamespace_label dns1123_TrimSpace by (simp add: dns_label_def)

lemma default_operator_nonempty [simp]: "DefaultOperatorNamespace \<noteq> []"
  by (simp add: DefaultOperatorNamespace_def)

text \<open>Every namespace is set after the defaults are applied.\<close>

lemma WithDefaults_nonempty:
  "OperatorNamespace (WithDefaults c) \<noteq> []" "CAPIProviderNamespace (WithDefaults c) \<noteq> []"
  "CAPOCIProviderNamespace (WithDefaults c) \<noteq> []" "ManagedResourceNamespace (WithDefaults c) \<noteq> []"
  "AutoscalerNamespace (WithDefaults c) \<noteq> []" "AutoscalerDiscoveryNamespace (WithDefaults c) \<noteq> []"
  by (simp_all add: WithDefaults_def Let_def defaultNamespace_nonempty)


lemma WithDefaults_fixed: "WithDefaults (WithDefaults c) = WithDefaults c"
proof -
  let ?o = "defaultNamespace (OperatorNamespace c) DefaultOperatorNamespace"
  have o: "?o \<noteq> []" and oo: "TrimSpace ?o \<noteq> []" by (simp_all add: defaultNamespace_nonempty)
  then have "defaultNamespace v ?o \<noteq> []" for v by (simp add: defaultNamespace_nonempty)
  with o show ?thesis by (simp add: WithDefaults_def Let_def defaultNamespace_nonempty)
qed

section \<open>Properties\<close>

text \<open>
  Startup validation accepts a namespace configuration exactly when, after the defaults are
  applied, all six namespaces the operator will use are valid RFC 1123 labels of at most 63 bytes.
\<close>

theorem Validate_namespaces_iff:
  "Validate_namespaces c = None \<longleftrightarrow>
     (let d = WithDefaults c in
        dns_label (OperatorNamespace d) \<and> dns_label (CAPIProviderNamespace d) \<and>
        dns_label (CAPOCIProviderNamespace d) \<and> dns_label (ManagedResourceNamespace d) \<and>
        dns_label (AutoscalerNamespace d) \<and> dns_label (AutoscalerDiscoveryNamespace d))"
  by (simp add: Validate_namespaces_def Let_def first_error_None validateRequiredNamespace_None)

text \<open>
  Applying the defaults is idempotent and leaves no namespace empty, so the repeated calls at
  startup, in the reconciler and in its helpers all see the same configuration.
\<close>

theorem WithDefaults_stable:
  "WithDefaults (WithDefaults c) = WithDefaults c \<and> OperatorNamespace (WithDefaults c) \<noteq> [] \<and>
   CAPIProviderNamespace (WithDefaults c) \<noteq> [] \<and> CAPOCIProviderNamespace (WithDefaults c) \<noteq> [] \<and>
   ManagedResourceNamespace (WithDefaults c) \<noteq> [] \<and> AutoscalerNamespace (WithDefaults c) \<noteq> [] \<and>
   AutoscalerDiscoveryNamespace (WithDefaults c) \<noteq> []"
  by (simp add: WithDefaults_fixed WithDefaults_nonempty)

end
