(* ===== verification/Conditions.thy ===== *)
theory Conditions
  imports Namespaces Trace
begin

text \<open>
  Status conditions: the helpers of the vendored \<open>meta\<close> package, and
  \<open>internal/controllers/status.go\<close> that records the outcome of the reconcile stages, derives the
  aggregate \<open>Ready\<close> condition and the phase, and emits events.
\<close>

section \<open>Condition lists\<close>

fun FindStatusCondition :: "Condition list \<Rightarrow> string \<Rightarrow> Condition option" where
  "FindStatusCondition [] t = None"
| "FindStatusCondition (c # cs) t = (if cond_Type c = t then Some c else FindStatusCondition cs t)"

text \<open>
  Updating the first condition of the type in place: the transition time moves only when the status
  changes (the new condition never carries a time of its own here).
\<close>

fun update_condition :: "time \<Rightarrow> Condition \<Rightarrow> Condition list \<Rightarrow> Condition list" where
  "update_condition now new [] = []"
| "update_condition now new (c # cs) =
     (if cond_Type c = cond_Type new then
        c\<lparr>cond_Status := cond_Status new,
          cond_LastTransitionTime :=
            (if cond_Status c \<noteq> cond_Status new then now else cond_LastTransitionTime c),
          cond_Reason := cond_Reason new,
          cond_Message := cond_Message new,
          cond_ObservedGeneration := cond_ObservedGeneration new\<rparr> # cs
      else c # update_condition now new cs)"

definition SetStatusCondition :: "time \<Rightarrow> Condition list \<Rightarrow> Condition \<Rightarrow> Condition list" where
  "SetStatusCondition now conditions new =
     (case FindStatusCondition conditions (cond_Type new) of
        None \<Rightarrow> conditions @ [new\<lparr>cond_LastTransitionTime := now\<rparr>]
      | Some _ \<Rightarrow> update_condition now new conditions)"

section \<open>Phases and reasons\<close>

definition PhaseInitializing :: string where [go_const]: "PhaseInitializing = ''Initializing''"
definition PhaseBlocked :: string where [go_const]: "PhaseBlocked = ''Blocked''"
definition PhaseReconciling :: string where [go_const]: "PhaseReconciling = ''Reconciling''"
definition PhaseReady :: string where [go_const]: "PhaseReady = ''Ready''"
definition PhaseError :: string where [go_const]: "PhaseError = ''Error''"
definition PhaseCleaningUp :: string where [go_const]: "PhaseCleaningUp = ''CleaningUp''"

definition ReasonReconcileSuccess :: string where [go_const]: "ReasonReconcileSuccess = ''ReconcileSuccess''"
definition ReasonReconciling :: string where [go_const]: "ReasonReconciling = ''Reconciling''"

section \<open>Conditions of the resource\<close>

definition setAutoscalerCondition ::
    "time \<Rightarrow> OCIClusterAutoscaler \<Rightarrow> string \<Rightarrow> condition_status \<Rightarrow> string \<Rightarrow> string \<Rightarrow> OCIClusterAutoscaler" where
  "setAutoscalerCondition now i ct st reason message =
     set_Conditions (SetStatusCondition now (oca_Conditions i)
       \<lparr>cond_Type = ct, cond_Status = st, cond_ObservedGeneration = oca_Generation i,
        cond_LastTransitionTime = 0, cond_Reason = reason, cond_Message = message\<rparr>) i"

definition conditionIsTrue :: "OCIClusterAutoscaler \<Rightarrow> string \<Rightarrow> bool" where
  "conditionIsTrue i ct = (case FindStatusCondition (oca_Conditions i) ct of
      None \<Rightarrow> False | Some c \<Rightarrow> cond_Status c = ConditionTrue)"

definition autoscalerStackReady :: "OCIClusterAutoscaler \<Rightarrow> bool" where
  "autoscalerStackReady i \<longleftrightarrow>
     st_CAPIInstalled (oca_Status i) \<and> st_ClusterAutoscalerDeployed (oca_Status i) \<and>
     conditionIsTrue i ConditionPolicyAccepted \<and> conditionIsTrue i ConditionProvidersReady \<and>
     conditionIsTrue i ConditionAutoscalerReady \<and> conditionIsTrue i ConditionScalingResourcesReady"

fun firstFalseCondition :: "OCIClusterAutoscaler \<Rightarrow> string list \<Rightarrow> Condition option" where
  "firstFalseCondition i [] = None"
| "firstFalseCondition i (t # ts) =
     (case FindStatusCondition (oca_Conditions i) t of
        None \<Rightarrow> firstFalseCondition i ts
      | Some c \<Rightarrow> if cond_Status c = ConditionFalse then Some c else firstFalseCondition i ts)"

definition conditionChanged ::
    "OCIClusterAutoscaler \<Rightarrow> string \<Rightarrow> condition_status \<Rightarrow> string \<Rightarrow> string \<Rightarrow> bool" where
  "conditionChanged i ct st reason message =
     (case FindStatusCondition (oca_Conditions i) ct of
        None \<Rightarrow> True
      | Some c \<Rightarrow> cond_Status c \<noteq> st \<or> cond_Reason c \<noteq> reason \<or> cond_Message c \<noteq> message)"

definition eventTypeForStatus :: "condition_status \<Rightarrow> string" where
  "eventTypeForStatus st = (case st of
      ConditionFalse \<Rightarrow> ''Warning'' | ConditionTrue \<Rightarrow> ''Normal'' | ConditionUnknown \<Rightarrow> [])"

text \<open>The flag says whether the reconciler has an event recorder.\<close>

definition recordEvent :: "bool \<Rightarrow> string \<Rightarrow> string \<Rightarrow> string \<Rightarrow> 'w io \<Rightarrow> 'w io" where
  "recordEvent has_recorder et reason message io =
     (if has_recorder
      then io\<lparr>io_events := io_events io @ [\<lparr>ev_Type = et, ev_Reason = reason, ev_Message = message\<rparr>]\<rparr>
      else io)"

definition setConditionAndRecord ::
    "bool \<Rightarrow> 'w server \<Rightarrow> OCIClusterAutoscaler \<Rightarrow> string \<Rightarrow> condition_status \<Rightarrow> string \<Rightarrow> string \<Rightarrow>
     'w io \<Rightarrow> OCIClusterAutoscaler \<times> 'w io" where
  "setConditionAndRecord has_recorder srv i ct st reason message io =
     (let shouldRecord = conditionChanged i ct st reason message;
          i' = setAutoscalerCondition (srv_now srv (io_world io)) i ct st reason message;
          et = eventTypeForStatus st
      in (i', if shouldRecord \<and> et \<noteq> [] then recordEvent has_recorder et reason message io else io))"

definition stage_conditions :: "string list" where
  "stage_conditions = [ConditionPolicyAccepted, ConditionProvidersReady, ConditionAutoscalerReady,
     ConditionScalingResourcesReady]"

definition setReadyConditionFromFailedStage ::
    "bool \<Rightarrow> 'w server \<Rightarrow> OCIClusterAutoscaler \<Rightarrow> 'w io \<Rightarrow> bool \<times> OCIClusterAutoscaler \<times> 'w io" where
  "setReadyConditionFromFailedStage has_recorder srv i io =
     (case firstFalseCondition i stage_conditions of
        None \<Rightarrow> (False, i, io)
      | Some c \<Rightarrow>
          (let i1 = set_Phase (if cond_Type c = ConditionPolicyAccepted then PhaseBlocked else PhaseError) i;
               (i2, io') = setConditionAndRecord has_recorder srv i1 ConditionReady ConditionFalse
                  (cond_Reason c) (cond_Message c) io
           in (True, i2, io')))"

definition setAggregateReadyCondition ::
    "bool \<Rightarrow> 'w server \<Rightarrow> OCIClusterAutoscaler \<Rightarrow> 'w io \<Rightarrow> OCIClusterAutoscaler \<times> 'w io" where
  "setAggregateReadyCondition has_recorder srv i0 io =
     (let i = set_ObservedGeneration i0;
          (failed, i1, io1) = setReadyConditionFromFailedStage has_recorder srv i io
      in if failed then (i1, io1)
         else if autoscalerStackReady i1 then
           setConditionAndRecord has_recorder srv (set_Phase PhaseReady i1) ConditionReady ConditionTrue
             ReasonReconcileSuccess ''OCI CAPI autoscaler is ready'' io1
         else
           setConditionAndRecord has_recorder srv (set_Phase PhaseReconciling i1) ConditionReady
             ConditionUnknown ReasonReconciling
             ''OCI CAPI autoscaler reconciliation is still in progress'' io1)"


section \<open>The interface of a condition list\<close>

text \<open>
  What the controllers rely on: a condition that was set is found with its content, the other types
  keep theirs, types stay unique, and setting a condition that is already there with the same
  content changes nothing.
\<close>

locale condition_store =
  fixes find :: "'s \<Rightarrow> string \<Rightarrow> 'c option"
    and put :: "'s \<Rightarrow> 'c \<Rightarrow> 's"
    and ty :: "'c \<Rightarrow> string"
    and agree :: "'c \<Rightarrow> 'c \<Rightarrow> bool"
    and ok :: "'s \<Rightarrow> bool"
  assumes find_put_same: "\<exists>d. find (put s c) (ty c) = Some d \<and> agree c d"
    and find_put_other: "t \<noteq> ty c \<Longrightarrow> find (put s c) t = find s t"
    and ok_put: "ok s \<Longrightarrow> ok (put s c)"
    and put_agree: "find s (ty c) = Some d \<Longrightarrow> agree c d \<Longrightarrow> put s c = s"
begin

lemma put_idem: "put (put s c) c = put s c"
  using find_put_same [of s c] by (auto intro: put_agree)

lemma fold_put_other: "t \<notin> ty ` set cs \<Longrightarrow> find (fold (\<lambda>c s. put s c) cs s) t = find s t"
  by (induction cs arbitrary: s) (auto simp: find_put_other)

lemma fold_put_ok: "ok s \<Longrightarrow> ok (fold (\<lambda>c s. put s c) cs s)"
  by (induction cs arbitrary: s) (auto intro: ok_put)

lemma fold_put_last: "\<exists>d. find (fold (\<lambda>c s. put s c) (cs @ [c]) s) (ty c) = Some d \<and> agree c d"
  by (simp add: find_put_same)

end

definition same_content :: "Condition \<Rightarrow> Condition \<Rightarrow> bool" where
  "same_content c d \<longleftrightarrow> cond_Type c = cond_Type d \<and> cond_Status c = cond_Status d \<and>
     cond_Reason c = cond_Reason d \<and> cond_Message c = cond_Message d \<and>
     cond_ObservedGeneration c = cond_ObservedGeneration d"

definition unique_types :: "Condition list \<Rightarrow> bool" where
  "unique_types cs \<longleftrightarrow> distinct (map cond_Type cs)"

lemma Find_None_iff: "FindStatusCondition cs t = None \<longleftrightarrow> t \<notin> cond_Type ` set cs"
  by (induction cs) auto

lemma Find_append: "FindStatusCondition (cs @ ds) t =
    (case FindStatusCondition cs t of None \<Rightarrow> FindStatusCondition ds t | Some c \<Rightarrow> Some c)"
  by (induction cs) auto

lemma Find_type: "FindStatusCondition cs t = Some c \<Longrightarrow> cond_Type c = t"
  by (induction cs) (auto split: if_splits)

lemma types_update_condition: "map cond_Type (update_condition now new cs) = map cond_Type cs"
  by (induction cs) auto

lemma Find_update_other:
  "t \<noteq> cond_Type new \<Longrightarrow> FindStatusCondition (update_condition now new cs) t = FindStatusCondition cs t"
  by (induction cs) auto

lemma Find_update_same:
  "FindStatusCondition cs (cond_Type new) = Some c \<Longrightarrow>
   \<exists>d. FindStatusCondition (update_condition now new cs) (cond_Type new) = Some d \<and> same_content new d"
  by (induction cs) (auto simp: same_content_def split: if_splits)

lemma update_condition_agree:
  "FindStatusCondition cs (cond_Type new) = Some d \<Longrightarrow> same_content new d \<Longrightarrow>
   update_condition now new cs = cs"
  by (induction cs) (auto simp: same_content_def split: if_splits)

interpretation cs: condition_store FindStatusCondition "SetStatusCondition now" cond_Type same_content
    unique_types for now
proof (unfold_locales, goal_cases)
  case (1 s c)
  then show ?case
    by (cases "FindStatusCondition s (cond_Type c)")
      (auto simp: SetStatusCondition_def Find_append same_content_def
        dest: Find_update_same [of _ _ _ now])
next
  case (2 t c s)
  then show ?case
    by (auto simp: SetStatusCondition_def Find_append Find_update_other split: option.splits)
next
  case (3 s c)
  then show ?case
    by (auto simp: SetStatusCondition_def unique_types_def types_update_condition Find_None_iff
        split: option.splits)
next
  case (4 s c d)
  then show ?case by (simp add: SetStatusCondition_def update_condition_agree)
qed

section \<open>Lemmas on the resource\<close>

lemma status_setter_simps [simp]:
  "oca_Conditions (set_Phase p i) = oca_Conditions i"
  "oca_Conditions (set_ObservedGeneration i) = oca_Conditions i"
  "oca_Conditions (set_CAPIInstalled b i) = oca_Conditions i"
  "oca_Conditions (set_Deployed b i) = oca_Conditions i"
  "oca_Conditions (set_Conditions cs i) = cs"
  "oca_Phase (set_Conditions cs i) = oca_Phase i"
  "oca_Phase (set_Phase p i) = p"
  "oca_meta (set_Phase p i) = oca_meta i"
  "oca_meta (set_ObservedGeneration i) = oca_meta i"
  "oca_meta (set_CAPIInstalled b i) = oca_meta i"
  "oca_meta (set_Deployed b i) = oca_meta i"
  "oca_meta (set_Conditions cs i) = oca_meta i"
  "oca_Spec (set_Phase p i) = oca_Spec i"
  "oca_Spec (set_ObservedGeneration i) = oca_Spec i"
  "oca_Spec (set_CAPIInstalled b i) = oca_Spec i"
  "oca_Spec (set_Deployed b i) = oca_Spec i"
  "oca_Spec (set_Conditions cs i) = oca_Spec i"
  by (simp_all add: status_setters)

lemma flag_setter_simps [simp]:
  "st_CAPIInstalled (oca_Status (set_Phase p i)) = st_CAPIInstalled (oca_Status i)"
  "st_CAPIInstalled (oca_Status (set_ObservedGeneration i)) = st_CAPIInstalled (oca_Status i)"
  "st_CAPIInstalled (oca_Status (set_Conditions cs i)) = st_CAPIInstalled (oca_Status i)"
  "st_CAPIInstalled (oca_Status (set_CAPIInstalled b i)) = b"
  "st_CAPIInstalled (oca_Status (set_Deployed b i)) = st_CAPIInstalled (oca_Status i)"
  "st_ClusterAutoscalerDeployed (oca_Status (set_Phase p i)) = st_ClusterAutoscalerDeployed (oca_Status i)"
  "st_ClusterAutoscalerDeployed (oca_Status (set_ObservedGeneration i)) = st_ClusterAutoscalerDeployed (oca_Status i)"
  "st_ClusterAutoscalerDeployed (oca_Status (set_Conditions cs i)) = st_ClusterAutoscalerDeployed (oca_Status i)"
  "st_ClusterAutoscalerDeployed (oca_Status (set_CAPIInstalled b i)) = st_ClusterAutoscalerDeployed (oca_Status i)"
  "st_ClusterAutoscalerDeployed (oca_Status (set_Deployed b i)) = b"
  by (simp_all add: status_setters)

lemma set_condition_meta [simp]:
  "oca_meta (setAutoscalerCondition now i ct st r m) = oca_meta i"
  "oca_Spec (setAutoscalerCondition now i ct st r m) = oca_Spec i"
  "oca_Phase (setAutoscalerCondition now i ct st r m) = oca_Phase i"
  "st_CAPIInstalled (oca_Status (setAutoscalerCondition now i ct st r m)) = st_CAPIInstalled (oca_Status i)"
  "st_ClusterAutoscalerDeployed (oca_Status (setAutoscalerCondition now i ct st r m)) =
     st_ClusterAutoscalerDeployed (oca_Status i)"
  by (simp_all add: setAutoscalerCondition_def)

lemma find_set_condition_same:
  "\<exists>d. FindStatusCondition (oca_Conditions (setAutoscalerCondition now i ct st r m)) ct = Some d \<and>
     cond_Status d = st \<and> cond_Reason d = r \<and> cond_Message d = m \<and>
     cond_ObservedGeneration d = oca_Generation i"
  using cs.find_put_same [where now = now and s = "oca_Conditions i" and c = "\<lparr>cond_Type = ct, cond_Status = st,
      cond_ObservedGeneration = oca_Generation i, cond_LastTransitionTime = 0, cond_Reason = r,
      cond_Message = m\<rparr>"]
  by (auto simp: setAutoscalerCondition_def same_content_def)

lemma find_set_condition_other [simp]:
  "t \<noteq> ct \<Longrightarrow> FindStatusCondition (oca_Conditions (setAutoscalerCondition now i ct st r m)) t =
     FindStatusCondition (oca_Conditions i) t"
  by (simp add: setAutoscalerCondition_def cs.find_put_other)

lemma unique_types_set_condition:
  "unique_types (oca_Conditions i) \<Longrightarrow> unique_types (oca_Conditions (setAutoscalerCondition now i ct st r m))"
  by (simp add: setAutoscalerCondition_def cs.ok_put)

lemma set_condition_idem:
  "setAutoscalerCondition n (setAutoscalerCondition now i ct st r m) ct st r m =
     setAutoscalerCondition now i ct st r m"
proof -
  let ?c = "\<lparr>cond_Type = ct, cond_Status = st, cond_ObservedGeneration = oca_Generation i,
      cond_LastTransitionTime = 0, cond_Reason = r, cond_Message = m\<rparr>"
  have "SetStatusCondition n (SetStatusCondition now (oca_Conditions i) ?c) ?c =
      SetStatusCondition now (oca_Conditions i) ?c"
    using cs.find_put_same [where now = now and s = "oca_Conditions i" and c = ?c]
    by (auto intro: cs.put_agree)
  then show ?thesis by (simp add: setAutoscalerCondition_def) (simp add: set_Conditions_def)
qed

lemma conditionIsTrue_set_same [simp]:
  "conditionIsTrue (setAutoscalerCondition now i ct st r m) ct \<longleftrightarrow> st = ConditionTrue"
  using find_set_condition_same [of now i ct st r m] by (auto simp: conditionIsTrue_def)

lemma conditionIsTrue_set_other [simp]:
  "t \<noteq> ct \<Longrightarrow> conditionIsTrue (setAutoscalerCondition now i ct st r m) t = conditionIsTrue i t"
  by (simp add: conditionIsTrue_def)

lemma conditionIsTrue_setters [simp]:
  "conditionIsTrue (set_Phase p i) t = conditionIsTrue i t"
  "conditionIsTrue (set_ObservedGeneration i) t = conditionIsTrue i t"
  "conditionIsTrue (set_CAPIInstalled b i) t = conditionIsTrue i t"
  "conditionIsTrue (set_Deployed b i) t = conditionIsTrue i t"
  by (simp_all add: conditionIsTrue_def)

lemma setConditionAndRecord_fst [simp]:
  "fst (setConditionAndRecord hr srv i ct st r m io) =
     setAutoscalerCondition (srv_now srv (io_world io)) i ct st r m"
  by (simp add: setConditionAndRecord_def Let_def)

lemma setConditionAndRecord_log [simp]:
  "io_log (snd (setConditionAndRecord hr srv i ct st r m io)) = io_log io"
  "io_world (snd (setConditionAndRecord hr srv i ct st r m io)) = io_world io"
  by (simp_all add: setConditionAndRecord_def recordEvent_def Let_def)

lemma autoscalerStackReady_congs [simp]:
  "autoscalerStackReady (set_Phase p i) = autoscalerStackReady i"
  "autoscalerStackReady (set_ObservedGeneration i) = autoscalerStackReady i"
  "autoscalerStackReady (setAutoscalerCondition now i ConditionReady st r m) = autoscalerStackReady i"
  by (simp_all add: autoscalerStackReady_def)

lemma firstFalse_None_iff:
  "firstFalseCondition i ts = None \<longleftrightarrow>
     (\<forall>t \<in> set ts. \<forall>c. FindStatusCondition (oca_Conditions i) t = Some c \<longrightarrow> cond_Status c \<noteq> ConditionFalse)"
  by (induction ts) (auto split: option.splits)

lemma firstFalse_Some:
  "firstFalseCondition i ts = Some c \<Longrightarrow>
     cond_Status c = ConditionFalse \<and> cond_Type c \<in> set ts \<and>
     FindStatusCondition (oca_Conditions i) (cond_Type c) = Some c"
  by (induction ts) (auto split: option.splits if_splits dest: Find_type)

lemma firstFalse_setters [simp]:
  "firstFalseCondition (set_ObservedGeneration i) ts = firstFalseCondition i ts"
  "firstFalseCondition (set_Phase p i) ts = firstFalseCondition i ts"
  by (induction ts) (auto split: option.splits)

lemma stackReady_no_failure: "autoscalerStackReady i \<Longrightarrow> firstFalseCondition i stage_conditions = None"
  by (auto simp: firstFalse_None_iff autoscalerStackReady_def conditionIsTrue_def stage_conditions_def
      split: option.splits)

lemma phases_distinct [simp]:
  "PhaseReady \<noteq> PhaseBlocked" "PhaseReady \<noteq> PhaseError" "PhaseReady \<noteq> PhaseReconciling"
  "PhaseBlocked \<noteq> PhaseReady" "PhaseError \<noteq> PhaseReady" "PhaseReconciling \<noteq> PhaseReady"
  "PhaseBlocked \<noteq> PhaseError" "PhaseBlocked \<noteq> PhaseReconciling" "PhaseError \<noteq> PhaseReconciling"
  "PhaseError \<noteq> PhaseBlocked" "PhaseReconciling \<noteq> PhaseBlocked" "PhaseReconciling \<noteq> PhaseError"
  by (simp_all add: go_const)

lemma setAggregate_cases:
  "fst (setAggregateReadyCondition hr srv i io) =
     (let now = srv_now srv (io_world io); j = set_ObservedGeneration i in
      case firstFalseCondition i stage_conditions of
        Some c \<Rightarrow> setAutoscalerCondition now
          (set_Phase (if cond_Type c = ConditionPolicyAccepted then PhaseBlocked else PhaseError) j)
          ConditionReady ConditionFalse (cond_Reason c) (cond_Message c)
      | None \<Rightarrow> if autoscalerStackReady i
          then setAutoscalerCondition now (set_Phase PhaseReady j) ConditionReady ConditionTrue
            ReasonReconcileSuccess ''OCI CAPI autoscaler is ready''
          else setAutoscalerCondition now (set_Phase PhaseReconciling j) ConditionReady ConditionUnknown
            ReasonReconciling ''OCI CAPI autoscaler reconciliation is still in progress'')"
  by (simp add: setAggregateReadyCondition_def setReadyConditionFromFailedStage_def Let_def
      case_prod_unfold split: option.splits)


section \<open>Properties\<close>


text \<open>
  A failed stage is reported as it is: when some stage condition is false, \<open>Ready\<close> becomes false
  with the reason and the message of the first failed stage in pipeline order, and the phase is
  \<open>Blocked\<close> for a rejected policy and \<open>Error\<close> for every other stage.
\<close>

theorem aggregate_reports_first_failure:
  assumes "firstFalseCondition i stage_conditions = Some c"
  shows "let i' = fst (setAggregateReadyCondition hr srv i io) in
     (\<exists>d. FindStatusCondition (oca_Conditions i') ConditionReady = Some d \<and>
        cond_Status d = ConditionFalse \<and> cond_Reason d = cond_Reason c \<and>
        cond_Message d = cond_Message c) \<and>
     oca_Phase i' = (if cond_Type c = ConditionPolicyAccepted then PhaseBlocked else PhaseError)"
  using assms find_set_condition_same [of "srv_now srv (io_world io)" _ ConditionReady ConditionFalse
      "cond_Reason c" "cond_Message c"]
  by (fastforce simp: setAggregate_cases Let_def)

theorem aggregate_reports_first_failure_witness:
  "oca_Phase (fst (setAggregateReadyCondition True (const_server RespOk)
     (sample_autoscaler ''ns'' ''a'' 1 [sample_condition ConditionPolicyAccepted ConditionFalse])
     (start_io ()))) = PhaseBlocked"
proof -
  have "firstFalseCondition (sample_autoscaler ''ns'' ''a'' 1
      [sample_condition ConditionPolicyAccepted ConditionFalse]) stage_conditions =
    Some (sample_condition ConditionPolicyAccepted ConditionFalse)"
    by (simp add: sample_defs stage_conditions_def)
  from aggregate_reports_first_failure [OF this, of True "const_server RespOk" "start_io ()"]
  show ?thesis by (simp add: Let_def sample_condition_def)
qed

text \<open>
  Setting a condition reads back with its status, reason, message and the generation of the
  resource, keeps every other condition, and keeps condition types unique (the list-map key of the
  resource schema).
\<close>

theorem set_condition_spec:
  assumes "unique_types (oca_Conditions i)"
  shows "let i' = fst (setConditionAndRecord hr srv i ct st reason message io) in
     unique_types (oca_Conditions i') \<and>
     (\<exists>d. FindStatusCondition (oca_Conditions i') ct = Some d \<and> cond_Status d = st \<and>
        cond_Reason d = reason \<and> cond_Message d = message \<and>
        cond_ObservedGeneration d = oca_Generation i) \<and>
     (\<forall>t. t \<noteq> ct \<longrightarrow> FindStatusCondition (oca_Conditions i') t = FindStatusCondition (oca_Conditions i) t)"
  using assms find_set_condition_same by (auto simp: Let_def intro: unique_types_set_condition)

theorem set_condition_spec_witness:
  "FindStatusCondition (oca_Conditions (fst (setConditionAndRecord True (const_server RespOk)
     (sample_autoscaler ''ns'' ''a'' 1 [sample_condition ConditionReady ConditionTrue])
     ConditionPolicyAccepted ConditionTrue ''PolicyAccepted'' ''m'' (start_io ())))) ConditionReady =
   Some (sample_condition ConditionReady ConditionTrue)"
proof -
  have "unique_types (oca_Conditions
      (sample_autoscaler ''ns'' ''a'' 1 [sample_condition ConditionReady ConditionTrue]))"
    by (simp add: unique_types_def sample_defs)
  from set_condition_spec [OF this, of True "const_server RespOk" ConditionPolicyAccepted ConditionTrue
      "''PolicyAccepted''" "''m''" "start_io ()"]
  show ?thesis by (simp add: Let_def) (simp add: sample_defs)
qed

text \<open>
  Repeating a report is silent: reporting the same condition again changes neither the resource
  nor the event list.
\<close>

theorem repeated_condition_silent:
  "let (i1, io1) = setConditionAndRecord hr srv i ct st reason message io;
       (i2, io2) = setConditionAndRecord hr srv i1 ct st reason message io1
   in i2 = i1 \<and> io2 = io1"
proof -
  let ?now = "srv_now srv (io_world io)"
  let ?i1 = "setAutoscalerCondition ?now i ct st reason message"
  have "\<not> conditionChanged ?i1 ct st reason message"
    using find_set_condition_same [of ?now i ct st reason message] by (auto simp: conditionChanged_def)
  then show ?thesis by (simp add: setConditionAndRecord_def Let_def set_condition_idem)
qed

end
