(* ===== verification/Singleton.thy ===== *)
theory Singleton
  imports Trace "HOL-Library.Multiset" "HOL-Library.Product_Lexorder"
begin

text \<open>
  The singleton election (\<open>internal/controllers/ociclusterautoscaler_controller.go\<close>): of all
  \<open>OCIClusterAutoscaler\<close> resources of the cluster one owns the shared resources, the oldest, with
  namespace and name as tie-breakers.
\<close>

section \<open>Sorting by a comparison\<close>

text \<open>
  \<open>sort.Slice\<close> leaves a permutation that is sorted with respect to the comparison. It is modelled by
  insertion; \<open>slice_order.sorted_perm_head\<close> below shows that the head does not depend on the algorithm.
\<close>

fun insert_by :: "('a \<Rightarrow> 'a \<Rightarrow> bool) \<Rightarrow> 'a \<Rightarrow> 'a list \<Rightarrow> 'a list" where
  "insert_by lt x [] = [x]"
| "insert_by lt x (y # ys) = (if lt y x then y # insert_by lt x ys else x # y # ys)"

fun sort_Slice :: "('a \<Rightarrow> 'a \<Rightarrow> bool) \<Rightarrow> 'a list \<Rightarrow> 'a list" where
  "sort_Slice lt [] = []"
| "sort_Slice lt (x # xs) = insert_by lt x (sort_Slice lt xs)"

lemma mset_insert_by: "mset (insert_by lt x xs) = add_mset x (mset xs)"
  by (induction xs) auto

lemma mset_sort_Slice: "mset (sort_Slice lt xs) = mset xs"
  by (induction xs) (auto simp: mset_insert_by)

lemma set_insert_by: "set (insert_by lt x xs) = insert x (set xs)"
  by (metis mset_insert_by set_mset_add_mset_insert set_mset_mset)

lemma set_sort_Slice [simp]: "set (sort_Slice lt xs) = set xs"
  by (metis mset_sort_Slice set_mset_mset)

lemma sort_Slice_Nil [simp]: "sort_Slice lt xs = [] \<longleftrightarrow> xs = []"
  by (metis mset_sort_Slice mset_zero_iff)

text \<open>The contract of the comparison: a strict weak order.\<close>

locale slice_order =
  fixes lt :: "'a \<Rightarrow> 'a \<Rightarrow> bool"
  assumes less_asym: "lt x y \<Longrightarrow> \<not> lt y x"
    and not_less_trans: "\<not> lt y x \<Longrightarrow> \<not> lt z y \<Longrightarrow> \<not> lt z x"
begin

definition in_order :: "'a list \<Rightarrow> bool" where
  "in_order xs \<longleftrightarrow> sorted_wrt (\<lambda>x y. \<not> lt y x) xs"

lemma in_order_insert: "in_order xs \<Longrightarrow> in_order (insert_by lt x xs)"
proof (induction xs)
  case (Cons y ys)
  show ?case
  proof (cases "lt y x")
    case True
    with Cons show ?thesis by (auto simp: in_order_def set_insert_by dest: less_asym)
  next
    case False
    with Cons.prems show ?thesis by (auto simp: in_order_def dest: not_less_trans)
  qed
qed (simp add: in_order_def)

lemma in_order_sort: "in_order (sort_Slice lt xs)"
proof (induction xs)
  case Nil
  then show ?case by (simp add: in_order_def)
next
  case (Cons x xs)
  then show ?case by (simp add: in_order_insert)
qed

lemma head_minimal: "in_order (y # ys) \<Longrightarrow> x \<in> set (y # ys) \<Longrightarrow> \<not> lt x y"
  by (auto simp: in_order_def dest: less_asym)

text \<open>When ties are equal elements, every sorted permutation has the same head.\<close>

lemma sorted_perm_head:
  assumes "in_order (y # ys)" and "in_order (z # zs)" and "set (y # ys) = set (z # zs)"
    and "\<And>a b. a \<in> set (y # ys) \<Longrightarrow> b \<in> set (y # ys) \<Longrightarrow> \<not> lt a b \<Longrightarrow> \<not> lt b a \<Longrightarrow> a = b"
  shows "y = z"
proof -
  from assms(3) have "z \<in> set (y # ys)" and "y \<in> set (z # zs)" by auto
  then have "\<not> lt z y" and "\<not> lt y z"
    using head_minimal [OF assms(1)] head_minimal [OF assms(2)] by blast+
  with assms(4) \<open>z \<in> set (y # ys)\<close> show ?thesis by simp
qed

end

section \<open>The election\<close>

text \<open>The comparison of \<open>selectSingletonOwner\<close>.\<close>

definition owner_less :: "OCIClusterAutoscaler \<Rightarrow> OCIClusterAutoscaler \<Rightarrow> bool" where
  "owner_less left right =
     (if md_CreationTimestamp (oca_meta left) \<noteq> md_CreationTimestamp (oca_meta right)
      then md_CreationTimestamp (oca_meta left) < md_CreationTimestamp (oca_meta right)
      else if oca_Namespace left \<noteq> oca_Namespace right then oca_Namespace left < oca_Namespace right
      else oca_Name left < oca_Name right)"

definition selectSingletonOwner :: "OCIClusterAutoscaler list \<Rightarrow> bool \<Rightarrow> OCIClusterAutoscaler option" where
  "selectSingletonOwner items includeDeleting =
     (let candidates = filter (\<lambda>item. includeDeleting \<or> md_DeletionTimestamp (oca_meta item) = None) items
      in case sort_Slice owner_less candidates of [] \<Rightarrow> None | c # _ \<Rightarrow> Some c)"

definition autoscaler_kind :: string where
  "autoscaler_kind = ''capi.openshift.io/v1alpha1/OCIClusterAutoscaler''"

definition resolveSingletonOwner ::
    "'w server \<Rightarrow> bool \<Rightarrow> 'w io \<Rightarrow> (go_error + OCIClusterAutoscaler option) \<times> 'w io" where
  "resolveSingletonOwner srv includeDeleting io =
     (case request_as srv (resp_items kobj_autoscaler) (ReqList autoscaler_kind [] fmempty) io of
        (Inl e, io') \<Rightarrow> (Inl e, io')
      | (Inr items, io') \<Rightarrow> (Inr (selectSingletonOwner items includeDeleting), io'))"

definition resolveSingletonOwnerName ::
    "'w server \<Rightarrow> bool \<Rightarrow> 'w io \<Rightarrow> (go_error + nsname option) \<times> 'w io" where
  "resolveSingletonOwnerName srv includeDeleting io =
     (let (r, io') = resolveSingletonOwner srv includeDeleting io in
      (case r of Inl e \<Rightarrow> Inl e | Inr x \<Rightarrow> Inr (map_option oca_key x), io'))"

text \<open>The owner's name and whether it is another resource.\<close>

definition singletonConflict ::
    "'w server \<Rightarrow> OCIClusterAutoscaler \<Rightarrow> 'w io \<Rightarrow> (go_error + nsname option \<times> bool) \<times> 'w io" where
  "singletonConflict srv instance io =
     (let (r, io') = resolveSingletonOwnerName srv False io in
      (case r of
         Inl e \<Rightarrow> Inl e
       | Inr None \<Rightarrow> Inr (None, False)
       | Inr (Some owner) \<Rightarrow> Inr (Some owner, owner \<noteq> oca_key instance), io'))"

definition isSingletonOwner ::
    "'w server \<Rightarrow> OCIClusterAutoscaler \<Rightarrow> 'w io \<Rightarrow> (go_error + bool) \<times> 'w io" where
  "isSingletonOwner srv instance io =
     (let (r, io') = resolveSingletonOwnerName srv True io in
      (case r of
         Inl e \<Rightarrow> Inl e
       | Inr None \<Rightarrow> Inr False
       | Inr (Some owner) \<Rightarrow> Inr (owner = oca_key instance), io'))"

section \<open>The comparison is a strict order on names\<close>

definition owner_key :: "OCIClusterAutoscaler \<Rightarrow> time \<times> string \<times> string" where
  "owner_key i = (md_CreationTimestamp (oca_meta i), oca_Namespace i, oca_Name i)"

lemma owner_less_key: "owner_less l r \<longleftrightarrow> owner_key l < owner_key r"
  by (auto simp: owner_less_def owner_key_def less_prod_def)

interpretation own: slice_order owner_less
  by unfold_locales (auto simp: owner_less_key)

lemma owner_key_eqD: "owner_key x = owner_key y \<Longrightarrow> oca_key x = oca_key y"
  by (simp add: owner_key_def oca_key_def)

text \<open>Names are unique in the cluster: resources of a list with the same name are the same.\<close>

definition unique_names :: "OCIClusterAutoscaler list \<Rightarrow> bool" where
  "unique_names items \<longleftrightarrow> inj_on oca_key (set items)"

definition candidate :: "bool \<Rightarrow> OCIClusterAutoscaler \<Rightarrow> bool" where
  "candidate includeDeleting i \<longleftrightarrow> includeDeleting \<or> md_DeletionTimestamp (oca_meta i) = None"

lemma select_candidates:
  "selectSingletonOwner items d =
     (case sort_Slice owner_less (filter (candidate d) items) of [] \<Rightarrow> None | c # _ \<Rightarrow> Some c)"
proof -
  have "candidate d = (\<lambda>item. d \<or> md_DeletionTimestamp (oca_meta item) = None)"
    by (intro ext) (simp add: candidate_def)
  then show ?thesis by (simp add: selectSingletonOwner_def)
qed

lemma select_Some:
  assumes "selectSingletonOwner items d = Some w"
  shows "w \<in> set items" and "candidate d w"
    and "\<And>i. i \<in> set items \<Longrightarrow> candidate d i \<Longrightarrow> \<not> owner_less i w"
proof -
  let ?c = "filter (candidate d) items"
  from assms obtain ws where ws: "sort_Slice owner_less ?c = w # ws"
    by (auto simp: select_candidates split: list.splits)
  have s: "set (w # ws) = set ?c" unfolding ws [symmetric] by simp
  then show "w \<in> set items" and "candidate d w" by auto
  have "own.in_order (w # ws)" unfolding ws [symmetric] by (rule own.in_order_sort)
  then show "\<not> owner_less i w" if "i \<in> set items" "candidate d i" for i
    using that s own.head_minimal by auto
qed

lemma select_None: "selectSingletonOwner items d = None \<longleftrightarrow> (\<forall>i \<in> set items. \<not> candidate d i)"
proof -
  have "selectSingletonOwner items d = None \<longleftrightarrow> sort_Slice owner_less (filter (candidate d) items) = []"
    by (auto simp: select_candidates split: list.splits)
  then show ?thesis by (auto simp: filter_empty_conv)
qed

lemma resolve_read_only:
  "resolveSingletonOwner srv d io = (r, io') \<Longrightarrow> emits (\<lambda>(q, a). read_only q) io io'"
  by (auto simp: resolveSingletonOwner_def split: prod.splits sum.splits
      intro!: emits_request_as)

lemma singletonConflict_read_only:
  "singletonConflict srv i io = (r, io') \<Longrightarrow> emits (\<lambda>(q, a). read_only q) io io'"
  by (auto simp: singletonConflict_def resolveSingletonOwnerName_def Let_def split: prod.splits
      dest!: resolve_read_only)

lemma isSingletonOwner_read_only:
  "isSingletonOwner srv i io = (r, io') \<Longrightarrow> emits (\<lambda>(q, a). read_only q) io io'"
  by (auto simp: isSingletonOwner_def resolveSingletonOwnerName_def Let_def split: prod.splits
      dest!: resolve_read_only)

text \<open>What a list answer leads to.\<close>

lemma resp_items_autoscalers: "resp_items kobj_autoscaler (RespList (map OAutoscaler items)) = Some items"
  by (auto simp: resp_items_def list_all_iff o_def)

lemma resolve_list:
  assumes "srv_handle srv (ReqList autoscaler_kind [] fmempty) (io_world io) =
      (RespList (map OAutoscaler items), w')"
  shows "fst (resolveSingletonOwner srv d io) = Inr (selectSingletonOwner items d)"
  using assms
  by (simp add: resolveSingletonOwner_def request_as_def call_def expect_def resp_items_autoscalers)


section \<open>Properties\<close>

text \<open>
  C16. The elected owner is one of the listed resources, is not being deleted unless deleting ones
  count, and no other candidate is older (or as old with a smaller namespace and name); an owner is
  found exactly when there is a candidate.
\<close>

theorem selectSingletonOwner_oldest:
  "case selectSingletonOwner items includeDeleting of
     None \<Rightarrow> \<not> (\<exists>i \<in> set items. candidate includeDeleting i)
   | Some w \<Rightarrow> w \<in> set items \<and> candidate includeDeleting w \<and>
       \<not> (\<exists>i \<in> set items. candidate includeDeleting i \<and> owner_key i < owner_key w)"
  using select_None [of items includeDeleting]
  by (auto split: option.splits dest: select_Some simp flip: owner_less_key)

text \<open>
  C18. The election does not depend on the order of the list nor on the sorting algorithm: with unique
  names, every list with the same resources elects the same owner, and so does any permutation of
  the candidates sorted by the comparison.
\<close>

theorem selectSingletonOwner_order_independent:
  assumes "unique_names items" and "set items' = set items"
  shows "selectSingletonOwner items' d = selectSingletonOwner items d \<and>
    (\<forall>w ws. set (w # ws) = set (filter (candidate d) items) \<and> sorted_wrt (\<lambda>x y. \<not> owner_less y x) (w # ws)
       \<longrightarrow> selectSingletonOwner items d = Some w)"
proof -
  have tie: "a = b" if "a \<in> set items" "b \<in> set items" "\<not> owner_less a b" "\<not> owner_less b a" for a b
    using that assms(1) by (auto simp: owner_less_key unique_names_def dest!: owner_key_eqD inj_onD)
  have any: "selectSingletonOwner xs d = Some w"
    if "set xs = set items" and "set (w # ws) = set (filter (candidate d) items)"
      and "own.in_order (w # ws)" for xs w ws
  proof -
    have "sort_Slice owner_less (filter (candidate d) xs) \<noteq> []"
      using that(1,2) by (metis list.distinct(1) set_empty set_filter set_sort_Slice)
    then obtain v vs where v: "sort_Slice owner_less (filter (candidate d) xs) = v # vs"
      by (cases "sort_Slice owner_less (filter (candidate d) xs)") auto
    have "set (v # vs) = set (w # ws)" unfolding v [symmetric] using that(1,2) by simp
    moreover have "own.in_order (v # vs)" unfolding v [symmetric] by (rule own.in_order_sort)
    ultimately have "v = w"
      using that(2,3) tie by (intro own.sorted_perm_head [of v vs w ws]) auto
    then show ?thesis by (simp add: select_candidates v)
  qed
  have "selectSingletonOwner items' d = selectSingletonOwner items d"
  proof (cases "sort_Slice owner_less (filter (candidate d) items)")
    case Nil
    then have "selectSingletonOwner items d = None" by (simp add: select_candidates)
    with assms(2) select_None [of items d] select_None [of items' d] show ?thesis by simp
  next
    case (Cons w ws)
    then have "set (w # ws) = set (filter (candidate d) items)" and "own.in_order (w # ws)"
      using own.in_order_sort [of "filter (candidate d) items"] set_sort_Slice
      by (metis, metis)
    then show ?thesis using any [of items w ws] any [of items' w ws] assms(2) by simp
  qed
  with any show ?thesis by (auto simp: own.in_order_def)
qed

theorem selectSingletonOwner_order_independent_witness:
  "selectSingletonOwner
     [sample_autoscaler ''b'' ''x'' 2 [], sample_autoscaler ''a'' ''x'' 1 []] False =
   selectSingletonOwner
     [sample_autoscaler ''a'' ''x'' 1 [], sample_autoscaler ''b'' ''x'' 2 []] False"
proof -
  have "unique_names [sample_autoscaler ''a'' ''x'' 1 [], sample_autoscaler ''b'' ''x'' 2 []]"
    by (simp add: unique_names_def oca_key_def oca_Namespace_def oca_Name_def sample_defs)
  from selectSingletonOwner_order_independent [OF this,
      of "[sample_autoscaler ''b'' ''x'' 2 [], sample_autoscaler ''a'' ''x'' 1 []]"]
  show ?thesis by auto
qed

text \<open>
  Mutual exclusion: of the resources that see the same list, at most one is told that it has no
  conflict, so two different live resources never both go on to reconcile the shared resources.
\<close>

theorem singleton_mutual_exclusion:
  assumes "srv_handle srv (ReqList autoscaler_kind [] fmempty) (io_world io1) =
      (RespList (map OAutoscaler items), w1)"
    and "srv_handle srv (ReqList autoscaler_kind [] fmempty) (io_world io2) =
      (RespList (map OAutoscaler items), w2)"
    and "i \<in> set items" and "j \<in> set items"
    and "md_DeletionTimestamp (oca_meta i) = None" and "md_DeletionTimestamp (oca_meta j) = None"
    and "fst (singletonConflict srv i io1) = Inr (oi, False)"
    and "fst (singletonConflict srv j io2) = Inr (oj, False)"
  shows "oca_key i = oca_key j"
proof -
  have "selectSingletonOwner items False \<noteq> None"
    using assms(3,5) by (auto simp: select_None candidate_def)
  then show ?thesis
    using assms(7,8) resolve_list [OF assms(1), of False] resolve_list [OF assms(2), of False]
    by (auto simp: singletonConflict_def resolveSingletonOwnerName_def Let_def case_prod_unfold)
qed

theorem singleton_mutual_exclusion_witness:
  "let i = sample_autoscaler ''a'' ''x'' 1 []; srv = const_server (RespList (map OAutoscaler [i]))
   in fst (singletonConflict srv i (start_io ())) = Inr (Some (oca_key i), False) \<and> oca_key i = oca_key i"
proof -
  let ?i = "sample_autoscaler ''a'' ''x'' 1 []"
  let ?srv = "const_server (RespList (map OAutoscaler [?i]))"
  have h: "srv_handle ?srv (ReqList autoscaler_kind [] fmempty) (io_world (start_io ())) =
      (RespList (map OAutoscaler [?i]), ())"
    by (simp add: const_server_def)
  have "selectSingletonOwner [?i] False = Some ?i"
    by (simp add: selectSingletonOwner_def sample_defs)
  then have c: "fst (singletonConflict ?srv ?i (start_io ())) = Inr (Some (oca_key ?i), False)"
    using resolve_list [OF h, of False]
    by (simp add: singletonConflict_def resolveSingletonOwnerName_def Let_def case_prod_unfold)
  have d: "md_DeletionTimestamp (oca_meta ?i) = None" by (simp add: sample_defs)
  have "oca_key ?i = oca_key ?i"
    by (rule singleton_mutual_exclusion [OF h h _ _ d d c c]) simp_all
  with c show ?thesis by (simp only: Let_def)
qed

text \<open>
  Between deletion and cleanup the guarantee is weaker: a deleting owner that still has to clean
  up the shared resources and a younger live resource that is free to reconcile them can exist at
  the same time.
\<close>

theorem cleanup_owner_overlaps_active_owner:
  "\<exists>items old young. unique_names items \<and> set items = {old, young} \<and> oca_key old \<noteq> oca_key young \<and>
     selectSingletonOwner items True = Some old \<and> md_DeletionTimestamp (oca_meta old) \<noteq> None \<and>
     selectSingletonOwner items False = Some young"
proof -
  let ?a = "sample_autoscaler ''a'' ''x'' 1 []"
  let ?old = "?a\<lparr>oca_meta := (oca_meta ?a)\<lparr>md_DeletionTimestamp := Some 9\<rparr>\<rparr>"
  let ?young = "sample_autoscaler ''b'' ''x'' 2 []"
  have "unique_names [?old, ?young] \<and> set [?old, ?young] = {?old, ?young} \<and> oca_key ?old \<noteq> oca_key ?young \<and>
     selectSingletonOwner [?old, ?young] True = Some ?old \<and>
     md_DeletionTimestamp (oca_meta ?old) \<noteq> None \<and> selectSingletonOwner [?old, ?young] False = Some ?young"
    by (simp add: unique_names_def oca_key_def oca_Namespace_def oca_Name_def sample_defs
        selectSingletonOwner_def owner_less_def)
  then show ?thesis by blast
qed

end
