(* ===== verification/CertApproval.thy ===== *)
theory CertApproval
  imports Singleton
begin

text \<open>
  The certificate approver (\<open>internal/controllers/cert_approval.go\<close>): it approves kubelet client
  bootstrap requests and kubelet serving requests of nodes that belong to an \<open>OCIMachine\<close> of the
  cluster the operator manages. PEM, X.509 and IP parsing are parameters (record \<open>x509_lib\<close>).
\<close>

section \<open>Data\<close>

record cert_request =
  crt_CommonName :: string
  crt_Organization :: "string list"
  crt_DNSNames :: "string list"
  crt_IPAddresses :: "string list"
  crt_EmailAddresses :: "string list"
  crt_URIs :: "string list"

text \<open>
  \<open>pem.Decode\<close> (block type and bytes), \<open>x509.ParseCertificateRequest\<close> (addresses in the text form of
  \<open>IP.String\<close>) and \<open>net.ParseIP\<close> followed by \<open>IP.String\<close>.
\<close>

record x509_lib =
  pem_Decode :: "string \<Rightarrow> (string \<times> string) option"
  ParseCertificateRequest :: "string \<Rightarrow> go_error + cert_request"
  ParseIP :: "string \<Rightarrow> string option"

record CertificateApprovalReconciler =
  car_MachineNamespace :: string
  car_ClusterName :: string

record certificateApprovalScope =
  scope_namespace :: string
  scope_clusterName :: string

definition defaultMachineNamespace :: string where
  [go_const]: "defaultMachineNamespace = ''oci-openshift-autoscaling-operator''"

definition clusterNameLabelKey :: string where
  [go_const]: "clusterNameLabelKey = ''cluster.x-k8s.io/cluster-name''"

definition nodeBootstrapperUsername :: string where
  [go_const]: "nodeBootstrapperUsername = ''system:serviceaccount:openshift-machine-config-operator:node-bootstrapper''"

definition systemNodesGroup :: string where
  [go_const]: "systemNodesGroup = ''system:nodes''"

definition KubeAPIServerClientKubeletSignerName :: string where
  [go_const]: "KubeAPIServerClientKubeletSignerName = ''kubernetes.io/kube-apiserver-client-kubelet''"

definition KubeletServingSignerName :: string where
  [go_const]: "KubeletServingSignerName = ''kubernetes.io/kubelet-serving''"

definition nodePrefix :: string where
  [go_const]: "nodePrefix = ''system:node:''"

definition machine_kind :: string where
  "machine_kind = ''infrastructure.cluster.x-k8s.io/v1beta2/OCIMachine''"

definition csr_kind :: string where
  "csr_kind = ''certificates.k8s.io/v1/CertificateSigningRequest''"

definition node_kind :: string where
  "node_kind = ''v1/Node''"

section \<open>Which requests are looked at\<close>

fun containsString :: "string list \<Rightarrow> string \<Rightarrow> bool" where
  "containsString [] needle = False"
| "containsString (v # vs) needle = (if v = needle then True else containsString vs needle)"

definition isKubeletBootstrapClientCSR :: "CSR \<Rightarrow> bool" where
  "isKubeletBootstrapClientCSR csr \<longleftrightarrow>
     csr_SignerName csr = KubeAPIServerClientKubeletSignerName \<and> csr_Username csr = nodeBootstrapperUsername"

definition isKubeletServingCSR :: "CSR \<Rightarrow> bool" where
  "isKubeletServingCSR csr \<longleftrightarrow>
     csr_SignerName csr = KubeletServingSignerName \<and> HasPrefix (csr_Username csr) nodePrefix \<and>
     containsString (csr_Groups csr) systemNodesGroup"

definition isSupportedKubeletCSR :: "CSR \<Rightarrow> bool" where
  "isSupportedKubeletCSR csr \<longleftrightarrow> isKubeletBootstrapClientCSR csr \<or> isKubeletServingCSR csr"

definition isCSRApproved :: "CSR \<Rightarrow> bool" where
  "isCSRApproved csr = list_ex (\<lambda>c. cc_Type c = CertificateApproved) (csr_Conditions csr)"

definition isCSRDenied :: "CSR \<Rightarrow> bool" where
  "isCSRDenied csr = list_ex (\<lambda>c. cc_Type c = CertificateDenied) (csr_Conditions csr)"

section \<open>Node names\<close>

definition extractNodeName :: "string \<Rightarrow> go_error + string" where
  "extractNodeName ident =
     (if ident = [] then Inl (Errorf ''node identity is empty'')
      else if \<not> HasPrefix ident nodePrefix then
        Inl (Errorf (''node identity '' @ Quote ident @ '' does not have expected system:node: prefix''))
      else
        let hostname0 = TrimPrefix ident nodePrefix;
            hostname = (case IndexByte hostname0 (CHR ''.'') of
              Some (Suc i) \<Rightarrow> take (Suc i) hostname0 | _ \<Rightarrow> hostname0)
        in if hostname = [] then Inl (Errorf ''extracted hostname is empty'') else Inr hostname)"

definition parseCSRRequest :: "x509_lib \<Rightarrow> CSR \<Rightarrow> go_error + cert_request" where
  "parseCSRRequest lib csr =
     (if csr_Request csr = [] then Inl (Errorf ''CSR request is empty'')
      else case pem_Decode lib (csr_Request csr) of
        None \<Rightarrow> Inl (Errorf ''failed to decode PEM block or invalid block type'')
      | Some (ty, bytes) \<Rightarrow>
          if ty \<noteq> ''CERTIFICATE REQUEST'' then Inl (Errorf ''failed to decode PEM block or invalid block type'')
          else (case ParseCertificateRequest lib bytes of
              Inl e \<Rightarrow> Inl (Wrapf ''failed to parse certificate request: '' e)
            | Inr certReq \<Rightarrow>
                if crt_CommonName certReq = [] then Inl (Errorf ''certificate request has empty CommonName'')
                else Inr certReq))"

definition no_nodes_org :: go_error where
  "no_nodes_org = Errorf (''certificate request subject organizations do not include '' @ Quote systemNodesGroup)"

definition invalid_cn :: "cert_request \<Rightarrow> go_error \<Rightarrow> go_error" where
  "invalid_cn certReq e = Wrapf (''invalid CommonName '' @ Quote (crt_CommonName certReq) @ '': '') e"

definition getHostnameFromClientKubeletCSR :: "x509_lib \<Rightarrow> CSR \<Rightarrow> go_error + string" where
  "getHostnameFromClientKubeletCSR lib csr =
     (if csr_Username csr \<noteq> nodeBootstrapperUsername then
        Inl (Errorf (''unexpected kubelet client CSR username '' @ Quote (csr_Username csr)))
      else case parseCSRRequest lib csr of
        Inl e \<Rightarrow> Inl e
      | Inr certReq \<Rightarrow>
          if \<not> containsString (crt_Organization certReq) systemNodesGroup then Inl no_nodes_org
          else if crt_DNSNames certReq \<noteq> [] \<or> crt_IPAddresses certReq \<noteq> [] \<or>
              crt_EmailAddresses certReq \<noteq> [] \<or> crt_URIs certReq \<noteq> [] then
            Inl (Errorf ''kubelet client CSR must not request subject alternative names'')
          else (case extractNodeName (crt_CommonName certReq) of
              Inl e \<Rightarrow> Inl (invalid_cn certReq e)
            | Inr hostname \<Rightarrow> Inr hostname))"

definition getHostnameFromServingCSR :: "x509_lib \<Rightarrow> CSR \<Rightarrow> go_error + string" where
  "getHostnameFromServingCSR lib csr =
     (case extractNodeName (csr_Username csr) of
        Inl e \<Rightarrow> Inl (Wrapf ''invalid username: '' e)
      | Inr hostnameFromUsername \<Rightarrow>
          (case parseCSRRequest lib csr of
             Inl e \<Rightarrow> Inl e
           | Inr certReq \<Rightarrow>
               if \<not> containsString (crt_Organization certReq) systemNodesGroup then Inl no_nodes_org
               else (case extractNodeName (crt_CommonName certReq) of
                   Inl e \<Rightarrow> Inl (invalid_cn certReq e)
                 | Inr hostnameFromSubject \<Rightarrow>
                     if hostnameFromSubject \<noteq> hostnameFromUsername then
                       Inl (Errorf ''subject and username node identities do not match'')
                     else Inr hostnameFromUsername)))"

definition getCSRHostname :: "x509_lib \<Rightarrow> CSR \<Rightarrow> go_error + string" where
  "getCSRHostname lib csr =
     (if csr_SignerName csr = KubeAPIServerClientKubeletSignerName then getHostnameFromClientKubeletCSR lib csr
      else if csr_SignerName csr = KubeletServingSignerName then getHostnameFromServingCSR lib csr
      else Inr [])"

section \<open>Serving certificates\<close>

definition allowedNodeDNSNames :: "Node \<Rightarrow> string list" where
  "allowedNodeDNSNames node = node_Name node #
     map snd (filter (\<lambda>(t, a). t = NodeHostName \<or> t = NodeInternalDNS \<or> t = NodeExternalDNS)
       (node_Addresses node))"

definition allowedNodeIPs :: "x509_lib \<Rightarrow> Node \<Rightarrow> string list" where
  "allowedNodeIPs lib node =
     List.map_filter (\<lambda>(t, a). if t = NodeInternalIP \<or> t = NodeExternalIP then ParseIP lib a else None)
       (node_Addresses node)"

definition checkServingSANs :: "x509_lib \<Rightarrow> Node \<Rightarrow> cert_request \<Rightarrow> check" where
  "checkServingSANs lib node certReq =
     (if crt_DNSNames certReq = [] \<and> crt_IPAddresses certReq = [] then
        Some (Errorf ''serving CSR must request at least one DNS or IP subject alternative name'')
      else case find (\<lambda>n. n \<notin> set (allowedNodeDNSNames node)) (crt_DNSNames certReq) of
        Some n \<Rightarrow> Some (Errorf (''serving CSR requested DNS SAN '' @ Quote n @ '' that is not a node DNS/name address''))
      | None \<Rightarrow> (case find (\<lambda>ip. ip \<notin> set (allowedNodeIPs lib node)) (crt_IPAddresses certReq) of
            Some ip \<Rightarrow> Some (Errorf (''serving CSR requested IP SAN '' @ Quote ip @ '' that is not a node IP address''))
          | None \<Rightarrow> None))"

definition validateServingCSR ::
    "'w server \<Rightarrow> x509_lib \<Rightarrow> CSR \<Rightarrow> string \<Rightarrow> 'w io \<Rightarrow> check \<times> 'w io" where
  "validateServingCSR srv lib csr hostname io =
     (case request_as srv resp_node (ReqGet node_kind \<lparr>nn_Namespace = [], nn_Name = hostname\<rparr>) io of
        (Inl e, io') \<Rightarrow> (Some (Wrapf (''failed to get node '' @ Quote hostname @ '': '') e), io')
      | (Inr node, io') \<Rightarrow>
          (case parseCSRRequest lib csr of
             Inl e \<Rightarrow> (Some e, io')
           | Inr certReq \<Rightarrow> (checkServingSANs lib node certReq, io')))"

section \<open>Machine lookup\<close>

definition addScope ::
    "certificateApprovalScope list \<Rightarrow> string \<Rightarrow> string \<Rightarrow> certificateApprovalScope list" where
  "addScope scopes namespace clusterName =
     (let namespace = TrimSpace namespace; clusterName = TrimSpace clusterName;
          scope = \<lparr>scope_namespace = namespace, scope_clusterName = clusterName\<rparr>
      in if namespace = [] \<or> clusterName = [] then scopes
         else if scope \<in> set scopes then scopes
         else scopes @ [scope])"

definition certificateApprovalScopes ::
    "'w server \<Rightarrow> CertificateApprovalReconciler \<Rightarrow> 'w io \<Rightarrow>
     (go_error + certificateApprovalScope list) \<times> 'w io" where
  "certificateApprovalScopes srv r io =
     (let baseNamespace = (if TrimSpace (car_MachineNamespace r) = [] then defaultMachineNamespace
            else TrimSpace (car_MachineNamespace r));
          baseClusterName = TrimSpace (car_ClusterName r)
      in case resolveSingletonOwner srv False io of
        (Inl e, io') \<Rightarrow> (Inl e, io')
      | (Inr (Some owner), io') \<Rightarrow>
          (let override = TrimSpace (capi_ClusterName (spec_CAPI (oca_Spec owner)));
               clusterName = (if override \<noteq> [] then override else baseClusterName)
           in (Inr (addScope [] baseNamespace clusterName), io'))
      | (Inr None, io') \<Rightarrow> (Inr (addScope [] baseNamespace baseClusterName), io'))"

definition machine_request :: "certificateApprovalScope \<Rightarrow> request" where
  "machine_request scope = ReqList machine_kind (scope_namespace scope)
     (fmupd clusterNameLabelKey (scope_clusterName scope) fmempty)"

fun match_in_scopes ::
    "'w server \<Rightarrow> string \<Rightarrow> certificateApprovalScope list \<Rightarrow> 'w io \<Rightarrow> (go_error + bool) \<times> 'w io" where
  "match_in_scopes srv hostname [] io = (Inr False, io)"
| "match_in_scopes srv hostname (scope # scopes) io =
     (case request_as srv (resp_items kobj_machine) (machine_request scope) io of
        (Inl e, io') \<Rightarrow> (Inl e, io')
      | (Inr machines, io') \<Rightarrow>
          if list_ex (\<lambda>m. md_Name m = hostname) machines then (Inr True, io')
          else match_in_scopes srv hostname scopes io')"

definition hasMatchingOCIMachine ::
    "'w server \<Rightarrow> CertificateApprovalReconciler \<Rightarrow> string \<Rightarrow> 'w io \<Rightarrow> (go_error + bool) \<times> 'w io" where
  "hasMatchingOCIMachine srv r hostname io =
     (case certificateApprovalScopes srv r io of
        (Inl e, io') \<Rightarrow> (Inl e, io')
      | (Inr scopes, io') \<Rightarrow> if scopes = [] then (Inr False, io') else match_in_scopes srv hostname scopes io')"

section \<open>The handler\<close>

definition approved_csr :: "CSR \<Rightarrow> CSR" where
  "approved_csr csr = csr\<lparr>csr_Conditions := csr_Conditions csr @
     [\<lparr>cc_Type = CertificateApproved, cc_Status = ConditionTrue, cc_Reason = ''AutoApproval'',
       cc_Message = ''Automatically approved by OCI CAPI operator for matching OCIMachine''\<rparr>]\<rparr>"

definition approve :: "'w server \<Rightarrow> CSR \<Rightarrow> 'w io \<Rightarrow> check \<times> 'w io" where
  "approve srv csr io =
     (case request_as srv resp_unit (ReqUpdateApproval (approved_csr csr)) io of
        (Inl e, io') \<Rightarrow> (Some e, io')
      | (Inr _, io') \<Rightarrow> (None, io'))"

definition Reconcile_csr ::
    "'w server \<Rightarrow> x509_lib \<Rightarrow> CertificateApprovalReconciler \<Rightarrow> nsname \<Rightarrow> 'w io \<Rightarrow> check \<times> 'w io" where
  "Reconcile_csr srv lib r req io =
     (case request_as srv resp_csr (ReqGet csr_kind req) io of
        (Inl e, io1) \<Rightarrow> (if IsNotFound e then None else Some e, io1)
      | (Inr csr, io1) \<Rightarrow>
          if isCSRApproved csr \<or> isCSRDenied csr then (None, io1)
          else if \<not> isSupportedKubeletCSR csr then (None, io1)
          else (case getCSRHostname lib csr of
              Inl e \<Rightarrow> (None, io1)
            | Inr hostname \<Rightarrow>
                if hostname = [] then (None, io1)
                else (case hasMatchingOCIMachine srv r hostname io1 of
                    (Inl e, io2) \<Rightarrow> (Some e, io2)
                  | (Inr match, io2) \<Rightarrow>
                      if match then
                        (if csr_SignerName csr = KubeletServingSignerName then
                           (case validateServingCSR srv lib csr hostname io2 of
                              (Some e, io3) \<Rightarrow> (None, io3)
                            | (None, io3) \<Rightarrow> approve srv csr io3)
                         else approve srv csr io2)
                      else (None, io2))))"


section \<open>Node identities\<close>

text \<open>E-mail and URI names of a serving request do not count.\<close>

lemma serving_other_SANs_unchecked:
  "checkServingSANs lib node (c\<lparr>crt_EmailAddresses := es, crt_URIs := us\<rparr>) = checkServingSANs lib node c"
  by (simp add: checkServingSANs_def split: option.split)

lemma containsString_iff [simp]: "containsString vs s \<longleftrightarrow> s \<in> set vs"
  by (induction vs) auto

text \<open>The host part of a node identity: up to the first dot, unless the dot comes first.\<close>

definition host_part :: "string \<Rightarrow> string" where
  "host_part t = (if t \<noteq> [] \<and> hd t = CHR ''.'' then t else takeWhile (\<lambda>c. c \<noteq> CHR ''.'') t)"

lemma cut_host:
  "(case IndexByte t (CHR ''.'') of Some (Suc i) \<Rightarrow> take (Suc i) t | _ \<Rightarrow> t) = host_part t"
proof (cases "IndexByte t (CHR ''.'')")
  case None
  moreover from None have "takeWhile (\<lambda>c. c \<noteq> CHR ''.'') t = t" by (auto simp: takeWhile_eq_all_conv)
  ultimately show ?thesis
    unfolding host_part_def by (simp del: IndexByte_None takeWhile_eq_all_conv)
next
  case (Some i)
  show ?thesis
  proof (cases i)
    case 0
    with Some show ?thesis by (cases t) (auto simp: host_part_def)
  next
    case (Suc j)
    with Some have "\<not> (t \<noteq> [] \<and> hd t = CHR ''.'')" by (cases t) auto
    then have "host_part t = takeWhile (\<lambda>c. c \<noteq> CHR ''.'') t" by (auto simp: host_part_def)
    with Some Suc take_IndexByte [OF Some] show ?thesis by simp
  qed
qed

lemma host_part_Nil [simp]: "host_part t = [] \<longleftrightarrow> t = []"
  by (cases t) (auto simp: host_part_def)

lemma extract_Inr: "extractNodeName s = Inr h \<longleftrightarrow> (\<exists>t. s = nodePrefix @ t \<and> t \<noteq> [] \<and> h = host_part t)"
proof -
  have "nodePrefix \<noteq> []" by (simp add: go_const)
  then show ?thesis
    by (auto simp: extractNodeName_def cut_host Let_def HasPrefix_iff split: if_splits)
qed

lemma client_Inr:
  "getHostnameFromClientKubeletCSR lib csr = Inr h \<longleftrightarrow>
     csr_Username csr = nodeBootstrapperUsername \<and>
     (\<exists>c. parseCSRRequest lib csr = Inr c \<and> systemNodesGroup \<in> set (crt_Organization c) \<and>
        extractNodeName (crt_CommonName c) = Inr h \<and> crt_DNSNames c = [] \<and> crt_IPAddresses c = [] \<and>
        crt_EmailAddresses c = [] \<and> crt_URIs c = [])"
  by (auto simp: getHostnameFromClientKubeletCSR_def split: sum.splits if_splits)

lemma serving_Inr:
  "getHostnameFromServingCSR lib csr = Inr h \<longleftrightarrow>
     extractNodeName (csr_Username csr) = Inr h \<and>
     (\<exists>c. parseCSRRequest lib csr = Inr c \<and> systemNodesGroup \<in> set (crt_Organization c) \<and>
        extractNodeName (crt_CommonName c) = Inr h)"
  by (auto simp: getHostnameFromServingCSR_def split: sum.splits if_splits)

section \<open>What the parts of the handler send and establish\<close>

abbreviation reads :: "request \<times> response \<Rightarrow> bool" where
  "reads \<equiv> \<lambda>(q, a). read_only q"

text \<open>The namespace in which machines are looked up.\<close>

definition machine_namespace :: "CertificateApprovalReconciler \<Rightarrow> string" where
  "machine_namespace r = (if TrimSpace (car_MachineNamespace r) = [] then defaultMachineNamespace
     else TrimSpace (car_MachineNamespace r))"

lemma TrimSpace_machine_namespace: "TrimSpace (machine_namespace r) = machine_namespace r"
proof -
  have "TrimSpace defaultMachineNamespace = defaultMachineNamespace"
    by (rule TrimSpace_inner) (simp add: go_const inner_byte_def)
  then show ?thesis by (simp add: machine_namespace_def)
qed

lemma addScope_once: "addScope [] ns cl =
    (if TrimSpace ns = [] \<or> TrimSpace cl = [] then []
     else [\<lparr>scope_namespace = TrimSpace ns, scope_clusterName = TrimSpace cl\<rparr>])"
  by (simp add: addScope_def Let_def)

lemma scopes_emits:
  "certificateApprovalScopes srv r io = (x, io') \<Longrightarrow> emits reads io io'"
  by (auto simp: certificateApprovalScopes_def Let_def split: prod.splits sum.splits option.splits
      dest!: resolve_read_only)

lemma scopes_in:
  assumes "certificateApprovalScopes srv r io = (Inr scopes, io')" and "s \<in> set scopes"
  shows "scope_namespace s = machine_namespace r \<and> scope_clusterName s \<noteq> []"
proof -
  from assms(1) obtain cl where "scopes = addScope [] (machine_namespace r) cl"
    unfolding certificateApprovalScopes_def machine_namespace_def Let_def
    by (auto split: prod.splits sum.splits option.splits)
  with assms(2) show ?thesis by (auto simp: addScope_once TrimSpace_machine_namespace split: if_splits)
qed

lemma match_emits:
  "match_in_scopes srv h scopes io = (x, io') \<Longrightarrow> emits reads io io'"
proof (induction scopes arbitrary: io)
  case (Cons s scopes)
  obtain y io1 where q: "request_as srv (resp_items kobj_machine) (machine_request s) io = (y, io1)"
    by (cases "request_as srv (resp_items kobj_machine) (machine_request s) io")
  then have "emits reads io io1"
    by (rule emits_request_as) (simp add: machine_request_def)
  with Cons q show ?case
    by (auto split: sum.splits if_splits intro: emits_trans)
qed simp

text \<open>A machine of the scope with the given name was in an answer of the server.\<close>

definition machine_seen ::
    "(request \<times> response) list \<Rightarrow> certificateApprovalScope \<Rightarrow> string \<Rightarrow> bool" where
  "machine_seen log s h \<longleftrightarrow>
     (\<exists>ms m. (machine_request s, RespList ms) \<in> set log \<and> OOCIMachine m \<in> set ms \<and> md_Name m = h)"

lemma machine_seen_mono: "machine_seen xs s h \<Longrightarrow> set xs \<subseteq> set ys \<Longrightarrow> machine_seen ys s h"
  by (auto simp: machine_seen_def)

lemma kobj_machine_Some: "kobj_machine x = Some m \<longleftrightarrow> x = OOCIMachine m"
  by (cases x) auto

lemma resp_items_machine:
  assumes "resp_items kobj_machine r = Some ms" and "m \<in> set ms"
  obtains xs where "r = RespList xs" and "OOCIMachine m \<in> set xs"
proof -
  from assms(1) obtain xs where xs: "r = RespList xs" "\<forall>x \<in> set xs. \<exists>y. kobj_machine x = Some y"
      "ms = map (\<lambda>x. the (kobj_machine x)) xs"
    by (auto simp: resp_items_def list_all_iff split: response.splits if_splits)
  with assms(2) have "OOCIMachine m \<in> set xs" by (fastforce simp: kobj_machine_Some)
  with xs(1) show ?thesis by (rule that)
qed

lemma match_True:
  assumes "match_in_scopes srv h scopes io = (Inr True, io')"
  shows "\<exists>s \<in> set scopes. machine_seen (sent io io') s h"
  using assms
proof (induction scopes arbitrary: io)
  case (Cons s scopes)
  obtain y io1 where q: "request_as srv (resp_items kobj_machine) (machine_request s) io = (y, io1)"
    by (cases "request_as srv (resp_items kobj_machine) (machine_request s) io")
  then obtain a where a: "io_log io1 = io_log io @ [(machine_request s, a)]"
      "y = expect (resp_items kobj_machine) a"
    using request_as_log by blast
  from Cons.prems q obtain ms where y: "y = Inr ms" by (auto split: sum.splits)
  show ?case
  proof (cases "\<exists>m \<in> set ms. md_Name m = h")
    case True
    then obtain m where m: "m \<in> set ms" "md_Name m = h" by blast
    from a y have "expect (resp_items kobj_machine) a = Inr ms" by simp
    then have "resp_items kobj_machine a = Some ms" by (simp add: expect_Inr)
    then obtain xs where xs: "a = RespList xs" "OOCIMachine m \<in> set xs"
      using m(1) by (rule resp_items_machine)
    have "io' = io1" using Cons.prems q y True by (auto simp: list_ex_iff split: if_splits)
    then have "sent io io' = [(machine_request s, a)]" using a by (simp add: sent_def)
    with xs m(2) have "machine_seen (sent io io') s h" by (auto simp: machine_seen_def)
    then show ?thesis by simp
  next
    case False
    then have rest: "match_in_scopes srv h scopes io1 = (Inr True, io')"
      using Cons.prems q y by (auto simp: list_ex_iff)
    with Cons.IH obtain s' where s': "s' \<in> set scopes" "machine_seen (sent io1 io') s' h" by blast
    have "set (sent io1 io') \<subseteq> set (sent io io')"
      using match_emits [OF rest] a by (auto simp: emits_def sent_def)
    with s' show ?thesis by (auto intro: machine_seen_mono)
  qed
qed simp


lemma hasMatching_emits:
  "hasMatchingOCIMachine srv r h io = (x, io') \<Longrightarrow> emits reads io io'"
  by (auto simp: hasMatchingOCIMachine_def split: prod.splits sum.splits if_splits
      dest!: scopes_emits match_emits intro: emits_trans)

lemma hasMatching_True:
  assumes "hasMatchingOCIMachine srv r h io = (Inr True, io')"
  shows "\<exists>s. scope_namespace s = machine_namespace r \<and> scope_clusterName s \<noteq> [] \<and>
    machine_seen (sent io io') s h"
proof -
  from assms obtain scopes io1 where
    s: "certificateApprovalScopes srv r io = (Inr scopes, io1)"
    and m: "match_in_scopes srv h scopes io1 = (Inr True, io')"
    by (auto simp: hasMatchingOCIMachine_def split: prod.splits sum.splits if_splits)
  from match_True [OF m] obtain sc where sc: "sc \<in> set scopes" "machine_seen (sent io1 io') sc h" by blast
  have "set (sent io1 io') \<subseteq> set (sent io io')"
    using scopes_emits [OF s] match_emits [OF m] by (auto simp: emits_def sent_def)
  with sc scopes_in [OF s sc(1)] show ?thesis by (auto intro: machine_seen_mono)
qed

lemma validateServing_emits:
  "validateServingCSR srv lib csr h io = (x, io') \<Longrightarrow> emits reads io io'"
  by (auto simp: validateServingCSR_def split: prod.splits sum.splits intro!: emits_request_as)

text \<open>The requested names and addresses are all among the node's, and there is at least one.\<close>

definition sans_of_node :: "x509_lib \<Rightarrow> Node \<Rightarrow> cert_request \<Rightarrow> bool" where
  "sans_of_node lib node c \<longleftrightarrow>
     set (crt_DNSNames c) \<subseteq> set (allowedNodeDNSNames node) \<and>
     set (crt_IPAddresses c) \<subseteq> set (allowedNodeIPs lib node) \<and>
     (crt_DNSNames c \<noteq> [] \<or> crt_IPAddresses c \<noteq> [])"

lemma checkServingSANs_None: "checkServingSANs lib node c = None \<longleftrightarrow> sans_of_node lib node c"
  by (auto simp: checkServingSANs_def sans_of_node_def find_None_iff find_Some_iff subset_iff
      in_set_conv_nth split: option.splits)

lemma resp_node_Some: "resp_node a = Some n \<longleftrightarrow> a = RespObj (ONode n)"
  by (cases a rule: resp_node.cases) auto

lemma resp_csr_Some: "resp_csr a = Some n \<longleftrightarrow> a = RespObj (OCSR n)"
  by (cases a rule: resp_csr.cases) auto

definition serving_checked ::
    "x509_lib \<Rightarrow> (request \<times> response) list \<Rightarrow> CSR \<Rightarrow> string \<Rightarrow> bool" where
  "serving_checked lib log csr h \<longleftrightarrow>
     (\<exists>node c. (ReqGet node_kind \<lparr>nn_Namespace = [], nn_Name = h\<rparr>, RespObj (ONode node)) \<in> set log \<and>
        parseCSRRequest lib csr = Inr c \<and> sans_of_node lib node c)"

lemma validateServing_None:
  assumes "validateServingCSR srv lib csr h io = (None, io')"
  shows "serving_checked lib (sent io io') csr h"
proof -
  let ?q = "ReqGet node_kind \<lparr>nn_Namespace = [], nn_Name = h\<rparr>"
  from assms obtain node c where q: "request_as srv resp_node ?q io = (Inr node, io')"
    and c: "parseCSRRequest lib csr = Inr c" "sans_of_node lib node c"
    by (auto simp: validateServingCSR_def checkServingSANs_None split: prod.splits sum.splits)
  from request_as_log [OF q] obtain a where a: "io_log io' = io_log io @ [(?q, a)]"
    and e: "Inr node = expect resp_node a" by blast
  from e [symmetric] have "a = RespObj (ONode node)" by (simp add: expect_Inr resp_node_Some)
  with a c show ?thesis by (auto simp: serving_checked_def sent_def)
qed

section \<open>What justifies an approval\<close>

text \<open>
  The evidence for approving a request, in the answers the handler received: the request itself,
  undecided and of a supported kind, a node name taken from its identity, a machine of that name in
  the machine namespace, and for a serving certificate names and addresses that are the node's.
\<close>

definition justified ::
    "x509_lib \<Rightarrow> CertificateApprovalReconciler \<Rightarrow> nsname \<Rightarrow> (request \<times> response) list \<Rightarrow> CSR \<Rightarrow> bool" where
  "justified lib r req log csr \<longleftrightarrow>
     (ReqGet csr_kind req, RespObj (OCSR csr)) \<in> set log \<and>
     \<not> isCSRApproved csr \<and> \<not> isCSRDenied csr \<and> isSupportedKubeletCSR csr \<and>
     (\<exists>h s. getCSRHostname lib csr = Inr h \<and> h \<noteq> [] \<and>
        scope_namespace s = machine_namespace r \<and> scope_clusterName s \<noteq> [] \<and> machine_seen log s h \<and>
        (csr_SignerName csr = KubeletServingSignerName \<longrightarrow> serving_checked lib log csr h))"

lemma serving_checked_mono:
  "serving_checked lib xs csr h \<Longrightarrow> set xs \<subseteq> set ys \<Longrightarrow> serving_checked lib ys csr h"
  unfolding serving_checked_def by blast

text \<open>A run either only reads, or reads the evidence and then sends the one approval.\<close>

lemma approve_log:
  "approve srv csr io = (x, io') \<Longrightarrow>
   \<exists>a. io_log io' = io_log io @ [(ReqUpdateApproval (approved_csr csr), a)] \<and> (\<forall>e. x = Some e \<longrightarrow> a = RespErr e)"
  by (auto simp: approve_def expect_def split: prod.splits sum.splits response.splits dest!: request_as_log)

inductive csr_run for lib r req where
  reads_only: "list_all reads log \<Longrightarrow> csr_run lib r req log"
| approves: "list_all reads log \<Longrightarrow> justified lib r req log csr \<Longrightarrow>
    csr_run lib r req (log @ [(ReqUpdateApproval (approved_csr csr), a)])"

lemma csr_run_emits: "emits reads io io' \<Longrightarrow> csr_run lib r req (sent io io')"
  by (rule csr_run.reads_only) (auto simp: emits_def sent_def)

lemma csr_run_approve:
  assumes "emits reads io io1" and "justified lib r req (sent io io1) csr"
    and "approve srv csr io1 = (x, io2)"
  shows "csr_run lib r req (sent io io2)"
proof -
  from approve_log [OF assms(3)] obtain a where
    "io_log io2 = io_log io1 @ [(ReqUpdateApproval (approved_csr csr), a)]" by blast
  with assms(1) have "sent io io2 = sent io io1 @ [(ReqUpdateApproval (approved_csr csr), a)]"
    by (auto simp: emits_def sent_def)
  moreover from assms(1) have "list_all reads (sent io io1)" by (auto simp: emits_def sent_def)
  ultimately show ?thesis using assms(2) by (simp add: csr_run.approves)
qed


text \<open>The evidence that does not depend on the signer, collected before the last check.\<close>

definition matched ::
    "x509_lib \<Rightarrow> CertificateApprovalReconciler \<Rightarrow> nsname \<Rightarrow> (request \<times> response) list \<Rightarrow> CSR \<Rightarrow> string \<Rightarrow> bool" where
  "matched lib r req log csr h \<longleftrightarrow>
     (ReqGet csr_kind req, RespObj (OCSR csr)) \<in> set log \<and>
     \<not> isCSRApproved csr \<and> \<not> isCSRDenied csr \<and> isSupportedKubeletCSR csr \<and>
     getCSRHostname lib csr = Inr h \<and> h \<noteq> [] \<and>
     (\<exists>s. scope_namespace s = machine_namespace r \<and> scope_clusterName s \<noteq> [] \<and> machine_seen log s h)"

lemma matched_mono: "matched lib r req xs csr h \<Longrightarrow> set xs \<subseteq> set ys \<Longrightarrow> matched lib r req ys csr h"
  unfolding matched_def using machine_seen_mono by blast

lemma matched_justified:
  "matched lib r req log csr h \<Longrightarrow>
   (csr_SignerName csr = KubeletServingSignerName \<longrightarrow> serving_checked lib log csr h) \<Longrightarrow>
   justified lib r req log csr"
  unfolding matched_def justified_def by blast

lemma emits_sent_subset:
  "emits P io io1 \<Longrightarrow> emits Q io1 io2 \<Longrightarrow> set (sent io io1) \<subseteq> set (sent io io2) \<and> set (sent io1 io2) \<subseteq> set (sent io io2)"
  by (auto simp: emits_def sent_def)

lemma csr_run_serving:
  assumes e: "emits reads io io2" and m: "matched lib r req (sent io io2) csr h"
    and t: "(case validateServingCSR srv lib csr h io2 of
      (Some e, io3) \<Rightarrow> (None, io3) | (None, io3) \<Rightarrow> approve srv csr io3) = (res, io')"
  shows "csr_run lib r req (sent io io')"
proof -
  obtain v io3 where v: "validateServingCSR srv lib csr h io2 = (v, io3)"
    by (cases "validateServingCSR srv lib csr h io2")
  note e23 = validateServing_emits [OF v]
  from e e23 have e3: "emits reads io io3" by (rule emits_trans)
  show ?thesis
  proof (cases v)
    case (Some err)
    with t v e3 show ?thesis by (simp add: csr_run_emits)
  next
    case None
    from validateServing_None [OF v [unfolded None]] emits_sent_subset [OF e e23]
    have "serving_checked lib (sent io io3) csr h" by (blast intro: serving_checked_mono)
    moreover from m emits_sent_subset [OF e e23] have "matched lib r req (sent io io3) csr h"
      by (blast intro: matched_mono)
    ultimately have "justified lib r req (sent io io3) csr" by (blast intro: matched_justified)
    with e3 t v None show ?thesis by (auto intro: csr_run_approve)
  qed
qed

lemma Reconcile_csr_run:
  assumes "Reconcile_csr srv lib r req io = (res, io')"
  shows "csr_run lib r req (sent io io')"
proof -
  obtain x io1 where q: "request_as srv resp_csr (ReqGet csr_kind req) io = (x, io1)"
    by (cases "request_as srv resp_csr (ReqGet csr_kind req) io")
  then have e1: "emits reads io io1" by (rule emits_request_as) simp
  note unf = assms [unfolded Reconcile_csr_def q, simplified]
  show ?thesis
  proof (cases "\<exists>csr h. x = Inr csr \<and> \<not> isCSRApproved csr \<and> \<not> isCSRDenied csr \<and>
      isSupportedKubeletCSR csr \<and> getCSRHostname lib csr = Inr h \<and> h \<noteq> []")
    case False
    with unf have "io' = io1" by (auto split: sum.splits if_splits)
    with e1 show ?thesis by (simp add: csr_run_emits)
  next
    case True
    then obtain csr h where c: "x = Inr csr" "\<not> isCSRApproved csr" "\<not> isCSRDenied csr"
      "isSupportedKubeletCSR csr" "getCSRHostname lib csr = Inr h" "h \<noteq> []" by blast
    have got: "(ReqGet csr_kind req, RespObj (OCSR csr)) \<in> set (sent io io1)"
      using request_as_log [OF q] c(1) by (auto simp: sent_def expect_Inr resp_csr_Some dest: sym)
    obtain m io2 where m: "hasMatchingOCIMachine srv r h io1 = (m, io2)"
      by (cases "hasMatchingOCIMachine srv r h io1")
    note sub = emits_sent_subset [OF e1 hasMatching_emits [OF m]]
    from e1 hasMatching_emits [OF m] have e2: "emits reads io io2" by (rule emits_trans)
    show ?thesis
    proof (cases "m = Inr True")
      case False
      with unf c m have "io' = io2" by (auto split: sum.splits if_splits)
      with e2 show ?thesis by (simp add: csr_run_emits)
    next
      case True
      have mt: "matched lib r req (sent io io2) csr h"
        using hasMatching_True [OF m [unfolded True]] c got sub
        unfolding matched_def by (blast intro: machine_seen_mono)
      with unf c m True e2 show ?thesis
        by (auto split: if_splits intro: csr_run_serving csr_run_approve matched_justified)
    qed
  qed
qed

section \<open>Runs against a server whose answers do not change\<close>

lemma request_as_snapshot:
  assumes "\<And>q w. srv_handle srv q w = (f q, w)"
  shows "request_as srv g q io = (expect g (f q), io\<lparr>io_log := io_log io @ [(q, f q)]\<rparr>)"
  by (simp add: request_as_def call_def assms)

text \<open>The cluster whose machines count: the owner's override, or the configured name.\<close>

definition scope_cluster :: "CertificateApprovalReconciler \<Rightarrow> OCIClusterAutoscaler option \<Rightarrow> string" where
  "scope_cluster r owner = (case owner of
      Some i \<Rightarrow> (if TrimSpace (capi_ClusterName (spec_CAPI (oca_Spec i))) \<noteq> []
        then TrimSpace (capi_ClusterName (spec_CAPI (oca_Spec i))) else TrimSpace (car_ClusterName r))
    | None \<Rightarrow> TrimSpace (car_ClusterName r))"

lemma scope_cluster_trim [simp]: "TrimSpace (scope_cluster r owner) = scope_cluster r owner"
  by (simp add: scope_cluster_def split: option.split)

lemma resp_items_machines: "resp_items kobj_machine (RespList (map OOCIMachine ms)) = Some ms"
  by (auto simp: resp_items_def list_all_iff o_def)

lemma expect_items_machines: "expect (resp_items kobj_machine) (RespList (map OOCIMachine ms)) = Inr ms"
  by (simp add: expect_Inr resp_items_machines)

lemma scopes_snapshot:
  assumes "\<And>q w. srv_handle srv q w = (f q, w)"
    and "f (ReqList autoscaler_kind [] fmempty) = RespList (map OAutoscaler items)"
  shows "fst (certificateApprovalScopes srv r io) =
    Inr (addScope [] (machine_namespace r) (scope_cluster r (selectSingletonOwner items False)))"
proof -
  have "fst (resolveSingletonOwner srv False io) = Inr (selectSingletonOwner items False)"
    by (rule resolve_list) (simp add: assms)
  then obtain io1 where "resolveSingletonOwner srv False io = (Inr (selectSingletonOwner items False), io1)"
    by (metis prod.collapse)
  then show ?thesis
    by (auto simp: certificateApprovalScopes_def machine_namespace_def scope_cluster_def Let_def
        split: option.split)
qed

lemma hasMatching_snapshot:
  assumes snap: "\<And>q w. srv_handle srv q w = (f q, w)"
    and "f (ReqList autoscaler_kind [] fmempty) = RespList (map OAutoscaler items)"
    and cl: "cl = scope_cluster r (selectSingletonOwner items False)" "cl \<noteq> []"
    and m: "f (machine_request \<lparr>scope_namespace = machine_namespace r, scope_clusterName = cl\<rparr>) =
      RespList (map OOCIMachine ms)" "\<exists>m \<in> set ms. md_Name m = h"
  shows "fst (hasMatchingOCIMachine srv r h io) = Inr True"
proof -
  let ?s = "\<lparr>scope_namespace = machine_namespace r, scope_clusterName = cl\<rparr>"
  have "machine_namespace r \<noteq> []" by (simp add: machine_namespace_def go_const)
  then have "fst (certificateApprovalScopes srv r io) = Inr [?s]"
    using scopes_snapshot [OF assms(1,2)] cl by (simp add: addScope_once TrimSpace_machine_namespace)
  then obtain io1 where "certificateApprovalScopes srv r io = (Inr [?s], io1)" by (metis prod.collapse)
  with m show ?thesis
    by (auto simp: hasMatchingOCIMachine_def request_as_snapshot [OF snap] expect_items_machines list_ex_iff)
qed

lemma approve_last: "last (io_log (snd (approve srv csr io))) =
    (ReqUpdateApproval (approved_csr csr), fst (srv_handle srv (ReqUpdateApproval (approved_csr csr)) (io_world io)))"
  by (simp add: approve_def request_as_def call_def split: prod.splits sum.splits)

section \<open>Properties\<close>

text \<open>
  C15. Safety of certificate approval: for every API server, a run of the handler sends nothing but reads,
  except for at most one approval, which is its last request, approves the very request it was called
  for, and is justified by the answers read before it (undecided request of a supported kind, node
  name from the request's own identity, a machine of that name in the machine namespace, and for
  serving certificates only names and addresses of that node).
\<close>

theorem csr_approval_justified:
  "\<exists>log. list_all reads log \<and>
     (sent io (snd (Reconcile_csr srv lib r req io)) = log \<or>
      (\<exists>csr a. sent io (snd (Reconcile_csr srv lib r req io)) =
           log @ [(ReqUpdateApproval (approved_csr csr), a)] \<and> justified lib r req log csr))"
proof -
  have "csr_run lib r req (sent io (snd (Reconcile_csr srv lib r req io)))"
    by (rule Reconcile_csr_run) (rule surjective_pairing)
  then show ?thesis by cases auto
qed

text \<open>
  Node identities: the node name is extracted exactly from strings with the prefix
  \<open>system:node:\<close> and a non-empty rest, and is the rest up to its first dot (the whole rest when the
  dot is its first byte); in particular an extracted name is never empty.
\<close>

theorem extractNodeName_iff:
  "extractNodeName s = Inr h \<longleftrightarrow> (\<exists>t. s = ''system:node:'' @ t \<and> t \<noteq> [] \<and> h = host_part t) \<and> h \<noteq> []"
  using extract_Inr [of s h] by (auto simp: nodePrefix_def)


text \<open>
  C20. Whose certificate is approved: for a supported request the handler obtains the node name
  \<open>h\<close> exactly when the PEM request parses, its subject is in the group \<open>system:nodes\<close>, its common name
  is a node identity with host part \<open>h\<close>, and, for a client certificate, no subject alternative name
  is asked for, or, for a serving certificate, the requesting user is a node with the same host part.
\<close>

theorem getCSRHostname_iff:
  assumes "isSupportedKubeletCSR csr"
  shows "getCSRHostname lib csr = Inr h \<longleftrightarrow>
    (\<exists>c t. parseCSRRequest lib csr = Inr c \<and> ''system:nodes'' \<in> set (crt_Organization c) \<and>
       crt_CommonName c = ''system:node:'' @ t \<and> t \<noteq> [] \<and> h = host_part t \<and>
       (if isKubeletBootstrapClientCSR csr
        then crt_DNSNames c = [] \<and> crt_IPAddresses c = [] \<and> crt_EmailAddresses c = [] \<and> crt_URIs c = []
        else \<exists>u. csr_Username csr = ''system:node:'' @ u \<and> u \<noteq> [] \<and> host_part u = h))"
proof (cases "isKubeletBootstrapClientCSR csr")
  case True
  then have "getCSRHostname lib csr = getHostnameFromClientKubeletCSR lib csr"
      and "csr_Username csr = nodeBootstrapperUsername"
    by (simp_all add: getCSRHostname_def isKubeletBootstrapClientCSR_def)
  then show ?thesis using True
    by (simp only: client_Inr extract_Inr systemNodesGroup_def nodePrefix_def) auto
next
  case False
  with assms have "csr_SignerName csr = KubeletServingSignerName"
    by (simp add: isSupportedKubeletCSR_def isKubeletServingCSR_def)
  then have "getCSRHostname lib csr = getHostnameFromServingCSR lib csr"
    by (simp add: getCSRHostname_def go_const)
  then show ?thesis using False
    by (simp only: serving_Inr extract_Inr systemNodesGroup_def nodePrefix_def) auto
qed

text \<open>A client request of node \<open>w1\<close> and a parser for it, for the witnesses.\<close>

definition sample_x509 :: x509_lib where
  "sample_x509 = \<lparr>pem_Decode = (\<lambda>s. Some (''CERTIFICATE REQUEST'', s)),
     ParseCertificateRequest = (\<lambda>s. Inr \<lparr>crt_CommonName = ''system:node:w1'',
       crt_Organization = [''system:nodes''], crt_DNSNames = [], crt_IPAddresses = [],
       crt_EmailAddresses = [], crt_URIs = []\<rparr>),
     ParseIP = Some\<rparr>"

definition sample_csr :: CSR where
  "sample_csr = \<lparr>csr_Name = ''csr-1'', csr_SignerName = KubeAPIServerClientKubeletSignerName,
     csr_Username = nodeBootstrapperUsername, csr_Groups = [], csr_Request = ''x'', csr_Conditions = []\<rparr>"

lemma sample_csr_supported: "isSupportedKubeletCSR sample_csr" "isKubeletBootstrapClientCSR sample_csr"
  by (simp_all add: isSupportedKubeletCSR_def isKubeletBootstrapClientCSR_def sample_csr_def)

lemma sample_csr_parses: "parseCSRRequest sample_x509 sample_csr = Inr \<lparr>crt_CommonName = ''system:node:w1'',
    crt_Organization = [''system:nodes''], crt_DNSNames = [], crt_IPAddresses = [],
    crt_EmailAddresses = [], crt_URIs = []\<rparr>"
  by (simp add: parseCSRRequest_def sample_csr_def sample_x509_def)

lemma sample_csr_host: "getCSRHostname sample_x509 sample_csr = Inr ''w1''"
proof -
  have "extractNodeName ''system:node:w1'' = Inr ''w1''"
    unfolding extract_Inr by (rule exI [of _ "''w1''"]) (simp add: nodePrefix_def host_part_def)
  then have "getHostnameFromClientKubeletCSR sample_x509 sample_csr = Inr ''w1''"
    unfolding client_Inr sample_csr_parses by (simp add: sample_csr_def systemNodesGroup_def)
  then show ?thesis by (simp add: getCSRHostname_def sample_csr_def)
qed

theorem getCSRHostname_iff_witness:
  "isSupportedKubeletCSR sample_csr \<and> getCSRHostname sample_x509 sample_csr = Inr ''w1''"
proof -
  have "''w1'' = host_part ''w1''" by (simp add: host_part_def)
  then show ?thesis
    using getCSRHostname_iff [OF sample_csr_supported(1), of sample_x509 "''w1''"]
      sample_csr_supported sample_csr_parses by auto
qed

text \<open>
  C19. Liveness of certificate approval: when the API server's answers do not change during the run, an undecided
  supported request whose node name is found, whose node has a machine of the managed cluster in the
  machine namespace, and which asks, if for a serving certificate, only for the node's own names and
  addresses, is approved by the handler's last request.
\<close>

theorem csr_approved_when_matched:
  assumes snap: "\<And>q w. srv_handle srv q w = (f q, w)"
    and csr: "f (ReqGet csr_kind req) = RespObj (OCSR csr)"
    and ok: "\<not> isCSRApproved csr" "\<not> isCSRDenied csr" "isSupportedKubeletCSR csr"
    and h: "getCSRHostname lib csr = Inr h" "h \<noteq> []"
    and items: "f (ReqList autoscaler_kind [] fmempty) = RespList (map OAutoscaler items)"
    and cl: "cl = scope_cluster r (selectSingletonOwner items False)" "cl \<noteq> []"
    and ms: "f (machine_request \<lparr>scope_namespace = machine_namespace r, scope_clusterName = cl\<rparr>) =
      RespList (map OOCIMachine ms)" "\<exists>m \<in> set ms. md_Name m = h"
    and serving: "csr_SignerName csr = KubeletServingSignerName \<Longrightarrow>
      f (ReqGet node_kind \<lparr>nn_Namespace = [], nn_Name = h\<rparr>) = RespObj (ONode node) \<and>
      (\<exists>c. parseCSRRequest lib csr = Inr c \<and> sans_of_node lib node c)"
  shows "last (io_log (snd (Reconcile_csr srv lib r req io))) =
    (ReqUpdateApproval (approved_csr csr), f (ReqUpdateApproval (approved_csr csr)))"
proof -
  let ?io1 = "io\<lparr>io_log := io_log io @ [(ReqGet csr_kind req, RespObj (OCSR csr))]\<rparr>"
  have "fst (hasMatchingOCIMachine srv r h ?io1) = Inr True"
    by (rule hasMatching_snapshot [OF snap items cl ms])
  then obtain io2 where m: "hasMatchingOCIMachine srv r h ?io1 = (Inr True, io2)" by (metis prod.collapse)
  have v: "fst (validateServingCSR srv lib csr h io2) = None" if "csr_SignerName csr = KubeletServingSignerName"
    using serving [OF that]
    by (auto simp: validateServingCSR_def request_as_snapshot [OF snap] expect_def checkServingSANs_None)
  show ?thesis
  proof (cases "csr_SignerName csr = KubeletServingSignerName")
    case True
    with v obtain io3 where "validateServingCSR srv lib csr h io2 = (None, io3)" by (metis prod.collapse)
    with True ok h m csr show ?thesis
      by (simp add: Reconcile_csr_def request_as_snapshot [OF snap] expect_def approve_last snap)
  next
    case False
    with ok h m csr show ?thesis
      by (simp add: Reconcile_csr_def request_as_snapshot [OF snap] expect_def approve_last snap)
  qed
qed


definition sample_csr_answers :: "request \<Rightarrow> response" where
  "sample_csr_answers q = (case q of
      ReqGet k n \<Rightarrow> RespObj (OCSR sample_csr)
    | ReqList k n l \<Rightarrow> (if k = autoscaler_kind then RespList [] else RespList [OOCIMachine (new_meta n ''w1'')])
    | _ \<Rightarrow> RespOk)"

theorem csr_approved_when_matched_witness:
  "last (io_log (snd (Reconcile_csr \<lparr>srv_handle = (\<lambda>q w. (sample_csr_answers q, w)), srv_now = (\<lambda>w. 0)\<rparr>
      sample_x509 \<lparr>car_MachineNamespace = [], car_ClusterName = ''c''\<rparr>
      \<lparr>nn_Namespace = [], nn_Name = ''csr-1''\<rparr> (start_io ())))) =
   (ReqUpdateApproval (approved_csr sample_csr), RespOk)"
proof -
  let ?r = "\<lparr>car_MachineNamespace = [], car_ClusterName = ''c''\<rparr>"
  have "TrimSpace ''c'' = ''c''" by (rule TrimSpace_inner) (simp add: inner_byte_def)
  then have c: "''c'' = scope_cluster ?r (selectSingletonOwner [] False)"
    by (simp add: scope_cluster_def selectSingletonOwner_def)
  have h: "getCSRHostname sample_x509 sample_csr = Inr ''w1''" by (rule sample_csr_host)
  let ?s = "\<lparr>srv_handle = (\<lambda>q w. (sample_csr_answers q, w)), srv_now = (\<lambda>w. 0)\<rparr>"
  have "last (io_log (snd (Reconcile_csr ?s sample_x509 ?r \<lparr>nn_Namespace = [], nn_Name = ''csr-1''\<rparr>
      (start_io ())))) =
    (ReqUpdateApproval (approved_csr sample_csr), sample_csr_answers (ReqUpdateApproval (approved_csr sample_csr)))"
    by (rule csr_approved_when_matched [where h = "''w1''" and items = "[]" and cl = "''c''"
          and ms = "[new_meta (machine_namespace ?r) ''w1'']"])
      (use c h sample_csr_supported in \<open>simp_all add: sample_csr_answers_def machine_request_def
        isCSRApproved_def isCSRDenied_def machine_kind_def autoscaler_kind_def new_meta_def,
        simp_all add: sample_csr_def go_const\<close>)
  then show ?thesis by (simp add: sample_csr_answers_def)
qed

end
