(* ===== verification/Cidr.thy ===== *)
theory Cidr
  imports Namespaces
begin

text \<open>
  Functions of Go's standard library that the rendering code uses: validity of \<open>net.ParseCIDR\<close>
  (with \<open>netip.ParseAddr\<close>) and the standard base64 encoding.
\<close>

section \<open>IPv4 addresses\<close>

definition dec_digit :: "char \<Rightarrow> bool" where
  "dec_digit c \<longleftrightarrow> (let n = of_char c :: nat in 48 \<le> n \<and> n \<le> 57)"

definition dec_value :: "string \<Rightarrow> nat" where
  "dec_value s = foldl (\<lambda>v c. v * 10 + (of_char c - 48)) 0 s"

text \<open>An octet: digits, no leading zero, at most 255.\<close>

definition octet :: "string \<Rightarrow> bool" where
  "octet s \<longleftrightarrow> s \<noteq> [] \<and> list_all dec_digit s \<and> (hd s = CHR ''0'' \<longrightarrow> length s = 1) \<and> dec_value s \<le> 255"

definition ipv4 :: "string \<Rightarrow> bool" where
  "ipv4 s \<longleftrightarrow> (let fs = split_dots s in length fs = 4 \<and> list_all octet fs)"

section \<open>IPv6 addresses\<close>

definition hex_char :: "char \<Rightarrow> bool" where
  "hex_char c \<longleftrightarrow> (let n = of_char c :: nat in
     (48 \<le> n \<and> n \<le> 57) \<or> (97 \<le> n \<and> n \<le> 102) \<or> (65 \<le> n \<and> n \<le> 70))"

text \<open>
  The loop of \<open>parseIPv6\<close>: the number of groups still free, whether an ellipsis was seen, and the
  rest of the text, which starts with a hexadecimal group. A group has at most four digits; a
  trailing IPv4 address takes two groups. At the end all groups are used and there was no ellipsis,
  or some are free and there was one.
\<close>

fun v6_groups :: "nat \<Rightarrow> bool \<Rightarrow> string \<Rightarrow> bool" where
  "v6_groups 0 ellipsis s = (s = [] \<and> \<not> ellipsis)"
| "v6_groups (Suc n) ellipsis s =
     (let g = takeWhile hex_char s; rest = dropWhile hex_char s in
      if g = [] \<or> length g > 4 then False
      else if rest \<noteq> [] \<and> hd rest = CHR ''.'' then
        (if ellipsis then n \<ge> 2 else n = 1) \<and> ipv4 s
      else case rest of
          [] \<Rightarrow> (if ellipsis then n \<ge> 1 else n = 0)
        | c # r1 \<Rightarrow>
            if c \<noteq> CHR '':'' then False
            else (case r1 of
                [] \<Rightarrow> False
              | d # r2 \<Rightarrow>
                  if d = CHR '':'' then
                    (if ellipsis then False else if r2 = [] then n \<ge> 1 else v6_groups n True r2)
                  else v6_groups n ellipsis r1))"

definition ipv6 :: "string \<Rightarrow> bool" where
  "ipv6 s = (if prefix ''::'' s then (drop 2 s = [] \<or> v6_groups 8 True (drop 2 s)) else v6_groups 8 False s)"

section \<open>CIDR blocks\<close>

text \<open>
  The first of \<open>.\<close>, \<open>:\<close> and \<open>%\<close> decides the family; an address with a zone is not accepted by
  \<open>ParseCIDR\<close>. The result is the bit length of the address.
\<close>

definition addr_bits :: "string \<Rightarrow> nat option" where
  "addr_bits s = (case find (\<lambda>c. c \<in> set ''.:%'') s of
      None \<Rightarrow> None
    | Some c \<Rightarrow>
        if c = CHR ''.'' then (if ipv4 s then Some 32 else None)
        else if c = CHR '':'' then (if CHR ''%'' \<notin> set s \<and> ipv6 s then Some 128 else None)
        else None)"

definition mask_ok :: "nat \<Rightarrow> string \<Rightarrow> bool" where
  "mask_ok bits m \<longleftrightarrow> m \<noteq> [] \<and> list_all dec_digit m \<and> dec_value m \<le> bits"

definition ParseCIDR :: "string \<Rightarrow> check" where
  "ParseCIDR s =
     (let bad = Some (Errorf (''invalid CIDR address: '' @ s)) in
      case IndexByte s (CHR ''/'') of
        None \<Rightarrow> bad
      | Some i \<Rightarrow> (case addr_bits (take i s) of
            None \<Rightarrow> bad
          | Some bits \<Rightarrow> if mask_ok bits (drop (Suc i) s) then None else bad))"

section \<open>Base64\<close>

definition b64_alphabet :: string where
  "b64_alphabet = ''ABCDEFGHIJKLMNOPQRSTUVWXYZabcdefghijklmnopqrstuvwxyz0123456789+/''"

definition b64_char :: "nat \<Rightarrow> char" where
  "b64_char n = b64_alphabet ! (n mod 64)"

fun EncodeToString :: "string \<Rightarrow> string" where
  "EncodeToString [] = []"
| "EncodeToString [a] = (let x = of_char a :: nat in
     [b64_char (x div 4), b64_char ((x mod 4) * 16), CHR ''='', CHR ''=''])"
| "EncodeToString [a, b] = (let x = of_char a :: nat; y = of_char b :: nat in
     [b64_char (x div 4), b64_char ((x mod 4) * 16 + y div 16), b64_char ((y mod 16) * 4), CHR ''=''])"
| "EncodeToString (a # b # c # rest) =
     (let x = of_char a :: nat; y = of_char b :: nat; z = of_char c :: nat in
      b64_char (x div 4) # b64_char ((x mod 4) * 16 + y div 16) #
      b64_char ((y mod 16) * 4 + z div 64) # b64_char (z mod 64) # EncodeToString rest)"

definition EncodedLen :: "nat \<Rightarrow> nat" where
  "EncodedLen n = (n + 2) div 3 * 4"

lemma EncodedLen_correct: "length (EncodeToString s) = EncodedLen (length s)"
proof (induction s rule: EncodeToString.induct)
  case (4 a b c rest)
  have "(5 + n) div 3 = Suc ((n + 2) div 3)" for n :: nat by presburger
  with 4 show ?case by (simp add: EncodedLen_def Let_def)
qed (simp_all add: EncodedLen_def Let_def)

text \<open>A decoder of padded base64 text, to say what an encoded text stands for.\<close>

definition b64_value :: "char \<Rightarrow> nat" where
  "b64_value c = length (takeWhile (\<lambda>x. x \<noteq> c) b64_alphabet)"

fun DecodeString :: "string \<Rightarrow> string option" where
  "DecodeString [] = Some []"
| "DecodeString (p # q # r # s # rest) =
     (let a = char_of (b64_value p * 4 + b64_value q div 16);
          b = char_of (b64_value q mod 16 * 16 + b64_value r div 4);
          c = char_of (b64_value r mod 4 * 64 + b64_value s)
      in if s \<noteq> CHR ''='' then map_option (\<lambda>t. a # b # c # t) (DecodeString rest)
         else if rest \<noteq> [] then None else if r \<noteq> CHR ''='' then Some [a, b] else Some [a])"
| "DecodeString _ = None"

lemma b64_char_facts: "n < 64 \<Longrightarrow> b64_value (b64_char n) = n \<and> b64_char n \<noteq> CHR ''=''"
proof -
  have "list_all (\<lambda>n. b64_value (b64_char n) = n \<and> b64_char n \<noteq> CHR ''='') [0..<64]" by code_simp
  then show "n < 64 \<Longrightarrow> ?thesis" by (simp add: list_all_iff)
qed

lemma sextets:
  fixes x y z :: nat
  assumes "x < 256" "y < 256" "z < 256"
  shows "x div 4 < 64" "(x mod 4) * 16 + y div 16 < 64" "(y mod 16) * 4 + z div 64 < 64" "(x mod 4) * 16 < 64" "(y mod 16) * 4 < 64" "z mod 64 < 64"
    and "x div 4 * 4 + ((x mod 4) * 16 + y div 16) div 16 = x" "x div 4 * 4 + (x mod 4) * 16 div 16 = x"
    and "((x mod 4) * 16 + y div 16) mod 16 * 16 + ((y mod 16) * 4 + z div 64) div 4 = y"
    and "((x mod 4) * 16 + y div 16) mod 16 * 16 + (y mod 16) * 4 div 4 = y"
    and "((y mod 16) * 4 + z div 64) mod 4 * 64 + z mod 64 = z"
proof -
  have join: "(k * m + w) div m = k" "(k * m + w) mod m = w" if "w < m" for k m w :: nat using that by simp_all
  have w: "y div 16 < 16" "z div 64 < 4" using assms by (simp_all add: less_mult_imp_div_less)
  show "x div 4 < 64" using assms by (simp add: less_mult_imp_div_less)
  have m: "x mod 4 < 4" "y mod 16 < 16" by simp_all
  then show "(x mod 4) * 16 + y div 16 < 64" "(y mod 16) * 4 + z div 64 < 64" "(x mod 4) * 16 < 64" "(y mod 16) * 4 < 64"
    using w by linarith+
  show "z mod 64 < 64" by simp
  show "x div 4 * 4 + ((x mod 4) * 16 + y div 16) div 16 = x" "x div 4 * 4 + (x mod 4) * 16 div 16 = x"
    unfolding join(1) [OF w(1)] by simp_all
  show "((x mod 4) * 16 + y div 16) mod 16 * 16 + ((y mod 16) * 4 + z div 64) div 4 = y"
    unfolding join(2) [OF w(1)] join(1) [OF w(2)] by simp
  show "((x mod 4) * 16 + y div 16) mod 16 * 16 + (y mod 16) * 4 div 4 = y"
    unfolding join(2) [OF w(1)] by simp
  show "((y mod 16) * 4 + z div 64) mod 4 * 64 + z mod 64 = z"
    unfolding join(2) [OF w(2)] by simp
qed

lemma DecodeString_encode: "DecodeString (EncodeToString s) = Some s"
proof (induction s rule: EncodeToString.induct)
  case (2 a)
  have "(of_char a :: nat) < 256" by (rule nat_of_char_less_256)
  from sextets [OF this this this] show ?case by (simp add: Let_def b64_char_facts)
next
  case (3 a b)
  have "(of_char a :: nat) < 256" "(of_char b :: nat) < 256" by (rule nat_of_char_less_256)+
  from sextets [OF this this(2)] show ?case by (simp add: Let_def b64_char_facts)
next
  case (4 a b c rest)
  have "(of_char a :: nat) < 256" "(of_char b :: nat) < 256" "(of_char c :: nat) < 256" by (rule nat_of_char_less_256)+
  from sextets [OF this] 4 show ?case by (simp add: Let_def b64_char_facts)
qed simp

lemma ParseCIDR_Nil [simp]: "ParseCIDR [] \<noteq> None"
  by (simp add: ParseCIDR_def Let_def)

text \<open>Blocks that are read, and some that are not.\<close>

lemma ParseCIDR_samples:
  "ParseCIDR ''10.128.0.0/14'' = None" "ParseCIDR ''fd01::/48'' = None" "ParseCIDR ''::ffff:10.0.0.1/96'' = None"
  "ParseCIDR ''10.0.0.0'' \<noteq> None" "ParseCIDR ''10.0.0.0/33'' \<noteq> None" "ParseCIDR ''010.0.0.0/8'' \<noteq> None"
  "ParseCIDR ''fe80::1::2/64'' \<noteq> None"
  by code_simp+

end
