(* ===== verification/Json.thy ===== *)
theory Json
  imports Cidr
begin

text \<open>
  The JSON text that \<open>encoding/json\<close> writes for the structs the operator marshals, with the escaping of
  strings byte by byte, and a reader of such text. The reader takes a text apart as any JSON parser does; the
  lemmas show that it gives back the value that was written, and how long a text is.
\<close>

section \<open>JSON text\<close>

text \<open>
  The values \<open>json.Marshal\<close> sees, with the members of an object in the order of the struct's fields, and the
  text it writes for them. Strings are escaped for HTML as by default: \<open>htmlSafeSet\<close> are the bytes that
  are copied. Multi-byte sequences are copied when they are valid UTF-8, except for the two line separators.
\<close>

datatype jtree =
    TStr string
  | TInt int
  | TBool bool
  | TArr "jtree list"
  | TObj "(string \<times> jtree) list"

definition htmlSafeSet :: "char \<Rightarrow> bool" where
  "htmlSafeSet c \<longleftrightarrow> (let n = of_char c :: nat in 32 \<le> n \<and> n < 128 \<and> c \<notin> set [CHR 0x22, CHR 0x5C, CHR ''<'', CHR ''>'', CHR ''&''])"

text \<open>The length of the valid UTF-8 sequence a text with a first byte of at least 128 begins with, and 1 if there is none.\<close>

definition continuation :: "nat \<Rightarrow> nat \<Rightarrow> char \<Rightarrow> bool" where
  "continuation lo hi c \<longleftrightarrow> (let n = of_char c :: nat in lo \<le> n \<and> n \<le> hi)"

fun DecodeRune_size :: "string \<Rightarrow> nat" where
  "DecodeRune_size (a # b # cs) =
     (let n = of_char a :: nat; k = continuation 0x80 0xBF in
      if n < 0xC2 then 1
      else if n < 0xE0 then (if k b then 2 else 1)
      else if n < 0xF0 then
        (if continuation (if n = 0xE0 then 0xA0 else 0x80) (if n = 0xED then 0x9F else 0xBF) b \<and> length cs \<ge> 1 \<and> k (cs ! 0)
         then 3 else 1)
      else if n < 0xF5 then
        (if continuation (if n = 0xF0 then 0x90 else 0x80) (if n = 0xF4 then 0x8F else 0xBF) b \<and> length cs \<ge> 2 \<and>
            k (cs ! 0) \<and> k (cs ! 1)
         then 4 else 1)
      else 1)"
| "DecodeRune_size _ = 1"

definition escape_byte :: "char \<Rightarrow> string" where
  "escape_byte c =
     (if htmlSafeSet c then [c]
      else if c = CHR 0x5C \<or> c = CHR 0x22 then [CHR 0x5C, c]
      else if c = CHR 0x08 then [CHR 0x5C, CHR ''b'']
      else if c = CHR 0x0C then [CHR 0x5C, CHR ''f'']
      else if c = CHR 0x0A then [CHR 0x5C, CHR ''n'']
      else if c = CHR 0x0D then [CHR 0x5C, CHR ''r'']
      else if c = CHR 0x09 then [CHR 0x5C, CHR ''t'']
      else CHR 0x5C # ''u00'' @ [hex_digit (of_char c div 16), hex_digit (of_char c mod 16)])"

function escape_text :: "string \<Rightarrow> string" where
  "escape_text [] = []"
| "escape_text (c # cs) =
     (if (of_char c :: nat) < 128 then escape_byte c @ escape_text cs
      else let size = DecodeRune_size (c # cs) in
        if size = 1 then CHR 0x5C # ''ufffd'' @ escape_text cs
        else if take 3 (c # cs) = [CHR 0xE2, CHR 0x80, CHR 0xA8] then CHR 0x5C # ''u2028'' @ escape_text (drop 2 cs)
        else if take 3 (c # cs) = [CHR 0xE2, CHR 0x80, CHR 0xA9] then CHR 0x5C # ''u2029'' @ escape_text (drop 2 cs)
        else take size (c # cs) @ escape_text (drop (size - 1) cs))"
  by pat_completeness auto

termination by (relation "measure length") auto

definition appendString :: "string \<Rightarrow> string" where
  "appendString s = CHR 0x22 # escape_text s @ [CHR 0x22]"

fun separated :: "string list \<Rightarrow> string" where
  "separated [] = []"
| "separated [x] = x"
| "separated (x # y # ys) = x @ CHR '','' # separated (y # ys)"

fun json_text :: "jtree \<Rightarrow> string" where
  "json_text (TStr s) = appendString s"
| "json_text (TInt i) = show_int i"
| "json_text (TBool b) = (if b then ''true'' else ''false'')"
| "json_text (TArr xs) = CHR ''['' # separated (map json_text xs) @ '']''"
| "json_text (TObj fs) = CHR ''{'' # separated (map (\<lambda>(k, v). appendString k @ CHR '':'' # json_text v) fs) @ ''}''"

section \<open>Escaping\<close>

text \<open>An ASCII character ends every multi-byte sequence, so what follows it is escaped on its own.\<close>

lemma DecodeRune_size_bounds: "s \<noteq> [] \<Longrightarrow> 1 \<le> DecodeRune_size s \<and> DecodeRune_size s \<le> length s"
  by (induction s rule: DecodeRune_size.induct) (auto simp: Let_def)

lemma not_continuation: "(of_char c :: nat) < 128 \<Longrightarrow> 128 \<le> lo \<Longrightarrow> \<not> continuation lo hi c"
  by (simp add: continuation_def Let_def)

lemma DecodeRune_size_append:
  assumes "s \<noteq> []" and "(of_char x :: nat) < 128"
  shows "DecodeRune_size (s @ x # t) = DecodeRune_size s"
proof -
  have nc: "\<not> continuation lo hi x" if "128 \<le> lo" for lo hi using not_continuation [OF assms(2) that] .
  have nc2: "\<not> continuation (if P then 0xA0 else 0x80) hi x" "\<not> continuation (if P then 0x90 else 0x80) hi x" for P hi
    by (cases P; simp add: nc)+
  obtain a s1 where s: "s = a # s1" using assms(1) by (cases s) auto
  show ?thesis
  proof (cases s1)
    case Nil
    then show ?thesis by (simp add: s Let_def nc nc2)
  next
    case s1: (Cons b s2)
    show ?thesis
    proof (cases s2)
      case Nil
      then show ?thesis by (simp add: s s1 Let_def nc)
    next
      case (Cons c s3)
      then show ?thesis by (cases s3) (simp_all add: s s1 Let_def nc)
    qed
  qed
qed

lemma escape_append_ascii:
  assumes "(of_char x :: nat) < 128"
  shows "escape_text (s @ x # t) = escape_text s @ escape_text (x # t)"
proof (induction s rule: escape_text.induct)
  case (2 c cs)
  let ?n = "DecodeRune_size (c # cs)"
  have b: "1 \<le> ?n" "?n \<le> Suc (length cs)" using DecodeRune_size_bounds [of "c # cs"] by simp_all
  have e: "DecodeRune_size (c # cs @ x # t) = ?n" using DecodeRune_size_append [OF _ assms, of "c # cs" t] by simp
  show ?case
  proof (cases "(of_char c :: nat) < 128")
    case True
    with 2 show ?thesis by simp
  next
    case False
    have x: "x \<noteq> CHR 0xA8" "x \<noteq> CHR 0xA9" "x \<noteq> CHR 0x80" using assms by auto
    have k: "take 3 (c # cs @ x # t) = [CHR 0xE2, CHR 0x80, z] \<longleftrightarrow> take 3 (c # cs) = [CHR 0xE2, CHR 0x80, z]"
      if "z = CHR 0xA8 \<or> z = CHR 0xA9" for z
      using that x by (cases cs; cases "tl cs") (auto simp: numeral_3_eq_3)
    have l: "2 \<le> length cs" if "take 3 (c # cs) = [CHR 0xE2, CHR 0x80, z]" for z
      using that by (cases cs; cases "tl cs") (auto simp: numeral_3_eq_3)
    define rest where "rest = escape_text (x # t)"
    define mark where "mark z = (take 3 (c # cs) = [CHR 0xE2, CHR 0x80, z])" for z
    have km: "z = CHR 0xA8 \<or> z = CHR 0xA9 \<Longrightarrow> take 3 (c # cs @ x # t) = [CHR 0xE2, CHR 0x80, z] \<longleftrightarrow> mark z" for z
      unfolding mark_def by (rule k)
    have L: "escape_text (c # cs @ x # t) = (if ?n = 1 then CHR 0x5C # ''ufffd'' @ escape_text (cs @ x # t)
        else if mark (CHR 0xA8) then CHR 0x5C # ''u2028'' @ escape_text (drop 2 (cs @ x # t))
        else if mark (CHR 0xA9) then CHR 0x5C # ''u2029'' @ escape_text (drop 2 (cs @ x # t))
        else take ?n (c # cs @ x # t) @ escape_text (drop (?n - 1) (cs @ x # t)))"
      unfolding escape_text.simps(2) [of c "cs @ x # t"] Let_def e km [OF disjI1 [OF refl]] km [OF disjI2 [OF refl]]
      by (simp only: False if_False)
    have R: "escape_text (c # cs) = (if ?n = 1 then CHR 0x5C # ''ufffd'' @ escape_text cs
        else if mark (CHR 0xA8) then CHR 0x5C # ''u2028'' @ escape_text (drop 2 cs)
        else if mark (CHR 0xA9) then CHR 0x5C # ''u2029'' @ escape_text (drop 2 cs)
        else take ?n (c # cs) @ escape_text (drop (?n - 1) cs))"
      unfolding escape_text.simps(2) [of c cs] Let_def mark_def by (simp only: False if_False)
    note IH = 2(2-5) [OF False refl, folded mark_def rest_def]
    have d: "mark z \<Longrightarrow> drop 2 (cs @ x # t) = drop 2 cs @ x # t" for z using l by (simp add: mark_def)
    have d': "drop (?n - 1) (cs @ x # t) = drop (?n - 1) cs @ x # t" "take ?n (c # cs @ x # t) = take ?n (c # cs)"
      using b by (cases ?n; simp)+
    show ?thesis unfolding append_Cons L R d' rest_def [symmetric] using IH d by (simp split: if_splits)
  qed
qed simp

section \<open>Reading JSON text\<close>

definition hex_value :: "char \<Rightarrow> nat" where
  "hex_value c = (let n = of_char c :: nat in if n < 58 then n - 48 else n - 87)"

text \<open>The rest of a string after its opening quote: the characters it stands for and what follows the closing quote.\<close>

definition unescaped :: "char \<Rightarrow> char" where
  "unescaped e = (if e = CHR ''b'' then CHR 0x08 else if e = CHR ''f'' then CHR 0x0C else if e = CHR ''n'' then CHR 0x0A
     else if e = CHR ''r'' then CHR 0x0D else if e = CHR ''t'' then CHR 0x09 else e)"

fun read_string :: "string \<Rightarrow> (string \<times> string) option" where
  "read_string [] = None"
| "read_string [c] = (if c = CHR 0x22 then Some ([], []) else None)"
| "read_string (c # e # cs) =
     (if c = CHR 0x22 then Some ([], e # cs)
      else if c \<noteq> CHR 0x5C then map_option (apfst (\<lambda>s. c # s)) (read_string (e # cs))
      else if e \<noteq> CHR ''u'' then map_option (apfst (\<lambda>s. unescaped e # s)) (read_string cs)
      else (case cs of
          z1 # z2 # h # l # rest \<Rightarrow>
            map_option (apfst (\<lambda>s. char_of (hex_value h * 16 + hex_value l) # s)) (read_string rest)
        | _ \<Rightarrow> None))"

definition read_nat :: "string \<Rightarrow> nat \<times> string" where
  "read_nat s = (dec_value (takeWhile dec_digit s), dropWhile dec_digit s)"

definition read_word :: "string \<Rightarrow> 'a \<Rightarrow> string \<Rightarrow> ('a \<times> string) option" where
  "read_word w x s = (if prefix w s then Some (x, drop (length w) s) else None)"

text \<open>Values, the rest of an array and the rest of an object; the number bounds the depth of the recursion.\<close>

fun read_value :: "nat \<Rightarrow> string \<Rightarrow> (jtree \<times> string) option"
  and read_items :: "nat \<Rightarrow> string \<Rightarrow> (jtree list \<times> string) option"
  and read_members :: "nat \<Rightarrow> string \<Rightarrow> ((string \<times> jtree) list \<times> string) option" where
  "read_value 0 s = None"
| "read_value (Suc n) s =
     (case s of [] \<Rightarrow> None
      | c # r \<Rightarrow>
          if c = CHR 0x22 then map_option (apfst TStr) (read_string r)
          else if c = CHR ''['' then
            (if take 1 r = '']'' then Some (TArr [], drop 1 r) else map_option (apfst TArr) (read_items n r))
          else if c = CHR ''{'' then
            (if take 1 r = ''}'' then Some (TObj [], drop 1 r) else map_option (apfst TObj) (read_members n r))
          else if c = CHR ''t'' then read_word ''true'' (TBool True) s
          else if c = CHR ''f'' then read_word ''false'' (TBool False) s
          else if c = CHR ''-'' then Some (apfst (\<lambda>k. TInt (- int k)) (read_nat r))
          else if dec_digit c then Some (apfst (\<lambda>k. TInt (int k)) (read_nat s))
          else None)"
| "read_items 0 s = None"
| "read_items (Suc n) s =
     (case read_value n s of
        Some (v, c # r) \<Rightarrow>
          if c = CHR '','' then map_option (apfst (\<lambda>vs. v # vs)) (read_items n r)
          else if c = CHR '']'' then Some ([v], r) else None
      | _ \<Rightarrow> None)"
| "read_members 0 s = None"
| "read_members (Suc n) s =
     (case s of
        q # r \<Rightarrow>
          if q \<noteq> CHR 0x22 then None
          else (case read_string r of
              Some (k, d # r1) \<Rightarrow>
                if d \<noteq> CHR '':'' then None
                else (case read_value n r1 of
                    Some (v, c # r2) \<Rightarrow>
                      if c = CHR '','' then map_option (apfst (\<lambda>fs. (k, v) # fs)) (read_members n r2)
                      else if c = CHR ''}'' then Some ([(k, v)], r2) else None
                  | _ \<Rightarrow> None)
            | _ \<Rightarrow> None)
      | [] \<Rightarrow> None)"

definition parse_json :: "string \<Rightarrow> jtree option" where
  "parse_json s = (case read_value (length s) s of Some (t, []) \<Rightarrow> Some t | _ \<Rightarrow> None)"

section \<open>Reading what was written\<close>

definition ascii :: "string \<Rightarrow> bool" where
  "ascii s \<longleftrightarrow> list_all (\<lambda>c. (of_char c :: nat) < 128) s"

fun ascii_tree :: "jtree \<Rightarrow> bool" where
  "ascii_tree (TStr s) = ascii s"
| "ascii_tree (TInt i) = True"
| "ascii_tree (TBool b) = True"
| "ascii_tree (TArr xs) = list_all ascii_tree xs"
| "ascii_tree (TObj fs) = list_all (\<lambda>(k, v). ascii k \<and> ascii_tree v) fs"

lemma ascii_simps [simp]: "ascii []" "ascii (c # s) \<longleftrightarrow> (of_char c :: nat) < 128 \<and> ascii s" "ascii (s @ t) \<longleftrightarrow> ascii s \<and> ascii t"
  by (auto simp: ascii_def)

lemma escape_ascii: "ascii s \<Longrightarrow> escape_text s = concat (map escape_byte s)"
  by (induction s) auto

lemma escape_plain: "list_all htmlSafeSet s \<Longrightarrow> escape_text s = s"
  by (induction s) (auto simp: htmlSafeSet_def escape_byte_def Let_def)

lemma hex_value_digit: "d < 16 \<Longrightarrow> hex_value (hex_digit d) = d"
  by (simp add: hex_value_def hex_digit_def Let_def)

lemma read_string_plain: "c \<noteq> CHR 0x22 \<Longrightarrow> c \<noteq> CHR 0x5C \<Longrightarrow> read_string (c # s) = map_option (apfst (\<lambda>t. c # t)) (read_string s)"
  by (cases s) simp_all

lemma read_escaped:
  assumes "(of_char c :: nat) < 128"
  shows "read_string (escape_byte c @ s) = map_option (apfst (\<lambda>t. c # t)) (read_string s)"
proof (cases "htmlSafeSet c")
  case True
  then show ?thesis by (auto simp: escape_byte_def read_string_plain htmlSafeSet_def Let_def)
next
  case False
  have d: "(of_char c :: nat) div 16 < 16" using assms by (simp add: less_mult_imp_div_less)
  have "char_of (of_char c div 16 * 16 + (of_char c :: nat) mod 16) = c" by simp
  with d False show ?thesis
    by (auto simp: escape_byte_def unescaped_def hex_value_digit)
qed

lemma read_string_escape: "ascii s \<Longrightarrow> read_string (escape_text s @ CHR 0x22 # rest) = Some (s, rest)"
proof (induction s)
  case Nil
  show ?case by (cases rest) simp_all
next
  case (Cons c s)
  then show ?case by (simp add: read_escaped)
qed

lemma digit_char_facts: "d < 10 \<Longrightarrow> dec_digit (digit_char d) \<and> of_char (digit_char d) = 48 + d"
  by (simp add: digit_char_def dec_digit_def Let_def)

lemma show_nat_digits: "list_all dec_digit (show_nat n) \<and> dec_value (show_nat n) = n \<and> show_nat n \<noteq> []"
proof (induction n rule: show_nat.induct)
  case (1 n)
  then show ?case
    by (cases "n < 10") (simp_all add: show_nat.simps [of n] dec_value_def digit_char_facts)
qed

lemma read_nat_show:
  assumes "rest = [] \<or> \<not> dec_digit (hd rest)"
  shows "read_nat (show_nat n @ rest) = (n, rest)"
proof -
  have "list_all dec_digit (show_nat n)" by (simp add: show_nat_digits)
  then have "takeWhile dec_digit (show_nat n @ rest) = show_nat n @ takeWhile dec_digit rest"
    "dropWhile dec_digit (show_nat n @ rest) = dropWhile dec_digit rest"
    by (induction "show_nat n") (auto simp: list_all_iff intro: takeWhile_append2 dropWhile_append2)
  moreover have "takeWhile dec_digit rest = []" "dropWhile dec_digit rest = rest" using assms by (cases rest; auto)+
  ultimately show ?thesis by (simp add: read_nat_def show_nat_digits)
qed

text \<open>A text written for a value is not empty, and long enough for the depth of its reading.\<close>

lemma separated_Cons: "separated (x # xs) = x @ (if xs = [] then [] else CHR '','' # separated xs)"
  by (cases xs) simp_all

lemma json_text_size: "size t < length (json_text t)"
proof (induction t rule: json_text.induct)
  case (2 i)
  show ?case by (simp add: show_int_def show_nat_digits)
next
  case (4 xs)
  have "size_list size xs \<le> length (separated (map json_text xs))" using 4
    by (induction xs) (fastforce simp: separated_Cons)+
  then show ?case by simp
next
  case (5 fs)
  have "size_list (size_prod (\<lambda>x. 0) size) fs \<le>
      length (separated (map (\<lambda>(k, v). appendString k @ CHR '':'' # json_text v) fs))" using 5
    by (induction fs) (fastforce simp: separated_Cons appendString_def)+
  then show ?case by simp
qed (simp_all add: appendString_def)

lemma dec_digit_other: "dec_digit c \<Longrightarrow> c \<notin> set [CHR 0x22, CHR ''['', CHR '']'', CHR ''{'', CHR ''t'', CHR ''f'', CHR ''-'', CHR '','', CHR ''}'']"
  by (auto simp: dec_digit_def Let_def)

lemma show_nat_hd: "show_nat n = hd (show_nat n) # tl (show_nat n)" "dec_digit (hd (show_nat n))"
  using show_nat_digits [of n] by (auto simp: list_all_iff)

lemma json_text_hd: "json_text t \<noteq> [] \<and> hd (json_text t) \<noteq> CHR '']''"
  using dec_digit_other [OF show_nat_hd(2)]
  by (cases t) (auto simp: appendString_def show_int_def show_nat_digits)

text \<open>The reader, at a depth that exceeds the size of the value, gives the value and the rest of the text.\<close>

definition not_number :: "string \<Rightarrow> bool" where
  "not_number rest \<longleftrightarrow> rest = [] \<or> \<not> dec_digit (hd rest)"

lemma not_number_simps [simp]: "not_number []" "not_number (c # r) \<longleftrightarrow> \<not> dec_digit c"
  by (simp_all add: not_number_def)

lemma read_number:
  assumes "not_number rest"
  shows "read_value (Suc n) (show_int i @ rest) = Some (TInt i, rest)"
proof (cases "i < 0")
  case True
  then show ?thesis using read_nat_show [of rest "nat (- i)"] assms by (simp add: show_int_def not_number_def)
next
  case False
  obtain c r where s: "show_nat (nat i) = c # r" "dec_digit c" using show_nat_hd by metis
  have "read_nat (c # r @ rest) = (nat i, rest)"
    using read_nat_show [of rest "nat i"] assms s(1) by (simp add: not_number_def)
  with False s dec_digit_other [OF s(2)] show ?thesis by (simp add: show_int_def)
qed

lemma read_json:
  shows "size t < n \<Longrightarrow> ascii_tree t \<Longrightarrow> not_number rest \<Longrightarrow> read_value n (json_text t @ rest) = Some (t, rest)"
    and "size_list size xs < n \<Longrightarrow> list_all ascii_tree xs \<Longrightarrow> xs \<noteq> [] \<Longrightarrow>
      read_items n (separated (map json_text xs) @ CHR '']'' # rest) = Some (xs, rest)"
    and "size_list (size_prod (\<lambda>x. 0) size) fs < n \<Longrightarrow> list_all (\<lambda>(k, v). ascii k \<and> ascii_tree v) fs \<Longrightarrow> fs \<noteq> [] \<Longrightarrow>
      read_members n (separated (map (\<lambda>(k, v). appendString k @ CHR '':'' # json_text v) fs) @ CHR ''}'' # rest) = Some (fs, rest)"
proof (induction n arbitrary: t xs fs rest)
  case (Suc n)
  note IH = Suc.IH
  have sep: "\<not> dec_digit (CHR '']'')" "\<not> dec_digit (CHR ''}'')" "\<not> dec_digit (CHR '','')" by (auto simp: dec_digit_def Let_def)
  {
    case 1
    then show ?case
    proof (cases t)
      case (TStr s)
      with 1 show ?thesis by (simp add: appendString_def read_string_escape)
    next
      case (TInt i)
      with 1 show ?thesis by (simp add: read_number del: read_value.simps)
    next
      case (TBool b)
      then show ?thesis by (simp add: read_word_def)
    next
      case (TArr xs)
      show ?thesis
      proof (cases xs)
        case (Cons x ys)
        have "take 1 (separated (map json_text xs) @ r) \<noteq> '']''" for r
          using json_text_hd [of x] Cons by (cases "json_text x") (auto simp: separated_Cons)
        with TArr 1 IH(2) [of xs] Cons show ?thesis by simp
      qed (simp add: TArr)
    next
      case (TObj fs)
      show ?thesis
      proof (cases fs)
        case (Cons f gs)
        have "take 1 (separated (map (\<lambda>(k, v). appendString k @ CHR '':'' # json_text v) fs) @ r) \<noteq> ''}''" for r
          using Cons by (cases f) (auto simp: separated_Cons appendString_def)
        with TObj 1 IH(3) [of fs] Cons show ?thesis by simp
      qed (simp add: TObj)
    qed
  next
    case 2
    then obtain x ys where xs: "xs = x # ys" by (cases xs) auto
    with 2 IH(1) [of x] IH(2) [of ys] sep show ?case by (cases ys) (auto simp: separated_Cons)
  next
    case 3
    then obtain k v gs where fs: "fs = (k, v) # gs" by (cases fs) auto
    with 3 IH(1) [of v] IH(3) [of gs] sep show ?case
      by (cases gs) (auto simp: separated_Cons appendString_def read_string_escape)
  }
qed simp_all

lemma parse_json_text: "ascii_tree t \<Longrightarrow> parse_json (json_text t) = Some t"
  using read_json(1) [OF json_text_size, of t "[]"] by (simp add: parse_json_def)

end
