(* ===== verification/Ignition.thy ===== *)
theory Ignition
  imports KubeApi Json
begin

text \<open>
  The ignition configuration of a new node (\<open>internal/utils/ignition.go\<close>): the scripts and units that are
  compiled into the operator, with the script embedded by \<open>config/secondarynic_embed.go\<close>, the configuration
  that carries them, its JSON text as \<open>encoding/json\<close> writes it, and the check of its size. The theorems say
  exactly which certificates fit into the user data of an instance and that the text, read as JSON, gives the
  scripts back.
\<close>

section \<open>The embedded texts\<close>

definition text_lines :: "string list \<Rightarrow> string" where
  "text_lines ls = concat (map (\<lambda>l. l @ [CHR 0x0A]) ls)"

definition setHostnameOCIScript :: string where
  \<open>setHostnameOCIScript = text_lines
     [''#!/usr/bin/env bash'',
      ''set -euo pipefail'',
      [],
      ''# OCI IMDS v2 requires the Authorization header for metadata access.'',
      ''hostname=$(curl --silent -H "Authorization: Bearer Oracle" -L http://169.254.169.254/opc/v2/instance/ '' @
         ''| jq -r .displayName)'',
      [],
      ''if [ -n "$hostname" ] && [ "$hostname" != "null" ]; then'',
      ''    echo "Setting hostname to $hostname"'',
      ''    hostnamectl set-hostname "$hostname"'',
      ''else'',
      ''    echo "Failed to get hostname from OCI metadata"'',
      ''    exit 1'',
      ''fi'']\<close>

definition iscsiProtectPrimaryRouteScript :: string where
  \<open>iscsiProtectPrimaryRouteScript = text_lines
     [''#!/usr/bin/env bash'',
      ''set -u'',
      [],
      ''iters="${ISCSI_PROTECT_ITERATIONS:-1800}"'',
      ''int="${ISCSI_PROTECT_INTERVAL:-1}"'',
      ''l(){ m="iscsi-protect: $*"; printf \'%s'' @ [CHR 0x5C] @ ''n\' "$m" || true; printf \'%s'' @ [CHR 0x5C] @
         ''n\' "$m" >/dev/console 2>/dev/null || true; printf \'<4>%s'' @ [CHR 0x5C] @
         ''n\' "$m" >/dev/kmsg 2>/dev/null || true; command -v logger >/dev/null 2>&1 && logger -t iscsi-protect '' @
         ''-- "$*" || true; }'',
      ''r(){ tr -d \'[:space:]\' < "$1/$2" 2>/dev/null || true; }'',
      ''pfx(){ awk -F. \'{for(i=1;i<=4;i++){v=$i+0;while(v){p+=v%2;v=int(v/2)}}print p}\' <<< "${1:-}"; '' @ ''}'',
      ''v4(){ ['' @ ''[ "${1:-}" =~ ^([0-9]{1,3}'' @ [CHR 0x5C] @ ''.){3}[0-9]{1,3}$ ]'' @ ''] && [ "$1" != 0.0.0.0 ]; }'',
      ''src4(){ ip -4 -o addr show dev "$1" 2>/dev/null | awk \'{split($4,a,"/");print a[1];exit}\' '' @ ''|| true; }'',
      ''pick(){ local t="$1" e m n; for e in /sys/firmware/ibft/ethernet*; do [ -e "$e/mac" ] || '' @
         ''continue; m="$(r "$e" mac | tr \'[:upper:]\' \'[:lower:]\')"; for n in /sys/class/net/*; do '' @
         ''[ "$(cat "$n/address" 2>/dev/null || true)" = "$m" ] && { printf \'%s %s'' @ [CHR 0x5C] @
         ''n\' "$(basename "$n")" "$e"; return; }; done; done; ip route get "$t" 2>/dev/null | awk \'{for(i=1;i<=NF;i++)if('' @
         ''$i=="dev"){print $(i+1)" ";exit}}\'; }'',
      ''nmguard(){ local dev="$1" e="$2" mac f=/etc/NetworkManager/conf.d/99-ibft.conf; [ -n "$e" '' @
         ''] || return; [ -e "$f" ] && return; mac="$(r "$e" mac | tr \'[:upper:]\' \'[:lower:]\')"; [ '' @
         ''-n "$mac" ] || return; mkdir -p /etc/NetworkManager/conf.d || return; { printf \'[keyfile]'' @ [CHR 0x5C] @
         ''n\'; printf \'unmanaged-devices=mac:%s'' @ [CHR 0x5C] @ ''n\' "$mac"; } > "$f" && l "NM_UNMANAGED primary=$dev mac=$mac"; }'',
      ''restore(){ local lab="$1" dev="$2" e="$3" cur ip mask pre; cur="$(src4 "$dev")"; primary_src="$cur"; '' @
         ''[ -n "$e" ] || return; ip="$(r "$e" ip-addr)"; v4 "$ip" || return; ip -4 -o addr show dev '' @
         ''"$dev" 2>/dev/null | awk -v ip="$ip" \'{split($4,a,"/");if(a[1]==ip)f=1}END{exit f?0:1}\' '' @
         ''&& { primary_src="$ip"; return; }; mask="$(r "$e" subnet-mask)"; v4 "$mask" && pre="$(pfx '' @
         ''"$mask" 2>/dev/null || true)" || pre=32; [ -n "$pre" ] || pre=32; l "RESTORE_IP label=$lab '' @
         ''primary=$dev ip=$ip/$pre current=${cur:-none}"; ip addr replace "$ip/$pre" dev "$dev" || '' @
         ''l "RESTORE_IP_FAILED label=$lab primary=$dev"; primary_src="$(src4 "$dev")"; }'',
      ''once(){ local lab="${1:-single}" t dev e primary_src route verbose=0 n; t="$(cat /sys/firmware/ibft/target0/ip'' @
         ''-addr 2>/dev/null || true)"; [ -n "$t" ] && [ "$t" != null ] || t=169.254.0.2; read -r dev '' @
         ''e <<< "$(pick "$t")"; [ -n "$dev" ] || dev=ens300f0np0; nmguard "$dev" "$e"; case "$lab" '' @
         ''in single|iter-1|iter-2|iter-3) verbose=1;; *'' @ '') n="${lab#iter-}"; ['' @ ''[ "$n" =~ ^[0-9]+$ ]'' @
         ''] && [ $((n%30)) -eq 0 ] && verbose=1;; esac; [ "$verbose" -eq 1 ] && l "START label=$lab '' @
         ''target=$t primary=$dev"; if ip link show dev "$dev" >/dev/null 2>&1; then ip link set dev '' @
         ''"$dev" up || l "LINK_UP_FAILED label=$lab primary=$dev"; restore "$lab" "$dev" "$e"; [ -n '' @
         ''"$primary_src" ] && ip route replace "$t/32" dev "$dev" src "$primary_src" metric 1 || { '' @
         ''l "PRIMARY_ADDR_MISSING label=$lab primary=$dev"; ip route replace "$t/32" dev "$dev" metric '' @
         ''1 || true; }; else l "MISSING_PRIMARY label=$lab primary=$dev"; fi; [ "$verbose" -eq 1 ] '' @
         ''&& { route="$(ip route get "$t" 2>&1 || true)"; l "ROUTE_GET label=$lab $route"; l "DONE '' @ ''label=$lab"; }; }'',
      ''l "UNIT_START pid=$$ argv=${'' @ ''*:-none}"'',
      ''l "WATCHDOG_START iterations=$iters interval=$int"'',
      ''i=1'',
      ''while [ "$i" -le "$iters" ]; do'',
      ''  once "iter-$i"'',
      ''  sleep "$int"'',
      ''  i=$((i + 1))'',
      ''done'',
      [],
      ''l "WATCHDOG_DONE iterations=$iters"'',
      ''exit 0'']\<close>

definition iscsiProtectServiceUnit :: string where
  "iscsiProtectServiceUnit = text_lines
     [''[Unit]'',
      ''Description=OCI iSCSI primary route protect watchdog'',
      ''DefaultDependencies=no'',
      ''Wants=network-pre.target'',
      ''Before=network-pre.target NetworkManager.service sysinit.target'',
      ''ConditionPathExists=/sys/firmware/ibft'',
      [],
      ''[Service]'',
      ''Type=simple'',
      ''ExecStart=/etc/oci-iscsi/iscsi-protect-primary-route-watchdog.sh'',
      ''StandardOutput=journal+console'',
      ''StandardError=journal+console'',
      [],
      ''[Install]'',
      ''WantedBy=sysinit.target'']"

definition setHostnameOCIServiceUnit :: string where
  "setHostnameOCIServiceUnit = text_lines
     [''[Unit]'',
      ''Description=Set hostname from OCI metadata'',
      ''After=network-online.target'',
      ''Before=kubelet.service'',
      ''Wants=network-online.target'',
      [],
      ''[Service]'',
      ''Type=oneshot'',
      ''ExecStart=/usr/local/bin/set-hostname-oci.sh'',
      [],
      ''[Install]'',
      ''WantedBy=multi-user.target'']"

definition ociSecondaryNICServiceUnit :: string where
  "ociSecondaryNICServiceUnit = text_lines
     [''[Unit]'',
      ''Description=Configure secondary OCI VNIC if present'',
      ''After=NetworkManager.service'',
      ''Before=NetworkManager-wait-online.service network-online.target ovs-configuration.service kubelet.service'',
      [],
      ''[Service]'',
      ''Type=oneshot'',
      ''ExecStart=/usr/local/bin/iscsi-oci-configure-secondary-nic.sh'',
      [],
      ''[Install]'',
      ''WantedBy=network-online.target multi-user.target'']"

definition iscsiProtectServiceLinkTarget :: string where
  "iscsiProtectServiceLinkTarget = ''../iscsi-protect-primary-route.service''"

definition data_url :: "string \<Rightarrow> string" where
  "data_url text = ''data:text/plain;charset=utf-8;base64,'' @ EncodeToString text"

text \<open>The file that \<open>config/secondarynic_embed.go\<close> embeds.\<close>

definition SecondaryNICScript :: string where
  \<open>SecondaryNICScript = text_lines
     [''#!/usr/bin/env bash'',
      ''# Copyright (c) 2025, 2026 Oracle and/or its affiliates.'',
      ''# Licensed under the Universal Permissive License v 1.0 as shown at https://oss.oracle.com/licenses/upl/.'',
      [],
      [],
      ''set -e'',
      ''set -x'',
      [],
      ''if [ ! -d "/sys/firmware/ibft" ]'',
      ''then'',
      ''  echo "No IBFT configuration found. Skipping."'',
      ''  exit 0'',
      ''fi'',
      [],
      ''MTU=9000'',
      ''NODEIP_CONF="/etc/systemd/system/kubelet.service.d/30-oci-nodeip.conf"'',
      [],
      ''function get_if_name_from_mac_address {'',
      ''  mac_address="${1}"'',
      ''  ip -json link | jq --raw-output --arg mac_address "${mac_address}" \'. | map(select(.address==($mac_address|a'' @
         ''scii_downcase))) | .[0].ifname'' @ [CHR 0x27],
      ''}'',
      [],
      ''# Get the primary interface used for the default route'',
      ''function get_primary_if_name {'',
      ''  ip -json route show default | jq --raw-output \'.[] | select(.dst == "default") | .dev\' '' @ ''| head -n1'',
      ''}'',
      [],
      ''# Extract the prefix from the primary interface name'',
      ''function extract_prefix {'',
      ''  primary_if_name="${1}"'',
      ''  if ['' @ ''[ "${primary_if_name}" =~ ^([a-zA-Z]+) ]'' @ '']; then'',
      ''    echo "${BASH_REMATCH[1]}"'',
      ''  else'',
      ''    echo ""'',
      ''  fi'',
      ''}'',
      [],
      ''# Get the secondary interface name based on the dynamic prefix'',
      ''function get_secondary_if_name_by_prefix {'',
      ''  prefix="${1}"'',
      ''  all_interfaces=$(ip -json link show | jq --raw-output \'.[] | select(.operstate == "UP") '' @ ''| .ifname\')'',
      [],
      ''  for ifname in ${all_interfaces}; do'',
      ''    if ['' @ ''[ "${ifname}" == "${prefix}"* && "${ifname}" != "${primary_if_name}" ]'' @ '']; then'',
      ''      echo "${ifname}"'',
      ''      return 0'',
      ''    fi'',
      ''  done'',
      [],
      ''  echo "No secondary interface found with the prefix ${prefix}."'',
      ''  return 1'',
      ''}'',
      [],
      ''# Ensure OCI DNS is configured on a given network connection'',
      ''function set_oci_dns {'',
      ''  local conn_name="$1"'',
      ''  dns_value=$(nmcli -g ipv4.dns connection show "$conn_name")'',
      ''  if ['' @ ''[ -z "$dns_value" || "$dns_value" == "--" ]'' @ '']; then'',
      ''    echo "Setting OCI DNS for $conn_name"'',
      ''    nmcli connection modify "$conn_name" ipv4.dns "169.254.169.254"'',
      ''    nmcli connection modify "$conn_name" ipv4.ignore-auto-dns no'',
      ''    nmcli connection up "$conn_name"'',
      ''  fi'',
      ''}'',
      [],
      ''#Fetch the VNICS data'',
      ''vnics=$(curl --silent -H "Authorization: Bearer Oracle" -L http://169.254.169.254/opc/v2/vnics/)'',
      ''secondary_if_mac_address=$(jq -r \'.[1].macAddr\' <<< "${vnics}")'',
      ''secondary_if_ip_address=$(jq -r \'.[1].privateIp\' <<< "${vnics}")'',
      ''secondary_if_vlan_tag=$(jq -r \'.[1].vlanTag\' <<< "${vnics}")'',
      ''secondary_if_default_gateway=$(jq -r \'.[1].virtualRouterIp\' <<< "${vnics}")'',
      ''secondary_if_subnet=$(jq -r \'.[1].subnetCidrBlock\' <<< "${vnics}")'',
      ''secondary_if_subnet_size=$(cut -f 2 -d \'/\' <<< "${secondary_if_subnet}")'',
      ''secondary_if_name=$(get_if_name_from_mac_address "${secondary_if_mac_address}")'',
      [],
      ''# If the interface name is null or empty, fallback to using the IP address'',
      ''if ['' @ ''[ -z "${secondary_if_name}" || "${secondary_if_name}" == "null" ]'' @ '']; then'',
      ''  echo "MAC address not found, falling back to prefix lookup method."'',
      ''  primary_if_name=$(get_primary_if_name)'',
      ''  prefix=$(extract_prefix "${primary_if_name}")'',
      ''  secondary_if_name=$(get_secondary_if_name_by_prefix "${prefix}")'',
      ''  if [ "${secondary_if_vlan_tag}" -ne 0 ]; then'',
      ''    echo "VLAN Tag is not 0, network configuration needs to be modified at the VLAN level"'',
      ''    if [ ! -f "/etc/NetworkManager/system-connections/${secondary_if_name}.nmconnection" '' @ '']; then'',
      ''        secondary_if_mtu=$(ip -json link show "${secondary_if_name}" | jq --raw-output \'.[0].mtu\')'',
      ''        if [ "${secondary_if_mtu}" != "${MTU}" ]; then'',
      ''          echo "Interface ${secondary_if_name} MTU is ${secondary_if_mtu}, setting to ${MTU}"'',
      ''          nmcli connection add type ethernet con-name "${secondary_if_name}" ifname "${secondary_if_name}" '' @
         ''ipv4.method disabled ipv6.method disabled 802-3-ethernet.mtu ${MTU}'',
      ''        fi'',
      ''        nmcli connection add type vlan con-name "${secondary_if_name}.${secondary_if_vlan_tag}" '' @
         ''ifname "vlan.${secondary_if_vlan_tag}" dev "${secondary_if_name}" id "${secondary_if_vlan_tag}" '' @
         ''ip4 "${secondary_if_ip_address}/${secondary_if_subnet_size}" gw4 "${secondary_if_default_gateway}"'',
      ''        nmcli connection modify "${secondary_if_name}.${secondary_if_vlan_tag}" 802-3-ethernet.cloned-mac-addr'' @
         ''ess "${secondary_if_mac_address}"'',
      ''        nmcli connection modify "${secondary_if_name}.${secondary_if_vlan_tag}" 802-3-ethernet.mtu '' @ ''${MTU}'',
      ''        nmcli connection modify "${secondary_if_name}.${secondary_if_vlan_tag}" ipv4.route-metric '' @ ''0'',
      ''        nmcli connection modify "${secondary_if_name}.${secondary_if_vlan_tag}" connection.autoconnect '' @ ''true'',
      ''        nmcli connection reload'',
      ''        nmcli connection up "${secondary_if_name}.${secondary_if_vlan_tag}"'',
      ''        for uuid in $(nmcli -t -f UUID,DEVICE connection show | grep \':--\' | cut -d: -f1); '' @ ''do'',
      ''          nmcli connection delete "$uuid"'',
      ''        done'',
      ''        set_oci_dns "${secondary_if_name}.${secondary_if_vlan_tag}"'',
      ''    fi'',
      ''  else'',
      ''    if [ ! -f "/etc/NetworkManager/system-connections/${secondary_if_name}.nmconnection" '' @ '']; then'',
      ''      nmcli connection add con-name "${secondary_if_name}" ifname "${secondary_if_name}" '' @
         ''type ethernet ip4 "${secondary_if_ip_address}/${secondary_if_subnet_size}" gw4 "${secondary_if_default_gateway'' @ ''}"'',
      ''      nmcli connection modify "${secondary_if_name}" ethernet.mtu ${MTU}'',
      ''      nmcli connection modify "${secondary_if_name}" ipv4.route-metric 0'',
      ''      nmcli connection modify "${secondary_if_name}" connection.autoconnect true'',
      ''      nmcli connection reload'',
      ''      nmcli connection up "${secondary_if_name}"'',
      ''      set_oci_dns "${secondary_if_name}"'',
      ''    fi'',
      ''  fi'',
      ''else'',
      ''  if [ ! -f "/etc/NetworkManager/system-connections/${secondary_if_name}.nmconnection" ]; '' @ ''then'',
      ''    nmcli connection add con-name "${secondary_if_name}" ifname "${secondary_if_name}" type '' @
         ''ethernet ip4 "${secondary_if_ip_address}/${secondary_if_subnet_size}" gw4 "${secondary_if_default_gateway}"'',
      ''    nmcli connection modify "${secondary_if_name}" ethernet.mtu ${MTU}'',
      ''    nmcli connection modify "${secondary_if_name}" ipv4.route-metric 0'',
      ''    nmcli connection modify "${secondary_if_name}" connection.autoconnect true'',
      ''    nmcli connection reload'',
      ''    nmcli connection up "${secondary_if_name}"'',
      ''    set_oci_dns "${secondary_if_name}"'',
      ''  fi'',
      ''fi'',
      [],
      ''# Don\'t proceed further if we run in the discovery environment'',
      ''if [ -n "${ASSISTED_INSTALLER_DISCOVERY_ENV}" ]'',
      ''then'',
      ''  exit 0'',
      ''fi'',
      [],
      ''# Force the kubelet to use the IP of the secondary VNIC for as node IP'',
      ''if [ ! -f "${NODEIP_CONF}" ]'',
      ''then'',
      ''  cat << EOF > "${NODEIP_CONF}"'',
      ''[Service]'',
      ''Environment="KUBELET_NODE_IP=${secondary_if_ip_address}"'',
      ''EOF'',
      ''fi'']\<close>

section \<open>The configuration\<close>

record ign_unit =
  iu_Name :: string
  iu_Enabled :: "bool option"
  iu_Contents :: string

record ign_file =
  if_Path :: string
  if_Source :: string
  if_Mode :: int

record ign_config =
  ig_Units :: "ign_unit list"
  ig_Directories :: "(string \<times> int) list"
  ig_Files :: "ign_file list"
  ig_Links :: "(string \<times> string) list"
  ig_Version :: string
  ig_CertificateAuthorities :: "string list"
  ig_Merge :: "string list"

definition ignition_config :: "string \<Rightarrow> string \<Rightarrow> ign_config" where
  "ignition_config apiServerHost machineConfigCA =
     \<lparr>ig_Units =
        [\<lparr>iu_Name = ''iscsi-protect-primary-route.service'', iu_Enabled = None, iu_Contents = iscsiProtectServiceUnit\<rparr>,
         \<lparr>iu_Name = ''set-hostname-oci.service'', iu_Enabled = Some True, iu_Contents = setHostnameOCIServiceUnit\<rparr>,
         \<lparr>iu_Name = ''oci-secondary-nic.service'', iu_Enabled = Some True, iu_Contents = ociSecondaryNICServiceUnit\<rparr>],
      ig_Directories = [(''/etc/oci-iscsi'', 493)],
      ig_Files =
        [\<lparr>if_Path = ''/etc/oci-iscsi/iscsi-protect-primary-route-watchdog.sh'',
          if_Source = data_url iscsiProtectPrimaryRouteScript, if_Mode = 493\<rparr>,
         \<lparr>if_Path = ''/usr/local/bin/set-hostname-oci.sh'', if_Source = data_url setHostnameOCIScript, if_Mode = 493\<rparr>,
         \<lparr>if_Path = ''/usr/local/bin/iscsi-oci-configure-secondary-nic.sh'',
          if_Source = data_url SecondaryNICScript, if_Mode = 493\<rparr>],
      ig_Links = [(''/etc/systemd/system/sysinit.target.wants/iscsi-protect-primary-route.service'',
        iscsiProtectServiceLinkTarget)],
      ig_Version = ''3.2.0'',
      ig_CertificateAuthorities = [data_url machineConfigCA],
      ig_Merge = [''https://'' @ apiServerHost @ '':22623/config/worker'']\<rparr>"

text \<open>
  The structs of ignition 3.2 with the values the operator leaves unset: a nil pointer or slice with
  \<open>omitempty\<close> is left out, a struct is written even when it is empty.
\<close>

definition omitempty :: "string \<Rightarrow> jtree list \<Rightarrow> (string \<times> jtree) list" where
  "omitempty name xs = (if xs = [] then [] else [(name, TArr xs)])"

definition Node_members :: "string \<Rightarrow> (string \<times> jtree) list" where
  "Node_members path = [(''group'', TObj []), (''path'', TStr path), (''user'', TObj [])]"

definition Resource_tree :: "string \<Rightarrow> jtree" where
  "Resource_tree source = TObj [(''source'', TStr source), (''verification'', TObj [])]"

definition Unit_tree :: "ign_unit \<Rightarrow> jtree" where
  "Unit_tree u = TObj ([(''contents'', TStr (iu_Contents u))] @
     (case iu_Enabled u of None \<Rightarrow> [] | Some b \<Rightarrow> [(''enabled'', TBool b)]) @ [(''name'', TStr (iu_Name u))])"

definition File_tree :: "ign_file \<Rightarrow> jtree" where
  "File_tree f = TObj (Node_members (if_Path f) @ [(''contents'', Resource_tree (if_Source f)), (''mode'', TInt (if_Mode f))])"

definition Directory_tree :: "string \<times> int \<Rightarrow> jtree" where
  "Directory_tree d = TObj (Node_members (fst d) @ [(''mode'', TInt (snd d))])"

definition Link_tree :: "string \<times> string \<Rightarrow> jtree" where
  "Link_tree l = TObj (Node_members (fst l) @ [(''target'', TStr (snd l))])"

definition Ignition_tree :: "ign_config \<Rightarrow> jtree" where
  "Ignition_tree c = TObj
     ([(''config'', TObj (omitempty ''merge'' (map Resource_tree (ig_Merge c)) @ [(''replace'', TObj [(''verification'', TObj [])])])),
       (''proxy'', TObj []),
       (''security'', TObj [(''tls'', TObj (omitempty ''certificateAuthorities'' (map Resource_tree (ig_CertificateAuthorities c))))]),
       (''timeouts'', TObj [])] @
      (if ig_Version c = [] then [] else [(''version'', TStr (ig_Version c))]))"

definition Config_tree :: "ign_config \<Rightarrow> jtree" where
  "Config_tree c = TObj
     [(''ignition'', Ignition_tree c),
      (''passwd'', TObj []),
      (''storage'', TObj (omitempty ''directories'' (map Directory_tree (ig_Directories c)) @
         omitempty ''files'' (map File_tree (ig_Files c)) @ omitempty ''links'' (map Link_tree (ig_Links c)))),
      (''systemd'', TObj (omitempty ''units'' (map Unit_tree (ig_Units c))))]"

text \<open>No value of these types fails to be encoded.\<close>

definition Marshal :: "ign_config \<Rightarrow> go_error + string" where
  "Marshal c = Inr (json_text (Config_tree c))"

section \<open>Generating the configuration\<close>

definition ociUserDataLimitBytes :: nat where "ociUserDataLimitBytes = 32000"
definition ociMetadataAccountingOverhead :: nat where "ociMetadataAccountingOverhead = 64"

definition api_server_host :: "string \<Rightarrow> string" where
  "api_server_host url = (case Cut (TrimPrefix url ''https://'') (CHR '':'') of (host, rest, found) \<Rightarrow> host)"

definition GenerateIgnitionConfig :: "'w server \<Rightarrow> 'w io \<Rightarrow> (go_error + string) \<times> 'w io" where
  "GenerateIgnitionConfig srv io =
     (case GetClusterAPIServerInternalURL srv io of
        (Inl e, io1) \<Rightarrow> (Inl (Wrapf ''failed to get cluster API server internal URL: '' e), io1)
      | (Inr url, io1) \<Rightarrow> (case GetMachineConfigCA srv io1 of
            (Inl e, io2) \<Rightarrow> (Inl (Wrapf ''failed to get machine config CA: '' e), io2)
          | (Inr ca, io2) \<Rightarrow> (case Marshal (ignition_config (api_server_host url) ca) of
                Inl e \<Rightarrow> (Inl (Wrapf ''failed to marshal ignition config: '' e), io2)
              | Inr bytes \<Rightarrow>
                  let ociMetadataBytes = EncodedLen (length bytes) + ociMetadataAccountingOverhead in
                  if ociMetadataBytes > ociUserDataLimitBytes then
                    (Inl (Errorf (''generated ignition metadata is '' @ show_nat ociMetadataBytes @
                       '' bytes, above OCI user_data limit '' @ show_nat ociUserDataLimitBytes @
                       ''; raw ignition bytes='' @ show_nat (length bytes))), io2)
                  else (Inr bytes, io2))))"

section \<open>Properties\<close>

lemma GenerateIgnition_read_only:
  "GenerateIgnitionConfig srv io = (r, io') \<Longrightarrow> emits (\<lambda>(q, a). read_only q) io io'"
  by (auto simp: GenerateIgnitionConfig_def Let_def split: prod.splits sum.splits if_splits
      dest!: discovery_read_only intro: emits_trans)

lemma EncodeToString_plain: "list_all htmlSafeSet (EncodeToString s)"
proof -
  have "list_all htmlSafeSet b64_alphabet" "length b64_alphabet = 64" "htmlSafeSet (CHR ''='')" by code_simp+
  then have "htmlSafeSet (b64_char n)" "htmlSafeSet (CHR ''='')" for n by (auto simp: b64_char_def list_all_length)
  then show ?thesis by (induction s rule: EncodeToString.induct) (simp_all add: Let_def)
qed

lemma plain_ascii: "list_all htmlSafeSet s \<Longrightarrow> ascii s"
  by (induction s) (auto simp: htmlSafeSet_def Let_def)

lemma data_url_plain: "list_all htmlSafeSet (data_url s)"
proof -
  have "list_all htmlSafeSet ''data:text/plain;charset=utf-8;base64,''" by code_simp
  then show ?thesis by (simp add: data_url_def EncodeToString_plain)
qed

lemma appendString_length:
  "list_all htmlSafeSet s \<Longrightarrow> length (appendString s) = length s + 2"
  by (simp add: appendString_def escape_plain)

lemma length_data_url: "length (data_url s) = 37 + EncodedLen (length s)"
  by (simp add: data_url_def EncodedLen_correct)

lemma script_lengths:
  "length setHostnameOCIScript = 443" "length iscsiProtectPrimaryRouteScript = 3322" "length SecondaryNICScript = 6301"
  by (simp_all add: setHostnameOCIScript_def iscsiProtectPrimaryRouteScript_def SecondaryNICScript_def text_lines_def)

lemma unit_lengths:
  "length (escape_text iscsiProtectServiceUnit) = 410" "length (escape_text setHostnameOCIServiceUnit) = 248"
  "length (escape_text ociSecondaryNICServiceUnit) = 351"
  by code_simp+

lemma escape_text_plain:
  "escape_text (data_url s) = data_url s"
  by (rule escape_plain [OF data_url_plain])

lemma literal_plain:
  "htmlSafeSet c \<Longrightarrow> escape_text (c # s) = c # escape_text s"
  by (simp add: htmlSafeSet_def escape_byte_def Let_def)

lemma Marshal_length:
  "length (json_text (Config_tree (ignition_config host ca))) = 15724 + length (EncodeToString ca) + length (escape_text host)"
proof -
  have e: "escape_text (host @ '':22623/config/worker'') = escape_text host @ '':22623/config/worker''"
    by (simp add: escape_append_ascii escape_byte_def htmlSafeSet_def)
  show ?thesis
    by (simp add: ignition_config_def Config_tree_def Ignition_tree_def Unit_tree_def File_tree_def Directory_tree_def Link_tree_def
      omitempty_def Node_members_def Resource_tree_def appendString_def escape_text_plain length_data_url script_lengths unit_lengths
      e escape_byte_def htmlSafeSet_def iscsiProtectServiceLinkTarget_def EncodedLen_correct EncodedLen_def show_int_def show_nat.simps)
qed

lemma ignition_limit: "EncodedLen (15724 + n) + ociMetadataAccountingOverhead > ociUserDataLimitBytes \<longleftrightarrow> n > 8228"
  unfolding EncodedLen_def ociMetadataAccountingOverhead_def ociUserDataLimitBytes_def by presburger

text \<open>The size of what is put into the user data, apart from the parts that never change.\<close>

definition variable_size :: "string \<Rightarrow> string \<Rightarrow> nat" where
  "variable_size host ca = length (EncodeToString ca) + length (escape_text host)"

lemma GenerateIgnition_outcome:
  assumes "GetClusterAPIServerInternalURL srv io = (Inr url, io1)" and "GetMachineConfigCA srv io1 = (Inr ca, io2)"
  shows "GenerateIgnitionConfig srv io =
    (let bytes = json_text (Config_tree (ignition_config (api_server_host url) ca)); n = length bytes in
     if variable_size (api_server_host url) ca \<le> 8228 then Inr bytes
     else Inl (Errorf (''generated ignition metadata is '' @ show_nat (EncodedLen n + 64) @
       '' bytes, above OCI user_data limit 32000; raw ignition bytes='' @ show_nat n)), io2)"
proof -
  have l: "15724 + EncodedLen a + b = 15724 + (EncodedLen a + b)" for a b by simp
  have d: "digit_char 0 = CHR ''0''" "digit_char 2 = CHR ''2''" "digit_char 3 = CHR ''3''" by code_simp+
  have k: "show_nat ociUserDataLimitBytes = ''32000''" by (simp add: ociUserDataLimitBytes_def show_nat.simps d)
  show ?thesis
    using assms unfolding variable_size_def EncodedLen_correct
    by (simp add: GenerateIgnitionConfig_def Marshal_def Let_def Marshal_length EncodedLen_correct l ignition_limit k)
      (simp add: ociMetadataAccountingOverhead_def)
qed

lemma fitting_size: "n \<le> 8228 \<Longrightarrow> EncodedLen (15724 + n) \<le> 31936"
  using ignition_limit [of n] by (simp add: ociMetadataAccountingOverhead_def ociUserDataLimitBytes_def)

text \<open>
  C36. Which ignition configurations fit the user data of an instance: with the scripts and units the operator
  carries, the configuration is generated exactly when the base64 text of the machine-config certificate and the
  host name of the API server have at most 8228 bytes together (a certificate bundle of about six kilobytes).
  Then it is the JSON text of the configuration, 15724 bytes longer than these two, and with its own base64
  encoding and the accounting overhead it stays within 32000 bytes. Otherwise the error names these sizes;
  the only other errors are those of the two lookups.
\<close>

theorem ignition_fits_iff:
  "case GetClusterAPIServerInternalURL srv io of
     (Inl e, io1) \<Rightarrow> GenerateIgnitionConfig srv io = (Inl (Wrapf ''failed to get cluster API server internal URL: '' e), io1)
   | (Inr url, io1) \<Rightarrow> (case GetMachineConfigCA srv io1 of
        (Inl e, io2) \<Rightarrow> GenerateIgnitionConfig srv io = (Inl (Wrapf ''failed to get machine config CA: '' e), io2)
      | (Inr ca, io2) \<Rightarrow>
          let n = variable_size (api_server_host url) ca; raw = 15724 + n in
          if n \<le> 8228 then
            \<exists>bytes. GenerateIgnitionConfig srv io = (Inr bytes, io2) \<and>
              Marshal (ignition_config (api_server_host url) ca) = Inr bytes \<and>
              length bytes = raw \<and> length (EncodeToString bytes) + 64 \<le> 32000
          else GenerateIgnitionConfig srv io = (Inl (Errorf (''generated ignition metadata is '' @
              show_nat (EncodedLen raw + 64) @ '' bytes, above OCI user_data limit 32000; raw ignition bytes='' @ show_nat raw)), io2))"
proof -
  have l: "length (json_text (Config_tree (ignition_config host ca))) = 15724 + variable_size host ca" for host ca
    by (simp add: Marshal_length variable_size_def)
  show ?thesis
    by (auto simp: GenerateIgnition_outcome Let_def l Marshal_def EncodedLen_correct fitting_size split: prod.splits sum.splits)
       (simp_all add: GenerateIgnitionConfig_def)
qed

section \<open>What a node reads\<close>

text \<open>
  Reading an ignition configuration back as the node does: the text is JSON, a data URL is decoded, and a unit
  names the program it starts in its \<open>ExecStart\<close> line.
\<close>

definition decode_data_url :: "string \<Rightarrow> string option" where
  "decode_data_url url = (let p = ''data:text/plain;charset=utf-8;base64,'' in
     if HasPrefix url p then DecodeString (TrimPrefix url p) else None)"

fun setting :: "string \<Rightarrow> string \<Rightarrow> string option" where
  "setting key [] = None"
| "setting key (c # cs) =
     (if HasPrefix (c # cs) (CHR 0x0A # key @ ''='') then
        Some (takeWhile (\<lambda>x. x \<noteq> CHR 0x0A) (drop (length key + 2) (c # cs)))
      else setting key cs)"

fun member :: "string list \<Rightarrow> jtree \<Rightarrow> jtree option" where
  "member [] t = Some t"
| "member (k # ks) (TObj fs) = Option.bind (map_of fs k) (member ks)"
| "member (k # ks) _ = None"

fun tree_text :: "jtree option \<Rightarrow> string option" where
  "tree_text (Some (TStr s)) = Some s"
| "tree_text _ = None"

fun tree_items :: "jtree option \<Rightarrow> jtree list" where
  "tree_items (Some (TArr ts)) = ts"
| "tree_items _ = []"

definition node_files :: "jtree \<Rightarrow> (string option \<times> string option \<times> jtree option) list" where
  "node_files t = map (\<lambda>f. (tree_text (member [''path''] f),
     Option.bind (tree_text (member [''contents'', ''source''] f)) decode_data_url, member [''mode''] f))
     (tree_items (member [''storage'', ''files''] t))"

definition node_authorities :: "jtree \<Rightarrow> string option list" where
  "node_authorities t = map (\<lambda>r. Option.bind (tree_text (member [''source''] r)) decode_data_url)
     (tree_items (member [''ignition'', ''security'', ''tls'', ''certificateAuthorities''] t))"

definition node_programs :: "jtree \<Rightarrow> string option list" where
  "node_programs t = map (\<lambda>u. Option.bind (tree_text (member [''contents''] u)) (setting ''ExecStart''))
     (tree_items (member [''systemd'', ''units''] t))"

lemma decode_data_url_data_url [simp]: "decode_data_url (data_url text) = Some text"
  by (simp add: decode_data_url_def data_url_def HasPrefix_def TrimPrefix_def DecodeString_encode)

lemma unit_programs:
  "setting ''ExecStart'' iscsiProtectServiceUnit = Some ''/etc/oci-iscsi/iscsi-protect-primary-route-watchdog.sh''"
  "setting ''ExecStart'' setHostnameOCIServiceUnit = Some ''/usr/local/bin/set-hostname-oci.sh''"
  "setting ''ExecStart'' ociSecondaryNICServiceUnit = Some ''/usr/local/bin/iscsi-oci-configure-secondary-nic.sh''"
  by code_simp+

lemma config_ascii:
  assumes "ascii host"
  shows "ascii_tree (Config_tree (ignition_config host ca))"
proof -
  have "ascii iscsiProtectServiceUnit" "ascii setHostnameOCIServiceUnit" "ascii ociSecondaryNICServiceUnit" by code_simp+
  with assms show ?thesis
    by (simp add: ignition_config_def Config_tree_def Ignition_tree_def Unit_tree_def File_tree_def Directory_tree_def Link_tree_def
      omitempty_def Node_members_def Resource_tree_def plain_ascii [OF data_url_plain] iscsiProtectServiceLinkTarget_def)
qed

text \<open>
  C37. Round trip of the generated ignition configuration, from the bytes that are put into the user data: for a
  host name of ASCII characters, parsing them as JSON and decoding the data URLs gives back exactly the three
  scripts and the certificate that were put in, whatever bytes these hold. The program each of the three units
  starts is one of the files, with an executable mode (octal 0755).
\<close>

theorem ignition_read_back:
  assumes "ascii host"
  shows "\<exists>bytes t. Marshal (ignition_config host ca) = Inr bytes \<and> parse_json bytes = Some t \<and>
     node_files t =
       [(Some ''/etc/oci-iscsi/iscsi-protect-primary-route-watchdog.sh'', Some iscsiProtectPrimaryRouteScript, Some (TInt 493)),
        (Some ''/usr/local/bin/set-hostname-oci.sh'', Some setHostnameOCIScript, Some (TInt 493)),
        (Some ''/usr/local/bin/iscsi-oci-configure-secondary-nic.sh'', Some SecondaryNICScript, Some (TInt 493))] \<and>
     node_authorities t = [Some ca] \<and> node_programs t = map fst (node_files t)"
proof -
  let ?t = "Config_tree (ignition_config host ca)"
  have "parse_json (json_text ?t) = Some ?t" by (rule parse_json_text [OF config_ascii [OF assms]])
  moreover note trees = ignition_config_def Config_tree_def Ignition_tree_def Unit_tree_def File_tree_def omitempty_def Node_members_def Resource_tree_def
  have files: "node_files ?t =
       [(Some ''/etc/oci-iscsi/iscsi-protect-primary-route-watchdog.sh'', Some iscsiProtectPrimaryRouteScript, Some (TInt 493)),
        (Some ''/usr/local/bin/set-hostname-oci.sh'', Some setHostnameOCIScript, Some (TInt 493)),
        (Some ''/usr/local/bin/iscsi-oci-configure-secondary-nic.sh'', Some SecondaryNICScript, Some (TInt 493))]"
    by (simp add: node_files_def trees)
  moreover have "node_authorities ?t = [Some ca]" by (simp add: node_authorities_def trees)
  moreover have "node_programs ?t = map fst (node_files ?t)"
    unfolding files by (simp add: node_programs_def trees unit_programs)
  ultimately show ?thesis by (auto simp: Marshal_def)
qed

lemma ignition_read_back_witness:
  "\<exists>bytes t. Marshal (ignition_config ''api-int.ocp.example.com'' ''pem'') = Inr bytes \<and> parse_json bytes = Some t \<and>
     length (node_files t) = 3 \<and> node_authorities t = [Some ''pem'']"
  using ignition_read_back [of "''api-int.ocp.example.com''" "''pem''"] by fastforce

end
