(* ===== verification/EnableAutoscaler.thy ===== *)
theory EnableAutoscaler
  imports Providers Ignition
begin

text \<open>
  The scaling resources (\<open>internal/components/enable_autoscaler\<close>): the Cluster API objects of the
  managed cluster and its node pool (\<open>capi.go\<close>), the bootstrap and kubeconfig secrets
  (\<open>secrets.go\<close>), the first with the ignition configuration of the theory \<open>Ignition\<close>, and the list of
  components (\<open>enable_autoscaler.go\<close>).
\<close>

section \<open>Names\<close>

definition identityName :: "string \<Rightarrow> string" where
  "identityName clusterName = clusterName @ ''-identity''"

definition autoscalingName :: "string \<Rightarrow> string" where
  "autoscalingName clusterName = clusterName @ ''-autoscaling''"

definition bootstrapSecretName :: "string \<Rightarrow> string" where
  "bootstrapSecretName clusterName = clusterName @ ''-bootstrap''"

definition poolIdentifier :: "OCIClusterAutoscaler \<Rightarrow> string" where
  "poolIdentifier i = TrimSpace (as_PoolIdentifier (spec_Autoscaling (oca_Spec i)))"

text \<open>The instance may be nil.\<close>

definition NodePoolName :: "string \<Rightarrow> OCIClusterAutoscaler option \<Rightarrow> string" where
  "NodePoolName clusterName instance0 =
     (let pool = (case instance0 of None \<Rightarrow> [] | Some i \<Rightarrow> poolIdentifier i) in
      if pool = [] then clusterName else clusterName @ ''-'' @ pool)"

definition AutoscalingResourceName :: "string \<Rightarrow> OCIClusterAutoscaler option \<Rightarrow> string" where
  "AutoscalingResourceName clusterName instance0 = autoscalingName (NodePoolName clusterName instance0)"

definition maxDNS1123LabelLength :: nat where "maxDNS1123LabelLength = 63"

definition maxNodePoolNameLength :: nat where
  "maxNodePoolNameLength = maxDNS1123LabelLength - length ''-autoscaling''"

definition validateDNS1123Label :: "string \<Rightarrow> string \<Rightarrow> check" where
  "validateDNS1123Label field value =
     (let errs = IsDNS1123Label value in
      if errs \<noteq> [] then Some (Errorf (field @ '' '' @ Quote value @ '' must be a valid DNS-1123 label: '' @ Join errs ''; ''))
      else None)"

definition ValidateNodePoolName :: "string \<Rightarrow> check" where
  "ValidateNodePoolName nodePoolName =
     (if length nodePoolName > maxNodePoolNameLength then
        Some (Errorf (''node pool name '' @ Quote nodePoolName @ '' must be at most '' @ show_nat maxNodePoolNameLength @
          '' characters so generated CAPI resource names stay within '' @ show_nat maxDNS1123LabelLength @ '' characters''))
      else validateDNS1123Label ''node pool name'' nodePoolName)"

definition validateGeneratedNodePoolNames :: "string \<Rightarrow> OCIClusterAutoscaler \<Rightarrow> check" where
  "validateGeneratedNodePoolNames clusterName instance0 =
     (let nodePoolName = NodePoolName clusterName (Some instance0) in
      first_error [ValidateNodePoolName nodePoolName,
        validateDNS1123Label ''autoscaling resource name'' (autoscalingName nodePoolName)])"

section \<open>Cluster API references\<close>

definition capiClusterAPIVersion :: string where [go_const]: "capiClusterAPIVersion = ''cluster.x-k8s.io/v1beta2''"
definition ociInfrastructureAPIVersion :: string where
  [go_const]: "ociInfrastructureAPIVersion = ''infrastructure.cluster.x-k8s.io/v1beta2''"
definition capiClusterNameLabel :: string where [go_const]: "capiClusterNameLabel = ''cluster.x-k8s.io/cluster-name''"
definition capiDeploymentNameLabel :: string where
  [go_const]: "capiDeploymentNameLabel = ''cluster.x-k8s.io/deployment-name''"

definition jmap :: "(string \<times> json) list \<Rightarrow> json" where
  "jmap kvs = JMap (fmap_of_list kvs)"

definition machineTemplateLabels :: "string \<Rightarrow> string \<Rightarrow> string \<Rightarrow> object" where
  "machineTemplateLabels instanceName clusterName nodePoolName =
     fmupd capiDeploymentNameLabel (JStr nodePoolName) (fmupd capiClusterNameLabel (JStr clusterName)
       (fmmap JStr (GetComponentLabels instanceName ''EnableAutoscaler'' ''machine'')))"

definition infrastructureRef :: "string \<Rightarrow> string \<Rightarrow> string \<Rightarrow> go_error + object" where
  "infrastructureRef apiVersion kind name =
     (case ParseGroupVersion (TrimSpace apiVersion) of
        Inl e \<Rightarrow> Inl (Wrapf (''invalid infrastructure apiVersion '' @ Quote apiVersion @ '': '') e)
      | Inr (g, v) \<Rightarrow>
          if g = [] then Inl (Errorf (''infrastructure apiVersion '' @ Quote apiVersion @ '' must include an API group''))
          else if TrimSpace kind = [] then Inl (Errorf ''infrastructureRef kind must not be empty'')
          else if TrimSpace name = [] then Inl (Errorf ''infrastructureRef name must not be empty'')
          else Inr (fmap_of_list [(''apiGroup'', JStr g), (''kind'', JStr kind), (''name'', JStr name)]))"

definition nonblank_string :: "json option \<Rightarrow> bool" where
  "nonblank_string v = (case v of Some (JStr s) \<Rightarrow> TrimSpace s \<noteq> [] | _ \<Rightarrow> False)"

definition validateCAPIInfrastructureRef :: "object \<Rightarrow> string list \<Rightarrow> check" where
  "validateCAPIInfrastructureRef obj path = (case NestedMap obj path of
      Inl e \<Rightarrow> Some (Wrapf ''failed to read infrastructureRef: '' e)
    | Inr None \<Rightarrow> Some (Errorf ''infrastructureRef is required'')
    | Inr (Some ref) \<Rightarrow> first_error
        (map (\<lambda>field. if nonblank_string (fmlookup ref field) then None
            else Some (Errorf (''infrastructureRef.'' @ field @ '' must not be empty''))) [''apiGroup'', ''kind'', ''name''] @
         [if fmlookup ref ''namespace'' \<noteq> None \<and> \<not> nonblank_string (fmlookup ref ''namespace'')
          then Some (Errorf ''infrastructureRef.namespace must not be empty when set'') else None]))"

definition cidr_block_check :: "string \<Rightarrow> nat \<times> json \<Rightarrow> check" where
  "cidr_block_check path iv = (case iv of (i, v) \<Rightarrow>
     let at = path @ ''['' @ show_nat i @ '']'' in
     (case v of
        JStr s \<Rightarrow>
          if TrimSpace s = [] then Some (Errorf (at @ '' must not be empty''))
          else (case ParseCIDR (TrimSpace s) of
              Some e \<Rightarrow> Some (Wrapf (at @ '' must be a valid CIDR: '') e)
            | None \<Rightarrow> None)
      | _ \<Rightarrow> Some (Errorf (at @ '' must be a string''))))"

definition validateCIDRBlocks :: "string \<Rightarrow> json list \<Rightarrow> check" where
  "validateCIDRBlocks path cidrBlocks = first_error (map (cidr_block_check path) (enumerate 0 cidrBlocks))"

definition cidr_list_check :: "object \<Rightarrow> string \<Rightarrow> string \<Rightarrow> check" where
  "cidr_list_check obj which what = (case NestedSlice obj [''spec'', ''clusterNetwork'', which, ''cidrBlocks''] of
      Inl e \<Rightarrow> Some (Wrapf (''failed to read cluster '' @ what @ '' CIDRs: '') e)
    | Inr None \<Rightarrow> Some (Errorf (''clusterNetwork.'' @ which @ ''.cidrBlocks must contain at least one entry''))
    | Inr (Some []) \<Rightarrow> Some (Errorf (''clusterNetwork.'' @ which @ ''.cidrBlocks must contain at least one entry''))
    | Inr (Some blocks) \<Rightarrow> validateCIDRBlocks (''clusterNetwork.'' @ which @ ''.cidrBlocks'') blocks)"

definition validateCAPIClusterObject :: "object \<Rightarrow> check" where
  "validateCAPIClusterObject obj = first_error
     [validateCAPIInfrastructureRef obj [''spec'', ''infrastructureRef''],
      cidr_list_check obj ''pods'' ''pod'', cidr_list_check obj ''services'' ''service'']"

definition required_string :: "object \<Rightarrow> string list \<Rightarrow> string \<Rightarrow> string \<Rightarrow> check" where
  "required_string obj path reading missing = (case NestedString obj path of
      Inl e \<Rightarrow> Some (Wrapf reading e)
    | Inr None \<Rightarrow> Some (Errorf missing)
    | Inr (Some s) \<Rightarrow> if TrimSpace s = [] then Some (Errorf missing) else None)"

definition validateMachineDeploymentObject :: "object \<Rightarrow> check" where
  "validateMachineDeploymentObject obj = first_error
     [validateCAPIInfrastructureRef obj [''spec'', ''template'', ''spec'', ''infrastructureRef''],
      required_string obj [''spec'', ''clusterName''] ''failed to read MachineDeployment spec.clusterName: ''
        ''spec.clusterName must not be empty'',
      required_string obj [''spec'', ''template'', ''spec'', ''bootstrap'', ''dataSecretName'']
        ''failed to read MachineDeployment bootstrap secret: ''
        ''spec.template.spec.bootstrap.dataSecretName must not be empty'']"

section \<open>Tags\<close>

definition mergeDefinedTags :: "string gomap gomap \<Rightarrow> string \<Rightarrow> string gomap \<Rightarrow> string gomap gomap" where
  "mergeDefinedTags existing namespace tags =
     fmupd namespace ((case fmlookup existing namespace of None \<Rightarrow> fmempty | Some m \<Rightarrow> m) ++\<^sub>f tags) existing"

text \<open>The required tags are one per call, so the order of the map does not matter.\<close>

definition validateDefinedTagOverrides :: "string gomap gomap \<Rightarrow> string \<Rightarrow> (string \<times> string) list \<Rightarrow> check" where
  "validateDefinedTagOverrides existing namespace required = (case fmlookup existing namespace of
      None \<Rightarrow> None
    | Some namespaceTags \<Rightarrow> first_error (map (\<lambda>(key, expectedValue). (case fmlookup namespaceTags key of
          Some currentValue \<Rightarrow>
            (if currentValue \<noteq> expectedValue
             then Some (Errorf (''defined tag '' @ namespace @ ''/'' @ key @ '' must be '' @ Quote expectedValue @
               '', found '' @ Quote currentValue)) else None)
        | None \<Rightarrow> None)) required))"

definition openshiftTagNS :: string where [go_const]: "openshiftTagNS = ''openshift-tags''"

definition bootVolumeDefinedTagNamespace :: "Config \<Rightarrow> string" where
  "bootVolumeDefinedTagNamespace config =
     (let namespace = TrimSpace (cfg_DefinedTagsNamespace (cfg_AutoScaling config)) in
      if namespace = [] then openshiftTagNS else namespace)"

section \<open>The infrastructure objects\<close>

text \<open>A mutation that may fail and sends nothing.\<close>

definition fallible_mutate :: "(kobj \<Rightarrow> go_error + kobj) \<Rightarrow> 'w mutate_fn" where
  "fallible_mutate f x io = (f x, io)"

fun mutate_OCICluster :: "string \<Rightarrow> string \<Rightarrow> OCIClusterAutoscaler \<Rightarrow> Config \<Rightarrow> bool \<Rightarrow> kobj \<Rightarrow> kobj" where
  "mutate_OCICluster capiSystemNamespace clusterName i config useInstancePrincipal (OOCICluster c) =
     (let n = cfg_Network config;
          m = SetDefaultLabels (oca_Name i) (oc_meta c);
          m = m\<lparr>md_Annotations := fmupd ''cluster.x-k8s.io/skip-apiserver-lb-management'' ''true'' fmempty ++\<^sub>f md_Annotations m\<rparr>;
          existingIdentifier = oc_OCIResourceIdentifier (oc_Spec c);
          subnets = [\<lparr>sub_ID = cfg_OCPSubnetID n, sub_Name = cfg_OCPSubnetName n, sub_Role = ''worker''\<rparr>] @
            (if cfg_BareMetalSubnetID n \<noteq> [] then
               [\<lparr>sub_ID = cfg_BareMetalSubnetID n, sub_Name = cfg_BareMetalSubnetName n, sub_Role = ''worker''\<rparr>] else []);
          nsgs = [\<lparr>sub_ID = cfg_NetworkSecurityGroupID n, sub_Name = cfg_ComputeNsgName n, sub_Role = ''worker''\<rparr>]
      in OOCICluster \<lparr>oc_meta = m, oc_Spec = \<lparr>
           oc_OCIResourceIdentifier = existingIdentifier,
           oc_IdentityRef = (if useInstancePrincipal then Some \<lparr>ref_APIVersion = ociInfrastructureAPIVersion,
             ref_Kind = ''OCIClusterIdentity'', ref_Name = identityName clusterName, ref_Namespace = capiSystemNamespace\<rparr>
             else None),
           oc_CompartmentId = cfg_CompartmentID config,
           oc_EndpointHost = cfg_ControlPlaneEndpoint n,
           oc_EndpointPort = 6443,
           oc_LoadBalancerId = cfg_APIServerLoadBalancerID n,
           oc_SkipNetworkManagement = True,
           oc_VcnID = cfg_VCNID n,
           oc_Subnets = subnets,
           oc_NSGs = nsgs\<rparr>\<rparr>)"
| "mutate_OCICluster capiSystemNamespace clusterName i config useInstancePrincipal x = x"

definition empty_OCIClusterSpec :: OCIClusterSpec where
  "empty_OCIClusterSpec = \<lparr>oc_OCIResourceIdentifier = [], oc_IdentityRef = None, oc_CompartmentId = [],
     oc_EndpointHost = [], oc_EndpointPort = 0, oc_LoadBalancerId = [], oc_SkipNetworkManagement = False,
     oc_VcnID = [], oc_Subnets = [], oc_NSGs = []\<rparr>"

definition OCICluster_of :: "string \<Rightarrow> string \<Rightarrow> OCIClusterAutoscaler \<Rightarrow> Config \<Rightarrow> bool \<Rightarrow> kobj \<times> 'w mutate_fn" where
  "OCICluster_of capiSystemNamespace clusterName i config useInstancePrincipal =
     (OOCICluster \<lparr>oc_meta = new_meta capiSystemNamespace clusterName, oc_Spec = empty_OCIClusterSpec\<rparr>,
      pure_mutate (mutate_OCICluster capiSystemNamespace clusterName i config useInstancePrincipal))"

fun mutate_OCIClusterIdentity :: "string \<Rightarrow> OCIClusterAutoscaler \<Rightarrow> kobj \<Rightarrow> kobj" where
  "mutate_OCIClusterIdentity capiSystemNamespace i (OOCIClusterIdentity x) = OOCIClusterIdentity
     \<lparr>oci_meta = SetDefaultLabels (oca_Name i) (oci_meta x), oci_Type = ''InstancePrincipal'',
      oci_AllowedNamespaces = [capiSystemNamespace]\<rparr>"
| "mutate_OCIClusterIdentity capiSystemNamespace i x = x"

definition OCIClusterIdentity_of :: "string \<Rightarrow> string \<Rightarrow> OCIClusterAutoscaler \<Rightarrow> kobj \<times> 'w mutate_fn" where
  "OCIClusterIdentity_of capiSystemNamespace clusterName i =
     (OOCIClusterIdentity \<lparr>oci_meta = new_meta capiSystemNamespace (identityName clusterName), oci_Type = [],
        oci_AllowedNamespaces = []\<rparr>,
      pure_mutate (mutate_OCIClusterIdentity capiSystemNamespace i))"

text \<open>An untyped object with its type and name set.\<close>

definition new_unstructured :: "string \<Rightarrow> string \<Rightarrow> string \<Rightarrow> object" where
  "new_unstructured kind namespace name = fmap_of_list [(''apiVersion'', JStr capiClusterAPIVersion), (''kind'', JStr kind),
     (''metadata'', jmap [(''name'', JStr name), (''namespace'', JStr namespace)])]"

fun mutate_unstructured :: "(object \<Rightarrow> go_error + object) \<Rightarrow> kobj \<Rightarrow> go_error + kobj" where
  "mutate_unstructured f (OUnstructured u) = (case f u of Inl e \<Rightarrow> Inl e | Inr u' \<Rightarrow> Inr (OUnstructured u'))"
| "mutate_unstructured f x = Inr x"

definition render_CAPICluster :: "string \<Rightarrow> OCIClusterAutoscaler \<Rightarrow> Config \<Rightarrow> object \<Rightarrow> go_error + object" where
  "render_CAPICluster clusterName i config cluster0 =
     (let cluster = SetDefaultLabels_u (oca_Name i) cluster0 in
      case infrastructureRef ociInfrastructureAPIVersion ''OCICluster'' clusterName of
        Inl e \<Rightarrow> Inl e
      | Inr infraRef \<Rightarrow>
          let cluster' = fmupd ''spec'' (jmap
                [(''clusterNetwork'', jmap
                    [(''pods'', jmap [(''cidrBlocks'', JList [JStr (cfg_ClusterNetworkCIDRBlock (cfg_Network config))])]),
                     (''serviceDomain'', JStr ''cluster.local''),
                     (''services'', jmap [(''cidrBlocks'', JList [JStr (cfg_ServiceNetworkCIDRBlock (cfg_Network config))])])]),
                 (''infrastructureRef'', JMap infraRef)]) cluster
          in (case validateCAPIClusterObject cluster' of
                Some e \<Rightarrow> Inl (Wrapf ''invalid rendered Cluster object: '' e)
              | None \<Rightarrow> Inr cluster'))"

definition CAPICluster :: "string \<Rightarrow> string \<Rightarrow> OCIClusterAutoscaler \<Rightarrow> Config \<Rightarrow> kobj \<times> 'w mutate_fn" where
  "CAPICluster capiSystemNamespace clusterName i config =
     (OUnstructured (new_unstructured ''Cluster'' capiSystemNamespace clusterName),
      fallible_mutate (mutate_unstructured (render_CAPICluster clusterName i config)))"

section \<open>The machine template\<close>

definition ResolveSubnetNamesForShape :: "string \<Rightarrow> string \<Rightarrow> string \<Rightarrow> string \<times> string" where
  "ResolveSubnetNamesForShape shape ocpSubnetName bareMetalSubnetName =
     (if IsBareMetalShape shape then (bareMetalSubnetName, ocpSubnetName) else (ocpSubnetName, []))"

definition bm_subnet_checks :: "string \<Rightarrow> string \<Rightarrow> string \<Rightarrow> string \<Rightarrow> string \<Rightarrow> check list" where
  "bm_subnet_checks ocpID bmID ocpName bmName secondaryName =
     [if ocpID \<noteq> [] \<and> bmID \<noteq> [] \<and> ocpID = bmID then Some (Errorf ''bare metal subnet must differ from primary subnet'') else None,
      if ocpName \<noteq> [] \<and> bmName \<noteq> [] \<and> ocpName = bmName then Some (Errorf ''bare metal subnet must differ from primary subnet'') else None,
      if bmID = [] then Some (Errorf ''bare metal subnet ID must not be empty for BM shapes'') else None,
      if bmName = [] then Some (Errorf ''bare metal subnet name must not be empty for BM shapes'') else None,
      if secondaryName = [] then Some (Errorf ''bare metal secondary VNIC subnet name must not be empty for BM shapes'') else None]"

definition machine_spec_common :: "string \<Rightarrow> OCIClusterAutoscaler \<Rightarrow> Config \<Rightarrow> string gomap gomap \<Rightarrow> string \<Rightarrow> OCIMachineSpec" where
  "machine_spec_common clusterName i config existingDefinedTags primarySubnetName =
     \<lparr>ms_ImageId = cfg_ImageID (cfg_AutoScaling config), ms_Shape = cfg_Shape (cfg_AutoScaling config),
      ms_Ocpus = [], ms_MemoryInGBs = [], ms_IsPvEncryptionInTransitEnabled = False,
      ms_SubnetName = primarySubnetName, ms_AssignPrivateDnsRecord = Some True,
      ms_FreeformTags =
        (let tags = fmap_of_list [(OCIInstanceManagedByTag, oca_Name i), (OCIInstanceAutoscalerNamespaceTag, oca_Namespace i),
           (OCIInstanceAutoscalerClusterNameTag, clusterName)]
         in if poolIdentifier i \<noteq> [] then fmupd OCIInstanceAutoscalerPoolTag (poolIdentifier i) tags else tags),
      ms_DefinedTags = existingDefinedTags, ms_BootVolumeType = None, ms_VnicAttachments = [],
      ms_ComputeClusterId = None, ms_AgentPlugins = None\<rparr>"

definition machine_spec_BM :: "Config \<Rightarrow> string \<Rightarrow> OCIMachineSpec \<Rightarrow> OCIMachineSpec" where
  "machine_spec_BM config secondaryVnicSubnetName spec =
     (let a = cfg_AutoScaling config in
      spec\<lparr>ms_DefinedTags := mergeDefinedTags
             (mergeDefinedTags (ms_DefinedTags spec) openshiftTagNS
               (fmupd ''openshift-resource'' ''openshift-resource-infra'' fmempty))
             (bootVolumeDefinedTagNamespace config) (fmupd ''boot-volume-type'' ''ISCSI'' fmempty),
           ms_BootVolumeType := Some ''ISCSI'',
           ms_VnicAttachments := [\<lparr>va_SubnetName = secondaryVnicSubnetName, va_AssignPublicIp = False,
             va_DisplayName = ''vnic_ocp'', va_NicIndex = Some 1\<rparr>],
           ms_ComputeClusterId := (if cfg_EnableRDMA a then Some (cfg_RDMAComputeClusterID a) else ms_ComputeClusterId spec),
           ms_AgentPlugins := (if cfg_EnableRDMA a then Some [(''Compute HPC RDMA Authentication'', ''ENABLED'')]
             else ms_AgentPlugins spec)\<rparr>)"

definition render_machine_spec ::
    "string \<Rightarrow> OCIClusterAutoscaler \<Rightarrow> Config \<Rightarrow> OCIMachineSpec \<Rightarrow> go_error + OCIMachineSpec" where
  "render_machine_spec clusterName i config existing =
     (let a = cfg_AutoScaling config; n = cfg_Network config;
          isBM = IsBareMetalShape (cfg_Shape a);
          ocpSubnetID = TrimSpace (cfg_OCPSubnetID n); ocpSubnetName = TrimSpace (cfg_OCPSubnetName n);
          bareMetalSubnetID = (if isBM then TrimSpace (cfg_BareMetalSubnetID n) else []);
          bareMetalSubnetName = (if isBM then TrimSpace (cfg_BareMetalSubnetName n) else []);
          (primary, secondary) = ResolveSubnetNamesForShape (cfg_Shape a) ocpSubnetName bareMetalSubnetName;
          spec = machine_spec_common clusterName i config (ms_DefinedTags existing) primary
      in if isBM then
           (case first_error (bm_subnet_checks ocpSubnetID bareMetalSubnetID ocpSubnetName bareMetalSubnetName secondary @
               [validateDefinedTagOverrides (ms_DefinedTags spec) openshiftTagNS
                  [(''openshift-resource'', ''openshift-resource-infra'')],
                validateDefinedTagOverrides (ms_DefinedTags spec) (bootVolumeDefinedTagNamespace config)
                  [(''boot-volume-type'', ''ISCSI'')]]) of
              Some e \<Rightarrow> Inl e
            | None \<Rightarrow> Inr (machine_spec_BM config secondary spec))
         else Inr (spec\<lparr>ms_Ocpus := show_int (sint (cfg_CPUs a)), ms_MemoryInGBs := show_int (sint (cfg_Memory a))\<rparr>))"

fun mutate_OCIMachineTemplate :: "string \<Rightarrow> OCIClusterAutoscaler \<Rightarrow> Config \<Rightarrow> kobj \<Rightarrow> go_error + kobj" where
  "mutate_OCIMachineTemplate clusterName i config (OOCIMachineTemplate t) =
     (case validateGeneratedNodePoolNames clusterName i of
        Some e \<Rightarrow> Inl e
      | None \<Rightarrow> (case render_machine_spec clusterName i config (mt_Spec t) of
            Inl e \<Rightarrow> Inl e
          | Inr spec \<Rightarrow> Inr (OOCIMachineTemplate
              \<lparr>mt_meta = SetComponentLabels (oca_Name i) ''EnableAutoscaler'' ''machineTemplate'' (mt_meta t), mt_Spec = spec\<rparr>)))"
| "mutate_OCIMachineTemplate clusterName i config x = Inr x"

definition empty_OCIMachineSpec :: OCIMachineSpec where
  "empty_OCIMachineSpec = \<lparr>ms_ImageId = [], ms_Shape = [], ms_Ocpus = [], ms_MemoryInGBs = [],
     ms_IsPvEncryptionInTransitEnabled = False, ms_SubnetName = [], ms_AssignPrivateDnsRecord = None,
     ms_FreeformTags = fmempty, ms_DefinedTags = fmempty, ms_BootVolumeType = None, ms_VnicAttachments = [],
     ms_ComputeClusterId = None, ms_AgentPlugins = None\<rparr>"

definition OCIMachineTemplate_of :: "string \<Rightarrow> string \<Rightarrow> OCIClusterAutoscaler \<Rightarrow> Config \<Rightarrow> kobj \<times> 'w mutate_fn" where
  "OCIMachineTemplate_of capiSystemNamespace clusterName i config =
     (OOCIMachineTemplate \<lparr>mt_meta = new_meta capiSystemNamespace (autoscalingName (NodePoolName clusterName (Some i))),
        mt_Spec = empty_OCIMachineSpec\<rparr>,
      fallible_mutate (mutate_OCIMachineTemplate clusterName i config))"

definition summarizeVnicAttachments :: "VnicAttachment list \<Rightarrow> (nat \<times> string \<times> int option) list" where
  "summarizeVnicAttachments attachments =
     map (\<lambda>(i, a). (i, va_SubnetName a, va_NicIndex a)) (enumerate 0 attachments)"


section \<open>The machine deployment\<close>

definition machine_annotations :: "Config \<Rightarrow> string gomap \<Rightarrow> string gomap" where
  "machine_annotations config annotations =
     (let a = cfg_AutoScaling config in
      fmupd ''cluster.x-k8s.io/cluster-api-autoscaler-node-group-max-size'' (show_int (sint (cfg_MaxNodes a)))
      (fmupd ''cluster.x-k8s.io/cluster-api-autoscaler-node-group-min-size'' (show_int (sint (cfg_MinNodes a)))
      (fmupd ''capacity.cluster-autoscaler.kubernetes.io/memory'' (show_int (sint (cfg_Memory a)) @ ''G'')
      (fmupd ''capacity.cluster-autoscaler.kubernetes.io/labels'' ''node-role.kubernetes.io/worker=''
      (fmupd ''capacity.cluster-autoscaler.kubernetes.io/cpu'' (show_int (sint (cfg_CPUs a))) annotations)))))"

text \<open>The replica count is only set when the deployment has none; the autoscaler owns it afterwards.\<close>

definition initial_spec :: "Config \<Rightarrow> object \<Rightarrow> go_error + object" where
  "initial_spec config md = (case NestedMap md [''spec''] of
      Inl e \<Rightarrow> Inl (Wrapf ''failed to read existing MachineDeployment spec: '' e)
    | Inr None \<Rightarrow> Inr (fmupd ''replicas'' (JInt (sint (cfg_MinNodes (cfg_AutoScaling config)))) fmempty)
    | Inr (Some spec) \<Rightarrow> (case NestedInt64 spec [''replicas''] of
          Inl e \<Rightarrow> Inl (Wrapf ''failed to read existing MachineDeployment spec.replicas: '' e)
        | Inr None \<Rightarrow> Inr (fmupd ''replicas'' (JInt (sint (cfg_MinNodes (cfg_AutoScaling config)))) spec)
        | Inr (Some r) \<Rightarrow> Inr spec))"

definition machine_selector :: "string \<Rightarrow> string \<Rightarrow> json" where
  "machine_selector clusterName nodePoolName = jmap [(''matchLabels'',
     jmap [(capiClusterNameLabel, JStr clusterName), (capiDeploymentNameLabel, JStr nodePoolName)])]"

definition machine_template_spec :: "string \<Rightarrow> object \<Rightarrow> Config \<Rightarrow> object" where
  "machine_template_spec clusterName infraRef config =
     (let m = fmap_of_list [(''clusterName'', JStr clusterName),
            (''bootstrap'', jmap [(''dataSecretName'', JStr (bootstrapSecretName clusterName))]),
            (''infrastructureRef'', JMap infraRef)]
      in if cfg_EnableRDMA (cfg_AutoScaling config)
         then fmupd ''failureDomain'' (JStr (cfg_RDMAFailureDomain (cfg_AutoScaling config))) m else m)"

definition bm_rollout :: json where
  "bm_rollout = jmap [(''strategy'', jmap [(''type'', JStr ''RollingUpdate''),
     (''rollingUpdate'', jmap [(''maxSurge'', JInt 0), (''maxUnavailable'', JInt 1)])])]"

definition machine_deployment_spec ::
    "string \<Rightarrow> string \<Rightarrow> OCIClusterAutoscaler \<Rightarrow> Config \<Rightarrow> object \<Rightarrow> object \<Rightarrow> object" where
  "machine_deployment_spec clusterName nodePoolName i config infraRef spec =
     (let spec1 = fmupd ''template'' (jmap
            [(''metadata'', jmap [(''labels'', JMap (machineTemplateLabels (oca_Name i) clusterName nodePoolName))]),
             (''spec'', JMap (machine_template_spec clusterName infraRef config))])
            (fmupd ''selector'' (machine_selector clusterName nodePoolName) (fmupd ''clusterName'' (JStr clusterName) spec))
      in if IsBareMetalShape (cfg_Shape (cfg_AutoScaling config)) then fmupd ''rollout'' bm_rollout spec1
         else fmdrop ''rollout'' spec1)"

definition render_MachineDeployment ::
    "string \<Rightarrow> OCIClusterAutoscaler \<Rightarrow> Config \<Rightarrow> object \<Rightarrow> go_error + object" where
  "render_MachineDeployment clusterName i config md0 =
     (let nodePoolName = NodePoolName clusterName (Some i) in
      case validateGeneratedNodePoolNames clusterName i of
        Some e \<Rightarrow> Inl e
      | None \<Rightarrow>
          let md1 = SetDefaultLabels_u (oca_Name i) md0 in
          case infrastructureRef ociInfrastructureAPIVersion ''OCIMachineTemplate'' (autoscalingName nodePoolName) of
            Inl e \<Rightarrow> Inl e
          | Inr infraRef \<Rightarrow>
              let md2 = SetAnnotations md1 (Some (machine_annotations config (GetAnnotations md1))) in
              case initial_spec config md2 of
                Inl e \<Rightarrow> Inl e
              | Inr spec \<Rightarrow>
                  let md3 = fmupd ''spec'' (JMap (machine_deployment_spec clusterName nodePoolName i config infraRef spec)) md2
                  in (case validateMachineDeploymentObject md3 of
                        Some e \<Rightarrow> Inl (Wrapf ''invalid rendered MachineDeployment object: '' e)
                      | None \<Rightarrow> Inr md3))"

definition MachineDeployment :: "string \<Rightarrow> string \<Rightarrow> OCIClusterAutoscaler \<Rightarrow> Config \<Rightarrow> kobj \<times> 'w mutate_fn" where
  "MachineDeployment capiSystemNamespace clusterName i config =
     (OUnstructured (new_unstructured ''MachineDeployment'' capiSystemNamespace (NodePoolName clusterName (Some i))),
      fallible_mutate (mutate_unstructured (render_MachineDeployment clusterName i config)))"

section \<open>The health check\<close>

definition unhealthy_condition :: "string \<Rightarrow> json" where
  "unhealthy_condition status =
     jmap [(''type'', JStr ''Ready''), (''status'', JStr status), (''timeoutSeconds'', JInt 300)]"

definition render_MachineHealthCheck ::
    "string \<Rightarrow> OCIClusterAutoscaler \<Rightarrow> Config \<Rightarrow> object \<Rightarrow> go_error + object" where
  "render_MachineHealthCheck clusterName i config mhc =
     (case validateGeneratedNodePoolNames clusterName i of
        Some e \<Rightarrow> Inl e
      | None \<Rightarrow>
          let timeout = (if IsBareMetalShape (cfg_Shape (cfg_AutoScaling config)) then 1200 else 600) in
          Inr (fmupd ''spec'' (jmap
            [(''clusterName'', JStr clusterName),
             (''selector'', machine_selector clusterName (NodePoolName clusterName (Some i))),
             (''checks'', jmap [(''nodeStartupTimeoutSeconds'', JInt timeout),
                (''unhealthyNodeConditions'', JList [unhealthy_condition ''Unknown'', unhealthy_condition ''False''])]),
             (''remediation'', jmap [(''triggerIf'', jmap [(''unhealthyLessThanOrEqualTo'', JStr ''100%'')])])])
            (SetDefaultLabels_u (oca_Name i) mhc)))"

definition MachineHealthCheck :: "string \<Rightarrow> string \<Rightarrow> OCIClusterAutoscaler \<Rightarrow> Config \<Rightarrow> kobj \<times> 'w mutate_fn" where
  "MachineHealthCheck capiSystemNamespace clusterName i config =
     (OUnstructured (new_unstructured ''MachineHealthCheck'' capiSystemNamespace
        (autoscalingName (NodePoolName clusterName (Some i)))),
      fallible_mutate (mutate_unstructured (render_MachineHealthCheck clusterName i config)))"

section \<open>Secrets\<close>

fun mutate_bootstrap :: "'w server \<Rightarrow> OCIClusterAutoscaler \<Rightarrow> 'w mutate_fn" where
  "mutate_bootstrap srv i (OSecret s) io =
     (case GenerateIgnitionConfig srv io of
        (Inl e, io') \<Rightarrow> (Inl (Wrapf ''failed to generate ignition config: '' e), io')
      | (Inr cfg, io') \<Rightarrow> (Inr (OSecret (s\<lparr>sec_meta := SetDefaultLabels (oca_Name i) (sec_meta s),
          sec_Data := fmap_of_list [(''value'', cfg), (''format'', ''ignition'')]\<rparr>)), io'))"
| "mutate_bootstrap srv i x io = (Inr x, io)"

definition BootstrapConfigSecret ::
    "'w server \<Rightarrow> string \<Rightarrow> string \<Rightarrow> OCIClusterAutoscaler \<Rightarrow> kobj \<times> 'w mutate_fn" where
  "BootstrapConfigSecret srv secretNamespace clusterName i =
     (OSecret \<lparr>sec_meta = new_meta secretNamespace (clusterName @ ''-bootstrap''), sec_Data = fmempty\<rparr>,
      mutate_bootstrap srv i)"

definition nl :: string where "nl = [CHR 0x0A]"

definition kubeconfig :: "string \<Rightarrow> string \<Rightarrow> string \<Rightarrow> string \<Rightarrow> string \<Rightarrow> string" where
  "kubeconfig clusterName caCrt serviceAccount contextNamespace token =
     ''apiVersion: v1'' @ nl @ ''kind: Config'' @ nl @ ''clusters:'' @ nl @ ''- name: '' @ clusterName @ nl @
     ''  cluster:'' @ nl @ ''    server: https://kubernetes.default.svc'' @ nl @
     ''    certificate-authority-data: '' @ EncodeToString caCrt @ nl @ ''contexts:'' @ nl @
     ''- name: '' @ clusterName @ nl @ ''  context:'' @ nl @ ''    cluster: '' @ clusterName @ nl @
     ''    user: '' @ serviceAccount @ nl @ ''    namespace: '' @ contextNamespace @ nl @
     ''current-context: '' @ clusterName @ nl @ ''users:'' @ nl @ ''- name: '' @ serviceAccount @ nl @
     ''  user:'' @ nl @ ''    token: '' @ token @ nl"

fun resp_token :: "response \<Rightarrow> string option" where
  "resp_token (RespToken t) = Some t"
| "resp_token _ = None"

fun mutate_kubeconfig ::
    "'w server \<Rightarrow> string \<Rightarrow> string \<Rightarrow> string \<Rightarrow> string \<Rightarrow> OCIClusterAutoscaler \<Rightarrow> 'w mutate_fn" where
  "mutate_kubeconfig srv contextNamespace tokenServiceAccountNamespace clusterName serviceAccount i (OSecret s) io =
     (case request_as srv resp_token (ReqToken \<lparr>nn_Namespace = tokenServiceAccountNamespace, nn_Name = serviceAccount\<rparr>
         [''https://kubernetes.default.svc''] (24 * 60 * 60)) io of
        (Inl e, io1) \<Rightarrow> (Inl (Wrapf ''failed to create service account token request: '' e), io1)
      | (Inr token, io1) \<Rightarrow>
          if token = [] then (Inl (Errorf ''service account token request returned an empty token''), io1)
          else (case GetKubeconfigCA srv io1 of
              (Inl e, io2) \<Rightarrow> (Inl (Wrapf ''failed to get kubeconfig CA: '' e), io2)
            | (Inr caCrt, io2) \<Rightarrow>
                let m = SetDefaultLabels (oca_Name i) (sec_meta s) in
                (Inr (OSecret (s\<lparr>
                   sec_meta := m\<lparr>md_Labels := fmupd ''clusterctl.cluster.x-k8s.io/move'' []
                     (fmupd ''cluster.x-k8s.io/cluster-name'' clusterName (md_Labels m))\<rparr>,
                   sec_Data := fmap_of_list
                     [(''value'', kubeconfig clusterName caCrt serviceAccount contextNamespace token)]\<rparr>)), io2)))"
| "mutate_kubeconfig srv contextNamespace tokenServiceAccountNamespace clusterName serviceAccount i x io = (Inr x, io)"

definition KubeConfigSecret ::
    "'w server \<Rightarrow> string \<Rightarrow> string \<Rightarrow> string \<Rightarrow> string \<Rightarrow> string \<Rightarrow> OCIClusterAutoscaler \<Rightarrow> kobj \<times> 'w mutate_fn" where
  "KubeConfigSecret srv secretNamespace contextNamespace tokenServiceAccountNamespace clusterName serviceAccount i =
     (OSecret \<lparr>sec_meta = new_meta secretNamespace (clusterName @ ''-kubeconfig''), sec_Data = fmempty\<rparr>,
      mutate_kubeconfig srv contextNamespace tokenServiceAccountNamespace clusterName serviceAccount i)"

section \<open>The component list\<close>

definition ManagedResourceNamespace_of :: "string \<Rightarrow> OCIClusterAutoscaler \<Rightarrow> kobj \<times> 'w mutate_fn" where
  "ManagedResourceNamespace_of namespaceName i =
     (ONamespace (new_meta [] namespaceName), pure_mutate (label_namespace i))"

definition GetComponents_enable ::
    "'w server \<Rightarrow> string \<Rightarrow> string \<Rightarrow> string \<Rightarrow> string \<Rightarrow> OCIClusterAutoscaler \<Rightarrow> Config \<Rightarrow> bool \<Rightarrow> 'w Component" where
  "GetComponents_enable srv managedResourceNamespace tokenServiceAccountNamespace clusterName capiServiceAccountName
     i config useInstancePrincipal =
     \<lparr>comp_InstanceName = oca_Name i, comp_Name = ''EnableAutoscaler'', comp_Subcomponents =
       [subcomponent ''managedResourceNamespace'' (ManagedResourceNamespace_of managedResourceNamespace i),
        subcomponent ''bootstrapConfigSecret'' (BootstrapConfigSecret srv managedResourceNamespace clusterName i),
        subcomponent ''kubeConfigSecret'' (KubeConfigSecret srv managedResourceNamespace managedResourceNamespace
          tokenServiceAccountNamespace clusterName capiServiceAccountName i),
        subcomponent ''machineTemplate'' (OCIMachineTemplate_of managedResourceNamespace clusterName i config),
        subcomponent ''machineDeployment'' (MachineDeployment managedResourceNamespace clusterName i config),
        subcomponent ''machineHealthCheck'' (MachineHealthCheck managedResourceNamespace clusterName i config),
        subcomponent ''ociCluster'' (OCICluster_of managedResourceNamespace clusterName i config useInstancePrincipal),
        subcomponent ''cluster'' (CAPICluster managedResourceNamespace clusterName i config)] @
       (if useInstancePrincipal then
          [subcomponent ''ociClusterIdentity'' (OCIClusterIdentity_of managedResourceNamespace clusterName i)] else [])\<rparr>"


section \<open>Every mutation is polite\<close>

lemma polite_fallible [simp]: "polite (fallible_mutate f)"
  by (simp add: polite_def fallible_mutate_def)

lemma emits_reads_provisioning:
  "emits (\<lambda>(q, a). read_only q) io io' \<Longrightarrow> emits (\<lambda>(q, a). provisioning q) io io'"
  by (erule emits_mono) (auto dest: read_only_provisioning)

lemma polite_bootstrap: "polite (mutate_bootstrap srv i)"
  unfolding polite_def
proof (intro allI impI)
  fix x io r io'
  assume "mutate_bootstrap srv i x io = (r, io')"
  then show "emits (\<lambda>(q, a). provisioning q) io io'"
    by (cases x) (auto split: prod.splits sum.splits dest!: GenerateIgnition_read_only intro: emits_reads_provisioning)
qed

lemma token_emits:
  "request_as srv resp_token (ReqToken n a t) io = (y, io1) \<Longrightarrow> emits (\<lambda>(q, a). provisioning q) io io1"
  by (rule emits_request_as) auto

lemma polite_kubeconfig: "polite (mutate_kubeconfig srv a b c d i)"
  unfolding polite_def
proof (intro allI impI)
  fix x io r io'
  assume m: "mutate_kubeconfig srv a b c d i x io = (r, io')"
  have ca: "emits (\<lambda>(q, a). provisioning q) io1 io2" if "GetKubeconfigCA srv io1 = (y, io2)" for y io1 io2
    using discovery_read_only(5) [OF that] by (rule emits_reads_provisioning)
  from m show "emits (\<lambda>(q, a). provisioning q) io io'"
    by (cases x) (auto simp: Let_def split: prod.splits sum.splits if_splits dest!: token_emits ca intro: emits_trans)
qed

lemma polite_subcomponent: "polite (snd x) \<Longrightarrow> polite_sub (subcomponent n x)"
  by (simp add: polite_sub_def subcomponent_def)

lemma polite_components:
  "list_all polite_sub (comp_Subcomponents (GetComponents_enable srv a b c d i cfg ip))"
  "list_all polite_sub (comp_Subcomponents (GetComponents_capi a b c d i h))"
  "list_all polite_sub (comp_Subcomponents (GetComponents_capoci a i auth))"
  by (auto simp: GetComponents_enable_def GetComponents_capi_def GetComponents_capoci_def
      ManagedResourceNamespace_of_def BootstrapConfigSecret_def KubeConfigSecret_def OCIMachineTemplate_of_def
      MachineDeployment_def MachineHealthCheck_def OCICluster_of_def CAPICluster_def OCIClusterIdentity_of_def
      SecurityContextConstraints_of_def CAPINamespace_def Namespace_capoci_def AuthConfigSecret_def
      intro!: polite_subcomponent polite_bootstrap polite_kubeconfig)

section \<open>Names\<close>

lemma validateDNS1123Label_None: "validateDNS1123Label f v = None \<longleftrightarrow> dns_label v"
  by (auto simp: validateDNS1123Label_def Let_def IsDNS1123Label_Nil)

lemma maxNodePool [simp]: "maxNodePoolNameLength = 51"
  by (simp add: maxNodePoolNameLength_def maxDNS1123LabelLength_def)

lemma ValidateNodePoolName_None: "ValidateNodePoolName n = None \<longleftrightarrow> dns1123LabelRegexp n \<and> length n \<le> 51"
  by (auto simp: ValidateNodePoolName_def validateDNS1123Label_None dns_label_def)

lemma autoscalingName_label: "dns1123LabelRegexp n \<Longrightarrow> length n \<le> 51 \<Longrightarrow> dns_label (autoscalingName n)"
  unfolding dns_label_def autoscalingName_def
  by (auto intro!: dns1123_append simp: label_byte_def lower_alnum_def)

lemma pool_names_None:
  "validateGeneratedNodePoolNames c i = None \<longleftrightarrow>
     dns1123LabelRegexp (NodePoolName c (Some i)) \<and> length (NodePoolName c (Some i)) \<le> 51"
  by (auto simp: validateGeneratedNodePoolNames_def Let_def first_error_None ValidateNodePoolName_None
      validateDNS1123Label_None autoscalingName_label)

section \<open>The rendered cluster\<close>

lemma oci_group: "ParseGroupVersion (TrimSpace ociInfrastructureAPIVersion) = Inr (''infrastructure.cluster.x-k8s.io'', ''v1beta2'')"
proof -
  have "TrimSpace ociInfrastructureAPIVersion = ociInfrastructureAPIVersion"
    by (rule TrimSpace_inner) (simp add: go_const inner_byte_def)
  moreover have "ociInfrastructureAPIVersion = ''infrastructure.cluster.x-k8s.io'' @ CHR ''/'' # ''v1beta2''"
    by (simp add: go_const)
  moreover have "ParseGroupVersion (''infrastructure.cluster.x-k8s.io'' @ CHR ''/'' # ''v1beta2'') =
      Inr (''infrastructure.cluster.x-k8s.io'', ''v1beta2'')"
    by (rule ParseGroupVersion_slash) simp_all
  ultimately show ?thesis by simp
qed

lemma trim_kinds: "TrimSpace ''OCICluster'' \<noteq> []" "TrimSpace ''OCIMachineTemplate'' \<noteq> []"
    "TrimSpace ''infrastructure.cluster.x-k8s.io'' \<noteq> []"
proof -
  have "TrimSpace s = s" if "s \<in> {''OCICluster'', ''OCIMachineTemplate'', ''infrastructure.cluster.x-k8s.io''}" for s
    using that by (intro TrimSpace_inner) (auto simp: inner_byte_def)
  then show "TrimSpace ''OCICluster'' \<noteq> []" "TrimSpace ''OCIMachineTemplate'' \<noteq> []"
    "TrimSpace ''infrastructure.cluster.x-k8s.io'' \<noteq> []" by auto
qed

definition oci_ref :: "string \<Rightarrow> string \<Rightarrow> object" where
  "oci_ref kind name = fmap_of_list [(''apiGroup'', JStr ''infrastructure.cluster.x-k8s.io''), (''kind'', JStr kind), (''name'', JStr name)]"

lemma infrastructureRef_eq:
  "TrimSpace kind \<noteq> [] \<Longrightarrow> infrastructureRef ociInfrastructureAPIVersion kind name =
   (if TrimSpace name = [] then Inl (Errorf ''infrastructureRef name must not be empty'') else Inr (oci_ref kind name))"
  unfolding infrastructureRef_def oci_group by (simp add: oci_ref_def)

lemma ref_check_None:
  assumes "NestedField u p = Inr (Some (JMap (oci_ref kind name)))" and "TrimSpace kind \<noteq> []" and "TrimSpace name \<noteq> []"
  shows "validateCAPIInfrastructureRef u p = None"
  using assms trim_kinds
  by (simp add: validateCAPIInfrastructureRef_def NestedMap_def nested_typed_def first_error_None nonblank_string_def
      oci_ref_def fmlookup_of_list)

definition cidr_ok :: "string \<Rightarrow> bool" where
  "cidr_ok s \<longleftrightarrow> ParseCIDR (TrimSpace s) = None"

lemma cidr_list_check_None:
  assumes "NestedField u [''spec'', ''clusterNetwork'', w, ''cidrBlocks''] = Inr (Some (JList [JStr s]))"
  shows "cidr_list_check u w x = None \<longleftrightarrow> cidr_ok s"
  using assms
  by (auto simp: cidr_list_check_def NestedSlice_def nested_typed_def validateCIDRBlocks_def cidr_block_check_def Let_def
      first_error_None cidr_ok_def split: option.splits)

lemma render_CAPICluster_iff:
  "(\<exists>u'. render_CAPICluster clusterName i config u = Inr u') \<longleftrightarrow>
     TrimSpace clusterName \<noteq> [] \<and> cidr_ok (cfg_ClusterNetworkCIDRBlock (cfg_Network config)) \<and>
     cidr_ok (cfg_ServiceNetworkCIDRBlock (cfg_Network config))"
proof (cases "TrimSpace clusterName = []")
  case True
  then show ?thesis by (simp add: render_CAPICluster_def Let_def infrastructureRef_eq trim_kinds)
next
  case False
  let ?u = "fmupd ''spec'' (jmap
      [(''clusterNetwork'', jmap
          [(''pods'', jmap [(''cidrBlocks'', JList [JStr (cfg_ClusterNetworkCIDRBlock (cfg_Network config))])]),
           (''serviceDomain'', JStr ''cluster.local''),
           (''services'', jmap [(''cidrBlocks'', JList [JStr (cfg_ServiceNetworkCIDRBlock (cfg_Network config))])])]),
       (''infrastructureRef'', JMap (oci_ref ''OCICluster'' clusterName))]) (SetDefaultLabels_u (oca_Name i) u)"
  have r: "render_CAPICluster clusterName i config u = (case validateCAPIClusterObject ?u of
      Some e \<Rightarrow> Inl (Wrapf ''invalid rendered Cluster object: '' e) | None \<Rightarrow> Inr ?u)"
    using False by (simp add: render_CAPICluster_def Let_def infrastructureRef_eq trim_kinds)
  have "validateCAPIInfrastructureRef ?u [''spec'', ''infrastructureRef''] = None"
    by (rule ref_check_None [where kind = "''OCICluster''" and name = clusterName])
      (use False trim_kinds in \<open>simp_all add: NestedField_def jmap_def fmlookup_of_list\<close>)
  moreover have "cidr_list_check ?u ''pods'' ''pod'' = None \<longleftrightarrow> cidr_ok (cfg_ClusterNetworkCIDRBlock (cfg_Network config))"
    by (rule cidr_list_check_None) (simp add: NestedField_def jmap_def fmlookup_of_list)
  moreover have "cidr_list_check ?u ''services'' ''service'' = None \<longleftrightarrow> cidr_ok (cfg_ServiceNetworkCIDRBlock (cfg_Network config))"
    by (rule cidr_list_check_None) (simp add: NestedField_def jmap_def fmlookup_of_list)
  ultimately have "validateCAPIClusterObject ?u = None \<longleftrightarrow>
      cidr_ok (cfg_ClusterNetworkCIDRBlock (cfg_Network config)) \<and> cidr_ok (cfg_ServiceNetworkCIDRBlock (cfg_Network config))"
    by (simp add: validateCAPIClusterObject_def first_error_None)
  with r False show ?thesis by (auto split: option.splits)
qed


section \<open>Tags\<close>

lemma merge_tags_keep:
  assumes "fmlookup e ns = Some m" and "fmlookup m k = Some v" and "ns = n \<Longrightarrow> k = k0 \<Longrightarrow> v = v0"
  shows "\<exists>m'. fmlookup (mergeDefinedTags e n (fmupd k0 v0 fmempty)) ns = Some m' \<and> fmlookup m' k = Some v"
  using assms by (auto simp: mergeDefinedTags_def)

lemma overrides_None:
  "validateDefinedTagOverrides e n [(k0, v0)] = None \<Longrightarrow> fmlookup e n = Some m \<Longrightarrow> fmlookup m k0 = Some v \<Longrightarrow> v = v0"
  by (auto simp: validateDefinedTagOverrides_def first_error_None split: if_splits)

section \<open>Properties\<close>

text \<open>
  C35. Names of the node pool: validation accepts exactly the pool names that are RFC 1123 labels of at
  most 51 bytes, and for these the longest generated name, with the suffix \<open>-autoscaling\<close>, is a
  valid label too, so the second check of the source never rejects what the first accepted.
\<close>

theorem node_pool_names_fit:
  "let pool = NodePoolName clusterName (Some i) in
   (validateGeneratedNodePoolNames clusterName i = None \<longleftrightarrow> dns1123LabelRegexp pool \<and> length pool \<le> 51) \<and>
   (validateGeneratedNodePoolNames clusterName i = ValidateNodePoolName pool) \<and>
   (validateGeneratedNodePoolNames clusterName i = None \<longleftrightarrow>
      ValidateNodePoolName pool = None \<and> dns_label (AutoscalingResourceName clusterName (Some i)))"
proof -
  let ?p = "NodePoolName clusterName (Some i)"
  have "validateGeneratedNodePoolNames clusterName i = ValidateNodePoolName ?p"
  proof (cases "ValidateNodePoolName ?p")
    case None
    then have "validateGeneratedNodePoolNames clusterName i = None"
      by (simp only: pool_names_None ValidateNodePoolName_None)
    with None show ?thesis by simp
  next
    case (Some e)
    then show ?thesis by (simp add: validateGeneratedNodePoolNames_def Let_def first_error.simps)
  qed
  moreover have "ValidateNodePoolName ?p = None \<Longrightarrow> dns_label (AutoscalingResourceName clusterName (Some i))"
    by (auto simp: ValidateNodePoolName_None AutoscalingResourceName_def autoscalingName_label)
  ultimately show ?thesis by (auto simp: Let_def ValidateNodePoolName_None)
qed

text \<open>
  C38. The machine template's network follows the shape: a rendered bare-metal machine has its primary
  interface in the bare-metal subnet and exactly one secondary interface, in the different OpenShift
  subnet, boots by iSCSI and is tagged so; any other machine is in the OpenShift subnet, has no
  secondary interface and the configured size. Defined tags that were on the template are kept.
\<close>

theorem machine_spec_network:
  assumes "render_machine_spec clusterName i config old = Inr spec"
  shows "let n = cfg_Network config; a = cfg_AutoScaling config;
       ocp = TrimSpace (cfg_OCPSubnetName n); bm = TrimSpace (cfg_BareMetalSubnetName n) in
    (if IsBareMetalShape (cfg_Shape a)
     then ms_SubnetName spec = bm \<and> map va_SubnetName (ms_VnicAttachments spec) = [ocp] \<and> bm \<noteq> ocp \<and> bm \<noteq> [] \<and>
       ms_BootVolumeType spec = Some ''ISCSI'' \<and>
       (\<exists>t. fmlookup (ms_DefinedTags spec) (bootVolumeDefinedTagNamespace config) = Some t \<and>
          fmlookup t ''boot-volume-type'' = Some ''ISCSI'')
     else ms_SubnetName spec = ocp \<and> ms_VnicAttachments spec = [] \<and> ms_Ocpus spec = show_int (sint (cfg_CPUs a)) \<and>
       ms_MemoryInGBs spec = show_int (sint (cfg_Memory a))) \<and>
    (\<forall>ns m k v. fmlookup (ms_DefinedTags old) ns = Some m \<and> fmlookup m k = Some v \<longrightarrow>
       (\<exists>m'. fmlookup (ms_DefinedTags spec) ns = Some m' \<and> fmlookup m' k = Some v))"
proof (cases "IsBareMetalShape (cfg_Shape (cfg_AutoScaling config))")
  case False
  then have "spec = (machine_spec_common clusterName i config (ms_DefinedTags old) (TrimSpace (cfg_OCPSubnetName (cfg_Network config))))
      \<lparr>ms_Ocpus := show_int (sint (cfg_CPUs (cfg_AutoScaling config))), ms_MemoryInGBs := show_int (sint (cfg_Memory (cfg_AutoScaling config)))\<rparr>"
    using assms by (simp add: render_machine_spec_def Let_def ResolveSubnetNamesForShape_def)
  with False show ?thesis by (simp add: Let_def machine_spec_common_def)
next
  case True
  let ?n = "cfg_Network config" and ?b = "bootVolumeDefinedTagNamespace config"
  let ?ocp = "TrimSpace (cfg_OCPSubnetName ?n)" and ?bm = "TrimSpace (cfg_BareMetalSubnetName ?n)"
  let ?s = "machine_spec_common clusterName i config (ms_DefinedTags old) ?bm"
  from assms True have spec: "spec = machine_spec_BM config ?ocp ?s"
    and checks: "list_all (\<lambda>c. c = None)
        (bm_subnet_checks (TrimSpace (cfg_OCPSubnetID ?n)) (TrimSpace (cfg_BareMetalSubnetID ?n)) ?ocp ?bm ?ocp)"
    and tags: "validateDefinedTagOverrides (ms_DefinedTags old) openshiftTagNS [(''openshift-resource'', ''openshift-resource-infra'')] = None"
      "validateDefinedTagOverrides (ms_DefinedTags old) ?b [(''boot-volume-type'', ''ISCSI'')] = None"
    by (auto simp: render_machine_spec_def Let_def ResolveSubnetNamesForShape_def first_error_None list_all_iff
        machine_spec_common_def split: option.splits)
  from checks have ne: "?bm \<noteq> ?ocp" "?bm \<noteq> []" by (auto simp: bm_subnet_checks_def split: if_splits)
  have keep: "\<exists>m'. fmlookup (ms_DefinedTags spec) ns = Some m' \<and> fmlookup m' k = Some v"
    if "fmlookup (ms_DefinedTags old) ns = Some m" "fmlookup m k = Some v" for ns m k v
  proof -
    let ?e = "mergeDefinedTags (ms_DefinedTags old) openshiftTagNS (fmupd ''openshift-resource'' ''openshift-resource-infra'' fmempty)"
    have "\<exists>m'. fmlookup ?e ns = Some m' \<and> fmlookup m' k = Some v"
      using that by (rule merge_tags_keep) (use that tags(1) overrides_None in blast)
    then obtain m1 where "fmlookup ?e ns = Some m1" "fmlookup m1 k = Some v" by blast
    then have "\<exists>m'. fmlookup (mergeDefinedTags ?e ?b (fmupd ''boot-volume-type'' ''ISCSI'' fmempty)) ns = Some m' \<and>
        fmlookup m' k = Some v"
      by (rule merge_tags_keep) (use that tags(2) overrides_None in blast)
    then show ?thesis by (simp add: spec machine_spec_BM_def machine_spec_common_def Let_def)
  qed
  have iscsi: "\<exists>t. fmlookup (ms_DefinedTags spec) ?b = Some t \<and> fmlookup t ''boot-volume-type'' = Some ''ISCSI''"
    by (simp add: spec machine_spec_BM_def Let_def mergeDefinedTags_def)
  have "ms_SubnetName spec = ?bm" "map va_SubnetName (ms_VnicAttachments spec) = [?ocp]" "ms_BootVolumeType spec = Some ''ISCSI''"
    by (simp_all add: spec machine_spec_BM_def machine_spec_common_def Let_def)
  with True ne keep iscsi show ?thesis by (simp only: Let_def if_True) blast
qed

theorem machine_spec_network_witness:
  "\<exists>spec. render_machine_spec ''c'' (sample_autoscaler ''n'' ''x'' 1 []) (sample_config []) empty_OCIMachineSpec = Inr spec \<and>
     ms_SubnetName spec = ''p'' \<and> ms_VnicAttachments spec = []"
proof -
  have s: "cfg_Shape (cfg_AutoScaling (sample_config [])) = ''oc3''" "cfg_OCPSubnetName (cfg_Network (sample_config [])) = ''p''"
    by (simp_all add: sample_config_def)
  have nb: "\<not> IsBareMetalShape ''oc3''"
    by (simp add: IsBareMetalShape_def sample_trim Let_def ToUpper_def upper_byte_def HasPrefix_def)
  have "\<exists>spec. render_machine_spec ''c'' (sample_autoscaler ''n'' ''x'' 1 []) (sample_config []) empty_OCIMachineSpec = Inr spec"
    using nb by (simp add: render_machine_spec_def Let_def s ResolveSubnetNamesForShape_def)
  then obtain spec where r: "render_machine_spec ''c'' (sample_autoscaler ''n'' ''x'' 1 []) (sample_config []) empty_OCIMachineSpec = Inr spec"
    by blast
  from machine_spec_network [OF this] nb r s show ?thesis by (simp add: Let_def sample_trim)
qed

text \<open>
  The Cluster object is rendered exactly when both network blocks parse as CIDR blocks and the cluster
  has a name. In particular a configuration with an empty block never renders, so an operator that
  relies on discovery of the blocks cannot reconcile the scaling resources.
\<close>

theorem render_CAPICluster_needs_blocks:
  "(\<exists>u'. render_CAPICluster clusterName i config u = Inr u') \<longleftrightarrow>
     TrimSpace clusterName \<noteq> [] \<and> ParseCIDR (TrimSpace (cfg_ClusterNetworkCIDRBlock (cfg_Network config))) = None \<and>
     ParseCIDR (TrimSpace (cfg_ServiceNetworkCIDRBlock (cfg_Network config))) = None"
  using render_CAPICluster_iff unfolding cidr_ok_def .

lemma oci_ref_name: "fmlookup (oci_ref k n) ''name'' = Some (JStr n)"
  by (simp add: oci_ref_def fmlookup_of_list)

lemma machine_deployment_spec_lookup:
  "fmlookup (machine_deployment_spec c p i config ref old) ''replicas'' = fmlookup old ''replicas''"
  "fmlookup (machine_deployment_spec c p i config ref old) ''clusterName'' = Some (JStr c)"
  "fmlookup (machine_deployment_spec c p i config ref old) ''selector'' = Some (machine_selector c p)"
  "fmlookup (machine_deployment_spec c p i config ref old) ''template'' = Some (jmap
     [(''metadata'', jmap [(''labels'', JMap (machineTemplateLabels (oca_Name i) c p))]),
      (''spec'', JMap (machine_template_spec c ref config))])"
  by (simp_all add: machine_deployment_spec_def Let_def)

lemma machine_template_spec_lookup:
  "fmlookup (machine_template_spec c ref config) ''infrastructureRef'' = Some (JMap ref)"
  "fmlookup (machine_template_spec c ref config) ''bootstrap'' = Some (jmap [(''dataSecretName'', JStr (bootstrapSecretName c))])"
  by (simp_all add: machine_template_spec_def Let_def fmlookup_of_list)

text \<open>The check of the rendered deployment only guards against blank names.\<close>

lemma rendered_deployment_valid:
  assumes "TrimSpace c \<noteq> []" "TrimSpace nm \<noteq> []" "TrimSpace (bootstrapSecretName c) \<noteq> []"
  shows "validateMachineDeploymentObject
    (fmupd ''spec'' (JMap (machine_deployment_spec c p i config (oci_ref ''OCIMachineTemplate'' nm) old)) u) = None"
proof -
  let ?u = "fmupd ''spec'' (JMap (machine_deployment_spec c p i config (oci_ref ''OCIMachineTemplate'' nm) old)) u"
  have "validateCAPIInfrastructureRef ?u [''spec'', ''template'', ''spec'', ''infrastructureRef''] = None"
    by (rule ref_check_None [where kind = "''OCIMachineTemplate''" and name = nm])
      (use assms trim_kinds in \<open>simp_all add: NestedField_def machine_deployment_spec_lookup jmap_def fmlookup_of_list
        machine_template_spec_lookup\<close>)
  moreover have "required_string ?u [''spec'', ''clusterName''] a b = None" for a b
    using assms by (simp add: required_string_def NestedString_def nested_typed_def NestedField_def machine_deployment_spec_lookup)
  moreover have "required_string ?u [''spec'', ''template'', ''spec'', ''bootstrap'', ''dataSecretName''] a b = None" for a b
    using assms by (simp add: required_string_def NestedString_def nested_typed_def NestedField_def
        machine_deployment_spec_lookup jmap_def fmlookup_of_list machine_template_spec_lookup)
  ultimately show ?thesis by (simp add: validateMachineDeploymentObject_def first_error_None)
qed

lemma spec_untouched:
  "fmlookup (SetAnnotations (SetDefaultLabels_u n u) a) ''spec'' = fmlookup u ''spec''"
proof -
  have "NestedField (SetAnnotations (SetDefaultLabels_u n u) a) [''spec''] = NestedField u [''spec'']"
    by (simp add: SetAnnotations_def SetDefaultLabels_u_def SetLabels_def set_meta_apart)
  then show ?thesis by (simp add: NestedField_def split: option.splits)
qed

lemma initial_spec_replicas:
  assumes "initial_spec config md = Inr spec"
  shows "fmlookup spec ''replicas'' = (case fmlookup md ''spec'' of
      Some (JMap old) \<Rightarrow> (case fmlookup old ''replicas'' of None \<Rightarrow> Some (JInt (sint (cfg_MinNodes (cfg_AutoScaling config))))
        | Some r \<Rightarrow> Some r)
    | _ \<Rightarrow> Some (JInt (sint (cfg_MinNodes (cfg_AutoScaling config)))))"
  using assms
  by (auto simp: initial_spec_def NestedMap_def NestedInt64_def nested_typed_def NestedField_def
      split: sum.splits option.splits json.splits)

lemma render_MachineDeployment_spec:
  assumes "render_MachineDeployment clusterName i config md = Inr md'"
  obtains old where
    "fmlookup md' ''spec'' = Some (JMap (machine_deployment_spec clusterName (NodePoolName clusterName (Some i)) i config
       (oci_ref ''OCIMachineTemplate'' (autoscalingName (NodePoolName clusterName (Some i)))) old))"
    and "fmlookup old ''replicas'' = (case fmlookup md ''spec'' of
      Some (JMap old) \<Rightarrow> (case fmlookup old ''replicas'' of None \<Rightarrow> Some (JInt (sint (cfg_MinNodes (cfg_AutoScaling config))))
        | Some r \<Rightarrow> Some r)
    | _ \<Rightarrow> Some (JInt (sint (cfg_MinNodes (cfg_AutoScaling config)))))"
proof -
  let ?p = "NodePoolName clusterName (Some i)"
  let ?md1 = "SetDefaultLabels_u (oca_Name i) md"
  let ?md2 = "SetAnnotations ?md1 (Some (machine_annotations config (GetAnnotations ?md1)))"
  from assms obtain ref spec where
    r: "infrastructureRef ociInfrastructureAPIVersion ''OCIMachineTemplate'' (autoscalingName ?p) = Inr ref"
    and sp: "initial_spec config ?md2 = Inr spec"
    and md': "md' = fmupd ''spec'' (JMap (machine_deployment_spec clusterName ?p i config ref spec)) ?md2"
    by (auto simp: render_MachineDeployment_def Let_def split: option.splits sum.splits)
  from r have "ref = oci_ref ''OCIMachineTemplate'' (autoscalingName ?p)"
    by (simp add: infrastructureRef_eq trim_kinds split: if_splits)
  with md' initial_spec_replicas [OF sp] show ?thesis by (intro that [of spec]) (simp_all add: spec_untouched)
qed

text \<open>
  C39. The rendered machine deployment leaves the replica count to the cluster autoscaler: it is the stored
  one if there is one and the minimum otherwise. Its selector's labels are on its machines, and its
  machines refer to the rendered machine template and bootstrap secret.
\<close>

theorem machine_deployment_rendered:
  assumes "render_MachineDeployment clusterName i config md = Inr md'"
  shows "let pool = NodePoolName clusterName (Some i); get = NestedField md' in
    get [''spec'', ''replicas''] = Inr (case fmlookup md ''spec'' of
        Some (JMap old) \<Rightarrow> (case fmlookup old ''replicas'' of None \<Rightarrow> Some (JInt (sint (cfg_MinNodes (cfg_AutoScaling config))))
          | Some r \<Rightarrow> Some r)
      | _ \<Rightarrow> Some (JInt (sint (cfg_MinNodes (cfg_AutoScaling config))))) \<and>
    get [''spec'', ''selector'', ''matchLabels'', capiClusterNameLabel] = Inr (Some (JStr clusterName)) \<and>
    get [''spec'', ''template'', ''metadata'', ''labels'', capiClusterNameLabel] = Inr (Some (JStr clusterName)) \<and>
    get [''spec'', ''selector'', ''matchLabels'', capiDeploymentNameLabel] = Inr (Some (JStr pool)) \<and>
    get [''spec'', ''template'', ''metadata'', ''labels'', capiDeploymentNameLabel] = Inr (Some (JStr pool)) \<and>
    get [''spec'', ''template'', ''spec'', ''infrastructureRef'', ''name''] =
      Inr (Some (JStr (AutoscalingResourceName clusterName (Some i)))) \<and>
    get [''spec'', ''template'', ''spec'', ''bootstrap'', ''dataSecretName''] = Inr (Some (JStr (clusterName @ ''-bootstrap'')))"
proof -
  let ?p = "NodePoolName clusterName (Some i)"
  obtain old where s: "fmlookup md' ''spec'' = Some (JMap (machine_deployment_spec clusterName ?p i config
       (oci_ref ''OCIMachineTemplate'' (autoscalingName ?p)) old))"
    and r: "fmlookup old ''replicas'' = (case fmlookup md ''spec'' of
      Some (JMap old) \<Rightarrow> (case fmlookup old ''replicas'' of None \<Rightarrow> Some (JInt (sint (cfg_MinNodes (cfg_AutoScaling config))))
        | Some r \<Rightarrow> Some r)
    | _ \<Rightarrow> Some (JInt (sint (cfg_MinNodes (cfg_AutoScaling config)))))"
    using render_MachineDeployment_spec [OF assms] by blast
  have ne: "capiClusterNameLabel \<noteq> capiDeploymentNameLabel" by (simp add: go_const)
  note d = NestedField_def s machine_deployment_spec_lookup machine_template_spec_lookup jmap_def fmlookup_of_list
  have "NestedField md' [''spec'', ''selector'', ''matchLabels'', capiClusterNameLabel] = Inr (Some (JStr clusterName))"
    "NestedField md' [''spec'', ''selector'', ''matchLabels'', capiDeploymentNameLabel] = Inr (Some (JStr ?p))"
    "NestedField md' [''spec'', ''template'', ''metadata'', ''labels'', capiClusterNameLabel] = Inr (Some (JStr clusterName))"
    "NestedField md' [''spec'', ''template'', ''metadata'', ''labels'', capiDeploymentNameLabel] = Inr (Some (JStr ?p))"
    using ne by (simp_all add: d machine_selector_def machineTemplateLabels_def)
  moreover have "NestedField md' [''spec'', ''replicas''] = Inr (fmlookup old ''replicas'')"
    by (simp add: d split: option.split)
  moreover have "NestedField md' [''spec'', ''template'', ''spec'', ''infrastructureRef'', ''name''] = Inr (Some (JStr (autoscalingName ?p)))"
    "NestedField md' [''spec'', ''template'', ''spec'', ''bootstrap'', ''dataSecretName''] = Inr (Some (JStr (clusterName @ ''-bootstrap'')))"
    by (simp_all add: d oci_ref_name bootstrapSecretName_def)
  ultimately show ?thesis unfolding Let_def AutoscalingResourceName_def r [symmetric] by blast
qed

theorem machine_deployment_rendered_witness:
  "\<exists>md'. render_MachineDeployment ''c'' (sample_autoscaler ''n'' ''x'' 1 []) (sample_config []) fmempty = Inr md' \<and>
     NestedField md' [''spec'', ''replicas''] = Inr (Some (JInt 1))"
proof -
  let ?i = "sample_autoscaler ''n'' ''x'' 1 []"
  have pool: "NodePoolName ''c'' (Some ?i) = ''c''"
    by (simp add: NodePoolName_def poolIdentifier_def sample_autoscaler_def)
  have v: "validateGeneratedNodePoolNames ''c'' ?i = None"
    by (simp add: pool_names_None pool dns1123LabelRegexp_def lower_alnum_def label_byte_def)
  have t: "TrimSpace (autoscalingName ''c'') \<noteq> []" "TrimSpace (bootstrapSecretName ''c'') \<noteq> []"
    by (simp_all add: autoscalingName_def bootstrapSecretName_def TrimSpace_inner inner_byte_def)
  let ?md2 = "SetAnnotations (SetDefaultLabels_u (oca_Name ?i) fmempty)
      (Some (machine_annotations (sample_config []) (GetAnnotations (SetDefaultLabels_u (oca_Name ?i) fmempty))))"
  have sp: "initial_spec (sample_config []) ?md2 = Inr (fmupd ''replicas'' (JInt 1) fmempty)"
    by (simp add: initial_spec_def NestedMap_def nested_typed_def NestedField_def spec_untouched) (simp add: sample_config_def)
  have "\<exists>md'. render_MachineDeployment ''c'' ?i (sample_config []) fmempty = Inr md'"
    using t rendered_deployment_valid [OF _ t]
    by (simp add: render_MachineDeployment_def v Let_def pool infrastructureRef_eq trim_kinds sp sample_trim)
  then obtain md' where m: "render_MachineDeployment ''c'' ?i (sample_config []) fmempty = Inr md'" by blast
  from machine_deployment_rendered [OF this] m show ?thesis
    by (simp add: Let_def) (simp add: sample_config_def)
qed

end
