(* ===== verification/AutoscalerChart.thy ===== *)
theory AutoscalerChart
  imports Providers
begin

text \<open>
  The cluster-autoscaler Helm release (\<open>internal/components/autoscaler\<close>, \<open>internal/utils/helm.go\<close>):
  chart values, installation, upgrade and removal, and the extra RBAC objects. Helm is a service
  reached through requests; YAML conversion is a parameter.
\<close>

section \<open>Values\<close>

record AutoscalerDeploymentValues =
  dv_CloudProvider :: string
  dv_Name :: string
  dv_Namespace :: string
  dv_AutoDiscoveryNamespace :: string
  dv_ServiceAccountName :: string
  dv_CreateRBAC :: bool
  dv_CreateServiceAccount :: bool
  dv_RepositoryURL :: string
  dv_Chart :: string
  dv_Version :: string
  dv_ScanInterval :: string

definition newline :: string where "newline = [CHR 0x0A]"

definition GetValuesString :: "AutoscalerDeploymentValues \<Rightarrow> string" where
  "GetValuesString v =
     (let scanInterval = (if dv_ScanInterval v = [] then ''60s'' else dv_ScanInterval v);
          autoDiscoveryNamespace = (if dv_AutoDiscoveryNamespace v = [] then dv_Namespace v else dv_AutoDiscoveryNamespace v)
      in newline @ ''cloudProvider: '' @ dv_CloudProvider v @ newline @
         ''fullnameOverride: '' @ dv_Name v @ newline @
         ''autoDiscovery:'' @ newline @ ''  namespace: '' @ autoDiscoveryNamespace @ newline @
         ''extraArgs:'' @ newline @ ''  scan-interval: '' @ scanInterval @ newline @
         ''  max-node-provision-time: 30m'' @ newline @
         ''rbac:'' @ newline @ ''  create: '' @ show_bool (dv_CreateRBAC v) @ newline @
         ''  serviceAccount:'' @ newline @ ''    create: '' @ show_bool (dv_CreateServiceAccount v) @ newline @
         ''    name: '' @ dv_ServiceAccountName v)"

definition GetAutoscalerDeploymentValues ::
    "AutoscalerDeploymentValues \<Rightarrow> OCIClusterAutoscaler \<Rightarrow> AutoscalerDeploymentValues" where
  "GetAutoscalerDeploymentValues v i =
     (let c = spec_ClusterAutoscaler (oca_Spec i) in
      v\<lparr>dv_CloudProvider := override_str (ca_CloudProvider c) (dv_CloudProvider v),
        dv_Name := override_str (ca_Name c) (dv_Name v),
        dv_ServiceAccountName := override_str (ca_ServiceAccountName c) (dv_ServiceAccountName v),
        dv_CreateRBAC := override (ca_CreateRBAC c) (dv_CreateRBAC v),
        dv_CreateServiceAccount := override (ca_CreateServiceAccount c) (dv_CreateServiceAccount v),
        dv_RepositoryURL := override_str (ca_RepositoryURL c) (dv_RepositoryURL v),
        dv_Version := override_str (ca_Version c) (dv_Version v)\<rparr>)"

section \<open>Helm\<close>

fun resp_chart :: "response \<Rightarrow> bool option" where
  "resp_chart (RespChart b) = Some b"
| "resp_chart _ = None"

fun resp_release :: "response \<Rightarrow> string option option option" where
  "resp_release (RespRelease r) = Some r"
| "resp_release _ = None"

fun resp_values :: "response \<Rightarrow> object option" where
  "resp_values (RespValues v) = Some v"
| "resp_values _ = None"

definition not_found_text :: "go_error \<Rightarrow> bool" where
  "not_found_text e = Contains (Error e) ''not found''"

definition GetHelmClient :: "'w server \<Rightarrow> string \<Rightarrow> 'w io \<Rightarrow> check \<times> 'w io" where
  "GetHelmClient srv namespace io = (case request_as srv resp_unit (ReqHelm (HelmNewClient namespace)) io of
      (Inl e, io') \<Rightarrow> (Some (Wrapf ''error creating helm client: '' e), io')
    | (Inr u, io') \<Rightarrow> (None, io'))"

definition ChartExists :: "'w server \<Rightarrow> string \<Rightarrow> 'w io \<Rightarrow> (go_error + bool) \<times> 'w io" where
  "ChartExists srv name io = (case request_as srv resp_chart (ReqHelm (HelmGetChart name)) io of
      (Inl e, io') \<Rightarrow> (if not_found_text e then Inr False else Inl (Wrapf ''error getting chart: '' e), io')
    | (Inr b, io') \<Rightarrow> (Inr b, io'))"

definition AddChartRepo :: "'w server \<Rightarrow> string \<Rightarrow> string \<Rightarrow> 'w io \<Rightarrow> check \<times> 'w io" where
  "AddChartRepo srv name url io = (case request_as srv resp_unit (ReqHelm (HelmAddRepo name url)) io of
      (Inl e, io') \<Rightarrow> (Some (Wrapf ''error adding chart repo: '' e), io')
    | (Inr u, io') \<Rightarrow> (None, io'))"

definition ReleaseExists :: "'w server \<Rightarrow> string \<Rightarrow> 'w io \<Rightarrow> (go_error + bool) \<times> 'w io" where
  "ReleaseExists srv name io = (case request_as srv resp_release (ReqHelm (HelmGetRelease name)) io of
      (Inl e, io') \<Rightarrow> (Inl (Wrapf ''error getting release: '' e), io')
    | (Inr r, io') \<Rightarrow> (Inr (r \<noteq> None), io'))"

definition InstallHelmChart :: "'w server \<Rightarrow> helm_chart_spec \<Rightarrow> 'w io \<Rightarrow> check \<times> 'w io" where
  "InstallHelmChart srv chartSpec io = (case request_as srv resp_unit (ReqHelm (HelmInstall chartSpec)) io of
      (Inl e, io') \<Rightarrow> (Some (Wrapf ''error installing chart: '' e), io')
    | (Inr u, io') \<Rightarrow> (None, io'))"

definition RemoveHelmChart :: "'w server \<Rightarrow> helm_chart_spec \<Rightarrow> 'w io \<Rightarrow> check \<times> 'w io" where
  "RemoveHelmChart srv chartSpec io = (case request_as srv resp_unit (ReqHelm (HelmUninstall chartSpec)) io of
      (Inl e, io') \<Rightarrow> (Some (Wrapf ''error removing chart: '' e), io')
    | (Inr u, io') \<Rightarrow> (None, io'))"

section \<open>Comparing releases\<close>

record yaml_lib =
  yaml_Marshal :: "object \<Rightarrow> go_error + string"
  yaml_Unmarshal :: "string \<Rightarrow> go_error + object"

definition normalizeHelmValues :: "yaml_lib \<Rightarrow> object \<Rightarrow> go_error + object" where
  "normalizeHelmValues y values = (case yaml_Marshal y values of
      Inl e \<Rightarrow> Inl e
    | Inr data \<Rightarrow> yaml_Unmarshal y data)"

definition helmReleaseMatchesDesired ::
    "yaml_lib \<Rightarrow> string \<Rightarrow> object \<Rightarrow> AutoscalerDeploymentValues \<Rightarrow> string \<Rightarrow> go_error + bool" where
  "helmReleaseMatchesDesired y currentChartVersion currentValues values desiredValuesYAML =
     (if currentChartVersion \<noteq> dv_Version values then Inr False
      else case yaml_Unmarshal y desiredValuesYAML of
        Inl e \<Rightarrow> Inl e
      | Inr desiredValues \<Rightarrow> (case normalizeHelmValues y currentValues of
            Inl e \<Rightarrow> Inl e
          | Inr c \<Rightarrow> (case normalizeHelmValues y desiredValues of
                Inl e \<Rightarrow> Inl e
              | Inr d \<Rightarrow> Inr (c = d))))"

definition autoscalerReleaseUpToDate ::
    "'w server \<Rightarrow> yaml_lib \<Rightarrow> AutoscalerDeploymentValues \<Rightarrow> string \<Rightarrow> 'w io \<Rightarrow> (go_error + bool) \<times> 'w io" where
  "autoscalerReleaseUpToDate srv y values desiredValuesYAML io =
     (case request_as srv resp_release (ReqHelm (HelmGetRelease (dv_Name values))) io of
        (Inl e, io1) \<Rightarrow> (Inl e, io1)
      | (Inr None, io1) \<Rightarrow> (Inr False, io1)
      | (Inr (Some None), io1) \<Rightarrow> (Inr False, io1)
      | (Inr (Some (Some version)), io1) \<Rightarrow>
          (case request_as srv resp_values (ReqHelm (HelmGetReleaseValues (dv_Name values))) io1 of
             (Inl e, io2) \<Rightarrow> (Inl e, io2)
           | (Inr currentValues, io2) \<Rightarrow>
               (helmReleaseMatchesDesired y version currentValues values desiredValuesYAML, io2)))"

section \<open>Install and remove\<close>

definition autoscaler_chart_spec :: "OCIClusterAutoscaler \<Rightarrow> AutoscalerDeploymentValues \<Rightarrow> helm_chart_spec" where
  "autoscaler_chart_spec i values =
     \<lparr>hc_ReleaseName = dv_Name values, hc_ChartName = dv_Chart values, hc_Namespace = dv_Namespace values,
      hc_ValuesYaml = GetValuesString values, hc_Version = dv_Version values,
      hc_Labels = GetComponentLabels (oca_Name i) ''Autoscaler'' ''helmRelease''\<rparr>"

definition ensure_repo :: "'w server \<Rightarrow> AutoscalerDeploymentValues \<Rightarrow> 'w io \<Rightarrow> check \<times> 'w io" where
  "ensure_repo srv values io = (case ChartExists srv (dv_Chart values) io of
      (Inl e, io') \<Rightarrow> (Some e, io')
    | (Inr True, io') \<Rightarrow> (None, io')
    | (Inr False, io') \<Rightarrow> AddChartRepo srv (dv_Name values) (dv_RepositoryURL values) io')"

text \<open>Whether the release exists, treating a lookup error that mentions "not found" as no.\<close>

definition release_lookup :: "'w server \<Rightarrow> string \<Rightarrow> 'w io \<Rightarrow> (go_error + bool) \<times> 'w io" where
  "release_lookup srv name io = (case ReleaseExists srv name io of
      (Inl e, io') \<Rightarrow> (if not_found_text e then Inr False else Inl e, io')
    | (Inr b, io') \<Rightarrow> (Inr b, io'))"

definition InstallAutoscaler ::
    "'w server \<Rightarrow> yaml_lib \<Rightarrow> OCIClusterAutoscaler \<Rightarrow> AutoscalerDeploymentValues \<Rightarrow> 'w io \<Rightarrow> check \<times> 'w io" where
  "InstallAutoscaler srv y i values io =
     (let chartSpec = autoscaler_chart_spec i values in
      case GetHelmClient srv (dv_Namespace values) io of
        (Some e, io1) \<Rightarrow> (Some e, io1)
      | (None, io1) \<Rightarrow> (case ensure_repo srv values io1 of
            (Some e, io2) \<Rightarrow> (Some e, io2)
          | (None, io2) \<Rightarrow> (case release_lookup srv (dv_Name values) io2 of
                (Inl e, io3) \<Rightarrow> (Some e, io3)
              | (Inr False, io3) \<Rightarrow> InstallHelmChart srv chartSpec io3
              | (Inr True, io3) \<Rightarrow>
                  (case autoscalerReleaseUpToDate srv y values (GetValuesString values) io3 of
                     (Inr True, io4) \<Rightarrow> (None, io4)
                   | (_, io4) \<Rightarrow> (case request_as srv resp_unit (ReqHelm (HelmUpgrade chartSpec)) io4 of
                         (Inl e, io5) \<Rightarrow> (Some e, io5)
                       | (Inr u, io5) \<Rightarrow> (None, io5))))))"

definition RemoveAutoscaler :: "'w server \<Rightarrow> AutoscalerDeploymentValues \<Rightarrow> 'w io \<Rightarrow> check \<times> 'w io" where
  "RemoveAutoscaler srv values io =
     (case GetHelmClient srv (dv_Namespace values) io of
        (Some e, io1) \<Rightarrow> (Some e, io1)
      | (None, io1) \<Rightarrow> (case release_lookup srv (dv_Name values) io1 of
            (Inl e, io2) \<Rightarrow> (Some e, io2)
          | (Inr False, io2) \<Rightarrow> (None, io2)
          | (Inr True, io2) \<Rightarrow> RemoveHelmChart srv
              \<lparr>hc_ReleaseName = dv_Name values, hc_ChartName = dv_Chart values, hc_Namespace = dv_Namespace values,
               hc_ValuesYaml = [], hc_Version = [], hc_Labels = fmempty\<rparr> io2))"

section \<open>RBAC\<close>

definition autoscalerInfrastructureReadResources :: "string list" where
  "autoscalerInfrastructureReadResources = [''ociclusters'', ''ociclusteridentities'', ''ocimachinetemplates'', ''ocimachines'']"

fun mutate_ClusterRole :: "OCIClusterAutoscaler \<Rightarrow> kobj \<Rightarrow> kobj" where
  "mutate_ClusterRole i (OClusterRole r) = OClusterRole
     \<lparr>cr_meta = SetDefaultLabels (oca_Name i) (cr_meta r),
      cr_Rules = [\<lparr>pr_APIGroups = [''infrastructure.cluster.x-k8s.io''], pr_Resources = autoscalerInfrastructureReadResources,
        pr_Verbs = [''get'', ''list'', ''watch'']\<rparr>]\<rparr>"
| "mutate_ClusterRole i x = x"

definition ClusterRole_of :: "string \<Rightarrow> OCIClusterAutoscaler \<Rightarrow> kobj \<times> 'w mutate_fn" where
  "ClusterRole_of autoscalerName i =
     (OClusterRole \<lparr>cr_meta = new_meta [] (autoscalerName @ ''-extra''), cr_Rules = []\<rparr>, pure_mutate (mutate_ClusterRole i))"

fun mutate_ClusterRoleBinding :: "AutoscalerDeploymentValues \<Rightarrow> OCIClusterAutoscaler \<Rightarrow> kobj \<Rightarrow> kobj" where
  "mutate_ClusterRoleBinding values i (OClusterRoleBinding b) = OClusterRoleBinding
     \<lparr>crb_meta = SetDefaultLabels (oca_Name i) (crb_meta b),
      crb_RoleRef = (''rbac.authorization.k8s.io'', ''ClusterRole'', dv_Name values @ ''-extra''),
      crb_Subjects = [(''ServiceAccount'', dv_ServiceAccountName values, dv_Namespace values)]\<rparr>"
| "mutate_ClusterRoleBinding values i x = x"

definition ClusterRoleBinding_of :: "AutoscalerDeploymentValues \<Rightarrow> OCIClusterAutoscaler \<Rightarrow> kobj \<times> 'w mutate_fn" where
  "ClusterRoleBinding_of values i =
     (OClusterRoleBinding \<lparr>crb_meta = new_meta [] (dv_Name values @ ''-extra''), crb_RoleRef = ([], [], []), crb_Subjects = []\<rparr>,
      pure_mutate (mutate_ClusterRoleBinding values i))"

definition Namespace_autoscaler :: "string \<Rightarrow> OCIClusterAutoscaler \<Rightarrow> kobj \<times> 'w mutate_fn" where
  "Namespace_autoscaler namespaceName i = (ONamespace (new_meta [] namespaceName), pure_mutate (label_namespace i))"

definition GetComponents_autoscaler :: "AutoscalerDeploymentValues \<Rightarrow> OCIClusterAutoscaler \<Rightarrow> 'w Component" where
  "GetComponents_autoscaler values i =
     \<lparr>comp_InstanceName = oca_Name i, comp_Name = ''Autoscaler'', comp_Subcomponents =
       [subcomponent ''namespace'' (Namespace_autoscaler (dv_Namespace values) i),
        subcomponent ''clusterRole'' (ClusterRole_of (dv_Name values) i),
        subcomponent ''clusterRoleBinding'' (ClusterRoleBinding_of values i)]\<rparr>"

section \<open>What is sent\<close>

lemma polite_autoscaler: "list_all polite_sub (comp_Subcomponents (GetComponents_autoscaler v i))"
  by (simp add: GetComponents_autoscaler_def polite_sub_def subcomponent_def Namespace_autoscaler_def ClusterRole_of_def
      ClusterRoleBinding_of_def)

text \<open>Helm requests that change nothing in the cluster, and those that do.\<close>

fun helm_lookup :: "request \<Rightarrow> bool" where
  "helm_lookup (ReqHelm (HelmNewClient n)) = True"
| "helm_lookup (ReqHelm (HelmGetChart n)) = True"
| "helm_lookup (ReqHelm (HelmAddRepo n u)) = True"
| "helm_lookup (ReqHelm (HelmGetRelease n)) = True"
| "helm_lookup (ReqHelm (HelmGetReleaseValues n)) = True"
| "helm_lookup _ = False"

abbreviation looks :: "request \<times> response \<Rightarrow> bool" where
  "looks \<equiv> \<lambda>(q, a). helm_lookup q"

lemma helm_steps_emits:
  "GetHelmClient srv n io = (c, io') \<Longrightarrow> emits looks io io'"
  "ensure_repo srv v io = (c, io') \<Longrightarrow> emits looks io io'"
  "release_lookup srv n io = (b, io') \<Longrightarrow> emits looks io io'"
  "autoscalerReleaseUpToDate srv y v s io = (b, io') \<Longrightarrow> emits looks io io'"
  by (auto simp: GetHelmClient_def ensure_repo_def ChartExists_def AddChartRepo_def release_lookup_def ReleaseExists_def
      autoscalerReleaseUpToDate_def split: prod.splits sum.splits option.splits if_splits bool.splits
      dest!: emits_request_as [where P = looks] intro: emits_trans)

lemma unit_request_change:
  assumes "request_as srv resp_unit q io = (x, io')"
  shows "\<exists>a. io_log io' = io_log io @ [(q, a)] \<and> ((\<exists>u. x = Inr u) \<longleftrightarrow> (\<forall>e. a \<noteq> RespErr e))"
proof -
  from request_as_log [OF assms] obtain a where a: "io_log io' = io_log io @ [(q, a)]" "x = expect resp_unit a" by blast
  then show ?thesis by (cases a) (auto simp: expect_def)
qed

lemma InstallHelmChart_change:
  "InstallHelmChart srv s io = (r, io') \<Longrightarrow>
   \<exists>a. io_log io' = io_log io @ [(ReqHelm (HelmInstall s), a)] \<and> (r = None \<longleftrightarrow> (\<forall>e. a \<noteq> RespErr e))"
  by (fastforce simp: InstallHelmChart_def split: prod.splits sum.splits dest!: unit_request_change)

lemma RemoveHelmChart_change:
  "RemoveHelmChart srv s io = (r, io') \<Longrightarrow>
   \<exists>a. io_log io' = io_log io @ [(ReqHelm (HelmUninstall s), a)] \<and> (r = None \<longleftrightarrow> (\<forall>e. a \<noteq> RespErr e))"
  by (fastforce simp: RemoveHelmChart_def split: prod.splits sum.splits dest!: unit_request_change)

text \<open>Helm requests of an installation, and those of a removal.\<close>

fun helm_apply :: "request \<Rightarrow> bool" where
  "helm_apply (ReqHelm (HelmUninstall s)) = False"
| "helm_apply (ReqHelm h) = True"
| "helm_apply _ = False"

fun helm_removal :: "request \<Rightarrow> bool" where
  "helm_removal (ReqHelm (HelmUninstall s)) = True"
| "helm_removal q = helm_lookup q"

lemma helm_classes: "helm_lookup q \<Longrightarrow> helm_apply q" "helm_lookup q \<Longrightarrow> helm_removal q"
  by (cases q rule: helm_lookup.cases; simp)+

lemma helm_sends:
  "emits looks io io' \<Longrightarrow> emits (\<lambda>(q, a). helm_apply q) io io'" "emits looks io io' \<Longrightarrow> emits (\<lambda>(q, a). helm_removal q) io io'"
  "InstallHelmChart srv spec io = (r, io') \<Longrightarrow> emits (\<lambda>(q, a). helm_apply q) io io'"
  "RemoveHelmChart srv spec io = (r, io') \<Longrightarrow> emits (\<lambda>(q, a). helm_removal q) io io'"
  "request_as srv resp_unit (ReqHelm (HelmUpgrade spec)) io = (x, io') \<Longrightarrow> emits (\<lambda>(q, a). helm_apply q) io io'"
  by (erule emits_mono; auto simp: helm_classes; fail |
      auto simp: emits_def dest!: InstallHelmChart_change RemoveHelmChart_change unit_request_change; fail)+

lemma InstallAutoscaler_sends: "InstallAutoscaler srv y i v io = (r, io') \<Longrightarrow> emits (\<lambda>(q, a). helm_apply q) io io'"
  unfolding InstallAutoscaler_def Let_def
  by (auto split: prod.splits option.splits sum.splits bool.splits
      dest!: helm_steps_emits [THEN helm_sends(1)] helm_sends(3,5) intro: emits_trans) (meson emits_trans)+

lemma RemoveAutoscaler_sends: "RemoveAutoscaler srv v io = (r, io') \<Longrightarrow> emits (\<lambda>(q, a). helm_removal q) io io'"
  unfolding RemoveAutoscaler_def
  by (auto split: prod.splits option.splits sum.splits bool.splits
      dest!: helm_steps_emits [THEN helm_sends(2)] helm_sends(4) intro: emits_trans)

text \<open>What a release was found to be, in the answers received.\<close>

definition release_matches :: "yaml_lib \<Rightarrow> AutoscalerDeploymentValues \<Rightarrow> (request \<times> response) list \<Rightarrow> bool" where
  "release_matches y v log \<longleftrightarrow>
     (\<exists>cur. (ReqHelm (HelmGetRelease (dv_Name v)), RespRelease (Some (Some (dv_Version v)))) \<in> set log \<and>
        (ReqHelm (HelmGetReleaseValues (dv_Name v)), RespValues cur) \<in> set log \<and>
        helmReleaseMatchesDesired y (dv_Version v) cur v (GetValuesString v) = Inr True)"

lemma expect_decoders:
  "expect resp_release a = Inr r \<longleftrightarrow> a = RespRelease r" "expect resp_values a = Inr v \<longleftrightarrow> a = RespValues v"
  by (cases a; auto simp: expect_def)+

lemma up_to_date_evidence:
  assumes "autoscalerReleaseUpToDate srv y v (GetValuesString v) io = (Inr True, io')"
  shows "release_matches y v (sent io io')"
proof -
  let ?g = "ReqHelm (HelmGetRelease (dv_Name v))" and ?h = "ReqHelm (HelmGetReleaseValues (dv_Name v))"
  from assms obtain version io1 cur where
    g: "request_as srv resp_release ?g io = (Inr (Some (Some version)), io1)"
    and h: "request_as srv resp_values ?h io1 = (Inr cur, io')"
    and m: "helmReleaseMatchesDesired y version cur v (GetValuesString v) = Inr True"
    by (auto simp: autoscalerReleaseUpToDate_def split: prod.splits sum.splits option.splits)
  from request_as_log [OF g] obtain a where a: "io_log io1 = io_log io @ [(?g, a)]"
    "Inr (Some (Some version)) = expect resp_release a" by blast
  from request_as_log [OF h] obtain b where b: "io_log io' = io_log io1 @ [(?h, b)]" "Inr cur = expect resp_values b" by blast
  from a(2) b(2) have ab: "a = RespRelease (Some (Some version))" "b = RespValues cur" by (metis expect_decoders)+
  from m have "version = dv_Version v" by (simp add: helmReleaseMatchesDesired_def split: if_splits)
  with m a(1) b(1) ab show ?thesis by (auto simp: release_matches_def sent_def)
qed

inductive install_run for y v spec where
  failed: "list_all looks log \<Longrightarrow> install_run y v spec log (Some e)"
| unchanged: "list_all looks log \<Longrightarrow> release_matches y v log \<Longrightarrow> install_run y v spec log None"
| changed: "list_all looks log \<Longrightarrow> q \<in> {ReqHelm (HelmInstall spec), ReqHelm (HelmUpgrade spec)} \<Longrightarrow>
    (r = None \<longleftrightarrow> (\<forall>e. a \<noteq> RespErr e)) \<Longrightarrow> install_run y v spec (log @ [(q, a)]) r"

lemma emits_sent_append:
  "emits P io io1 \<Longrightarrow> io_log io2 = io_log io1 @ xs \<Longrightarrow> sent io io2 = sent io io1 @ xs \<and> list_all P (sent io io1)"
  by (auto simp: emits_def sent_def)

lemma InstallAutoscaler_run:
  assumes "InstallAutoscaler srv y i v io = (r, io')"
  shows "install_run y v (autoscaler_chart_spec i v) (sent io io') r"
proof -
  let ?spec = "autoscaler_chart_spec i v"
  obtain c1 io1 where 1: "GetHelmClient srv (dv_Namespace v) io = (c1, io1)" by (cases "GetHelmClient srv (dv_Namespace v) io")
  obtain c2 io2 where 2: "ensure_repo srv v io1 = (c2, io2)" by (cases "ensure_repo srv v io1")
  obtain c3 io3 where 3: "release_lookup srv (dv_Name v) io2 = (c3, io3)" by (cases "release_lookup srv (dv_Name v) io2")
  obtain c4 io4 where 4: "autoscalerReleaseUpToDate srv y v (GetValuesString v) io3 = (c4, io4)"
    by (cases "autoscalerReleaseUpToDate srv y v (GetValuesString v) io3")
  have e1: "emits looks io io1" using 1 by (rule helm_steps_emits)
  have e2: "emits looks io io2" using e1 helm_steps_emits(2) [OF 2] by (rule emits_trans)
  have e3: "emits looks io io3" using e2 helm_steps_emits(3) [OF 3] by (rule emits_trans)
  have e4: "emits looks io io4" using e3 helm_steps_emits(4) [OF 4] by (rule emits_trans)
  have fail: "install_run y v ?spec (sent io x) (Some e)" if "emits looks io x" for x e
    using that by (intro install_run.failed) (auto simp: emits_def sent_def)
  have change: "install_run y v ?spec (sent io x2) r" if "emits looks io x1"
      "\<exists>a. io_log x2 = io_log x1 @ [(q, a)] \<and> (r = None \<longleftrightarrow> (\<forall>e. a \<noteq> RespErr e))"
      "q \<in> {ReqHelm (HelmInstall ?spec), ReqHelm (HelmUpgrade ?spec)}" for x1 x2 q
    using that emits_sent_append by (metis install_run.changed)
  have match: "install_run y v ?spec (sent io io4) None" if "c4 = Inr True"
  proof (rule install_run.unchanged)
    show "list_all looks (sent io io4)" using e4 by (auto simp: emits_def sent_def)
    have "set (sent io3 io4) \<subseteq> set (sent io io4)"
      using e3 helm_steps_emits(4) [OF 4] by (auto simp: emits_def sent_def)
    with up_to_date_evidence [OF 4 [unfolded that]] show "release_matches y v (sent io io4)"
      unfolding release_matches_def by blast
  qed
  have upgrade: "install_run y v ?spec (sent io io') r"
    if "(case request_as srv resp_unit (ReqHelm (HelmUpgrade ?spec)) io4 of
      (Inl e, io5) \<Rightarrow> (Some e, io5) | (Inr u, io5) \<Rightarrow> (None, io5)) = (r, io')"
    using that e4 by (intro change [of io4 io' "ReqHelm (HelmUpgrade ?spec)"])
      (fastforce split: prod.splits sum.splits dest!: unit_request_change)+
  show ?thesis
    using assms 1 2 3 4 fail [OF e1] fail [OF e2] fail [OF e3] match upgrade change [OF e3 InstallHelmChart_change]
    by (auto simp: InstallAutoscaler_def Let_def split: option.splits sum.splits bool.splits)
qed

section \<open>Properties\<close>

text \<open>
  C40. Installing the autoscaler changes the Helm release at most once, by its last request, which installs
  or upgrades to exactly the desired chart and values, and succeeds if and only if that request does;
  it succeeds without a change only if the answers show a release of the desired version whose
  values match the desired ones.
\<close>

theorem InstallAutoscaler_outcome:
  "case InstallAutoscaler srv y i v io of (r, io') \<Rightarrow>
     \<exists>log. list_all looks log \<and>
       (sent io io' = log \<and> (case r of None \<Rightarrow> release_matches y v log | Some e \<Rightarrow> True) \<or>
        (\<exists>q a. q \<in> {ReqHelm (HelmInstall (autoscaler_chart_spec i v)), ReqHelm (HelmUpgrade (autoscaler_chart_spec i v))} \<and>
           sent io io' = log @ [(q, a)] \<and> (r = None \<longleftrightarrow> (\<forall>e. a \<noteq> RespErr e))))"
proof -
  obtain r io' where r: "InstallAutoscaler srv y i v io = (r, io')" by (cases "InstallAutoscaler srv y i v io")
  from InstallAutoscaler_run [OF r] show ?thesis
    unfolding r prod.case by cases (simp; blast)+
qed

end
