(* ===== verification/Reconcile.thy ===== *)
theory Reconcile
  imports Conditions CertApproval EnableAutoscaler ClusterctlUpdate AutoscalerChart
begin

text \<open>
  The controller of the custom resource
  (\<open>internal/controllers/ociclusterautoscaler_controller.go\<close>): policy validation, the stages of
  \<open>reconcileOCICapiStack\<close>, cleanup, and \<open>Reconcile\<close> with its finalizer and status handling.

  A step of the controller works on the resource (which it changes in place) and the outside. It
  either goes on with a value or returns early with the result of the reconcile: a stage is a
  function from the pair of both to a sum, \<open>Inl\<close> for the early return.
\<close>

section \<open>Names\<close>

definition ReasonInitializing :: string where [go_const]: "ReasonInitializing = ''Initializing''"
definition ReasonPolicyAccepted :: string where [go_const]: "ReasonPolicyAccepted = ''PolicyAccepted''"
definition ReasonPolicyRejected :: string where [go_const]: "ReasonPolicyRejected = ''PolicyRejected''"
definition ReasonProviderPrerequisitesReady :: string where
  [go_const]: "ReasonProviderPrerequisitesReady = ''ProviderPrerequisitesReady''"
definition ReasonProviderPrerequisitesFailed :: string where
  [go_const]: "ReasonProviderPrerequisitesFailed = ''ProviderPrerequisitesFailed''"
definition ReasonProviderRolloutPending :: string where
  [go_const]: "ReasonProviderRolloutPending = ''ProviderRolloutPending''"
definition ReasonProvidersReady :: string where [go_const]: "ReasonProvidersReady = ''ProvidersReady''"
definition ReasonAutoscalerRBACFailed :: string where
  [go_const]: "ReasonAutoscalerRBACFailed = ''AutoscalerRBACFailed''"
definition ReasonAutoscalerInstallFailed :: string where
  [go_const]: "ReasonAutoscalerInstallFailed = ''AutoscalerInstallFailed''"
definition ReasonAutoscalerDeploymentUnavailable :: string where
  [go_const]: "ReasonAutoscalerDeploymentUnavailable = ''AutoscalerDeploymentUnavailable''"
definition ReasonAutoscalerReady :: string where [go_const]: "ReasonAutoscalerReady = ''AutoscalerReady''"
definition ReasonClusterDiscoveryFailed :: string where
  [go_const]: "ReasonClusterDiscoveryFailed = ''ClusterDiscoveryFailed''"
definition ReasonScalingConfigFailed :: string where
  [go_const]: "ReasonScalingConfigFailed = ''ScalingConfigFailed''"
definition ReasonScalingResourcesFailed :: string where
  [go_const]: "ReasonScalingResourcesFailed = ''ScalingResourcesFailed''"
definition ReasonScalingResourcesReady :: string where
  [go_const]: "ReasonScalingResourcesReady = ''ScalingResourcesReady''"
definition ReasonCleanupStarted :: string where [go_const]: "ReasonCleanupStarted = ''CleanupStarted''"
definition ReasonCleanupSkipped :: string where [go_const]: "ReasonCleanupSkipped = ''CleanupSkipped''"
definition ReasonCleanupFailed :: string where [go_const]: "ReasonCleanupFailed = ''CleanupFailed''"
definition ReasonCleanupSucceeded :: string where [go_const]: "ReasonCleanupSucceeded = ''CleanupSucceeded''"
definition ReasonReconcileError :: string where [go_const]: "ReasonReconcileError = ''ReconcileError''"
definition ReasonSingletonConflict :: string where [go_const]: "ReasonSingletonConflict = ''SingletonConflict''"

definition FinalizerName :: string where [go_const]: "FinalizerName = ''ociclusterautoscaler.capi.openshift.io/finalizer''"
definition CAPIDeploymentName :: string where [go_const]: "CAPIDeploymentName = ''capi-manager''"
definition CAPOCIDeploymentName :: string where [go_const]: "CAPOCIDeploymentName = ''capoci-controller-manager''"
definition CAPIServiceAccountName :: string where [go_const]: "CAPIServiceAccountName = ''capi-manager''"
definition CAPOCIServiceAccountName :: string where
  [go_const]: "CAPOCIServiceAccountName = ''capoci-controller-manager''"
definition AutoscalerRepoURL :: string where [go_const]: "AutoscalerRepoURL = ''https://kubernetes.github.io/autoscaler''"
definition AutoscalerChartName :: string where [go_const]: "AutoscalerChartName = ''oci-cluster-autoscaler/cluster-autoscaler''"
definition AutoscalerDeploymentName :: string where [go_const]: "AutoscalerDeploymentName = ''oci-cluster-autoscaler''"
definition AutoScalerCloudProvider :: string where [go_const]: "AutoScalerCloudProvider = ''clusterapi''"

text \<open>Requeue delays, in seconds; \<open>0\<close> is no requeue.\<close>

definition kubeconfigSecretRefreshInterval :: nat where "kubeconfigSecretRefreshInterval = 12 * 60 * 60"

section \<open>The reconciler\<close>

record OCIClusterAutoscalerReconciler =
  rc_CAPOCICredentials :: CAPOCICredentials
  rc_ProviderConfig :: ProviderConfig
  rc_CAPOCIProvider :: ProviderConfig
  rc_AutoScalingConfig :: Config
  rc_NamespaceConfig :: NamespaceConfig
  rc_hasRecorder :: bool

text \<open>Code outside the repository that the stages call.\<close>

record libraries =
  lib_yaml :: yaml_lib
  lib_time :: "time \<Rightarrow> string"

definition namespaces_of :: "OCIClusterAutoscalerReconciler \<Rightarrow> NamespaceConfig" where
  "namespaces_of r = Namespaces_of (Some (rc_NamespaceConfig r))"

definition managedResourceNamespaceFor :: "OCIClusterAutoscaler \<Rightarrow> NamespaceConfig \<Rightarrow> string" where
  "managedResourceNamespaceFor i namespaces = ManagedResourceNamespace (WithDefaults namespaces)"

definition getAutoscalerDeploymentValues ::
    "OCIClusterAutoscaler \<Rightarrow> NamespaceConfig \<Rightarrow> AutoscalerDeploymentValues" where
  "getAutoscalerDeploymentValues i namespaces0 =
     (let explicitNamespace = TrimSpace (AutoscalerDiscoveryNamespace namespaces0);
          namespaces = WithDefaults namespaces0;
          discoveryNamespace = (if explicitNamespace = [] then managedResourceNamespaceFor i namespaces else explicitNamespace)
      in GetAutoscalerDeploymentValues
           \<lparr>dv_CloudProvider = AutoScalerCloudProvider, dv_Name = AutoscalerDeploymentName,
            dv_Namespace = AutoscalerNamespace namespaces, dv_AutoDiscoveryNamespace = discoveryNamespace,
            dv_ServiceAccountName = AutoscalerDeploymentName, dv_CreateRBAC = True, dv_CreateServiceAccount = True,
            dv_RepositoryURL = AutoscalerRepoURL, dv_Chart = AutoscalerChartName, dv_Version = ''9.40.0'',
            dv_ScanInterval = []\<rparr> i)"

definition clusterNameFor ::
    "'w server \<Rightarrow> OCIClusterAutoscaler option \<Rightarrow> 'w io \<Rightarrow> (go_error + string) \<times> 'w io" where
  "clusterNameFor srv instance0 io =
     (let clusterName = (case instance0 of None \<Rightarrow> [] | Some i \<Rightarrow> TrimSpace (capi_ClusterName (spec_CAPI (oca_Spec i))))
      in if clusterName \<noteq> [] then (Inr clusterName, io) else GetClusterName srv io)"

definition validate :: "OCIClusterAutoscaler \<Rightarrow> Config \<Rightarrow> check" where
  "validate i config =
     (case ValidateMinMaxNodes i config of
        Some e \<Rightarrow> Some (Wrapf ''invalid Min/Max nodes set in either the autoscaler spec or the config: '' e)
      | None \<Rightarrow> first_error
          [validateOptionalObjectName ''spec.capi.clusterName'' (capi_ClusterName (spec_CAPI (oca_Spec i))),
           validateOptionalObjectName ''spec.clusterAutoscaler.name'' (ca_Name (spec_ClusterAutoscaler (oca_Spec i))),
           validateOptionalObjectName ''spec.clusterAutoscaler.serviceAccountName''
             (ca_ServiceAccountName (spec_ClusterAutoscaler (oca_Spec i))),
           (let clusterName = TrimSpace (capi_ClusterName (spec_CAPI (oca_Spec i))) in
            if clusterName = [] then None
            else map_option (Wrapf ''spec.capi.clusterName/spec.autoscaling.poolIdentifier: '')
              (ValidateNodePoolName (NodePoolName clusterName (Some i))))])"

section \<open>Deployments\<close>

definition machine_template_kind :: string where
  "machine_template_kind = ''infrastructure.cluster.x-k8s.io/v1beta2/OCIMachineTemplate''"

definition deployment_kind :: string where "deployment_kind = ''apps/v1/Deployment''"

definition checkDeploymentAvailable :: "'w server \<Rightarrow> string \<Rightarrow> string \<Rightarrow> 'w io \<Rightarrow> check \<times> 'w io" where
  "checkDeploymentAvailable srv namespace name io =
     (case request_as srv resp_deployment (ReqGet deployment_kind \<lparr>nn_Namespace = namespace, nn_Name = name\<rparr>) io of
        (Inl e, io') \<Rightarrow> (Some (Wrapf (''deployment '' @ namespace @ ''/'' @ name @ '' is not installed: '') e), io')
      | (Inr d, io') \<Rightarrow>
          (case GetDeploymentCondition (dep_Conditions d) ''Available'' of
             None \<Rightarrow> Some (Errorf (''deployment '' @ namespace @ ''/'' @ name @ '' is not available''))
           | Some c \<Rightarrow>
               if dc_Status c \<noteq> ConditionTrue
               then Some (Errorf (''deployment '' @ namespace @ ''/'' @ name @ '' is not available: '' @
                 dc_Reason c @ '': '' @ dc_Message c))
               else None, io'))"

definition checkCAPIInstallation ::
    "'w server \<Rightarrow> OCIClusterAutoscalerReconciler \<Rightarrow> 'w io \<Rightarrow> (bool \<times> check) \<times> 'w io" where
  "checkCAPIInstallation srv r io =
     (case checkDeploymentAvailable srv (CAPIProviderNamespace (namespaces_of r)) CAPIDeploymentName io of
        (Some e, io1) \<Rightarrow> ((False, Some e), io1)
      | (None, io1) \<Rightarrow>
          (case checkDeploymentAvailable srv (CAPOCIProviderNamespace (namespaces_of r)) CAPOCIDeploymentName io1 of
             (Some e, io2) \<Rightarrow> ((False, Some e), io2)
           | (None, io2) \<Rightarrow> ((True, None), io2)))"

section \<open>Stages\<close>

type_synonym ctrl_result = "nat \<times> check"

type_synonym 'w ctrl_state = "OCIClusterAutoscaler \<times> 'w io"

type_synonym ('w, 'a) stage = "'w ctrl_state \<Rightarrow> (ctrl_result + 'a) \<times> 'w ctrl_state"

definition and_then :: "('w, 'a) stage \<Rightarrow> ('a \<Rightarrow> ('w, 'b) stage) \<Rightarrow> ('w, 'b) stage" where
  "and_then m f s = (case m s of (Inl res, s') \<Rightarrow> (Inl res, s') | (Inr a, s') \<Rightarrow> f a s')"

definition report ::
    "bool \<Rightarrow> 'w server \<Rightarrow> string \<Rightarrow> condition_status \<Rightarrow> string \<Rightarrow> string \<Rightarrow> ('w, unit) stage" where
  "report hr srv ct st reason message = (\<lambda>(i, io). (Inr (), setConditionAndRecord hr srv i ct st reason message io))"

definition give_up ::
    "bool \<Rightarrow> 'w server \<Rightarrow> string \<Rightarrow> condition_status \<Rightarrow> string \<Rightarrow> string \<Rightarrow> ctrl_result \<Rightarrow> ('w, 'a) stage" where
  "give_up hr srv ct st reason message res =
     (\<lambda>(i, io). (Inl res, setConditionAndRecord hr srv i ct st reason message io))"

text \<open>\<open>r.Status().Update(ctx, instance)\<close>: on success the client fills the resource with the answer.\<close>

definition Status_Update ::
    "'w server \<Rightarrow> OCIClusterAutoscaler \<Rightarrow> 'w io \<Rightarrow> check \<times> OCIClusterAutoscaler \<times> 'w io" where
  "Status_Update srv i io =
     (case request_as srv resp_autoscaler (ReqStatusUpdate (OAutoscaler i)) io of
        (Inl e, io') \<Rightarrow> (Some e, i, io')
      | (Inr i', io') \<Rightarrow> (None, i', io'))"

definition policy_stage :: "'w server \<Rightarrow> OCIClusterAutoscalerReconciler \<Rightarrow> ('w, unit) stage" where
  "policy_stage srv r = (\<lambda>(i, io).
     case validate i (rc_AutoScalingConfig r) of
       None \<Rightarrow> report (rc_hasRecorder r) srv ConditionPolicyAccepted ConditionTrue ReasonPolicyAccepted
         ''Autoscaler policy accepted'' (i, io)
     | Some e \<Rightarrow>
         (let i1 = set_ObservedGeneration (set_Phase PhaseBlocked i);
              (i2, io2) = setConditionAndRecord (rc_hasRecorder r) srv i1 ConditionPolicyAccepted ConditionFalse
                ReasonPolicyRejected (''Autoscaler policy rejected: '' @ Error e) io;
              (b, i3, io3) = setReadyConditionFromFailedStage (rc_hasRecorder r) srv i2 io2
          in case Status_Update srv i3 io3 of
               (Some updateErr, s) \<Rightarrow>
                 (Inl (0, Some (Joined [e, Wrapf ''failed to update status after policy validation failure: '' updateErr])), s)
             | (None, s) \<Rightarrow> (Inl (0, Some e), s)))"

definition capi_stage :: "'w server \<Rightarrow> OCIClusterAutoscalerReconciler \<Rightarrow> ('w, unit) stage" where
  "capi_stage srv r = (\<lambda>(i, io).
     let namespaces = namespaces_of r;
         capiComponent = GetComponents_capi (CAPIProviderNamespace namespaces) (CAPOCIProviderNamespace namespaces)
           CAPIServiceAccountName CAPOCIServiceAccountName i (UsesInstancePrincipal (Some (rc_CAPOCICredentials r)))
     in case reconcileComponents srv capiComponent io of
          (Some e, io') \<Rightarrow> give_up (rc_hasRecorder r) srv ConditionProvidersReady ConditionFalse
            ReasonProviderPrerequisitesFailed (''Failed to reconcile CAPI provider prerequisites: '' @ Error e)
            (0, Some e) (i, io')
        | (None, io') \<Rightarrow>
            if \<not> conditionIsTrue i ConditionProvidersReady then
              report (rc_hasRecorder r) srv ConditionProvidersReady ConditionUnknown ReasonProviderPrerequisitesReady
                ''Provider prerequisites reconciled; checking provider controller rollout'' (i, io')
            else (Inr (), (i, io')))"

definition capoci_stage :: "'w server \<Rightarrow> OCIClusterAutoscalerReconciler \<Rightarrow> ('w, unit) stage" where
  "capoci_stage srv r = (\<lambda>(i, io).
     case reconcileComponents srv
         (GetComponents_capoci (CAPOCIProviderNamespace (namespaces_of r)) i (Some (rc_CAPOCICredentials r))) io of
       (Some e, io') \<Rightarrow> give_up (rc_hasRecorder r) srv ConditionProvidersReady ConditionFalse
         ReasonProviderPrerequisitesFailed (''Failed to reconcile CAPOCI provider configuration: '' @ Error e)
         (20, None) (i, io')
     | (None, io') \<Rightarrow> (Inr (), (i, io')))"

definition rollout_stage :: "'w server \<Rightarrow> OCIClusterAutoscalerReconciler \<Rightarrow> ('w, unit) stage" where
  "rollout_stage srv r = (\<lambda>(i, io).
     let ((capiInstalled, err), io') = checkCAPIInstallation srv r io in
     case (case err of None \<Rightarrow> None | Some e \<Rightarrow> if IsNotFound e then None else Some e) of
       Some e \<Rightarrow> give_up (rc_hasRecorder r) srv ConditionProvidersReady ConditionUnknown ReasonProviderRolloutPending
         (''Provider controller managers are not ready: '' @ Error e) (20, None) (set_CAPIInstalled False i, io')
     | None \<Rightarrow>
         let i' = set_CAPIInstalled capiInstalled i in
         if \<not> capiInstalled then
           give_up (rc_hasRecorder r) srv ConditionProvidersReady ConditionUnknown ReasonProviderRolloutPending
             ''Provider controller managers are not installed yet'' (20, None) (i', io')
         else
           report (rc_hasRecorder r) srv ConditionProvidersReady ConditionTrue ReasonProvidersReady
             ''CAPI and CAPOCI provider controller managers are available'' (i', io'))"

definition autoscaler_stage :: "'w server \<Rightarrow> libraries \<Rightarrow> OCIClusterAutoscalerReconciler \<Rightarrow> ('w, unit) stage" where
  "autoscaler_stage srv lib r = (\<lambda>(i, io).
     let values = getAutoscalerDeploymentValues i (namespaces_of r);
         deployment = dv_Namespace values @ ''/'' @ dv_Name values
     in case reconcileComponents srv (GetComponents_autoscaler values i) io of
          (Some e, io1) \<Rightarrow> give_up (rc_hasRecorder r) srv ConditionAutoscalerReady ConditionFalse
            ReasonAutoscalerRBACFailed (''Failed to reconcile autoscaler RBAC components: '' @ Error e) (0, Some e)
            (set_Deployed False i, io1)
        | (None, io1) \<Rightarrow> (case InstallAutoscaler srv (lib_yaml lib) i values io1 of
              (Some e, io2) \<Rightarrow> give_up (rc_hasRecorder r) srv ConditionAutoscalerReady ConditionFalse
                ReasonAutoscalerInstallFailed (''Failed to install or upgrade autoscaler Helm chart: '' @ Error e)
                (0, Some e) (set_Deployed False i, io2)
            | (None, io2) \<Rightarrow> (case checkDeploymentAvailable srv (dv_Namespace values) (dv_Name values) io2 of
                  (Some e, io3) \<Rightarrow> give_up (rc_hasRecorder r) srv ConditionAutoscalerReady ConditionFalse
                    ReasonAutoscalerDeploymentUnavailable (''cluster-autoscaler deployment '' @ deployment @
                      '' is not available: '' @ Error e) (20, None) (set_Deployed False i, io3)
                | (None, io3) \<Rightarrow> report (rc_hasRecorder r) srv ConditionAutoscalerReady ConditionTrue
                    ReasonAutoscalerReady (''cluster-autoscaler deployment '' @ deployment @ '' is available'')
                    (set_Deployed True i, io3))))"

text \<open>The cluster name and the resolved configuration of the scaling resources.\<close>

definition config_stage :: "'w server \<Rightarrow> OCIClusterAutoscalerReconciler \<Rightarrow> ('w, string \<times> Config) stage" where
  "config_stage srv r = (\<lambda>(i, io).
     case clusterNameFor srv (Some i) io of
       (Inl e, io1) \<Rightarrow> give_up (rc_hasRecorder r) srv ConditionScalingResourcesReady ConditionFalse
         ReasonClusterDiscoveryFailed (''Failed to discover OpenShift cluster name for managed scaling resources: '' @ Error e)
         (0, Some e) (i, io1)
     | (Inr clusterName, io1) \<Rightarrow>
         (case ValidateNodePoolName (NodePoolName clusterName (Some i)) of
            Some e \<Rightarrow> give_up (rc_hasRecorder r) srv ConditionScalingResourcesReady ConditionFalse
              ReasonScalingConfigFailed (''Invalid generated autoscaler node pool name for cluster '' @ Quote clusterName @
                '': '' @ Error e) (0, Some (Wrapf ''invalid generated autoscaler node pool name: '' e)) (i, io1)
          | None \<Rightarrow> (case SetAutoScalingConfig srv i (rc_AutoScalingConfig r) io1 of
                (Inl e, io2) \<Rightarrow> give_up (rc_hasRecorder r) srv ConditionScalingResourcesReady ConditionFalse
                  ReasonScalingConfigFailed (''Failed to resolve autoscaling configuration: '' @ Error e) (0, Some e) (i, io2)
              | (Inr config, io2) \<Rightarrow> (Inr (clusterName, config), (i, io2)))))"

definition scaling_stage ::
    "'w server \<Rightarrow> libraries \<Rightarrow> OCIClusterAutoscalerReconciler \<Rightarrow> string \<times> Config \<Rightarrow> ('w, unit) stage" where
  "scaling_stage srv lib r resolved = (\<lambda>(i, io).
     let (clusterName, config) = resolved;
         namespaces = namespaces_of r;
         managedNamespace = managedResourceNamespaceFor i namespaces;
         c = GetComponents_enable srv managedNamespace (CAPIProviderNamespace namespaces) clusterName
           CAPIServiceAccountName i config (UsesInstancePrincipal (Some (rc_CAPOCICredentials r)))
     in case reconcileComponents srv c io of
          (Some e, io1) \<Rightarrow> give_up (rc_hasRecorder r) srv ConditionScalingResourcesReady ConditionFalse
            ReasonScalingResourcesFailed (''Failed to reconcile managed scaling resources: '' @ Error e) (0, Some e) (i, io1)
        | (None, io1) \<Rightarrow>
            (case markExistingClusterControlPlaneInitialized (lib_time lib) srv managedNamespace clusterName io1 of
               (Some e, io2) \<Rightarrow> give_up (rc_hasRecorder r) srv ConditionScalingResourcesReady ConditionFalse
                 ReasonScalingResourcesFailed (''Failed to mark CAPI Cluster '' @ Quote clusterName @ '' initialized: '' @ Error e)
                 (0, Some e) (i, io2)
             | (None, io2) \<Rightarrow>
                 (let (i', io3) = setConditionAndRecord (rc_hasRecorder r) srv i ConditionScalingResourcesReady ConditionTrue
                        ReasonScalingResourcesReady (''Managed scaling resources for cluster '' @ Quote clusterName @
                          '' are reconciled'') io2;
                      (snapshot, io4) = call srv (ReqGet machine_template_kind
                        \<lparr>nn_Namespace = managedNamespace, nn_Name = AutoscalingResourceName clusterName (Some i')\<rparr>) io3
                  in (Inr (), (i', io4)))))"

definition reconcileOCICapiStack ::
    "'w server \<Rightarrow> libraries \<Rightarrow> OCIClusterAutoscalerReconciler \<Rightarrow> 'w ctrl_state \<Rightarrow> ctrl_result \<times> 'w ctrl_state" where
  "reconcileOCICapiStack srv lib r s =
     (case and_then (policy_stage srv r) (\<lambda>_.
           and_then (capi_stage srv r) (\<lambda>_.
           and_then (capoci_stage srv r) (\<lambda>_.
           and_then (rollout_stage srv r) (\<lambda>_.
           and_then (autoscaler_stage srv lib r) (\<lambda>_.
           and_then (config_stage srv r) (scaling_stage srv lib r)))))) s of
        (Inl res, s') \<Rightarrow> (res, s')
      | (Inr u, s') \<Rightarrow> ((kubeconfigSecretRefreshInterval, None), s'))"

section \<open>Cleanup\<close>

definition cleanup ::
    "'w server \<Rightarrow> libraries \<Rightarrow> OCIClusterAutoscalerReconciler \<Rightarrow> 'w ctrl_state \<Rightarrow> check \<times> 'w ctrl_state" where
  "cleanup srv lib r = (\<lambda>(i, io).
     let namespaces = namespaces_of r;
         values = getAutoscalerDeploymentValues i namespaces;
         failed = (\<lambda>what e io'. (Some e, setConditionAndRecord (rc_hasRecorder r) srv i ConditionCleanupSucceeded
           ConditionFalse ReasonCleanupFailed (what @ Error e) io'))
     in case clusterNameFor srv (Some i) io of
          (Inl e, io1) \<Rightarrow> (Some e, (i, io1))
        | (Inr clusterName, io1) \<Rightarrow>
            (case removeComponent srv (GetComponents_enable srv (managedResourceNamespaceFor i namespaces)
                  (CAPIProviderNamespace namespaces) clusterName CAPIServiceAccountName i (rc_AutoScalingConfig r)
                  (UsesInstancePrincipal (Some (rc_CAPOCICredentials r)))) io1 of
               (r1, io2) \<Rightarrow>
                 (case (case r1 of None \<Rightarrow> None | Some e \<Rightarrow> if IsNoMatchError e then None else Some e) of
                    Some e \<Rightarrow> failed ''Failed to remove managed scaling resources: '' e io2
                  | None \<Rightarrow> (case RemoveAutoscaler srv values io2 of
                        (Some e, io3) \<Rightarrow> failed ''Failed to remove autoscaler Helm release: '' e io3
                      | (None, io3) \<Rightarrow> (case removeComponent srv (GetComponents_autoscaler values i) io3 of
                            (Some e, io4) \<Rightarrow> failed ''Failed to remove autoscaler RBAC components: '' e io4
                          | (None, io4) \<Rightarrow> (None, (i, io4)))))))"

section \<open>Reconcile\<close>

definition ContainsFinalizer :: "OCIClusterAutoscaler \<Rightarrow> string \<Rightarrow> bool" where
  "ContainsFinalizer i f \<longleftrightarrow> f \<in> set (md_Finalizers (oca_meta i))"

definition AddFinalizer :: "OCIClusterAutoscaler \<Rightarrow> string \<Rightarrow> OCIClusterAutoscaler" where
  "AddFinalizer i f = (if ContainsFinalizer i f then i else set_Finalizers (md_Finalizers (oca_meta i) @ [f]) i)"

definition RemoveFinalizer :: "OCIClusterAutoscaler \<Rightarrow> string \<Rightarrow> OCIClusterAutoscaler" where
  "RemoveFinalizer i f = set_Finalizers (filter (\<lambda>x. x \<noteq> f) (md_Finalizers (oca_meta i))) i"

definition Update_autoscaler :: "'w server \<Rightarrow> OCIClusterAutoscaler \<Rightarrow> 'w io \<Rightarrow> ctrl_result \<times> 'w io" where
  "Update_autoscaler srv i io =
     (case request_as srv resp_unit (ReqUpdate (OAutoscaler i)) io of
        (Inl e, io') \<Rightarrow> ((0, Some e), io')
      | (Inr u, io') \<Rightarrow> ((0, None), io'))"

text \<open>The initial status of a new resource.\<close>

definition initialize ::
    "'w server \<Rightarrow> OCIClusterAutoscalerReconciler \<Rightarrow> 'w ctrl_state \<Rightarrow> check \<times> 'w ctrl_state" where
  "initialize srv r = (\<lambda>(i, io).
     if oca_Phase i = [] then
       (let (i1, io1) = setConditionAndRecord (rc_hasRecorder r) srv (set_Phase PhaseInitializing i) ConditionReady
              ConditionUnknown ReasonInitializing ''OCIClusterAutoscaler reconciliation has started'' io
        in Status_Update srv i1 io1)
     else (None, (i, io)))"

definition block_conflict ::
    "'w server \<Rightarrow> OCIClusterAutoscalerReconciler \<Rightarrow> nsname \<Rightarrow> 'w ctrl_state \<Rightarrow> ctrl_result \<times> 'w io" where
  "block_conflict srv r owner = (\<lambda>(i, io).
     let message = ''OCIClusterAutoscaler is singleton; active owner is '' @ nn_Namespace owner @ ''/'' @ nn_Name owner;
         i0 = set_ObservedGeneration (set_Phase PhaseBlocked i);
         (i1, io1) = setConditionAndRecord (rc_hasRecorder r) srv i0 ConditionPolicyAccepted ConditionFalse
           ReasonSingletonConflict message io;
         (i2, io2) = setConditionAndRecord (rc_hasRecorder r) srv i1 ConditionReady ConditionFalse
           ReasonSingletonConflict message io1;
         (err, i3, io3) = Status_Update srv i2 io2
     in ((60, err), io3))"

definition cleanup_failed ::
    "'w server \<Rightarrow> OCIClusterAutoscalerReconciler \<Rightarrow> go_error \<Rightarrow> 'w ctrl_state \<Rightarrow> ctrl_result \<times> 'w io" where
  "cleanup_failed srv r err = (\<lambda>(i, io).
     let i0 = set_ObservedGeneration (set_Phase PhaseError i);
         message = ''Cleanup failed: '' @ Error err;
         (i1, io1) = setConditionAndRecord (rc_hasRecorder r) srv i0 ConditionCleanupSucceeded ConditionFalse
           ReasonCleanupFailed message io;
         (i2, io2) = setConditionAndRecord (rc_hasRecorder r) srv i1 ConditionReady ConditionFalse
           ReasonCleanupFailed message io1
     in case Status_Update srv i2 io2 of
          (Some updateErr, i3, io3) \<Rightarrow>
            ((0, Some (Joined [err, Wrapf ''failed to update status after cleanup error: '' updateErr])), io3)
        | (None, i3, io3) \<Rightarrow> ((0, Some err), io3))"

text \<open>The end of a deletion: the outcome is written to the status, then the finalizer goes.\<close>

definition release ::
    "'w server \<Rightarrow> OCIClusterAutoscalerReconciler \<Rightarrow> string \<Rightarrow> string \<Rightarrow> 'w ctrl_state \<Rightarrow> ctrl_result \<times> 'w io" where
  "release srv r reason message = (\<lambda>(i, io).
     let (i1, io1) = setConditionAndRecord (rc_hasRecorder r) srv (set_ObservedGeneration i) ConditionCleanupSucceeded
           ConditionTrue reason message io
     in case Status_Update srv i1 io1 of
          (Some e, i2, io2) \<Rightarrow> ((0, Some e), io2)
        | (None, i2, io2) \<Rightarrow> Update_autoscaler srv (RemoveFinalizer i2 FinalizerName) io2)"

definition reconcile_deleting ::
    "'w server \<Rightarrow> libraries \<Rightarrow> OCIClusterAutoscalerReconciler \<Rightarrow> 'w ctrl_state \<Rightarrow> ctrl_result \<times> 'w io" where
  "reconcile_deleting srv lib r = (\<lambda>(i, io).
     if \<not> ContainsFinalizer i FinalizerName then ((0, None), io)
     else case isSingletonOwner srv i io of
       (Inl e, io1) \<Rightarrow> ((0, Some e), io1)
     | (Inr False, io1) \<Rightarrow> release srv r ReasonCleanupSkipped
         ''Cleanup skipped because this resource is not the active singleton owner'' (i, io1)
     | (Inr True, io1) \<Rightarrow>
         (let i1 = set_ObservedGeneration (set_Phase PhaseCleaningUp i);
              (i2, io2) = setConditionAndRecord (rc_hasRecorder r) srv i1 ConditionCleanupSucceeded ConditionUnknown
                ReasonCleanupStarted ''Deleting managed autoscaler resources'' io1
          in case Status_Update srv i2 io2 of
               (Some e, i3, io3) \<Rightarrow> ((0, Some e), io3)
             | (None, s3) \<Rightarrow> (case cleanup srv lib r s3 of
                   (Some e, s4) \<Rightarrow> cleanup_failed srv r e s4
                 | (None, s4) \<Rightarrow> release srv r ReasonCleanupSucceeded
                     ''Managed autoscaler resources were deleted'' s4)))"

text \<open>The stack, and writing its outcome to the status.\<close>

definition reconcile_stack ::
    "'w server \<Rightarrow> libraries \<Rightarrow> OCIClusterAutoscalerReconciler \<Rightarrow> 'w ctrl_state \<Rightarrow> ctrl_result \<times> 'w io" where
  "reconcile_stack srv lib r s =
     (let originalStatus = oca_Status (fst s) in
      case reconcileOCICapiStack srv lib r s of
        ((requeue, Some err), (i, io)) \<Rightarrow>
          (let (failed, i1, io1) = setReadyConditionFromFailedStage (rc_hasRecorder r) srv i io;
               (i2, io2) = (if failed then (i1, io1)
                 else setConditionAndRecord (rc_hasRecorder r) srv (set_Phase PhaseError i1) ConditionReady
                   ConditionFalse ReasonReconcileError (Error err) io1)
           in case Status_Update srv (set_ObservedGeneration i2) io2 of
                (Some updateErr, i3, io3) \<Rightarrow>
                  ((requeue, Some (Joined [err, Wrapf ''failed to update status after reconcile error: '' updateErr])), io3)
              | (None, i3, io3) \<Rightarrow> ((requeue, Some err), io3))
      | ((requeue, None), (i, io)) \<Rightarrow>
          (let (i1, io1) = setAggregateReadyCondition (rc_hasRecorder r) srv i io in
           if originalStatus \<noteq> oca_Status i1 then
             (case Status_Update srv i1 io1 of
                (Some e, i2, io2) \<Rightarrow> ((0, Some e), io2)
              | (None, i2, io2) \<Rightarrow> ((requeue, None), io2))
           else ((requeue, None), io1)))"

definition reconcile_live ::
    "'w server \<Rightarrow> libraries \<Rightarrow> OCIClusterAutoscalerReconciler \<Rightarrow> 'w ctrl_state \<Rightarrow> ctrl_result \<times> 'w io" where
  "reconcile_live srv lib r = (\<lambda>(i, io).
     case singletonConflict srv i io of
       (Inl e, io1) \<Rightarrow> ((0, Some e), io1)
     | (Inr (Some owner, True), io1) \<Rightarrow> block_conflict srv r owner (i, io1)
     | (Inr (_, _), io1) \<Rightarrow>
         if \<not> ContainsFinalizer i FinalizerName then Update_autoscaler srv (AddFinalizer i FinalizerName) io1
         else reconcile_stack srv lib r (i, io1))"

definition Reconcile ::
    "'w server \<Rightarrow> libraries \<Rightarrow> OCIClusterAutoscalerReconciler \<Rightarrow> nsname \<Rightarrow> 'w io \<Rightarrow> ctrl_result \<times> 'w io" where
  "Reconcile srv lib r req io =
     (case request_as srv resp_autoscaler (ReqGet autoscaler_kind req) io of
        (Inl e, io1) \<Rightarrow> ((0, if IsNotFound e then None else Some e), io1)
      | (Inr i, io1) \<Rightarrow> (case initialize srv r (i, io1) of
            (Some e, i1, io2) \<Rightarrow> ((0, Some e), io2)
          | (None, i1, io2) \<Rightarrow>
              if md_DeletionTimestamp (oca_meta i1) = None then reconcile_live srv lib r (i1, io2)
              else reconcile_deleting srv lib r (i1, io2)))"

text \<open>The watch on machines: which resource a machine event belongs to.\<close>

definition requestsForOCIMachine ::
    "'w server \<Rightarrow> OCIClusterAutoscalerReconciler \<Rightarrow> objmeta option \<Rightarrow> 'w io \<Rightarrow> nsname list \<times> 'w io" where
  "requestsForOCIMachine srv r obj io =
     (case obj of
        None \<Rightarrow> ([], io)
      | Some m \<Rightarrow> (case resolveSingletonOwnerName srv False io of
            (Inl e, io1) \<Rightarrow> ([], io1)
          | (Inr None, io1) \<Rightarrow> ([], io1)
          | (Inr (Some owner), io1) \<Rightarrow>
              (case request_as srv resp_autoscaler (ReqGet autoscaler_kind owner) io1 of
                 (Inl e, io2) \<Rightarrow> ([], io2)
               | (Inr i, io2) \<Rightarrow>
                   (if md_Namespace m \<noteq> managedResourceNamespaceFor i (namespaces_of r) then [] else [owner], io2))))"


section \<open>Requests of the stages\<close>

text \<open>
  What reconciling the stack may send: anything but deletions, approvals, uninstalling the release
  and updates of the resource itself other than of its status.
\<close>

fun stack_request :: "request \<Rightarrow> bool" where
  "stack_request (ReqDelete x) = False"
| "stack_request (ReqUpdate x) = False"
| "stack_request (ReqUpdateApproval c) = False"
| "stack_request (ReqHelm (HelmUninstall s)) = False"
| "stack_request _ = True"

abbreviation stack_sent :: "request \<times> response \<Rightarrow> bool" where
  "stack_sent \<equiv> \<lambda>(q, a). stack_request q"

text \<open>What cleanup may send: reads, deletions of anything but namespaces, and removing the release.\<close>

fun removal_request :: "request \<Rightarrow> bool" where
  "removal_request (ReqDelete x) = (\<not> is_namespace x)"
| "removal_request (ReqHelm (HelmUninstall s)) = True"
| "removal_request q = (read_only q \<or> helm_lookup q)"

abbreviation removal_sent :: "request \<times> response \<Rightarrow> bool" where
  "removal_sent \<equiv> \<lambda>(q, a). removal_request q"

text \<open>What a stage may send: moreover, no status that says \<open>Ready\<close>.\<close>

fun stage_request :: "request \<Rightarrow> bool" where
  "stage_request (ReqStatusUpdate (OAutoscaler x)) = (\<not> conditionIsTrue x ConditionReady)"
| "stage_request q = stack_request q"

abbreviation stage_sent :: "request \<times> response \<Rightarrow> bool" where
  "stage_sent \<equiv> \<lambda>(q, a). stage_request q"

lemma stage_is_stack: "stage_request q \<Longrightarrow> stack_request q"
  by (cases q rule: stage_request.cases) auto

lemma request_classes:
  "provisioning q \<Longrightarrow> stage_request q" "read_only q \<Longrightarrow> stage_request q" "helm_lookup q \<Longrightarrow> stage_request q"
  "read_only q \<Longrightarrow> removal_request q" "helm_lookup q \<Longrightarrow> removal_request q" "cleanup_request q \<Longrightarrow> removal_request q"
  by (cases q rule: stage_request.cases; simp; fail | cases q rule: helm_lookup.cases; simp; fail |
      cases q rule: removal_request.cases; simp; fail)+

lemma emits_classes:
  "emits (\<lambda>(q, a). provisioning q) io io' \<Longrightarrow> emits stage_sent io io'"
  "emits (\<lambda>(q, a). read_only q) io io' \<Longrightarrow> emits stage_sent io io'"
  "emits looks io io' \<Longrightarrow> emits stage_sent io io'"
  "emits (\<lambda>(q, a). read_only q) io io' \<Longrightarrow> emits removal_sent io io'"
  "emits looks io io' \<Longrightarrow> emits removal_sent io io'"
  "emits (\<lambda>(q, a). cleanup_request q) io io' \<Longrightarrow> emits removal_sent io io'"
  by (erule emits_mono; auto dest: request_classes)+

text \<open>A stage that only sends what \<open>P\<close> permits.\<close>

definition sends :: "(request \<times> response \<Rightarrow> bool) \<Rightarrow> ('w, 'a) stage \<Rightarrow> bool" where
  "sends P m \<longleftrightarrow> (\<forall>i io. emits P io (snd (snd (m (i, io)))))"

lemma sendsI: "(\<And>i io r i' io'. m (i, io) = (r, (i', io')) \<Longrightarrow> emits P io io') \<Longrightarrow> sends P m"
  by (auto simp: sends_def) (metis prod.collapse)

lemma sendsD: "sends P m \<Longrightarrow> m (i, io) = (r, (i', io')) \<Longrightarrow> emits P io io'"
  unfolding sends_def by (metis snd_conv)

lemma sends_and_then:
  assumes "sends P m" and "\<And>a. sends P (f a)"
  shows "sends P (and_then m f)"
proof (rule sendsI)
  fix i io r i' io'
  assume run: "and_then m f (i, io) = (r, (i', io'))"
  obtain r1 i1 io1 where m: "m (i, io) = (r1, (i1, io1))" by (metis prod.collapse)
  with assms(1) have e: "emits P io io1" by (rule sendsD)
  show "emits P io io'"
  proof (cases r1)
    case (Inl res)
    with run m e show ?thesis by (simp add: and_then_def)
  next
    case (Inr a)
    with run m have "f a (i1, io1) = (r, (i', io'))" by (simp add: and_then_def)
    with e show ?thesis using sendsD [OF assms(2)] emits_trans by blast
  qed
qed

lemma record_emits:
  "setConditionAndRecord hr srv i ct st reason message io = (i', io') \<Longrightarrow> emits P io io'"
  "report hr srv ct st reason message (i, io) = (x, i', io') \<Longrightarrow> emits P io io'"
  "give_up hr srv ct st reason message res (i, io) = (y, i', io') \<Longrightarrow> emits P io io'"
  "setReadyConditionFromFailedStage hr srv i io = (b, i', io') \<Longrightarrow> emits P io io'"
  "setAggregateReadyCondition hr srv i io = (i', io') \<Longrightarrow> emits P io io'"
  by (auto simp: report_def give_up_def setAggregateReadyCondition_def setReadyConditionFromFailedStage_def Let_def
      case_prod_unfold split: option.splits if_splits dest!: arg_cong [where f = snd] intro!: emits_same_log)

lemma Status_Update_log:
  "Status_Update srv i io = (r, i', io') \<Longrightarrow> \<exists>a. io_log io' = io_log io @ [(ReqStatusUpdate (OAutoscaler i), a)]"
  by (auto simp: Status_Update_def split: prod.splits sum.splits dest!: request_as_log)

lemma Status_Update_emits:
  "Status_Update srv i io = (r, i', io') \<Longrightarrow> \<not> conditionIsTrue i ConditionReady \<Longrightarrow> emits stage_sent io io'"
  "Status_Update srv i io = (r, i', io') \<Longrightarrow> emits stack_sent io io'"
  by (auto simp: emits_def dest!: Status_Update_log)

lemma checkDeploymentAvailable_emits:
  "checkDeploymentAvailable srv ns n io = (r, io') \<Longrightarrow> emits (\<lambda>(q, a). read_only q) io io'"
  by (auto simp: checkDeploymentAvailable_def split: prod.splits sum.splits intro!: emits_request_as)

lemma checkCAPIInstallation_emits:
  "checkCAPIInstallation srv r io = (b, io') \<Longrightarrow> emits (\<lambda>(q, a). read_only q) io io'"
  by (auto simp: checkCAPIInstallation_def split: prod.splits option.splits
      dest!: checkDeploymentAvailable_emits intro: emits_trans)

lemma clusterNameFor_emits:
  "clusterNameFor srv i io = (r, io') \<Longrightarrow> emits (\<lambda>(q, a). read_only q) io io'"
  by (auto simp: clusterNameFor_def Let_def split: if_splits option.splits dest: discovery_read_only)

lemma applied_classes:
  "helm_apply q \<Longrightarrow> stage_request q" "helm_removal q \<Longrightarrow> removal_request q" "marking q \<Longrightarrow> stage_request q"
  by (cases q rule: helm_apply.cases; simp; fail | cases q rule: helm_removal.cases; simp; fail |
      erule marking.cases; auto dest: request_classes)+

lemma InstallAutoscaler_emits: "InstallAutoscaler srv y i v io = (r, io') \<Longrightarrow> emits stage_sent io io'"
  by (drule InstallAutoscaler_sends, erule emits_mono) (auto dest: applied_classes)

lemma RemoveAutoscaler_emits: "RemoveAutoscaler srv v io = (r, io') \<Longrightarrow> emits removal_sent io io'"
  by (drule RemoveAutoscaler_sends, erule emits_mono) (auto dest: applied_classes)

lemma markExisting_emits: "markExistingClusterControlPlaneInitialized f srv ns c io = (r, io') \<Longrightarrow> emits stage_sent io io'"
  by (drule markExisting_sends, erule emits_mono) (auto dest: applied_classes)

lemmas component_emits = polite_components [THEN reconcileComponents_emits, THEN emits_classes(1)]
  polite_autoscaler [THEN reconcileComponents_emits, THEN emits_classes(1)]

lemmas read_emits = checkDeploymentAvailable_emits [THEN emits_classes(2)] checkCAPIInstallation_emits [THEN emits_classes(2)]
  clusterNameFor_emits [THEN emits_classes(2)] SetAutoScalingConfig_read_only [THEN emits_classes(2)]

lemma recordD:
  "setConditionAndRecord hr srv i ct st reason message io = (i', io') \<Longrightarrow>
   i' = setAutoscalerCondition (srv_now srv (io_world io)) i ct st reason message \<and> io_log io' = io_log io"
  "report hr srv ct st reason message (i, io) = (x, i', io') \<Longrightarrow>
   x = Inr () \<and> i' = setAutoscalerCondition (srv_now srv (io_world io)) i ct st reason message \<and> io_log io' = io_log io"
  "give_up hr srv ct st reason message res (i, io) = (y, i', io') \<Longrightarrow>
   y = Inl res \<and> i' = setAutoscalerCondition (srv_now srv (io_world io)) i ct st reason message \<and> io_log io' = io_log io"
  by (auto simp: report_def give_up_def setConditionAndRecord_def Let_def recordEvent_def split: if_splits)

lemma failed_after_set:
  "ct \<in> set stage_conditions \<Longrightarrow>
   firstFalseCondition (setAutoscalerCondition now i ct ConditionFalse reason message) stage_conditions \<noteq> None"
  using find_set_condition_same [of now i ct ConditionFalse reason message]
  by (auto simp: firstFalse_None_iff)

lemma stage_condition_members [simp]:
  "ConditionPolicyAccepted \<in> set stage_conditions" "ConditionProvidersReady \<in> set stage_conditions"
  "ConditionAutoscalerReady \<in> set stage_conditions" "ConditionScalingResourcesReady \<in> set stage_conditions"
  by (simp_all add: stage_conditions_def)

lemma failed_stage_kept:
  "setReadyConditionFromFailedStage hr srv i io = (b, i', io') \<Longrightarrow>
   firstFalseCondition i' stage_conditions = firstFalseCondition i stage_conditions \<and>
   b = (firstFalseCondition i stage_conditions \<noteq> None) \<and> (b \<longrightarrow> \<not> conditionIsTrue i' ConditionReady) \<and>
   (\<not> b \<longrightarrow> i' = i) \<and> io_log io' = io_log io"
proof -
  have "firstFalseCondition (setAutoscalerCondition now j ConditionReady st x y) stage_conditions =
      firstFalseCondition j stage_conditions" for now j st x y
    by (auto simp: stage_conditions_def split: option.splits)
  then show "setReadyConditionFromFailedStage hr srv i io = (b, i', io') \<Longrightarrow> ?thesis"
    by (auto simp: setReadyConditionFromFailedStage_def Let_def split: option.splits prod.splits dest!: recordD(1))
qed

lemma policy_rejected_run:
  assumes "validate i (rc_AutoScalingConfig r) = Some e" and "policy_stage srv r (i, io) = (x, (i', io'))"
  obtains j io1 c where "Status_Update srv j io1 = (c, i', io')" and "io_log io1 = io_log io"
    and "\<not> conditionIsTrue j ConditionReady" and "firstFalseCondition j stage_conditions \<noteq> None"
    and "x = Inl (0, Some (case c of None \<Rightarrow> e | Some u \<Rightarrow>
      Joined [e, Wrapf ''failed to update status after policy validation failure: '' u]))"
proof -
  from assms obtain i1 io1 i2 io2 c b k where
    r1: "setConditionAndRecord (rc_hasRecorder r) srv k ConditionPolicyAccepted ConditionFalse ReasonPolicyRejected
        (''Autoscaler policy rejected: '' @ Error e) io = (i1, io1)"
    and r2: "setReadyConditionFromFailedStage (rc_hasRecorder r) srv i1 io1 = (b, i2, io2)"
    and u: "Status_Update srv i2 io2 = (c, i', io')"
    and x: "x = Inl (0, Some (case c of None \<Rightarrow> e | Some u \<Rightarrow>
      Joined [e, Wrapf ''failed to update status after policy validation failure: '' u]))"
    by (auto simp: policy_stage_def Let_def split: option.splits prod.splits)
  have "firstFalseCondition i1 stage_conditions \<noteq> None"
    using recordD(1) [OF r1] failed_after_set by auto
  with u x failed_stage_kept [OF r2] recordD(1) [OF r1] show ?thesis by (intro that [of i2 io2 c]) auto
qed

lemma policy_stage_sends: "sends stage_sent (policy_stage srv r)"
proof (rule sendsI)
  fix i io x i' io' assume m: "policy_stage srv r (i, io) = (x, (i', io'))"
  show "emits stage_sent io io'"
  proof (cases "validate i (rc_AutoScalingConfig r)")
    case None
    with m show ?thesis by (auto simp: policy_stage_def dest!: record_emits)
  next
    case (Some e)
    show ?thesis
    proof (rule policy_rejected_run [OF Some m])
      fix j io1 c assume "Status_Update srv j io1 = (c, i', io')" "io_log io1 = io_log io" "\<not> conditionIsTrue j ConditionReady"
      from Status_Update_emits(1) [OF this(1,3)] this(2) show ?thesis by (simp add: emits_def)
    qed
  qed
qed

lemma capi_stages_send: "sends stage_sent (capi_stage srv r)" "sends stage_sent (capoci_stage srv r)"
  by (rule sendsI; auto simp: capi_stage_def capoci_stage_def Let_def split: option.splits prod.splits if_splits
      dest!: component_emits record_emits [where P = stage_sent] intro: emits_trans)+

lemma rollout_stage_sends: "sends stage_sent (rollout_stage srv r)"
  by (rule sendsI) (auto simp: rollout_stage_def Let_def split: option.splits prod.splits if_splits
      dest!: read_emits record_emits [where P = stage_sent] intro: emits_trans)

lemma autoscaler_stage_sends: "sends stage_sent (autoscaler_stage srv lib r)"
  by (rule sendsI) (auto simp: autoscaler_stage_def Let_def split: option.splits prod.splits
      dest!: component_emits read_emits InstallAutoscaler_emits record_emits [where P = stage_sent] intro: emits_trans)

lemma config_stage_sends: "sends stage_sent (config_stage srv r)"
  by (rule sendsI) (auto simp: config_stage_def split: option.splits prod.splits sum.splits
      dest!: read_emits record_emits [where P = stage_sent] intro: emits_trans)

lemma scaling_stage_sends: "sends stage_sent (scaling_stage srv lib r x)"
  by (rule sendsI) (auto simp: scaling_stage_def Let_def split: option.splits prod.splits
      dest!: component_emits markExisting_emits record_emits [where P = stage_sent]
        emits_call [where P = stage_sent] intro: emits_trans)

lemmas stages_send = policy_stage_sends capi_stages_send rollout_stage_sends autoscaler_stage_sends config_stage_sends
  scaling_stage_sends

lemma reconcileOCICapiStack_emits:
  assumes "reconcileOCICapiStack srv lib r (i, io) = (res, (i', io'))"
  shows "emits stage_sent io io'"
proof -
  define m where "m = and_then (policy_stage srv r) (\<lambda>_.
           and_then (capi_stage srv r) (\<lambda>_.
           and_then (capoci_stage srv r) (\<lambda>_.
           and_then (rollout_stage srv r) (\<lambda>_.
           and_then (autoscaler_stage srv lib r) (\<lambda>_.
           and_then (config_stage srv r) (scaling_stage srv lib r))))))"
  have "sends stage_sent m" unfolding m_def by (intro sends_and_then stages_send)
  moreover obtain x where "m (i, io) = (x, (i', io'))"
    using assms by (auto simp: reconcileOCICapiStack_def m_def [symmetric] split: prod.splits sum.splits)
  ultimately show ?thesis by (rule sendsD)
qed


section \<open>What the stages establish\<close>

text \<open>
  A triple for stages: started in a state with \<open>A\<close>, the stage either goes on with a value and a
  state in \<open>B\<close> or returns early with a result and a state in \<open>E\<close>.
\<close>

definition ensures ::
    "('w ctrl_state \<Rightarrow> bool) \<Rightarrow> ('w, 'a) stage \<Rightarrow> ('w ctrl_state \<Rightarrow> bool) \<Rightarrow> (ctrl_result \<Rightarrow> OCIClusterAutoscaler \<Rightarrow> bool) \<Rightarrow> bool" where
  "ensures A m B E \<longleftrightarrow> (\<forall>s. A s \<longrightarrow> (case m s of (Inl res, s') \<Rightarrow> E res (fst s') | (Inr a, s') \<Rightarrow> B s'))"

lemma ensuresI:
  "(\<And>i io res i' io'. A (i, io) \<Longrightarrow> m (i, io) = (Inl res, (i', io')) \<Longrightarrow> E res i') \<Longrightarrow>
   (\<And>i io a i' io'. A (i, io) \<Longrightarrow> m (i, io) = (Inr a, (i', io')) \<Longrightarrow> B (i', io')) \<Longrightarrow> ensures A m B E"
  unfolding ensures_def by (fastforce split: prod.split sum.split)

lemma ensuresD:
  "ensures A m B E \<Longrightarrow> A s \<Longrightarrow> case m s of (Inl res, s') \<Rightarrow> E res (fst s') | (Inr a, s') \<Rightarrow> B s'"
  unfolding ensures_def by (erule allE, erule mp)

lemma ensures_and_then:
  assumes "ensures A m B E" and "\<And>a. ensures B (f a) C E"
  shows "ensures A (and_then m f) C E"
  unfolding ensures_def
proof (intro allI impI)
  fix s assume "A s"
  with assms(1) have m: "case m s of (Inl res, s') \<Rightarrow> E res (fst s') | (Inr a, s') \<Rightarrow> B s'" by (rule ensuresD)
  have f: "B s' \<Longrightarrow> case f a s' of (Inl res, s'') \<Rightarrow> E res (fst s'') | (Inr b, s'') \<Rightarrow> C s''" for a s'
    using assms(2) by (rule ensuresD)
  show "case and_then m f s of (Inl res, s') \<Rightarrow> E res (fst s') | (Inr a, s') \<Rightarrow> C s'"
  proof -
    obtain x s' where "m s = (x, s')" by (cases "m s")
    with m f show ?thesis by (cases x) (simp_all add: and_then_def)
  qed
qed

definition deployment_available :: "Deployment \<Rightarrow> bool" where
  "deployment_available d \<longleftrightarrow>
     (\<exists>c. GetDeploymentCondition (dep_Conditions d) ''Available'' = Some c \<and> dc_Status c = ConditionTrue)"

text \<open>The answers of a log show that a deployment is available.\<close>

definition seen_available :: "(request \<times> response) list \<Rightarrow> string \<Rightarrow> string \<Rightarrow> bool" where
  "seen_available log namespace name \<longleftrightarrow>
     (\<exists>d. (ReqGet deployment_kind \<lparr>nn_Namespace = namespace, nn_Name = name\<rparr>, RespObj (ODeployment d)) \<in> set log \<and>
        deployment_available d)"

text \<open>The facts the pipeline has established after a number of stages, with evidence since log position \<open>n\<close>.\<close>

definition track ::
    "OCIClusterAutoscalerReconciler \<Rightarrow> OCIClusterAutoscaler \<Rightarrow> nat \<Rightarrow> nat \<Rightarrow> 'w ctrl_state \<Rightarrow> bool" where
  "track r i0 n k = (\<lambda>(i, io).
     let log = drop n (io_log io); values = getAutoscalerDeploymentValues i0 (namespaces_of r) in
     oca_Spec i = oca_Spec i0 \<and> oca_meta i = oca_meta i0 \<and> n \<le> length (io_log io) \<and>
     (1 \<le> k \<longrightarrow> validate i0 (rc_AutoScalingConfig r) = None \<and> conditionIsTrue i ConditionPolicyAccepted) \<and>
     (2 \<le> k \<longrightarrow> st_CAPIInstalled (oca_Status i) \<and> conditionIsTrue i ConditionProvidersReady \<and>
        seen_available log (CAPIProviderNamespace (namespaces_of r)) CAPIDeploymentName \<and>
        seen_available log (CAPOCIProviderNamespace (namespaces_of r)) CAPOCIDeploymentName) \<and>
     (3 \<le> k \<longrightarrow> st_ClusterAutoscalerDeployed (oca_Status i) \<and> conditionIsTrue i ConditionAutoscalerReady \<and>
        seen_available log (dv_Namespace values) (dv_Name values)) \<and>
     (4 \<le> k \<longrightarrow> conditionIsTrue i ConditionScalingResourcesReady))"

text \<open>A server that stores the status it is sent: the answer to a status update carries it.\<close>

definition status_persisted :: "'w server \<Rightarrow> bool" where
  "status_persisted srv \<longleftrightarrow> (\<forall>i w i' w'.
     srv_handle srv (ReqStatusUpdate (OAutoscaler i)) w = (RespObj (OAutoscaler i'), w') \<longrightarrow> oca_Status i' = oca_Status i)"

text \<open>An early return: with an error some stage is marked as failed, without one the stack is not ready.\<close>

definition stopped :: "'w server \<Rightarrow> ctrl_result \<Rightarrow> OCIClusterAutoscaler \<Rightarrow> bool" where
  "stopped srv = (\<lambda>(requeue, err) i. case err of
      None \<Rightarrow> requeue = 20 \<and> \<not> autoscalerStackReady i
    | Some e \<Rightarrow> requeue = 0 \<and> (status_persisted srv \<longrightarrow> firstFalseCondition i stage_conditions \<noteq> None))"

lemma seen_grows: "emits P io io' \<Longrightarrow> seen_available (drop n (io_log io)) a b \<Longrightarrow> seen_available (drop n (io_log io')) a b"
  by (auto simp: emits_def seen_available_def)

lemma track_emits:
  assumes "emits P io io'" and "track r i0 n k (i, io)"
  shows "track r i0 n k (i, io')"
  using assms(2) seen_grows [OF assms(1), of n] assms(1) by (auto simp: track_def Let_def emits_def)

lemma stopped_simps:
  "ct \<in> set stage_conditions \<Longrightarrow>
   stopped srv (0, Some e) (setAutoscalerCondition now i ct ConditionFalse reason message)"
  "ct \<in> set stage_conditions \<Longrightarrow> st \<noteq> ConditionTrue \<Longrightarrow>
   stopped srv (20, None) (setAutoscalerCondition now i ct st reason message)"
  using failed_after_set [of ct]
  by (auto simp: stopped_def autoscalerStackReady_def stage_conditions_def)

lemma spec_congs:
  assumes "oca_Spec i = oca_Spec j"
  shows "validate i c = validate j c" "getAutoscalerDeploymentValues i ns = getAutoscalerDeploymentValues j ns"
  using assms
  by (simp_all add: validate_def ValidateMinMaxNodes_def NodePoolName_def poolIdentifier_def Let_def
      getAutoscalerDeploymentValues_def GetAutoscalerDeploymentValues_def managedResourceNamespaceFor_def)

lemma checkDeployment_seen:
  assumes "checkDeploymentAvailable srv ns name io = (None, io')" and "n \<le> length (io_log io)"
  shows "seen_available (drop n (io_log io')) ns name"
proof -
  let ?q = "ReqGet deployment_kind \<lparr>nn_Namespace = ns, nn_Name = name\<rparr>"
  from assms(1) obtain d where d: "request_as srv resp_deployment ?q io = (Inr d, io')" and "deployment_available d"
    by (auto simp: checkDeploymentAvailable_def deployment_available_def split: prod.splits sum.splits option.splits if_splits)
  from request_as_log [OF d(1)] obtain a where "io_log io' = io_log io @ [(?q, a)]" "expect resp_deployment a = Inr d" by metis
  moreover then have "a = RespObj (ODeployment d)"
    by (cases a rule: resp_deployment.cases) (auto simp: expect_def)
  ultimately show ?thesis using assms(2) \<open>deployment_available d\<close> by (auto simp: seen_available_def)
qed


lemma Status_Update_answer:
  assumes "Status_Update srv i io = (c, i', io')" and "status_persisted srv"
  shows "oca_Status i' = oca_Status i"
proof (cases c)
  case (Some e)
  with assms(1) show ?thesis by (auto simp: Status_Update_def split: prod.splits sum.splits)
next
  case None
  with assms(1) have "request_as srv resp_autoscaler (ReqStatusUpdate (OAutoscaler i)) io = (Inr i', io')"
    by (auto simp: Status_Update_def split: prod.splits sum.splits)
  then obtain a w where a: "srv_handle srv (ReqStatusUpdate (OAutoscaler i)) (io_world io) = (a, w)" "expect resp_autoscaler a = Inr i'"
    by (auto simp: request_as_def call_def Let_def split: prod.splits)
  then have "a = RespObj (OAutoscaler i')" by (cases a rule: resp_autoscaler.cases) (auto simp: expect_def)
  with a(1) assms(2) show ?thesis by (auto simp: status_persisted_def)
qed

lemma firstFalse_cong: "oca_Status i = oca_Status j \<Longrightarrow> firstFalseCondition i ts = firstFalseCondition j ts"
  by (induction ts) (auto split: option.splits)

lemma policy_stage_ensures: "ensures (track r i0 n 0) (policy_stage srv r) (track r i0 n 1) (stopped srv)"
proof (rule ensuresI)
  fix i io a i' io' assume "track r i0 n 0 (i, io)" and "policy_stage srv r (i, io) = (Inr a, (i', io'))"
  then show "track r i0 n 1 (i', io')"
    by (auto simp: policy_stage_def track_def Let_def spec_congs [of i i0] split: option.splits prod.splits dest!: recordD)
next
  fix i io res i' io' assume m: "policy_stage srv r (i, io) = (Inl res, (i', io'))"
  then obtain e where v: "validate i (rc_AutoScalingConfig r) = Some e"
    by (auto simp: policy_stage_def split: option.splits dest!: recordD)
  show "stopped srv res i'"
  proof (rule policy_rejected_run [OF v m])
    fix j io1 c assume u: "Status_Update srv j io1 = (c, i', io')" and "firstFalseCondition j stage_conditions \<noteq> None"
      and "Inl res = Inl (0, Some (case c of None \<Rightarrow> e | Some u \<Rightarrow>
        Joined [e, Wrapf ''failed to update status after policy validation failure: '' u]))"
    then show "stopped srv res i'"
      using firstFalse_cong [OF Status_Update_answer [OF u]] by (auto simp: stopped_def)
  qed
qed

lemma capi_stage_ensures: "ensures (track r i0 n 1) (capi_stage srv r) (track r i0 n 1) (stopped srv)"
proof (rule ensuresI)
  fix i io a i' io' assume t: "track r i0 n 1 (i, io)" and m: "capi_stage srv r (i, io) = (Inr a, (i', io'))"
  from m obtain io1 where "emits stage_sent io io1" and
    "io_log io' = io_log io1" "i' = i \<or> (\<exists>now x y. i' = setAutoscalerCondition now i ConditionProvidersReady ConditionUnknown x y)"
    by (auto simp: capi_stage_def Let_def split: option.splits prod.splits if_splits dest!: recordD component_emits)
  with track_emits [OF _ t] show "track r i0 n 1 (i', io')" by (auto simp: track_def Let_def)
qed (auto simp: capi_stage_def Let_def stopped_simps split: option.splits prod.splits if_splits dest!: recordD)

lemma capoci_stage_ensures: "ensures (track r i0 n 1) (capoci_stage srv r) (track r i0 n 1) (stopped srv)"
  by (rule ensuresI) (auto simp: capoci_stage_def stopped_simps split: option.splits prod.splits
      dest!: recordD component_emits intro: track_emits)

lemma checkCAPI_cases:
  assumes "checkCAPIInstallation srv r io = ((b, err), io')"
  shows "b \<longleftrightarrow> err = None" and "b \<Longrightarrow> n \<le> length (io_log io) \<Longrightarrow>
     seen_available (drop n (io_log io')) (CAPIProviderNamespace (namespaces_of r)) CAPIDeploymentName \<and>
     seen_available (drop n (io_log io')) (CAPOCIProviderNamespace (namespaces_of r)) CAPOCIDeploymentName"
proof -
  show "b \<longleftrightarrow> err = None" using assms by (auto simp: checkCAPIInstallation_def split: prod.splits option.splits)
  assume b: "b" and n: "n \<le> length (io_log io)"
  with assms obtain io1 where
    1: "checkDeploymentAvailable srv (CAPIProviderNamespace (namespaces_of r)) CAPIDeploymentName io = (None, io1)" and
    2: "checkDeploymentAvailable srv (CAPOCIProviderNamespace (namespaces_of r)) CAPOCIDeploymentName io1 = (None, io')"
    by (auto simp: checkCAPIInstallation_def split: prod.splits option.splits)
  from checkDeploymentAvailable_emits [OF 1] n have "n \<le> length (io_log io1)" by (auto simp: emits_def)
  with checkDeployment_seen [OF 1 n] checkDeployment_seen [OF 2] seen_grows [OF checkDeploymentAvailable_emits [OF 2]]
  show "seen_available (drop n (io_log io')) (CAPIProviderNamespace (namespaces_of r)) CAPIDeploymentName \<and>
     seen_available (drop n (io_log io')) (CAPOCIProviderNamespace (namespaces_of r)) CAPOCIDeploymentName" by blast
qed

lemma rollout_stage_ensures: "ensures (track r i0 n 1) (rollout_stage srv r) (track r i0 n 2) (stopped srv)"
proof (rule ensuresI)
  fix i io a i' io' assume t: "track r i0 n 1 (i, io)" and m: "rollout_stage srv r (i, io) = (Inr a, (i', io'))"
  from m obtain io1 err now x y where c: "checkCAPIInstallation srv r io = ((True, err), io1)" and
    "io_log io' = io_log io1" "i' = setAutoscalerCondition now (set_CAPIInstalled True i) ConditionProvidersReady ConditionTrue x y"
    by (auto simp: rollout_stage_def Let_def split: option.splits prod.splits if_splits dest!: recordD)
  with t track_emits [OF checkCAPIInstallation_emits [OF c] t] checkCAPI_cases(2) [OF c, of n]
  show "track r i0 n 2 (i', io')" by (auto simp: track_def Let_def)
qed (auto simp: rollout_stage_def Let_def stopped_simps split: option.splits prod.splits if_splits dest!: recordD)

lemma autoscaler_stage_ensures:
  "ensures (track r i0 n 2) (autoscaler_stage srv lib r) (track r i0 n 3) (stopped srv)"
proof (rule ensuresI)
  fix i io a i' io' assume t: "track r i0 n 2 (i, io)" and m: "autoscaler_stage srv lib r (i, io) = (Inr a, (i', io'))"
  let ?v = "getAutoscalerDeploymentValues i (namespaces_of r)"
  from m obtain io0 io1 io2 now x y where e: "reconcileComponents srv (GetComponents_autoscaler ?v i) io = (None, io0)"
      "InstallAutoscaler srv (lib_yaml lib) i ?v io0 = (None, io1)"
    and c: "checkDeploymentAvailable srv (dv_Namespace ?v) (dv_Name ?v) io1 = (None, io2)"
    and i': "io_log io' = io_log io2" "i' = setAutoscalerCondition now (set_Deployed True i) ConditionAutoscalerReady ConditionTrue x y"
    by (auto simp: autoscaler_stage_def Let_def split: option.splits prod.splits dest!: recordD)
  have t1: "track r i0 n 2 (i, io1)"
    using component_emits(4) [OF e(1)] InstallAutoscaler_emits [OF e(2)] t by (blast intro: track_emits)
  then have "seen_available (drop n (io_log io2)) (dv_Namespace ?v) (dv_Name ?v)" and "oca_Spec i = oca_Spec i0"
    using checkDeployment_seen [OF c, of n] by (auto simp: track_def Let_def)
  with i' track_emits [OF checkDeploymentAvailable_emits [OF c] t1] show "track r i0 n 3 (i', io')"
    by (auto simp: track_def Let_def spec_congs [of i i0])
qed (auto simp: autoscaler_stage_def Let_def stopped_simps split: option.splits prod.splits dest!: recordD)

lemma config_stage_ensures: "ensures (track r i0 n 3) (config_stage srv r) (track r i0 n 3) (stopped srv)"
proof (rule ensuresI)
  fix i io a i' io' assume t: "track r i0 n 3 (i, io)" and m: "config_stage srv r (i, io) = (Inr a, (i', io'))"
  then have "i' = i" by (auto simp: config_stage_def split: option.splits prod.splits sum.splits dest!: recordD)
  with track_emits [OF sendsD [OF config_stage_sends m] t] show "track r i0 n 3 (i', io')" by simp
qed (auto simp: config_stage_def stopped_simps split: option.splits prod.splits sum.splits dest!: recordD)

lemma scaling_stage_ensures: "ensures (track r i0 n 3) (scaling_stage srv lib r x) (track r i0 n 4) (stopped srv)"
proof (rule ensuresI)
  fix i io a i' io' assume t: "track r i0 n 3 (i, io)" and m: "scaling_stage srv lib r x (i, io) = (Inr a, (i', io'))"
  then obtain now y z where "i' = setAutoscalerCondition now i ConditionScalingResourcesReady ConditionTrue y z"
    by (auto simp: scaling_stage_def Let_def split: option.splits prod.splits dest!: recordD)
  with track_emits [OF sendsD [OF scaling_stage_sends m] t] show "track r i0 n 4 (i', io')"
    by (auto simp: track_def Let_def)
qed (auto simp: scaling_stage_def Let_def stopped_simps split: option.splits prod.splits dest!: recordD)

lemma stack_ensures:
  assumes "reconcileOCICapiStack srv lib r (i, io) = (res, (i', io'))"
  shows "res = (kubeconfigSecretRefreshInterval, None) \<and> track r i (length (io_log io)) 4 (i', io') \<or> stopped srv res i'"
proof -
  let ?n = "length (io_log io)"
  define m where "m = and_then (policy_stage srv r) (\<lambda>_.
           and_then (capi_stage srv r) (\<lambda>_.
           and_then (capoci_stage srv r) (\<lambda>_.
           and_then (rollout_stage srv r) (\<lambda>_.
           and_then (autoscaler_stage srv lib r) (\<lambda>_.
           and_then (config_stage srv r) (scaling_stage srv lib r))))))"
  have "ensures (track r i ?n 0) m (track r i ?n 4) (stopped srv)"
    unfolding m_def
    by (rule ensures_and_then [OF policy_stage_ensures] ensures_and_then [OF capi_stage_ensures]
        ensures_and_then [OF capoci_stage_ensures] ensures_and_then [OF rollout_stage_ensures]
        ensures_and_then [OF autoscaler_stage_ensures] ensures_and_then [OF config_stage_ensures] scaling_stage_ensures)+
  moreover have "track r i ?n 0 (i, io)" by (simp add: track_def)
  ultimately have "case m (i, io) of (Inl x, s') \<Rightarrow> stopped srv x (fst s') | (Inr a, s') \<Rightarrow> track r i ?n 4 s'"
    by (rule ensuresD)
  then show ?thesis
    using assms unfolding reconcileOCICapiStack_def m_def [symmetric] by (auto split: prod.splits sum.splits)
qed

end
