(* ===== verification/Lifecycle.thy ===== *)
theory Lifecycle
  imports Reconcile
begin

text \<open>
  The life of the resource under \<open>Reconcile\<close>: which requests each branch sends, and the guarantees about
  readiness, singleton ownership, the finalizer and cleanup.
\<close>

section \<open>Requests of a reconcile\<close>

lemma sent_trans: "emits P io io1 \<Longrightarrow> emits Q io1 io2 \<Longrightarrow> sent io io2 = sent io io1 @ sent io1 io2"
  by (auto simp: emits_def sent_def)

lemma sent_same_log: "io_log io' = io_log io \<Longrightarrow> sent io io' = []"
  by (simp add: sent_def)

lemma Status_Update_sent:
  "Status_Update srv i io = (c, i', io') \<Longrightarrow> \<exists>a. sent io io' = [(ReqStatusUpdate (OAutoscaler i), a)]"
  by (auto simp: sent_def dest!: Status_Update_log)

lemma block_conflict_sent:
  assumes "block_conflict srv r owner (i, io) = (res, io')"
  shows "\<exists>x a. sent io io' = [(ReqStatusUpdate (OAutoscaler x), a)] \<and> oca_meta x = oca_meta i \<and> oca_Phase x = PhaseBlocked \<and>
    \<not> conditionIsTrue x ConditionReady \<and> fst res = 60"
proof -
  let ?m = "''OCIClusterAutoscaler is singleton; active owner is '' @ nn_Namespace owner @ ''/'' @ nn_Name owner"
  from assms obtain i1 io1 i2 io2 err i3 where
    1: "setConditionAndRecord (rc_hasRecorder r) srv (set_ObservedGeneration (set_Phase PhaseBlocked i)) ConditionPolicyAccepted
        ConditionFalse ReasonSingletonConflict ?m io = (i1, io1)" and
    2: "setConditionAndRecord (rc_hasRecorder r) srv i1 ConditionReady ConditionFalse ReasonSingletonConflict ?m io1 = (i2, io2)" and
    3: "Status_Update srv i2 io2 = (err, i3, io')" and res: "res = (60, err)"
    by (auto simp: block_conflict_def Let_def split: prod.splits)
  from Status_Update_log [OF 3] recordD(1) [OF 1] recordD(1) [OF 2] res show ?thesis
    by (auto simp: sent_def) (simp add: set_ObservedGeneration_def)
qed

lemma emits_stack: "emits stage_sent io io' \<Longrightarrow> emits stack_sent io io'"
  by (erule emits_mono) (auto dest: stage_is_stack)

lemma reconcile_stack_emits:
  "reconcile_stack srv lib r (i, io) = (res, io') \<Longrightarrow> emits stack_sent io io'"
  unfolding reconcile_stack_def Let_def
  by (auto split: prod.splits option.splits if_splits
      dest!: reconcileOCICapiStack_emits [THEN emits_stack] Status_Update_emits(2) record_emits [where P = stack_sent] intro: emits_trans)


text \<open>Requests about the resource itself: reads and updates of its status.\<close>

fun own_request :: "request \<Rightarrow> bool" where
  "own_request (ReqStatusUpdate (OAutoscaler x)) = True"
| "own_request q = read_only q"

abbreviation own_sent :: "request \<times> response \<Rightarrow> bool" where
  "own_sent \<equiv> \<lambda>(q, a). own_request q"

lemma own_classes: "read_only q \<Longrightarrow> own_request q" "own_request q \<Longrightarrow> stack_request q"
  by (cases q rule: own_request.cases; simp)+

lemma own_emits:
  "emits (\<lambda>(q, a). read_only q) io io' \<Longrightarrow> emits own_sent io io'"
  "Status_Update srv i io = (c, i', io') \<Longrightarrow> emits own_sent io io'"
  by (auto elim!: emits_mono simp: own_classes) (auto simp: emits_def dest!: Status_Update_log)

lemma initialize_emits: "initialize srv r (i, io) = (c, i', io') \<Longrightarrow> emits own_sent io io'"
  by (auto simp: initialize_def Let_def split: if_splits prod.splits
      dest!: own_emits(2) record_emits [where P = own_sent] intro: emits_trans)

text \<open>
  Evidence in the log of a run: what the list of resources says about the ownership of a resource, deleting
  resources included.
\<close>

definition elected_in :: "(request \<times> response) list \<Rightarrow> bool \<Rightarrow> OCIClusterAutoscaler \<Rightarrow> bool" where
  "elected_in log b i \<longleftrightarrow> (\<exists>items. (ReqList autoscaler_kind [] fmempty, RespList (map OAutoscaler items)) \<in> set log \<and>
     (b \<longleftrightarrow> map_option oca_key (selectSingletonOwner items True) = Some (oca_key i)))"

lemma evidence_mono:
  "elected_in log b i \<Longrightarrow> set log \<subseteq> set log' \<Longrightarrow> elected_in log' b i"
  unfolding elected_in_def by blast

lemma sent_subset:
  "emits P io io1 \<Longrightarrow> emits Q io1 io2 \<Longrightarrow> set (sent io io1) \<subseteq> set (sent io io2) \<and> set (sent io1 io2) \<subseteq> set (sent io io2)"
  by (auto simp: emits_def sent_def)

lemma get_answer:
  assumes "request_as srv resp_autoscaler q io = (Inr i, io')"
  shows "(q, RespObj (OAutoscaler i)) \<in> set (sent io io')"
proof -
  have "expect resp_autoscaler a = Inr i \<Longrightarrow> a = RespObj (OAutoscaler i)" for a
    by (cases a rule: resp_autoscaler.cases) (auto simp: expect_def)
  with request_as_log [OF assms] show ?thesis by (fastforce simp: sent_def)
qed

lemma Status_Update_stored:
  "Status_Update srv i io = (None, i', io') \<Longrightarrow> (ReqStatusUpdate (OAutoscaler i), RespObj (OAutoscaler i')) \<in> set (sent io io')"
  by (auto simp: Status_Update_def split: prod.splits sum.splits intro: get_answer)

lemma expect_autoscalers:
  assumes "expect (resp_items kobj_autoscaler) a = Inr items"
  shows "a = RespList (map OAutoscaler items)"
proof -
  from assms obtain xs where "a = RespList xs" "items = map (the \<circ> kobj_autoscaler) xs" "list_all (\<lambda>x. kobj_autoscaler x \<noteq> None) xs"
    by (auto simp: expect_Inr resp_items_def split: response.splits if_splits)
  moreover have "kobj_autoscaler x \<noteq> None \<Longrightarrow> OAutoscaler (the (kobj_autoscaler x)) = x" for x by (cases x) auto
  ultimately show ?thesis by (simp add: list_all_iff map_idI)
qed

text \<open>The part of a resource that status changes leave alone.\<close>

definition same_resource :: "OCIClusterAutoscaler \<Rightarrow> OCIClusterAutoscaler \<Rightarrow> bool" where
  "same_resource i j \<longleftrightarrow> oca_meta i = oca_meta j \<and> oca_Spec i = oca_Spec j"

lemma same_resource_status [simp]:
  "same_resource i i"
  "same_resource i (set_Phase p j) = same_resource i j" "same_resource i (set_ObservedGeneration j) = same_resource i j"
  "same_resource (setAutoscalerCondition now i ct st reason message) j = same_resource i j"
  by (simp_all add: same_resource_def set_Phase_def set_ObservedGeneration_def setAutoscalerCondition_def set_Conditions_def)

lemma same_resource_trans: "same_resource i j \<Longrightarrow> same_resource j k \<Longrightarrow> same_resource i k"
  by (simp add: same_resource_def)

lemma same_resource_record:
  "setConditionAndRecord hr srv i ct st reason message io = (i', io') \<Longrightarrow> same_resource i' i"
  by (auto dest!: recordD(1))

text \<open>A resource that came out of status updates of another, by the answers in the log.\<close>

inductive descends :: "(request \<times> response) list \<Rightarrow> OCIClusterAutoscaler \<Rightarrow> OCIClusterAutoscaler \<Rightarrow> bool" for log where
  descends_refl: "descends log i i"
| descends_update: "descends log i j \<Longrightarrow> same_resource x j \<Longrightarrow>
    (ReqStatusUpdate (OAutoscaler x), RespObj (OAutoscaler k)) \<in> set log \<Longrightarrow> descends log i k"

lemma descends_trans: "descends log j k \<Longrightarrow> descends log i j \<Longrightarrow> descends log i k"
  by (induction rule: descends.induct) (auto intro: descends.intros)

lemma descends_mono: "descends log i j \<Longrightarrow> set log \<subseteq> set log' \<Longrightarrow> descends log' i j"
  by (induction rule: descends.induct) (auto intro: descends.intros)

lemma Status_Update_descends:
  assumes "Status_Update srv x io = (None, k, io')" and "same_resource x j"
  shows "descends (sent io io') j k"
  using descends_update [OF descends_refl assms(2) Status_Update_stored [OF assms(1)]] .

lemma initialize_descends:
  assumes "initialize srv r (i, io) = (None, i', io')"
  shows "descends (sent io io') i i'"
proof -
  consider "i' = i" | i1 io1 where "setConditionAndRecord (rc_hasRecorder r) srv (set_Phase PhaseInitializing i) ConditionReady
      ConditionUnknown ReasonInitializing ''OCIClusterAutoscaler reconciliation has started'' io = (i1, io1)"
      "Status_Update srv i1 io1 = (None, i', io')"
    using assms by (auto simp: initialize_def Let_def split: if_splits prod.splits)
  then show ?thesis
  proof cases
    case 1
    then show ?thesis by (simp add: descends_refl)
  next
    case 2
    have "same_resource i1 i" using same_resource_record [OF 2(1)] by simp
    from Status_Update_descends [OF 2(2) this] recordD(1) [OF 2(1)] show ?thesis by (simp add: sent_def)
  qed
qed

text \<open>A resource the run works on: read from the server, possibly through status updates.\<close>

definition worked_on :: "(request \<times> response) list \<Rightarrow> nsname \<Rightarrow> OCIClusterAutoscaler \<Rightarrow> bool" where
  "worked_on log req i \<longleftrightarrow> (\<exists>j. (ReqGet autoscaler_kind req, RespObj (OAutoscaler j)) \<in> set log \<and> descends log j i)"

lemma worked_on_mono: "worked_on log req i \<Longrightarrow> set log \<subseteq> set log' \<Longrightarrow> worked_on log' req i"
  unfolding worked_on_def by (blast intro: descends_mono)

lemma worked_on_descends: "worked_on log req i \<Longrightarrow> descends log i j \<Longrightarrow> worked_on log req j"
  unfolding worked_on_def by (blast intro: descends_trans)

lemma isSingletonOwner_evidence:
  assumes "isSingletonOwner srv i io = (Inr b, io')"
  shows "elected_in (sent io io') b i"
proof -
  from assms obtain items where r: "request_as srv (resp_items kobj_autoscaler) (ReqList autoscaler_kind [] fmempty) io = (Inr items, io')"
    and b: "b \<longleftrightarrow> map_option oca_key (selectSingletonOwner items True) = Some (oca_key i)"
    by (auto simp: isSingletonOwner_def resolveSingletonOwnerName_def resolveSingletonOwner_def Let_def
        split: prod.splits sum.splits option.splits)
  from request_as_log [OF r] obtain a where l: "io_log io' = io_log io @ [(ReqList autoscaler_kind [] fmempty, a)]"
    and a: "expect (resp_items kobj_autoscaler) a = Inr items" by auto
  from l b show ?thesis unfolding expect_autoscalers [OF a] by (auto simp: elected_in_def sent_def)
qed

text \<open>A run either touches only the resource's status or hands over to the branch for live or deleting resources.\<close>

lemma Reconcile_run:
  assumes "Reconcile srv lib r req io = (res, io')"
  obtains "emits own_sent io io'"
  | i io1 where "emits own_sent io io1" "md_DeletionTimestamp (oca_meta i) = None" "reconcile_live srv lib r (i, io1) = (res, io')"
    "worked_on (sent io io1) req i"
  | i io1 where "emits own_sent io io1" "md_DeletionTimestamp (oca_meta i) \<noteq> None" "reconcile_deleting srv lib r (i, io1) = (res, io')"
    "worked_on (sent io io1) req i"
proof -
  obtain x io1 where g: "request_as srv resp_autoscaler (ReqGet autoscaler_kind req) io = (x, io1)"
    by (cases "request_as srv resp_autoscaler (ReqGet autoscaler_kind req) io")
  then have e: "emits own_sent io io1" by (rule emits_request_as) simp
  show ?thesis
  proof (cases x)
    case (Inl err)
    with assms g e that(1) show ?thesis by (auto simp: Reconcile_def)
  next
    case (Inr i)
    obtain c i1 io2 where c: "initialize srv r (i, io1) = (c, i1, io2)" by (cases "initialize srv r (i, io1)")
    note ei = initialize_emits [OF c]
    from e ei have e2: "emits own_sent io io2" by (rule emits_trans)
    have "c = None \<Longrightarrow> worked_on (sent io io2) req i1"
      using initialize_descends [of srv r i io1 i1 io2] c get_answer [OF g [unfolded Inr]] sent_subset [OF e ei]
      unfolding worked_on_def by (blast intro: descends_mono)
    then show ?thesis
      using assms g Inr c e2 that
      by (cases c) (auto simp: Reconcile_def split: if_splits)
  qed
qed

lemma Update_autoscaler_sent:
  "Update_autoscaler srv i io = (res, io') \<Longrightarrow> \<exists>a. io_log io' = io_log io @ [(ReqUpdate (OAutoscaler i), a)]"
  by (auto simp: Update_autoscaler_def split: prod.splits sum.splits dest!: request_as_log)

lemma Update_autoscaler_answer:
  assumes "Update_autoscaler srv i io = (res, io')"
  obtains a where "io_log io' = io_log io @ [(ReqUpdate (OAutoscaler i), a)]" and "snd res = None \<longleftrightarrow> (\<forall>e. a \<noteq> RespErr e)"
proof -
  obtain x where x: "request_as srv resp_unit (ReqUpdate (OAutoscaler i)) io = (x, io')" and r: "res = (0, case x of Inl e \<Rightarrow> Some e | Inr u \<Rightarrow> None)"
    using assms by (auto simp: Update_autoscaler_def split: prod.splits sum.splits)
  from request_as_log [OF x] obtain a where a: "io_log io' = io_log io @ [(ReqUpdate (OAutoscaler i), a)]" "x = expect resp_unit a"
    by blast
  then have "(\<exists>e. x = Inl e) \<longleftrightarrow> (\<exists>e. a = RespErr e)" by (cases a) (auto simp: expect_def)
  with r have "snd res = None \<longleftrightarrow> (\<forall>e. a \<noteq> RespErr e)" by (cases x) auto
  with a(1) show thesis by (rule that)
qed

lemma AddFinalizer_contains [simp]: "ContainsFinalizer (AddFinalizer i f) f"
  by (simp add: AddFinalizer_def ContainsFinalizer_def set_Finalizers_def)

lemma RemoveFinalizer_contains [simp]: "ContainsFinalizer (RemoveFinalizer i f) g \<longleftrightarrow> g \<noteq> f \<and> ContainsFinalizer i g"
  by (auto simp: RemoveFinalizer_def ContainsFinalizer_def set_Finalizers_def)

text \<open>A live resource: the stack's requests, or one update that adds the finalizer.\<close>

fun live_request :: "request \<Rightarrow> bool" where
  "live_request (ReqUpdate (OAutoscaler x)) = ContainsFinalizer x FinalizerName"
| "live_request q = stack_request q"

abbreviation live_sent :: "request \<times> response \<Rightarrow> bool" where
  "live_sent \<equiv> \<lambda>(q, a). live_request q"

lemma live_classes: "stack_request q \<Longrightarrow> live_request q"
  by (cases q rule: live_request.cases) auto

lemma emits_live: "emits stack_sent io io' \<Longrightarrow> emits live_sent io io'"
  by (erule emits_mono) (auto simp: live_classes)

lemma own_stack: "emits own_sent io io' \<Longrightarrow> emits stack_sent io io'"
  by (erule emits_mono) (auto simp: own_classes)

lemma block_conflict_emits: "block_conflict srv r owner (i, io) = (res, io') \<Longrightarrow> emits own_sent io io'"
  by (auto simp: block_conflict_def Let_def split: prod.splits
      dest!: own_emits(2) record_emits [where P = own_sent] intro: emits_trans)

lemma update_emits:
  "Update_autoscaler srv i io = (res, io') \<Longrightarrow> ContainsFinalizer i FinalizerName \<Longrightarrow> emits live_sent io io'"
  by (auto simp: emits_def dest!: Update_autoscaler_sent)

lemmas conflict_emits = singletonConflict_read_only [THEN own_emits(1), THEN own_stack, THEN emits_live]

lemma reconcile_live_cases:
  assumes "singletonConflict srv i io = (y, io1)" and "reconcile_live srv lib r (i, io) = (res, io')"
  obtains "io' = io1" | owner where "block_conflict srv r owner (i, io1) = (res, io')"
  | "Update_autoscaler srv (AddFinalizer i FinalizerName) io1 = (res, io')" | "reconcile_stack srv lib r (i, io1) = (res, io')"
  using assms unfolding reconcile_live_def by (auto split: sum.splits option.splits bool.splits if_splits)

lemma reconcile_live_emits:
  assumes "reconcile_live srv lib r (i, io) = (res, io')"
  shows "emits live_sent io io'"
  using assms unfolding reconcile_live_def
  by (auto split: prod.splits sum.splits option.splits bool.splits if_splits
      dest!: conflict_emits block_conflict_emits [THEN own_stack, THEN emits_live] update_emits
        reconcile_stack_emits [THEN emits_live] intro: emits_trans)

text \<open>A deleting resource.\<close>

lemma release_sent:
  assumes "release srv r reason message (i, io) = (res, io')"
  shows "emits (\<lambda>(q, a). own_request q \<or> (\<exists>x. q = ReqUpdate (OAutoscaler x) \<and> \<not> ContainsFinalizer x FinalizerName)) io io'"
  using assms unfolding release_def Let_def
  by (auto simp: emits_def split: prod.splits option.splits dest!: Status_Update_log Update_autoscaler_sent recordD(1))

lemma cleanup_failed_emits: "cleanup_failed srv r e (i, io) = (res, io') \<Longrightarrow> emits own_sent io io'"
  by (auto simp: cleanup_failed_def Let_def split: prod.splits option.splits
      dest!: own_emits(2) record_emits [where P = own_sent] intro: emits_trans)

lemma cleanup_emits:
  assumes "cleanup srv lib r (i, io) = (c, (i', io'))"
  shows "emits removal_sent io io'"
  using assms unfolding cleanup_def Let_def
  by (auto split: prod.splits sum.splits option.splits if_splits
      dest!: clusterNameFor_emits [THEN emits_classes(4)] removeComponent_emits [THEN emits_classes(6)]
        RemoveAutoscaler_emits record_emits [where P = removal_sent] intro: emits_trans) (meson emits_trans)+

inductive deleting_run for srv lib r i io where
  untouched: "emits own_sent io io' \<Longrightarrow> deleting_run srv lib r i io io'"
| skipped: "isSingletonOwner srv i io = (Inr False, io1) \<Longrightarrow> release srv r reason message (i, io1) = (res, io') \<Longrightarrow>
    deleting_run srv lib r i io io'"
| failed: "isSingletonOwner srv i io = (Inr True, io1) \<Longrightarrow> emits own_sent io1 io3 \<Longrightarrow>
    cleanup srv lib r (i3, io3) = (Some e, (i4, io4)) \<Longrightarrow> emits own_sent io4 io' \<Longrightarrow> deleting_run srv lib r i io io'"
| cleaned: "isSingletonOwner srv i io = (Inr True, io1) \<Longrightarrow> emits own_sent io1 io3 \<Longrightarrow>
    cleanup srv lib r (i3, io3) = (None, (i4, io4)) \<Longrightarrow> release srv r reason message (i4, io4) = (res, io') \<Longrightarrow>
    deleting_run srv lib r i io io'"

lemma reconcile_deleting_run:
  assumes "reconcile_deleting srv lib r (i, io) = (res, io')"
  shows "deleting_run srv lib r i io io' \<and> (ContainsFinalizer i FinalizerName \<or> io' = io)"
proof -
  obtain x io1 where x: "isSingletonOwner srv i io = (x, io1)" by (cases "isSingletonOwner srv i io")
  then have e1: "emits own_sent io io1" by (rule own_emits(1) [OF isSingletonOwner_read_only])
  consider "\<not> ContainsFinalizer i FinalizerName" | e where "ContainsFinalizer i FinalizerName" "x = Inl e"
    | "ContainsFinalizer i FinalizerName" "x = Inr False" | "ContainsFinalizer i FinalizerName" "x = Inr True"
    by (cases x) auto
  then show ?thesis
  proof cases
    case 1
    with assms show ?thesis by (auto simp: reconcile_deleting_def intro: deleting_run.untouched)
  next
    case 2
    with assms x e1 show ?thesis by (auto simp: reconcile_deleting_def intro: deleting_run.untouched)
  next
    case 3
    with assms x show ?thesis by (auto simp: reconcile_deleting_def intro: deleting_run.skipped)
  next
    case 4
    obtain i2 io2 where r2: "setConditionAndRecord (rc_hasRecorder r) srv (set_ObservedGeneration (set_Phase PhaseCleaningUp i))
        ConditionCleanupSucceeded ConditionUnknown ReasonCleanupStarted ''Deleting managed autoscaler resources'' io1 = (i2, io2)"
      by (meson prod.exhaust)
    obtain c i3 io3 where u: "Status_Update srv i2 io2 = (c, i3, io3)" by (cases "Status_Update srv i2 io2")
    obtain d i4 io4 where cl: "cleanup srv lib r (i3, io3) = (d, (i4, io4))" by (cases "cleanup srv lib r (i3, io3)") auto
    have e3: "emits own_sent io1 io3"
      using own_emits(2) [OF u] record_emits(1) [OF r2, of own_sent] by (blast intro: emits_trans)
    show ?thesis
    proof (cases c)
      case (Some e)
      with assms x r2 u 4 e1 e3 show ?thesis
        by (auto simp: reconcile_deleting_def intro: deleting_run.untouched emits_trans)
    next
      case None
      with assms x r2 u cl 4 e3 show ?thesis
        by (cases d) (auto simp: reconcile_deleting_def dest!: cleanup_failed_emits
            intro: deleting_run.failed deleting_run.cleaned)
    qed
  qed
qed


section \<open>Readiness and errors\<close>

lemma failed_stage_reported:
  assumes "setReadyConditionFromFailedStage hr srv i io = (b, i', io')" and "firstFalseCondition i stage_conditions = Some c"
  shows "b \<and> (\<exists>d. FindStatusCondition (oca_Conditions i') ConditionReady = Some d \<and> cond_Status d = ConditionFalse \<and>
    cond_Reason d = cond_Reason c \<and> cond_Message d = cond_Message c) \<and> io_log io' = io_log io"
proof -
  define j where "j = set_Phase (if cond_Type c = ConditionPolicyAccepted then PhaseBlocked else PhaseError) i"
  from assms obtain io1 where "b" and r: "setConditionAndRecord hr srv j ConditionReady ConditionFalse (cond_Reason c) (cond_Message c) io = (i', io')"
    by (auto simp: setReadyConditionFromFailedStage_def j_def Let_def split: prod.splits)
  with recordD(1) [OF r] find_set_condition_same show ?thesis by metis
qed

lemma error_status_not_ready:
  assumes "(let (failed, i1, io1) = setReadyConditionFromFailedStage hr srv i io in
      if failed then (i1, io1)
      else setConditionAndRecord hr srv (set_Phase p i1) ConditionReady ConditionFalse reason message io1) = (i2, io2)"
  shows "\<not> conditionIsTrue i2 ConditionReady \<and> io_log io2 = io_log io"
  using assms by (auto simp: Let_def split: prod.splits if_splits dest!: failed_stage_kept recordD(1))

text \<open>The tail of \<open>reconcile_stack\<close>: at most one status update, ready only after a complete run.\<close>

lemma reconcile_stack_tail:
  assumes "reconcileOCICapiStack srv lib r (i, io) = ((requeue, err), (i1, io1))"
    and "reconcile_stack srv lib r (i, io) = (res, io')"
  shows "io_log io' = io_log io1 \<or> (\<exists>x a. io_log io' = io_log io1 @ [(ReqStatusUpdate (OAutoscaler x), a)] \<and>
    (conditionIsTrue x ConditionReady \<longleftrightarrow> err = None \<and> autoscalerStackReady i1))"
proof (cases err)
  case None
  obtain i2 io2 where ag: "setAggregateReadyCondition (rc_hasRecorder r) srv i1 io1 = (i2, io2)"
    by (cases "setAggregateReadyCondition (rc_hasRecorder r) srv i1 io1")
  have l: "io_log io2 = io_log io1"
    using ag by (auto simp: setAggregateReadyCondition_def Let_def split: prod.splits if_splits
        dest!: failed_stage_kept recordD(1))
  have "conditionIsTrue i2 ConditionReady \<longleftrightarrow> autoscalerStackReady i1"
    using setAggregate_cases [of "rc_hasRecorder r" srv i1 io1] stackReady_no_failure [of i1] ag
    by (auto simp: Let_def split: option.splits if_splits)
  then show ?thesis
    using assms None ag l
    by (auto simp: reconcile_stack_def sent_def split: if_splits prod.splits option.splits dest!: Status_Update_log)
next
  case (Some e)
  let ?f = "let (failed, j1, jo1) = setReadyConditionFromFailedStage (rc_hasRecorder r) srv i1 io1 in
      if failed then (j1, jo1)
      else setConditionAndRecord (rc_hasRecorder r) srv (set_Phase PhaseError j1) ConditionReady ConditionFalse
        ReasonReconcileError (Error e) jo1"
  obtain i2 io2 where f: "?f = (i2, io2)" by (cases ?f)
  then show ?thesis
    using assms Some error_status_not_ready [OF f]
    by (auto simp: reconcile_stack_def sent_def Let_def split: if_splits prod.splits option.splits dest!: Status_Update_log)
qed

text \<open>Cleanup of a component, as in the log.\<close>

definition deleted_in :: "(request \<times> response) list \<Rightarrow> kobj \<Rightarrow> bool" where
  "deleted_in log x \<longleftrightarrow> (\<exists>a. (ReqDelete x, a) \<in> set log \<and> delete_answered a)"

lemma removeComponent_None:
  assumes "removeComponent srv c io = (None, io')" and "s \<in> set (comp_Subcomponents c)" and "\<not> is_namespace (subc_Object s)"
  shows "deleted_in (sent io io') (subc_Object s)"
proof -
  have "run_until (remove_one srv) (\<lambda>r. r \<noteq> None) (comp_Subcomponents c) io = (None, io')"
    using assms(1) by (auto simp: removeComponent_def first_failure_def split: prod.splits option.splits dest: run_until_stops)
  from remove_until_None [OF this] have
    m: "map fst (sent io io') = map ReqDelete (filter (\<lambda>x. \<not> is_namespace x) (map subc_Object (comp_Subcomponents c)))"
    and a: "list_all (\<lambda>(q, a). delete_answered a) (sent io io')" by auto
  have "ReqDelete (subc_Object s) \<in> set (map fst (sent io io'))" unfolding m using assms(2,3) by auto
  with a show ?thesis by (fastforce simp: deleted_in_def list_all_iff)
qed

lemma removeComponent_Some:
  assumes "removeComponent srv c io = (Some e, io')"
  shows "\<exists>x. (ReqDelete x, RespErr e) \<in> set (sent io io')"
proof -
  have "run_until (remove_one srv) (\<lambda>r. r \<noteq> None) (comp_Subcomponents c) io = (Some (Some e), io')"
    using assms by (auto simp: removeComponent_def first_failure_def split: prod.splits option.splits)
  from remove_until_Some [OF this] show ?thesis by (auto simp: sent_def)
qed

text \<open>The log shows that a release is not there: it was looked up in vain, or uninstalled.\<close>

definition release_gone :: "(request \<times> response) list \<Rightarrow> string \<Rightarrow> bool" where
  "release_gone log name \<longleftrightarrow>
     (ReqHelm (HelmGetRelease name), RespRelease None) \<in> set log \<or>
     (\<exists>e. (ReqHelm (HelmGetRelease name), RespErr e) \<in> set log \<and> not_found_text (Wrapf ''error getting release: '' e)) \<or>
     (\<exists>spec a. (ReqHelm (HelmUninstall spec), a) \<in> set log \<and> hc_ReleaseName spec = name \<and> (\<forall>e. a \<noteq> RespErr e))"

lemma release_gone_mono: "release_gone log n \<Longrightarrow> set log \<subseteq> set log' \<Longrightarrow> release_gone log' n"
  unfolding release_gone_def by blast

lemma release_lookup_False:
  assumes "release_lookup srv name io = (Inr False, io')"
  shows "release_gone (sent io io') name"
proof -
  let ?q = "ReqHelm (HelmGetRelease name)"
  obtain x where x: "request_as srv resp_release ?q io = (x, io')" and
    c: "x = Inr None \<or> (\<exists>e. x = Inl e \<and> not_found_text (Wrapf ''error getting release: '' e))"
    using assms by (auto simp: release_lookup_def ReleaseExists_def split: prod.splits sum.splits if_splits)
  from request_as_log [OF x] obtain a where a: "io_log io' = io_log io @ [(?q, a)]" "x = expect resp_release a" by blast
  from c show ?thesis
  proof
    assume "x = Inr None"
    with a have "a = RespRelease None" by (metis expect_decoders(1))
    with a show ?thesis by (simp add: release_gone_def sent_def)
  next
    assume "\<exists>e. x = Inl e \<and> not_found_text (Wrapf ''error getting release: '' e)"
    then obtain e where e: "expect resp_release a = Inl e" "not_found_text (Wrapf ''error getting release: '' e)" using a by auto
    show ?thesis
    proof (cases "e = decode_error")
      case True
      have "\<not> not_found_text (Wrapf ''error getting release: '' decode_error)" by code_simp
      with e True show ?thesis by simp
    next
      case False
      with e have "a = RespErr e" by (auto simp: expect_def split: response.splits option.splits)
      with a e show ?thesis by (auto simp: release_gone_def sent_def)
    qed
  qed
qed

lemma RemoveAutoscaler_None:
  assumes "RemoveAutoscaler srv v io = (None, io')"
  shows "release_gone (sent io io') (dv_Name v)"
proof -
  obtain io1 where 1: "GetHelmClient srv (dv_Namespace v) io = (None, io1)"
    using assms by (auto simp: RemoveAutoscaler_def split: prod.splits option.splits)
  obtain b io2 where 2: "release_lookup srv (dv_Name v) io1 = (Inr b, io2)"
    using assms 1 by (auto simp: RemoveAutoscaler_def split: prod.splits option.splits sum.splits)
  note e = helm_steps_emits(1) [OF 1] helm_steps_emits(3) [OF 2]
  have grow: "release_gone (sent io io') n" if "release_gone (sent io2 io') n \<or> release_gone (sent io1 io2) n"
      "\<exists>new. io_log io' = io_log io2 @ new" for n
  proof -
    have "set (sent io1 io2) \<subseteq> set (sent io io')" "set (sent io2 io') \<subseteq> set (sent io io')"
      using that(2) e by (auto simp: emits_def sent_def)
    with that(1) show ?thesis using release_gone_mono by blast
  qed
  show ?thesis
  proof (cases b)
    case False
    with assms 1 2 have "io' = io2" by (simp add: RemoveAutoscaler_def)
    moreover from 2 False have "release_lookup srv (dv_Name v) io1 = (Inr False, io2)" by simp
    ultimately show ?thesis using grow [OF disjI2 [OF release_lookup_False]] by simp
  next
    case True
    let ?spec = "\<lparr>hc_ReleaseName = dv_Name v, hc_ChartName = dv_Chart v, hc_Namespace = dv_Namespace v,
               hc_ValuesYaml = [], hc_Version = [], hc_Labels = fmempty\<rparr>"
    from assms 1 2 True have "RemoveHelmChart srv ?spec io2 = (None, io')" by (simp add: RemoveAutoscaler_def)
    from RemoveHelmChart_change [OF this] have l: "\<exists>a. io_log io' = io_log io2 @ [(ReqHelm (HelmUninstall ?spec), a)] \<and> (\<forall>e. a \<noteq> RespErr e)"
      by simp
    then have "release_gone (sent io2 io') (dv_Name v)"
      by (fastforce simp: release_gone_def sent_def)
    with grow l show ?thesis by blast
  qed
qed

lemma list_all_sent: "emits P io io' \<Longrightarrow> list_all P (sent io io')"
  by (auto simp: emits_def sent_def)

lemma update_in_own_tail:
  "q \<in> set (sent io io') \<Longrightarrow> emits P io io1 \<Longrightarrow> emits Q io1 io' \<Longrightarrow> q \<in> set (sent io io1) \<or> q \<in> set (sent io1 io')"
  by (auto simp: emits_def sent_def)

text \<open>Within a run, a whole cleanup succeeded.\<close>

definition cleaned_in :: "'w server \<Rightarrow> libraries \<Rightarrow> OCIClusterAutoscalerReconciler \<Rightarrow> 'w io \<Rightarrow> 'w io \<Rightarrow> bool" where
  "cleaned_in srv lib r io io' \<longleftrightarrow> (\<exists>i1 io1 i2 io2. emits (\<lambda>x. True) io io1 \<and>
     cleanup srv lib r (i1, io1) = (None, (i2, io2)) \<and> emits (\<lambda>x. True) io2 io')"

lemma emits_any: "emits P io io' \<Longrightarrow> emits (\<lambda>x. True) io io'"
  by (erule emits_mono) simp

lemma deleting_run_emits: "deleting_run srv lib r i io io' \<Longrightarrow> emits (\<lambda>x. True) io io'"
  by (erule deleting_run.cases)
    (auto simp: emits_def list_all_iff dest!: own_emits(1) [OF isSingletonOwner_read_only] cleanup_emits release_sent)

lemma deleting_run_sent:
  assumes d: "deleting_run srv lib r i io io'" and q: "(q, a) \<in> set (sent io io')"
  shows "own_request q \<or> removal_request q \<and> elected_in (sent io io') True i \<or>
    (\<exists>x. q = ReqUpdate (OAutoscaler x)) \<and>
      (elected_in (sent io io') False i \<or> elected_in (sent io io') True i \<and> cleaned_in srv lib r io io')"
  using d
proof cases
  case untouched
  with q show ?thesis by (auto dest: emits_sent)
next
  case (skipped io1 reason message res)
  note e = own_emits(1) [OF isSingletonOwner_read_only [OF skipped(1)]] release_sent [OF skipped(2)]
  have "elected_in (sent io io') False i"
    using isSingletonOwner_evidence [OF skipped(1)] sent_subset [OF e] by (blast intro: evidence_mono)
  with update_in_own_tail [OF q e] emits_sent [OF e(1), of "(q, a)"] emits_sent [OF e(2), of "(q, a)"] show ?thesis by auto
next
  case (failed io1 io3 i3 e i4 io4)
  note e = own_emits(1) [OF isSingletonOwner_read_only [OF failed(1)]] failed(2) cleanup_emits [OF failed(3)] failed(4)
  have "(q, a) \<in> set (sent io io1) \<or> (q, a) \<in> set (sent io1 io3) \<or> (q, a) \<in> set (sent io3 io4) \<or> (q, a) \<in> set (sent io4 io')"
    using q e by (auto simp: emits_def sent_def)
  moreover have "elected_in (sent io io') True i"
    using isSingletonOwner_evidence [OF failed(1)] e by (auto simp: emits_def sent_def intro: evidence_mono)
  ultimately show ?thesis using e [THEN emits_sent, of "(q, a)"] by auto
next
  case (cleaned io1 io3 i3 i4 io4 reason message res)
  note e = own_emits(1) [OF isSingletonOwner_read_only [OF cleaned(1)]] cleaned(2) cleanup_emits [OF cleaned(3)] release_sent [OF cleaned(4)]
  have "(q, a) \<in> set (sent io io1) \<or> (q, a) \<in> set (sent io1 io3) \<or> (q, a) \<in> set (sent io3 io4) \<or> (q, a) \<in> set (sent io4 io')"
    using q e by (auto simp: emits_def sent_def)
  moreover have "elected_in (sent io io') True i"
    using isSingletonOwner_evidence [OF cleaned(1)] e by (auto simp: emits_def sent_def intro: evidence_mono)
  moreover have "cleaned_in srv lib r io io'"
    unfolding cleaned_in_def using cleaned(3) emits_any [OF emits_trans [OF e(1,2)]] emits_any [OF e(4)] by blast
  ultimately show ?thesis using e [THEN emits_sent, of "(q, a)"] by auto
qed

text \<open>Every request of a reconcile is one for a live resource, or comes with the evidence that allows it.\<close>

lemma reconcile_sent:
  assumes "Reconcile srv lib r req io = (res, io')" and q: "(q, a) \<in> set (sent io io')"
  shows "live_request q \<or> (\<exists>i. worked_on (sent io io') req i \<and> md_DeletionTimestamp (oca_meta i) \<noteq> None \<and>
    ContainsFinalizer i FinalizerName \<and>
    (removal_request q \<and> elected_in (sent io io') True i \<or> (\<exists>x. q = ReqUpdate (OAutoscaler x)) \<and>
       (elected_in (sent io io') False i \<or> elected_in (sent io io') True i \<and> cleaned_in srv lib r io io')))"
proof -
  have own: "live_request q" if "emits own_sent x y" "(q, a) \<in> set (sent x y)" for x y
    using emits_sent [OF that] by (auto dest: own_classes(2) live_classes)
  show ?thesis
    using assms(1)
  proof (cases rule: Reconcile_run)
    case 1
    with own q show ?thesis by blast
  next
    case (2 i io1)
    from update_in_own_tail [OF q 2(1) reconcile_live_emits [OF 2(3)]] own [OF 2(1)]
      emits_sent [OF reconcile_live_emits [OF 2(3)]]
    show ?thesis by auto
  next
    case (3 i io1)
    from reconcile_deleting_run [OF 3(3)] have d: "deleting_run srv lib r i io1 io'"
      and f: "ContainsFinalizer i FinalizerName \<or> io' = io1" by auto
    note e = 3(1) deleting_run_emits [OF d]
    from update_in_own_tail [OF q e] show ?thesis
    proof
      assume "(q, a) \<in> set (sent io io1)" with own [OF 3(1)] show ?thesis by blast
    next
      assume t: "(q, a) \<in> set (sent io1 io')"
      then have "ContainsFinalizer i FinalizerName" using f by (auto simp: sent_def)
      moreover have "worked_on (sent io io') req i" using 3(4) sent_subset [OF e] by (blast intro: worked_on_mono)
      moreover have "elected_in (sent io1 io') b i \<Longrightarrow> elected_in (sent io io') b i" for b
        using sent_subset [OF e] by (blast intro: evidence_mono)
      moreover have "cleaned_in srv lib r io1 io' \<Longrightarrow> cleaned_in srv lib r io io'"
        unfolding cleaned_in_def using emits_trans [OF emits_any [OF 3(1)]] by blast
      moreover have "own_request q \<Longrightarrow> live_request q" by (blast dest: own_classes(2) live_classes)
      ultimately show ?thesis using deleting_run_sent [OF d t] 3(2) by blast
    qed
  qed
qed

lemma ready_evidence:
  assumes "reconcile_live srv lib r (i, io) = (res, io')"
    and "(ReqStatusUpdate (OAutoscaler x), a) \<in> set (sent io io')" and "conditionIsTrue x ConditionReady"
  shows "validate i (rc_AutoScalingConfig r) = None \<and>
    seen_available (sent io io') (CAPIProviderNamespace (namespaces_of r)) CAPIDeploymentName \<and>
    seen_available (sent io io') (CAPOCIProviderNamespace (namespaces_of r)) CAPOCIDeploymentName \<and>
    (let values = getAutoscalerDeploymentValues i (namespaces_of r) in
       seen_available (sent io io') (dv_Namespace values) (dv_Name values))"
proof -
  obtain y io1 where y: "singletonConflict srv i io = (y, io1)" by (cases "singletonConflict srv i io")
  from singletonConflict_read_only [OF y] have e1: "emits (\<lambda>(q, a). read_only q) io io1" .
  then have r1: "(ReqStatusUpdate (OAutoscaler x), a) \<notin> set (sent io io1)" by (auto dest: emits_sent)
  have st: "reconcile_stack srv lib r (i, io1) = (res, io')"
  proof (rule reconcile_live_cases [OF y assms(1)])
    assume "io' = io1" with r1 assms(2) show ?thesis by simp
  next
    fix owner assume b: "block_conflict srv r owner (i, io1) = (res, io')"
    from block_conflict_sent [OF b] update_in_own_tail [OF assms(2) e1 block_conflict_emits [OF b]] r1 assms(3)
    show ?thesis by auto
  next
    assume "Update_autoscaler srv (AddFinalizer i FinalizerName) io1 = (res, io')"
    from Update_autoscaler_sent [OF this] assms(2) r1 e1 show ?thesis by (auto simp: emits_def sent_def)
  qed
  obtain requeue err i2 io2 where run: "reconcileOCICapiStack srv lib r (i, io1) = ((requeue, err), (i2, io2))"
    by (metis prod.collapse)
  note e2 = reconcileOCICapiStack_emits [OF run]
  have "(ReqStatusUpdate (OAutoscaler x), a) \<notin> set (sent io1 io2)"
    using emits_sent [OF e2, of "(ReqStatusUpdate (OAutoscaler x), a)"] assms(3) by auto
  with assms(2,3) r1 e1 e2 reconcile_stack_tail [OF run st] have "err = None" "autoscalerStackReady i2" and
    l: "\<exists>new. io_log io' = io_log io2 @ new"
    by (auto simp: emits_def sent_def)
  with stack_ensures [OF run] have t: "track r i (length (io_log io1)) 4 (i2, io2)" by (auto simp: stopped_def)
  have "seen_available (sent io io') p n" if "seen_available (sent io1 io2) p n" for p n
    using that e1 l e2 by (auto simp: seen_available_def emits_def sent_def)
  with t show ?thesis by (auto simp: track_def Let_def sent_def)
qed

section \<open>Deletion comes to an end\<close>

lemma call_answer: "\<exists>io'. request_as srv D q io = (expect D (fst (srv_handle srv q (io_world io))), io') \<and>
    io_log io' = io_log io @ [(q, fst (srv_handle srv q (io_world io)))]"
  by (simp add: request_as_def call_def Let_def split: prod.splits)

lemma expect_unit_ok: "(\<And>e. a \<noteq> RespErr e) \<Longrightarrow> expect resp_unit a = Inr ()"
  by (cases a) (auto simp: expect_def)

lemma unit_request_ok:
  "(\<And>w e. fst (srv_handle srv q w) \<noteq> RespErr e) \<Longrightarrow> \<exists>io'. request_as srv resp_unit q io = (Inr (), io')"
  by (metis call_answer expect_unit_ok)

lemma removeComponent_succeeds:
  assumes "\<And>x w e. fst (srv_handle srv (ReqDelete x) w) \<noteq> RespErr e"
  shows "\<exists>io'. removeComponent srv c io = (None, io')"
proof -
  have one: "\<exists>io'. remove_one srv s io = (None, io')" for s io
    using unit_request_ok [of srv "ReqDelete (subc_Object s)" io] assms
    by (auto simp: remove_one_def delete_ignoring_absent_def)
  have "\<exists>io'. run_until (remove_one srv) (\<lambda>r. r \<noteq> None) ss io = (None, io')" for ss
  proof (induction ss arbitrary: io)
    case (Cons s ss)
    from one [of s io] Cons show ?case by auto
  qed simp
  then obtain io' where "run_until (remove_one srv) (\<lambda>r. r \<noteq> None) (comp_Subcomponents c) io = (None, io')" by blast
  then show ?thesis by (simp add: removeComponent_def first_failure_def)
qed

lemma RemoveAutoscaler_succeeds:
  assumes "\<And>h w e. fst (srv_handle srv (ReqHelm h) w) \<noteq> RespErr e"
    and "\<And>n w. \<exists>x. fst (srv_handle srv (ReqHelm (HelmGetRelease n)) w) = RespRelease x"
  shows "\<exists>io'. RemoveAutoscaler srv v io = (None, io')"
proof -
  have u: "\<exists>io'. request_as srv resp_unit (ReqHelm h) io = (Inr (), io')" for h io
    using assms(1) by (intro unit_request_ok)
  have l: "\<exists>b io'. release_lookup srv n io = (Inr b, io')" for n io
  proof -
    obtain x where x: "fst (srv_handle srv (ReqHelm (HelmGetRelease n)) (io_world io)) = RespRelease x" using assms(2) by blast
    from call_answer [of srv resp_release "ReqHelm (HelmGetRelease n)" io] show ?thesis
      by (auto simp: x release_lookup_def ReleaseExists_def expect_def)
  qed
  obtain io1 where 1: "request_as srv resp_unit (ReqHelm (HelmNewClient (dv_Namespace v))) io = (Inr (), io1)" using u by blast
  obtain b io2 where 2: "release_lookup srv (dv_Name v) io1 = (Inr b, io2)" using l by blast
  have 3: "\<exists>io'. RemoveHelmChart srv spec io2 = (None, io')" for spec
    using u [of "HelmUninstall spec" io2] by (auto simp: RemoveHelmChart_def)
  from 1 2 3 show ?thesis by (cases b) (auto simp: RemoveAutoscaler_def GetHelmClient_def)
qed

lemma cleanup_succeeds:
  assumes "\<And>x w e. fst (srv_handle srv (ReqDelete x) w) \<noteq> RespErr e"
    and "\<And>h w e. fst (srv_handle srv (ReqHelm h) w) \<noteq> RespErr e"
    and "\<And>n w. \<exists>x. fst (srv_handle srv (ReqHelm (HelmGetRelease n)) w) = RespRelease x"
    and "TrimSpace (capi_ClusterName (spec_CAPI (oca_Spec i))) \<noteq> []"
  shows "\<exists>io'. cleanup srv lib r (i, io) = (None, (i, io'))"
proof -
  let ?n = "TrimSpace (capi_ClusterName (spec_CAPI (oca_Spec i)))" and ?v = "getAutoscalerDeploymentValues i (namespaces_of r)"
  have 0: "clusterNameFor srv (Some i) io = (Inr ?n, io)" using assms(4) by (simp add: clusterNameFor_def)
  obtain io1 where 1: "removeComponent srv (GetComponents_enable srv (managedResourceNamespaceFor i (namespaces_of r))
     (CAPIProviderNamespace (namespaces_of r)) ?n CAPIServiceAccountName i (rc_AutoScalingConfig r)
     (UsesInstancePrincipal (Some (rc_CAPOCICredentials r)))) io = (None, io1)"
    using removeComponent_succeeds assms(1) by blast
  obtain io2 where 2: "RemoveAutoscaler srv ?v io1 = (None, io2)" using RemoveAutoscaler_succeeds assms(2,3) by blast
  obtain io3 where 3: "removeComponent srv (GetComponents_autoscaler ?v i) io2 = (None, io3)"
    using removeComponent_succeeds assms(1) by blast
  from 0 1 2 3 show ?thesis by (simp add: cleanup_def Let_def)
qed

text \<open>The steps of a successful cleanup.\<close>

lemma cleanup_run:
  assumes "cleanup srv lib r (i, io) = (None, (i', io'))"
  obtains n io1 r1 io2 io3 where "clusterNameFor srv (Some i) io = (Inr n, io1)"
    and "removeComponent srv (GetComponents_enable srv (managedResourceNamespaceFor i (namespaces_of r))
     (CAPIProviderNamespace (namespaces_of r)) n CAPIServiceAccountName i (rc_AutoScalingConfig r)
     (UsesInstancePrincipal (Some (rc_CAPOCICredentials r)))) io1 = (r1, io2)"
    and "r1 = None \<or> (\<exists>e. r1 = Some e \<and> IsNoMatchError e)"
    and "RemoveAutoscaler srv (getAutoscalerDeploymentValues i (namespaces_of r)) io2 = (None, io3)"
    and "removeComponent srv (GetComponents_autoscaler (getAutoscalerDeploymentValues i (namespaces_of r)) i) io3 = (None, io')"
    and "i' = i"
proof -
  let ?v = "getAutoscalerDeploymentValues i (namespaces_of r)"
  let ?c = "\<lambda>n. GetComponents_enable srv (managedResourceNamespaceFor i (namespaces_of r))
     (CAPIProviderNamespace (namespaces_of r)) n CAPIServiceAccountName i (rc_AutoScalingConfig r)
     (UsesInstancePrincipal (Some (rc_CAPOCICredentials r)))"
  obtain n io1 where 1: "clusterNameFor srv (Some i) io = (Inr n, io1)"
    using assms by (cases "clusterNameFor srv (Some i) io"; cases "fst (clusterNameFor srv (Some i) io)") (simp_all add: cleanup_def)
  obtain r1 io2 where 2: "removeComponent srv (?c n) io1 = (r1, io2)" by (cases "removeComponent srv (?c n) io1")
  have r1: "r1 = None \<or> (\<exists>e. r1 = Some e \<and> IsNoMatchError e)"
    using assms 1 2 by (cases r1) (simp_all add: cleanup_def Let_def split: if_splits)
  obtain r3 io3 where s3: "RemoveAutoscaler srv ?v io2 = (r3, io3)" by (cases "RemoveAutoscaler srv ?v io2")
  have 3: "RemoveAutoscaler srv ?v io2 = (None, io3)"
    using assms 1 2 r1 s3 by (cases r3) (auto simp: cleanup_def Let_def)
  obtain r4 io4 where s4: "removeComponent srv (GetComponents_autoscaler ?v i) io3 = (r4, io4)"
    by (cases "removeComponent srv (GetComponents_autoscaler ?v i) io3")
  have "removeComponent srv (GetComponents_autoscaler ?v i) io3 = (None, io')" "i' = i"
    using assms 1 2 r1 3 s4 by (cases r4; auto simp: cleanup_def Let_def)+
  with 1 2 r1 3 show thesis by (rule that)
qed

lemma cleanup_deletes:
  fixes srv :: "'w server"
  assumes "cleanup srv lib r (i, io) = (None, (i', io'))"
  shows "\<exists>y a. (ReqDelete y, a) \<in> set (sent io io')"
proof -
  let ?v = "getAutoscalerDeploymentValues i (namespaces_of r)"
  obtain n ioa r1 iob io1 where s: "clusterNameFor srv (Some i) io = (Inr n, ioa)"
      "removeComponent srv (GetComponents_enable srv (managedResourceNamespaceFor i (namespaces_of r))
         (CAPIProviderNamespace (namespaces_of r)) n CAPIServiceAccountName i (rc_AutoScalingConfig r)
         (UsesInstancePrincipal (Some (rc_CAPOCICredentials r)))) ioa = (r1, iob)"
      "RemoveAutoscaler srv ?v iob = (None, io1)"
    and 1: "removeComponent srv (GetComponents_autoscaler ?v i) io1 = (None, io')"
    by (rule cleanup_run [OF assms])
  have e: "emits (\<lambda>x. True) io io1"
    using emits_any [OF clusterNameFor_emits [OF s(1)]] emits_any [OF removeComponent_emits [OF s(2)]]
      emits_any [OF RemoveAutoscaler_emits [OF s(3)]] by (blast intro: emits_trans)
  have "\<exists>s \<in> set (comp_Subcomponents (GetComponents_autoscaler ?v i :: 'w Component)). \<not> is_namespace (subc_Object s)"
    by (simp add: GetComponents_autoscaler_def subcomponent_def ClusterRole_of_def)
  with removeComponent_None [OF 1] have "\<exists>y a. (ReqDelete y, a) \<in> set (sent io1 io')" unfolding deleted_in_def by blast
  with sent_subset [OF e removeComponent_emits [OF 1]] show ?thesis by blast
qed

text \<open>A status update that is stored.\<close>

lemma Status_Update_echo:
  assumes "\<And>x w. fst (srv_handle srv (ReqStatusUpdate (OAutoscaler x)) w) = RespObj (OAutoscaler x)"
  shows "\<exists>io'. Status_Update srv i io = (None, i, io')"
  using call_answer [of srv resp_autoscaler "ReqStatusUpdate (OAutoscaler i)" io] assms
  by (auto simp: Status_Update_def expect_def)

lemma initialize_echo:
  assumes "\<And>x w. fst (srv_handle srv (ReqStatusUpdate (OAutoscaler x)) w) = RespObj (OAutoscaler x)"
  shows "\<exists>i' io'. initialize srv r (i, io) = (None, i', io') \<and> same_resource i' i"
proof (cases "oca_Phase i = []")
  case True
  obtain i1 io1 where 1: "setConditionAndRecord (rc_hasRecorder r) srv (set_Phase PhaseInitializing i) ConditionReady
      ConditionUnknown ReasonInitializing ''OCIClusterAutoscaler reconciliation has started'' io = (i1, io1)"
    by (meson prod.exhaust)
  from Status_Update_echo [OF assms] obtain io2 where "Status_Update srv i1 io1 = (None, i1, io2)" by blast
  moreover have "same_resource i1 i" using same_resource_record [OF 1] by simp
  ultimately show ?thesis using 1 True by (simp add: initialize_def)
next
  case False
  then show ?thesis by (simp add: initialize_def same_resource_def)
qed

lemma isSingletonOwner_elected:
  assumes "\<And>w. fst (srv_handle srv (ReqList autoscaler_kind [] fmempty) w) = RespList (map OAutoscaler items)"
    and "map_option oca_key (selectSingletonOwner items True) = Some (oca_key i)"
  shows "\<exists>io'. isSingletonOwner srv i io = (Inr True, io')"
proof -
  have "expect (resp_items kobj_autoscaler) (RespList (map OAutoscaler items)) = Inr items"
    by (auto simp: expect_def resp_items_def list_all_iff o_def)
  with call_answer [of srv "resp_items kobj_autoscaler" "ReqList autoscaler_kind [] fmempty" io] assms show ?thesis
    by (auto simp: isSingletonOwner_def resolveSingletonOwnerName_def resolveSingletonOwner_def Let_def split: option.splits)
qed

lemma deletion_run:
  assumes get: "fst (srv_handle srv (ReqGet autoscaler_kind req) (io_world io)) = RespObj (OAutoscaler i)"
    and i: "md_DeletionTimestamp (oca_meta i) \<noteq> None" "ContainsFinalizer i FinalizerName"
      "TrimSpace (capi_ClusterName (spec_CAPI (oca_Spec i))) \<noteq> []"
    and elected: "\<And>w. fst (srv_handle srv (ReqList autoscaler_kind [] fmempty) w) = RespList (map OAutoscaler items)"
      "map_option oca_key (selectSingletonOwner items True) = Some (oca_key i)"
    and echo: "\<And>x w. fst (srv_handle srv (ReqStatusUpdate (OAutoscaler x)) w) = RespObj (OAutoscaler x)"
    and quiet: "\<And>x w e. fst (srv_handle srv (ReqDelete x) w) \<noteq> RespErr e"
      "\<And>h w e. fst (srv_handle srv (ReqHelm h) w) \<noteq> RespErr e"
      "\<And>n w. \<exists>x. fst (srv_handle srv (ReqHelm (HelmGetRelease n)) w) = RespRelease x"
  obtains j io1 io2 x io3 where "emits own_sent io io1" and "same_resource j i" and "cleanup srv lib r (j, io1) = (None, (j, io2))"
    and "emits own_sent io2 io3" and "Reconcile srv lib r req io = Update_autoscaler srv (RemoveFinalizer x FinalizerName) io3"
    and "same_resource x i" and "conditionIsTrue x ConditionCleanupSucceeded"
proof -
  obtain ioa where a: "request_as srv resp_autoscaler (ReqGet autoscaler_kind req) io = (Inr i, ioa)"
    using call_answer [of srv resp_autoscaler "ReqGet autoscaler_kind req" io] get by (auto simp: expect_def)
  have ea: "emits own_sent io ioa" using a by (rule emits_request_as) simp
  from initialize_echo [OF echo] obtain ib iob where b: "initialize srv r (i, ioa) = (None, ib, iob)" and ib: "same_resource ib i"
    by blast
  have "oca_key ib = oca_key i" using ib by (simp add: same_resource_def oca_key_def oca_Name_def oca_Namespace_def)
  with isSingletonOwner_elected [OF elected(1)] elected(2) obtain ioc where c: "isSingletonOwner srv ib iob = (Inr True, ioc)"
    by metis
  obtain ii id where d: "setConditionAndRecord (rc_hasRecorder r) srv (set_ObservedGeneration (set_Phase PhaseCleaningUp ib))
      ConditionCleanupSucceeded ConditionUnknown ReasonCleanupStarted ''Deleting managed autoscaler resources'' ioc = (ii, id)"
    by (meson prod.exhaust)
  have ii: "same_resource ii i" using same_resource_record [OF d] ib same_resource_trans by auto
  obtain ie where e: "Status_Update srv ii id = (None, ii, ie)" using Status_Update_echo [OF echo] by blast
  obtain ig where g: "cleanup srv lib r (ii, ie) = (None, (ii, ig))"
    using cleanup_succeeds [OF quiet, of ii lib r ie] i(3) ii by (auto simp: same_resource_def)
  obtain x ih where h: "setConditionAndRecord (rc_hasRecorder r) srv (set_ObservedGeneration ii) ConditionCleanupSucceeded
      ConditionTrue ReasonCleanupSucceeded ''Managed autoscaler resources were deleted'' ig = (x, ih)" by (meson prod.exhaust)
  obtain ik where k: "Status_Update srv x ih = (None, x, ik)" using Status_Update_echo [OF echo] by blast
  have "same_resource x i" using same_resource_record [OF h] ii same_resource_trans by auto
  moreover have "conditionIsTrue x ConditionCleanupSucceeded" using recordD(1) [OF h] by simp
  ultimately have x: "same_resource x i" "conditionIsTrue x ConditionCleanupSucceeded" .
  have m: "oca_meta ib = oca_meta i" using ib by (simp add: same_resource_def)
  have "Reconcile srv lib r req io = Update_autoscaler srv (RemoveFinalizer x FinalizerName) ik"
    using a b c d e g h k i m
    by (auto simp: Reconcile_def reconcile_deleting_def ContainsFinalizer_def release_def)
  moreover have "emits own_sent io ie"
    using ea initialize_emits [OF b] own_emits(1) [OF isSingletonOwner_read_only [OF c]] record_emits(1) [OF d, of own_sent]
      own_emits(2) [OF e] by (blast intro: emits_trans)
  moreover have "emits own_sent ig ik" using record_emits(1) [OF h, of own_sent] own_emits(2) [OF k] by (rule emits_trans)
  ultimately show thesis using that ii g x by blast
qed

section \<open>Properties\<close>

text \<open>
  C1. Progress and readiness agree: a run of the stack sends no deletion, uninstall or update of the resource itself,
  and it reaches its end (the twelve-hour requeue) only with an accepted policy and the answers of this very run
  showing all three deployments available, and then the stack counts as ready; otherwise it asks to be
  requeued after 20 seconds and the stack is not ready, or it returns an error.
\<close>

theorem stack_progress:
  "case reconcileOCICapiStack srv lib r (i, io) of ((requeue, err), (i', io')) \<Rightarrow>
     list_all (\<lambda>(q, a). stack_request q) (sent io io') \<and>
     (if requeue = kubeconfigSecretRefreshInterval then
        err = None \<and> autoscalerStackReady i' \<and> validate i (rc_AutoScalingConfig r) = None \<and>
        seen_available (sent io io') (CAPIProviderNamespace (namespaces_of r)) CAPIDeploymentName \<and>
        seen_available (sent io io') (CAPOCIProviderNamespace (namespaces_of r)) CAPOCIDeploymentName \<and>
        (let values = getAutoscalerDeploymentValues i (namespaces_of r) in
           seen_available (sent io io') (dv_Namespace values) (dv_Name values))
      else if err = None then requeue = 20 \<and> \<not> autoscalerStackReady i' else requeue = 0)"
proof -
  obtain requeue err i' io' where run: "reconcileOCICapiStack srv lib r (i, io) = ((requeue, err), (i', io'))"
    by (metis prod.collapse)
  have "list_all stack_sent (sent io io')"
    using emits_stack [OF reconcileOCICapiStack_emits [OF run]] by (auto simp: emits_def sent_def)
  with stack_ensures [OF run] show ?thesis
    unfolding run prod.case
    by (auto simp: stopped_def track_def Let_def sent_def kubeconfigSecretRefreshInterval_def autoscalerStackReady_def
        split: option.splits)
qed

text \<open>
  C10. Every error of the stack is explained: on a server that stores the status it is sent, the reconcile
  that follows writes one last status whose \<open>Ready\<close> condition is false with the reason and message of the first failed
  stage, and returns an error. (The fallback reason \<open>ReconcileError\<close> is never needed.)
\<close>

theorem stack_error_explained:
  assumes "status_persisted srv" and "reconcileOCICapiStack srv lib r (i, io) = ((requeue, Some e), (i1, io1))"
  shows "case reconcile_stack srv lib r (i, io) of (res, io') \<Rightarrow>
    \<exists>c x d a. firstFalseCondition i1 stage_conditions = Some c \<and> sent io1 io' = [(ReqStatusUpdate (OAutoscaler x), a)] \<and>
      FindStatusCondition (oca_Conditions x) ConditionReady = Some d \<and> cond_Status d = ConditionFalse \<and>
      cond_Reason d = cond_Reason c \<and> cond_Message d = cond_Message c \<and> fst res = 0 \<and> snd res \<noteq> None"
proof -
  from stack_ensures [OF assms(2)] assms(1) obtain c where c: "firstFalseCondition i1 stage_conditions = Some c" and "requeue = 0"
    by (auto simp: stopped_def)
  obtain b i2 io2 where f: "setReadyConditionFromFailedStage (rc_hasRecorder r) srv i1 io1 = (b, i2, io2)"
    by (cases "setReadyConditionFromFailedStage (rc_hasRecorder r) srv i1 io1")
  from failed_stage_reported [OF f c] have b: "b" "io_log io2 = io_log io1" and d: "\<exists>d. FindStatusCondition (oca_Conditions i2) ConditionReady = Some d \<and>
    cond_Status d = ConditionFalse \<and> cond_Reason d = cond_Reason c \<and> cond_Message d = cond_Message c" by auto
  obtain u i3 io3 where u: "Status_Update srv (set_ObservedGeneration i2) io2 = (u, i3, io3)"
    by (cases "Status_Update srv (set_ObservedGeneration i2) io2")
  from Status_Update_log [OF u] b(2) obtain a where a: "sent io1 io3 = [(ReqStatusUpdate (OAutoscaler (set_ObservedGeneration i2)), a)]"
    by (auto simp: sent_def)
  have "reconcile_stack srv lib r (i, io) = ((0, Some (case u of None \<Rightarrow> e
      | Some w \<Rightarrow> Joined [e, Wrapf ''failed to update status after reconcile error: '' w])), io3)"
    using assms(2) f b(1) u \<open>requeue = 0\<close> by (simp add: reconcile_stack_def split: option.splits)
  with a c d show ?thesis by auto
qed

text \<open>
  C2. No unfounded readiness: while the resource is not being deleted, every status it is given with a true \<open>Ready\<close>
  condition comes from a run that saw the deployments of both providers and of the autoscaler available.
\<close>

theorem ready_only_with_evidence:
  "case reconcile_live srv lib r (i, io) of (res, io') \<Rightarrow>
     if \<exists>x a. (ReqStatusUpdate (OAutoscaler x), a) \<in> set (sent io io') \<and> conditionIsTrue x ConditionReady
     then validate i (rc_AutoScalingConfig r) = None \<and>
       seen_available (sent io io') (CAPIProviderNamespace (namespaces_of r)) CAPIDeploymentName \<and>
       seen_available (sent io io') (CAPOCIProviderNamespace (namespaces_of r)) CAPOCIDeploymentName \<and>
       (let values = getAutoscalerDeploymentValues i (namespaces_of r) in
          seen_available (sent io io') (dv_Namespace values) (dv_Name values))
     else True"
proof (cases "reconcile_live srv lib r (i, io)")
  case (Pair res io')
  show ?thesis
    unfolding Pair prod.case using ready_evidence [OF Pair] by auto
qed

text \<open>
  C11. A resource that is not the elected owner stays out of the way: it reads the list of resources and updates its own
  status to blocked and not ready, nothing else, and asks to be requeued after a minute.
\<close>

theorem conflicting_resource_isolated:
  assumes "singletonConflict srv i io = (Inr (Some owner, True), io1)"
  shows "case reconcile_live srv lib r (i, io) of (res, io') \<Rightarrow> \<exists>x a.
    sent io1 io' = [(ReqStatusUpdate (OAutoscaler x), a)] \<and> map fst (sent io io1) = [ReqList autoscaler_kind [] fmempty] \<and>
    oca_meta x = oca_meta i \<and> oca_Phase x = PhaseBlocked \<and> \<not> conditionIsTrue x ConditionReady \<and> fst res = 60"
proof -
  obtain res io' where b: "block_conflict srv r owner (i, io1) = (res, io')" by (cases "block_conflict srv r owner (i, io1)")
  then have "reconcile_live srv lib r (i, io) = (res, io')" using assms by (simp add: reconcile_live_def)
  moreover have "map fst (sent io io1) = [ReqList autoscaler_kind [] fmempty]"
    using assms by (auto simp: singletonConflict_def resolveSingletonOwnerName_def resolveSingletonOwner_def Let_def sent_def
        split: prod.splits sum.splits dest!: request_as_log)
  ultimately show ?thesis using block_conflict_sent [OF b] by auto
qed

text \<open>
  C8. Shared resources are deleted, and the Helm release uninstalled, only on behalf of the resource the run was
  called for, which by the answers of this very run is being deleted, carries the finalizer and is elected by the listed
  resources; namespaces are never deleted.
\<close>

theorem deletions_only_by_deleting_owner:
  assumes "Reconcile srv lib r req io = (res, io')" and "(q, a) \<in> set (sent io io')"
    and "q = ReqDelete y \<or> q = ReqHelm (HelmUninstall spec)"
  shows "\<not> (\<exists>m. q = ReqDelete (ONamespace m)) \<and>
    (\<exists>i. worked_on (sent io io') req i \<and> md_DeletionTimestamp (oca_meta i) \<noteq> None \<and> ContainsFinalizer i FinalizerName \<and>
       elected_in (sent io io') True i)"
  using reconcile_sent [OF assms(1,2)] assms(3) by auto

text \<open>
  C5. The finalizer is kept until cleanup is done: an update of the resource without the finalizer is only sent when the answers of
  the run show that resource being deleted with the finalizer, and either another one is elected or it is elected
  and a whole cleanup succeeded within the run.
\<close>

theorem finalizer_kept_until_cleanup:
  assumes "Reconcile srv lib r req io = (res, io')" and "(ReqUpdate (OAutoscaler x), a) \<in> set (sent io io')"
    and "\<not> ContainsFinalizer x FinalizerName"
  shows "\<exists>i. worked_on (sent io io') req i \<and> md_DeletionTimestamp (oca_meta i) \<noteq> None \<and> ContainsFinalizer i FinalizerName \<and>
    (elected_in (sent io io') False i \<or> elected_in (sent io io') True i \<and> cleaned_in srv lib r io io')"
  using reconcile_sent [OF assms(1,2)] assms(3) by auto

text \<open>
  C12. A rejected policy changes nothing but the status: the run sends status updates of the resource only, none of them ready,
  and returns an error.
\<close>

theorem rejected_policy_only_status:
  assumes "validate i (rc_AutoScalingConfig r) = Some e"
  shows "case reconcile_stack srv lib r (i, io) of (res, io') \<Rightarrow>
    snd res \<noteq> None \<and> sent io io' \<noteq> [] \<and>
    list_all (\<lambda>(q, a). \<exists>x. q = ReqStatusUpdate (OAutoscaler x) \<and> \<not> conditionIsTrue x ConditionReady) (sent io io')"
proof -
  let ?P = "\<lambda>(q, a). \<exists>x. q = ReqStatusUpdate (OAutoscaler x) \<and> \<not> conditionIsTrue x ConditionReady"
  obtain x i1 io1 where p: "policy_stage srv r (i, io) = (x, (i1, io1))" by (metis prod.collapse)
  show ?thesis
  proof (rule policy_rejected_run [OF assms p])
    fix j jo c
    assume u: "Status_Update srv j jo = (c, i1, io1)" and l: "io_log jo = io_log io" and n: "\<not> conditionIsTrue j ConditionReady"
      and x: "x = Inl (0, Some (case c of None \<Rightarrow> e | Some u \<Rightarrow>
        Joined [e, Wrapf ''failed to update status after policy validation failure: '' u]))"
    then obtain e' where run: "reconcileOCICapiStack srv lib r (i, io) = ((0, Some e'), (i1, io1))"
      using p by (simp add: reconcileOCICapiStack_def and_then_def)
    obtain res io' where st: "reconcile_stack srv lib r (i, io) = (res, io')" by (cases "reconcile_stack srv lib r (i, io)")
    have "snd res \<noteq> None" using st run by (auto simp: reconcile_stack_def Let_def split: prod.splits option.splits if_splits)
    with reconcile_stack_tail [OF run st] Status_Update_log [OF u] l n show ?thesis
      unfolding st prod.case by (auto simp: sent_def)
  qed
qed

text \<open>
  C9. A successful cleanup has removed what the operator manages: every RBAC object was deleted or absent, every scaling object
  too, unless the API no longer knows one of their kinds, and the release is gone or was not there.
\<close>

theorem cleanup_complete:
  fixes srv :: "'w server"
  assumes "cleanup srv lib r (i, io) = (None, (i', io'))"
  shows "let values = getAutoscalerDeploymentValues i (namespaces_of r) in
    (\<exists>clusterName io1. clusterNameFor srv (Some i) io = (Inr clusterName, io1) \<and>
       (list_all (\<lambda>s. is_namespace (subc_Object s) \<or> deleted_in (sent io io') (subc_Object s))
          (comp_Subcomponents (GetComponents_enable srv (managedResourceNamespaceFor i (namespaces_of r))
             (CAPIProviderNamespace (namespaces_of r)) clusterName CAPIServiceAccountName i (rc_AutoScalingConfig r)
             (UsesInstancePrincipal (Some (rc_CAPOCICredentials r))))) \<or>
        (\<exists>x e. (ReqDelete x, RespErr e) \<in> set (sent io io') \<and> IsNoMatchError e))) \<and>
    release_gone (sent io io') (dv_Name values) \<and>
    list_all (\<lambda>s. is_namespace (subc_Object s) \<or> deleted_in (sent io io') (subc_Object s))
      (comp_Subcomponents (GetComponents_autoscaler values i :: 'w Component)) \<and> i' = i"
proof -
  let ?v = "getAutoscalerDeploymentValues i (namespaces_of r)"
  define c :: "string \<Rightarrow> 'w Component" where "c clusterName = GetComponents_enable srv (managedResourceNamespaceFor i (namespaces_of r))
     (CAPIProviderNamespace (namespaces_of r)) clusterName CAPIServiceAccountName i (rc_AutoScalingConfig r)
     (UsesInstancePrincipal (Some (rc_CAPOCICredentials r)))" for clusterName
  obtain n io1 r1 io2 io3 where 1: "clusterNameFor srv (Some i) io = (Inr n, io1)" and 2: "removeComponent srv (c n) io1 = (r1, io2)"
    and r1: "r1 = None \<or> (\<exists>e. r1 = Some e \<and> IsNoMatchError e)" and 3: "RemoveAutoscaler srv ?v io2 = (None, io3)"
    and 4: "removeComponent srv (GetComponents_autoscaler ?v i) io3 = (None, io')" and i: "i' = i"
    unfolding c_def by (rule cleanup_run [OF assms])
  note e = clusterNameFor_emits [OF 1] removeComponent_emits [OF 2] RemoveAutoscaler_emits [OF 3] removeComponent_emits [OF 4]
  have sub: "set (sent io1 io2) \<subseteq> set (sent io io')" "set (sent io2 io3) \<subseteq> set (sent io io')" "set (sent io3 io') \<subseteq> set (sent io io')"
    using e by (auto simp: emits_def sent_def)
  have d: "deleted_in log x \<Longrightarrow> set log \<subseteq> set (sent io io') \<Longrightarrow> deleted_in (sent io io') x" for log x
    by (auto simp: deleted_in_def)
  have "list_all (\<lambda>s. is_namespace (subc_Object s) \<or> deleted_in (sent io io') (subc_Object s)) (comp_Subcomponents (c n)) \<or>
      (\<exists>x e. (ReqDelete x, RespErr e) \<in> set (sent io io') \<and> IsNoMatchError e)"
  proof (cases r1)
    case None
    with removeComponent_None [OF 2 [unfolded None]] d [OF _ sub(1)] show ?thesis by (auto simp: list_all_iff)
  next
    case (Some e)
    with r1 removeComponent_Some [OF 2 [unfolded Some]] sub(1) show ?thesis by auto
  qed
  moreover have "release_gone (sent io io') (dv_Name ?v)"
    using RemoveAutoscaler_None [OF 3] sub(2) by (rule release_gone_mono)
  moreover have "list_all (\<lambda>s. is_namespace (subc_Object s) \<or> deleted_in (sent io io') (subc_Object s))
      (comp_Subcomponents (GetComponents_autoscaler ?v i :: 'w Component))"
    using removeComponent_None [OF 4] d [OF _ sub(3)] by (auto simp: list_all_iff)
  ultimately show ?thesis using 1 i by (auto simp: Let_def c_def)
qed



section \<open>Sample runs\<close>

definition sample_reconciler :: OCIClusterAutoscalerReconciler where
  "sample_reconciler = \<lparr>rc_CAPOCICredentials = \<lparr>cred_TenancyID = ''t'', cred_UserID = ''u'', cred_Region = ''r'',
       cred_Fingerprint = ''f'', cred_PrivateKey = ''k'', cred_UseInstancePrincipal = ''false'', cred_Passphrase = []\<rparr>,
     rc_ProviderConfig = \<lparr>pc_CAPIVersion = ''v1.8.0'', pc_CAPOCIVersion = ''v0.20.0'', pc_Version = ''v0.20.0''\<rparr>,
     rc_CAPOCIProvider = \<lparr>pc_CAPIVersion = ''v1.8.0'', pc_CAPOCIVersion = ''v0.20.0'', pc_Version = ''v0.20.0''\<rparr>,
     rc_AutoScalingConfig = sample_config ''10.0.0.0/16'', rc_NamespaceConfig = zero_namespaces, rc_hasRecorder = False\<rparr>"

definition sample_libraries :: libraries where
  "sample_libraries = \<lparr>lib_yaml = \<lparr>yaml_Marshal = (\<lambda>v. Inr []), yaml_Unmarshal = (\<lambda>s. Inr fmempty)\<rparr>, lib_time = (\<lambda>t. ''t'')\<rparr>"

text \<open>A resource whose minimum is above the maximum, one named like the cluster, and one being deleted.\<close>

definition rejected_sample :: OCIClusterAutoscaler where
  "rejected_sample = (let i = sample_autoscaler ''n'' ''x'' 1 [] in
     i\<lparr>oca_Spec := (oca_Spec i)\<lparr>spec_Autoscaling := (spec_Autoscaling (oca_Spec i))\<lparr>as_MinNodes := Some 9\<rparr>\<rparr>\<rparr>)"

definition deleting_sample :: OCIClusterAutoscaler where
  "deleting_sample = (let i = set_Phase PhaseReady (set_Finalizers [FinalizerName] (sample_autoscaler ''n'' ''x'' 1 [])) in
     i\<lparr>oca_meta := (oca_meta i)\<lparr>md_DeletionTimestamp := Some 5\<rparr>,
       oca_Spec := (oca_Spec i)\<lparr>spec_CAPI := (spec_CAPI (oca_Spec i))\<lparr>capi_ClusterName := ''c''\<rparr>\<rparr>\<rparr>)"

lemma rejected_sample: "\<exists>e. validate rejected_sample (rc_AutoScalingConfig sample_reconciler) = Some e"
  by (simp add: validate_def ValidateMinMaxNodes_def rejected_sample_def sample_reconciler_def sample_config_def sample_defs Let_def
      override_def)

lemma rejected_policy_only_status_witness:
  "case reconcile_stack (const_server RespOk) sample_libraries sample_reconciler (rejected_sample, start_io ()) of (res, io') \<Rightarrow>
    snd res \<noteq> None \<and> sent (start_io ()) io' \<noteq> [] \<and>
    list_all (\<lambda>(q, a). \<exists>x. q = ReqStatusUpdate (OAutoscaler x) \<and> \<not> conditionIsTrue x ConditionReady) (sent (start_io ()) io')"
proof -
  from rejected_sample obtain e where "validate rejected_sample (rc_AutoScalingConfig sample_reconciler) = Some e" ..
  from rejected_policy_only_status [OF this] show ?thesis .
qed

lemma conflicting_resource_isolated_witness:
  "let srv = const_server (RespList [OAutoscaler (sample_autoscaler ''a'' ''b'' 0 [])]); i = sample_autoscaler ''n'' ''x'' 1 [];
       io = start_io (); io1 = snd (singletonConflict srv i io) in
   case reconcile_live srv sample_libraries sample_reconciler (i, io) of (res, io') \<Rightarrow> \<exists>x a.
    sent io1 io' = [(ReqStatusUpdate (OAutoscaler x), a)] \<and> map fst (sent io io1) = [ReqList autoscaler_kind [] fmempty] \<and>
    oca_meta x = oca_meta i \<and> oca_Phase x = PhaseBlocked \<and> \<not> conditionIsTrue x ConditionReady \<and> fst res = 60"
proof -
  let ?srv = "const_server (RespList [OAutoscaler (sample_autoscaler ''a'' ''b'' 0 [])])" and ?i = "sample_autoscaler ''n'' ''x'' 1 []"
  have "fst (singletonConflict ?srv ?i (start_io ())) = Inr (Some \<lparr>nn_Namespace = ''a'', nn_Name = ''b''\<rparr>, True)" by code_simp
  then have "singletonConflict ?srv ?i (start_io ()) =
    (Inr (Some \<lparr>nn_Namespace = ''a'', nn_Name = ''b''\<rparr>, True), snd (singletonConflict ?srv ?i (start_io ())))"
    by (metis prod.collapse)
  from conflicting_resource_isolated [OF this, of sample_libraries sample_reconciler] show ?thesis by (simp only: Let_def)
qed


text \<open>A server with one resource, being deleted, that stores statuses and knows no release.\<close>

definition deletion_answer :: "request \<Rightarrow> response" where
  "deletion_answer q = (case q of
     ReqGet k n \<Rightarrow> RespObj (OAutoscaler deleting_sample)
   | ReqList k n l \<Rightarrow> RespList [OAutoscaler deleting_sample]
   | ReqStatusUpdate x \<Rightarrow> RespObj x
   | _ \<Rightarrow> RespRelease None)"

definition deletion_server :: "unit server" where
  "deletion_server = \<lparr>srv_handle = (\<lambda>q w. (deletion_answer q, w)), srv_now = (\<lambda>w. 7)\<rparr>"

lemma deletion_sample:
  "fst (srv_handle deletion_server (ReqGet autoscaler_kind q) w) = RespObj (OAutoscaler deleting_sample)"
  "md_DeletionTimestamp (oca_meta deleting_sample) \<noteq> None" "ContainsFinalizer deleting_sample FinalizerName"
  "TrimSpace (capi_ClusterName (spec_CAPI (oca_Spec deleting_sample))) \<noteq> []"
  "fst (srv_handle deletion_server (ReqList autoscaler_kind [] fmempty) w) = RespList (map OAutoscaler [deleting_sample])"
  "map_option oca_key (selectSingletonOwner [deleting_sample] True) = Some (oca_key deleting_sample)"
  "fst (srv_handle deletion_server (ReqStatusUpdate (OAutoscaler x)) w) = RespObj (OAutoscaler x)"
  "fst (srv_handle deletion_server (ReqDelete y) w) \<noteq> RespErr e"
  "fst (srv_handle deletion_server (ReqHelm h) w) \<noteq> RespErr e"
  "\<exists>x. fst (srv_handle deletion_server (ReqHelm (HelmGetRelease n)) w) = RespRelease x"
  by (simp_all add: deletion_server_def deletion_answer_def deleting_sample_def sample_defs Let_def set_Phase_def set_Finalizers_def
      ContainsFinalizer_def selectSingletonOwner_def sample_trim)



lemma cleanup_complete_witness:
  "let i = deleting_sample; r = sample_reconciler; srv = deletion_server; lib = sample_libraries; io = start_io ();
     values = getAutoscalerDeploymentValues i (namespaces_of r) in
   \<exists>io'. cleanup srv lib r (i, io) = (None, (i, io')) \<and>
    (\<exists>clusterName io1. clusterNameFor srv (Some i) io = (Inr clusterName, io1) \<and>
       (list_all (\<lambda>s. is_namespace (subc_Object s) \<or> deleted_in (sent io io') (subc_Object s))
          (comp_Subcomponents (GetComponents_enable srv (managedResourceNamespaceFor i (namespaces_of r))
             (CAPIProviderNamespace (namespaces_of r)) clusterName CAPIServiceAccountName i (rc_AutoScalingConfig r)
             (UsesInstancePrincipal (Some (rc_CAPOCICredentials r))))) \<or>
        (\<exists>x e. (ReqDelete x, RespErr e) \<in> set (sent io io') \<and> IsNoMatchError e))) \<and>
    release_gone (sent io io') (dv_Name values) \<and>
    list_all (\<lambda>s. is_namespace (subc_Object s) \<or> deleted_in (sent io io') (subc_Object s))
      (comp_Subcomponents (GetComponents_autoscaler values i :: unit Component))"
proof -
  obtain io' where c: "cleanup deletion_server sample_libraries sample_reconciler (deleting_sample, start_io ()) = (None, (deleting_sample, io'))"
    using cleanup_succeeds [OF deletion_sample(8-10,4)] by blast
  from cleanup_complete [OF c] c show ?thesis unfolding Let_def by blast
qed

text \<open>The sample deletion as a log: a deletion of the cluster role, and an update without the finalizer.\<close>

lemma sample_deletion:
  obtains res io' y a x b where
    "Reconcile deletion_server sample_libraries sample_reconciler \<lparr>nn_Namespace = ''n'', nn_Name = ''x''\<rparr> (start_io ()) = (res, io')"
    and "(ReqDelete y, a) \<in> set (sent (start_io ()) io')"
    and "(ReqUpdate (OAutoscaler x), b) \<in> set (sent (start_io ()) io')" and "\<not> ContainsFinalizer x FinalizerName"
proof (rule deletion_run [OF deletion_sample, where req = "\<lparr>nn_Namespace = ''n'', nn_Name = ''x''\<rparr>" and io = "start_io ()"
      and lib = sample_libraries and r = sample_reconciler])
  let ?req = "\<lparr>nn_Namespace = ''n'', nn_Name = ''x''\<rparr>" and ?v = "getAutoscalerDeploymentValues deleting_sample (namespaces_of sample_reconciler)"
  fix j io1 io2 x io3
  assume e: "emits own_sent (start_io ()) io1" "emits own_sent io2 io3"
    and c: "cleanup deletion_server sample_libraries sample_reconciler (j, io1) = (None, (j, io2))"
    and r: "Reconcile deletion_server sample_libraries sample_reconciler ?req (start_io ()) =
      Update_autoscaler deletion_server (RemoveFinalizer x FinalizerName) io3"
  obtain y a where d: "(ReqDelete y, a) \<in> set (sent io1 io2)" using cleanup_deletes [OF c] by blast
  obtain res io' where u: "Update_autoscaler deletion_server (RemoveFinalizer x FinalizerName) io3 = (res, io')" by (meson prod.exhaust)
  obtain b where l: "io_log io' = io_log io3 @ [(ReqUpdate (OAutoscaler (RemoveFinalizer x FinalizerName)), b)]"
    by (rule Update_autoscaler_answer [OF u])
  have "(ReqDelete y, a) \<in> set (sent (start_io ()) io')"
    "(ReqUpdate (OAutoscaler (RemoveFinalizer x FinalizerName)), b) \<in> set (sent (start_io ()) io')"
    using d e cleanup_emits [OF c] l by (auto simp: emits_def sent_def)
  then show thesis by (rule that [OF r [unfolded u]]) simp
qed

lemma deletions_only_by_deleting_owner_witness:
  "\<exists>y a io'. (ReqDelete y, a) \<in> set (sent (start_io ()) io') \<and>
    io' = snd (Reconcile deletion_server sample_libraries sample_reconciler \<lparr>nn_Namespace = ''n'', nn_Name = ''x''\<rparr> (start_io ())) \<and>
    (\<exists>i. worked_on (sent (start_io ()) io') \<lparr>nn_Namespace = ''n'', nn_Name = ''x''\<rparr> i \<and> md_DeletionTimestamp (oca_meta i) \<noteq> None \<and> ContainsFinalizer i FinalizerName \<and>
       elected_in (sent (start_io ()) io') True i)"
proof (rule sample_deletion)
  fix res io' y a
  assume r: "Reconcile deletion_server sample_libraries sample_reconciler \<lparr>nn_Namespace = ''n'', nn_Name = ''x''\<rparr> (start_io ()) = (res, io')"
    and d: "(ReqDelete y, a) \<in> set (sent (start_io ()) io')"
  from deletions_only_by_deleting_owner [OF r d, of y] d r show ?thesis by (auto simp: r)
qed

lemma finalizer_kept_until_cleanup_witness:
  "\<exists>x b io'. (ReqUpdate (OAutoscaler x), b) \<in> set (sent (start_io ()) io') \<and> \<not> ContainsFinalizer x FinalizerName \<and>
    io' = snd (Reconcile deletion_server sample_libraries sample_reconciler \<lparr>nn_Namespace = ''n'', nn_Name = ''x''\<rparr> (start_io ())) \<and>
    (\<exists>i. worked_on (sent (start_io ()) io') \<lparr>nn_Namespace = ''n'', nn_Name = ''x''\<rparr> i \<and> md_DeletionTimestamp (oca_meta i) \<noteq> None \<and> ContainsFinalizer i FinalizerName \<and>
       (elected_in (sent (start_io ()) io') False i \<or> elected_in (sent (start_io ()) io') True i \<and>
          cleaned_in deletion_server sample_libraries sample_reconciler (start_io ()) io'))"
proof (rule sample_deletion)
  fix res io' x b
  assume r: "Reconcile deletion_server sample_libraries sample_reconciler \<lparr>nn_Namespace = ''n'', nn_Name = ''x''\<rparr> (start_io ()) = (res, io')"
    and u: "(ReqUpdate (OAutoscaler x), b) \<in> set (sent (start_io ()) io')" "\<not> ContainsFinalizer x FinalizerName"
  from finalizer_kept_until_cleanup [OF r u] u show ?thesis by (auto simp: r)
qed

lemma stack_error_explained_witness:
  "\<exists>requeue e i1 io1. reconcileOCICapiStack deletion_server sample_libraries sample_reconciler (rejected_sample, start_io ()) =
      ((requeue, Some e), (i1, io1)) \<and>
   (case reconcile_stack deletion_server sample_libraries sample_reconciler (rejected_sample, start_io ()) of (res, io') \<Rightarrow>
    \<exists>c x d a. firstFalseCondition i1 stage_conditions = Some c \<and> sent io1 io' = [(ReqStatusUpdate (OAutoscaler x), a)] \<and>
      FindStatusCondition (oca_Conditions x) ConditionReady = Some d \<and> cond_Status d = ConditionFalse \<and>
      cond_Reason d = cond_Reason c \<and> cond_Message d = cond_Message c \<and> fst res = 0 \<and> snd res \<noteq> None)"
proof -
  from rejected_sample obtain e where v: "validate rejected_sample (rc_AutoScalingConfig sample_reconciler) = Some e" ..
  obtain x i1 io1 where p: "policy_stage deletion_server sample_reconciler (rejected_sample, start_io ()) = (x, (i1, io1))"
    by (metis prod.collapse)
  obtain e' where "x = Inl (0, Some e')" by (rule policy_rejected_run [OF v p])
  with p have run: "reconcileOCICapiStack deletion_server sample_libraries sample_reconciler (rejected_sample, start_io ()) =
      ((0, Some e'), (i1, io1))"
    by (simp add: reconcileOCICapiStack_def and_then_def)
  have "status_persisted deletion_server" by (simp add: status_persisted_def deletion_server_def deletion_answer_def)
  from stack_error_explained [OF this run] show ?thesis by (intro exI conjI) (rule run)
qed

end
