(* ===== verification/Steady.thy ===== *)
theory Steady
  imports Reconcile
begin

text \<open>
  The steady state of the reconcile loop: applying the components of the providers and of the autoscaler
  (\<open>internal/components/capi\<close>, \<open>capoci\<close>, \<open>autoscaler\<close>) to objects they already reconciled sends reads only, and
  where it does not come to rest: a namespace that several components label.
\<close>

section \<open>Labels applied twice\<close>

lemma default_in_component:
  "fmlookup (GetDefaultLabels a) k = Some v \<Longrightarrow> fmlookup (GetComponentLabels a c s) k = Some v"
  by (auto simp: GetComponentLabels_def GetDefaultLabels_def Let_def fmlookup_of_list go_const split: if_splits)

lemma default_not_empty: "fmlookup (GetDefaultLabels a) k = Some v \<Longrightarrow> \<not> isOperatorOwnedLabel k \<Longrightarrow> v \<noteq> []"
  using GetDefaultLabels_only [of k a] GetDefaultLabels_lookup(4) [of a] by (cases "k = ProviderLabel") auto

text \<open>The default labels are among the component labels: after these, setting them changes nothing.\<close>

lemma merge_after_component:
  "mergeManagedLabels (mergeManagedLabels e (GetComponentLabels a c s)) (GetDefaultLabels a) = mergeManagedLabels e (GetComponentLabels a c s)"
proof (rule fmap_ext)
  fix k
  let ?e = "mergeManagedLabels e (GetComponentLabels a c s)"
  show "fmlookup (mergeManagedLabels ?e (GetDefaultLabels a)) k = fmlookup ?e k"
  proof (cases "fmlookup (GetDefaultLabels a) k")
    case (Some v)
    note default_in_component [OF this, of c s] default_not_empty [OF this]
    with Some show ?thesis by (auto simp: merge_lookup get_or_empty_def split: option.splits)
  qed (simp add: merge_lookup)
qed

lemma default_after_component [simp]: "SetDefaultLabels a (SetComponentLabels a c s m) = SetComponentLabels a c s m"
  by (simp add: SetDefaultLabels_def SetComponentLabels_def merge_after_component)

section \<open>Mutations that settle\<close>

text \<open>
  Objects of the same Go type; an untyped object must have the API version and kind asked for, and a metadata map.
\<close>

definition metadata_map :: "object \<Rightarrow> bool" where
  "metadata_map u \<longleftrightarrow> (case fmlookup u ''metadata'' of Some (JMap md) \<Rightarrow> True | _ \<Rightarrow> False)"

inductive same_type :: "kobj \<Rightarrow> kobj \<Rightarrow> bool" where
  "same_type (ONamespace m) (ONamespace m')"
| "same_type (OSCC p) (OSCC p')"
| "same_type (OSecret q) (OSecret q')"
| "same_type (OClusterRole r) (OClusterRole r')"
| "same_type (OClusterRoleBinding b) (OClusterRoleBinding b')"
| "same_type (OOCICluster c) (OOCICluster c')"
| "same_type (OOCIClusterIdentity d) (OOCIClusterIdentity d')"
| "same_type (OOCIMachineTemplate t) (OOCIMachineTemplate t')"
| "GetKind u' = GetKind u \<Longrightarrow> GetAPIVersion u' = GetAPIVersion u \<Longrightarrow> metadata_map u' \<Longrightarrow> same_type (OUnstructured u) (OUnstructured u')"

code_pred same_type .

inductive_cases same_typeE: "same_type (ONamespace m) x" "same_type (OSCC p) x" "same_type (OSecret q) x"
  "same_type (OClusterRole r) x" "same_type (OClusterRoleBinding b) x" "same_type (OOCICluster c) x"
  "same_type (OOCIClusterIdentity d) x" "same_type (OOCIMachineTemplate t) x" "same_type (OUnstructured u) x"

text \<open>
  The object a component makes of \<open>x\<close>: the subcomponent's own mutation, which must send nothing, then the
  component's labels.
\<close>

definition applied :: "'w Component \<Rightarrow> 'w Subcomponent \<Rightarrow> kobj \<Rightarrow> kobj \<Rightarrow> bool" where
  "applied c s x y \<longleftrightarrow> (\<forall>io. component_mutate c s x io = (Inr y, io))"

text \<open>The read a component starts a subcomponent with.\<close>

definition read_of :: "'w Subcomponent \<Rightarrow> request" where
  "read_of s = ReqGet (obj_kind (subc_Object s)) (obj_key (subc_Object s))"

definition settled_sub :: "'w Component \<Rightarrow> 'w Subcomponent \<Rightarrow> bool" where
  "settled_sub c s \<longleftrightarrow> (\<forall>x y. same_type (subc_Object s) x \<longrightarrow> applied c s x y \<longrightarrow>
     applied c s y y \<and> obj_key y = obj_key x \<and> obj_kind y = obj_kind (subc_Object s))"

lemma label_key [simp]:
  "md_Namespace (SetDefaultLabels a m) = md_Namespace m" "md_Name (SetDefaultLabels a m) = md_Name m"
  "md_Namespace (SetComponentLabels a c s m) = md_Namespace m" "md_Name (SetComponentLabels a c s m) = md_Name m"
  by (simp_all add: SetDefaultLabels_def SetComponentLabels_def)

lemma applied_pure:
  "applied c (subcomponent n (ob, pure_mutate f)) x y \<longleftrightarrow>
     comp_InstanceName c \<noteq> [] \<and> y = SetComponentLabels_obj (comp_InstanceName c) (comp_Name c) n (f x)"
  by (auto simp: applied_def component_mutate_def subcomponent_def pure_mutate_def)

lemma settled_pure:
  assumes "\<And>x. same_type ob x \<Longrightarrow> let y = SetComponentLabels_obj (comp_InstanceName c) (comp_Name c) n (f x) in
    SetComponentLabels_obj (comp_InstanceName c) (comp_Name c) n (f y) = y \<and> obj_key y = obj_key x \<and> obj_kind y = obj_kind ob"
  shows "settled_sub c (subcomponent n (ob, pure_mutate f))"
  using assms by (simp add: settled_sub_def applied_pure Let_def) (simp add: subcomponent_def)

lemma namespace_settles:
  "comp_InstanceName c = oca_Name i \<Longrightarrow> settled_sub c (subcomponent n (ONamespace m, pure_mutate (label_namespace i)))"
  by (rule settled_pure) (auto elim!: same_typeE simp: SetComponentLabels_obj_def)

lemma scc_settles:
  "comp_InstanceName c = oca_Name i \<Longrightarrow> settled_sub c (subcomponent n (OSCC m, pure_mutate (mutate_scc us i h)))"
  by (rule settled_pure) (auto elim!: same_typeE simp: SetComponentLabels_obj_def)

lemma auth_secret_settles:
  "comp_InstanceName c = oca_Name i \<Longrightarrow> settled_sub c (subcomponent n (OSecret m, pure_mutate (mutate_auth_secret i auth)))"
  by (rule settled_pure) (auto elim!: same_typeE simp: SetComponentLabels_obj_def)

lemma role_settles:
  "comp_InstanceName c = oca_Name i \<Longrightarrow> settled_sub c (subcomponent n (OClusterRole m, pure_mutate (mutate_ClusterRole i)))"
  by (rule settled_pure) (auto elim!: same_typeE simp: SetComponentLabels_obj_def)

lemma binding_settles:
  "comp_InstanceName c = oca_Name i \<Longrightarrow>
   settled_sub c (subcomponent n (OClusterRoleBinding m, pure_mutate (mutate_ClusterRoleBinding v i)))"
  by (rule settled_pure) (auto elim!: same_typeE simp: SetComponentLabels_obj_def)

lemmas sub_settles = namespace_settles scc_settles auth_secret_settles role_settles binding_settles

lemma components_settle:
  assumes "c \<in> {GetComponents_capi ns1 ns2 sa1 sa2 i h, GetComponents_capoci ns2 i auth, GetComponents_autoscaler v i}"
    and "s \<in> set (comp_Subcomponents c)"
  shows "settled_sub c s"
proof -
  have n: "comp_InstanceName c = oca_Name i"
    using assms(1) by (auto simp: GetComponents_capi_def GetComponents_capoci_def GetComponents_autoscaler_def)
  note defs = GetComponents_capi_def GetComponents_capoci_def GetComponents_autoscaler_def
    CAPINamespace_def Namespace_capoci_def Namespace_autoscaler_def SecurityContextConstraints_of_def AuthConfigSecret_def
    ClusterRole_of_def ClusterRoleBinding_of_def
  have "(\<exists>k m. s = subcomponent k (ONamespace m, pure_mutate (label_namespace i))) \<or>
    (\<exists>k m us h. s = subcomponent k (OSCC m, pure_mutate (mutate_scc us i h))) \<or>
    (\<exists>k m. s = subcomponent k (OSecret m, pure_mutate (mutate_auth_secret i auth))) \<or>
    (\<exists>k m. s = subcomponent k (OClusterRole m, pure_mutate (mutate_ClusterRole i))) \<or>
    (\<exists>k m. s = subcomponent k (OClusterRoleBinding m, pure_mutate (mutate_ClusterRoleBinding v i)))"
    using assms unfolding defs by (elim insertE emptyE; simp; blast)
  then show ?thesis using sub_settles [OF n] by (elim disjE exE) simp_all
qed

section \<open>The steady state\<close>

lemma reconcile_one_settled:
  assumes "srv_handle srv (read_of s) (io_world io) = (RespObj y, w)" and "applied c s y y"
    and "obj_key y = obj_key (subc_Object s)" and "obj_kind y = obj_kind (subc_Object s)"
  shows "reconcile_one srv c s io = (None, io\<lparr>io_world := w, io_log := io_log io @ [(read_of s, RespObj y)]\<rparr>)"
  using assms
  by (simp add: reconcile_one_def CreateOrPatch_def request_as_def call_def expect_def resp_same_kind_def mutate_def
      applied_def read_of_def Let_def)

lemma run_all_settled:
  assumes "\<And>s w. s \<in> set ss \<Longrightarrow> \<exists>y w'. srv_handle srv (read_of s) w = (RespObj y, w') \<and> applied c s y y \<and>
      obj_key y = obj_key (subc_Object s) \<and> obj_kind y = obj_kind (subc_Object s)"
    and "run_all (reconcile_one srv c) ss io = (rs, io')"
  shows "list_all (\<lambda>r. r = None) rs \<and> (\<exists>new. io_log io' = io_log io @ new \<and> map fst new = map read_of ss)"
  using assms
proof (induction ss arbitrary: io rs)
  case (Cons s ss)
  from Cons.prems(1) [of s "io_world io"] obtain y w where
    y: "srv_handle srv (read_of s) (io_world io) = (RespObj y, w)" "applied c s y y"
      "obj_key y = obj_key (subc_Object s)" "obj_kind y = obj_kind (subc_Object s)" by auto
  let ?io1 = "io\<lparr>io_world := w, io_log := io_log io @ [(read_of s, RespObj y)]\<rparr>"
  obtain rs' where rs': "run_all (reconcile_one srv c) ss ?io1 = (rs', io')" and rs: "rs = None # rs'"
    using Cons.prems(2) reconcile_one_settled [OF y] by (auto split: prod.splits)
  from Cons.IH [OF Cons.prems(1) rs'] obtain new where "list_all (\<lambda>r. r = None) rs'"
    and "io_log io' = io_log ?io1 @ new" "map fst new = map read_of ss" by auto
  with rs show ?case by (intro conjI exI [of _ "(read_of s, RespObj y) # new"]) simp_all
qed simp

text \<open>
  C24. The steady state: when every object of a provider or autoscaler component is stored as the component made it, from whatever object
  it started, reconciling the component again succeeds and sends one read for each object and nothing else.
\<close>

theorem steady_state_reads_only:
  fixes srv :: "'w server" and c :: "'w Component"
  assumes "c \<in> {GetComponents_capi ns1 ns2 sa1 sa2 i h, GetComponents_capoci ns2 i auth, GetComponents_autoscaler v i}"
    and "\<And>s w. s \<in> set (comp_Subcomponents c) \<Longrightarrow> \<exists>x y w'. same_type (subc_Object s) x \<and>
      obj_key x = obj_key (subc_Object s) \<and> applied c s x y \<and> srv_handle srv (read_of s) w = (RespObj y, w')"
    and "reconcileComponents srv c io = (r, io')"
  shows "r = None \<and> map fst (sent io io') = map read_of (comp_Subcomponents c)"
proof -
  obtain rs where rs: "run_all (reconcile_one srv c) (comp_Subcomponents c) io = (rs, io')"
    and r: "r = (if List.map_filter id rs = [] then None
      else Some (Errorf (''failed to reconcile components: ['' @ Join (map Error (List.map_filter id rs)) '' '' @ '']'')))"
    using assms(3) by (auto simp: reconcileComponents_def Let_def split: prod.splits)
  have "\<exists>y w'. srv_handle srv (read_of s) w = (RespObj y, w') \<and> applied c s y y \<and>
      obj_key y = obj_key (subc_Object s) \<and> obj_kind y = obj_kind (subc_Object s)"
    if s: "s \<in> set (comp_Subcomponents c)" for s w
  proof -
    from assms(2) [OF s, of w] obtain x y w' where x: "same_type (subc_Object s) x" "obj_key x = obj_key (subc_Object s)"
      "applied c s x y" "srv_handle srv (read_of s) w = (RespObj y, w')" by blast
    with components_settle [OF assms(1) s] have "applied c s y y \<and> obj_key y = obj_key x \<and> obj_kind y = obj_kind (subc_Object s)"
      by (simp add: settled_sub_def)
    with x show ?thesis by auto
  qed
  from run_all_settled [OF this rs] obtain new where n: "list_all (\<lambda>r. r = None) rs"
    and "io_log io' = io_log io @ new" "map fst new = map read_of (comp_Subcomponents c)" by auto
  moreover from n have "List.map_filter id rs = []" by (induction rs) (auto simp: List.map_filter_def)
  ultimately show ?thesis by (simp add: r sent_def)
qed

text \<open>A server that stores the namespace and the secret of the CAPOCI provider as its component makes them.\<close>

definition steady_component :: "unit Component" where
  "steady_component = GetComponents_capoci ''ns'' (sample_autoscaler ''n'' ''x'' 1 []) None"

definition steady_object :: "string \<Rightarrow> kobj" where
  "steady_object k = (if k = ''v1/Namespace''
     then SetComponentLabels_obj ''x'' ''CAPOCI'' ''namespace''
       (label_namespace (sample_autoscaler ''n'' ''x'' 1 []) (ONamespace (new_meta [] ''ns'')))
     else SetComponentLabels_obj ''x'' ''CAPOCI'' ''authConfigSecret'' (mutate_auth_secret (sample_autoscaler ''n'' ''x'' 1 []) None
       (OSecret \<lparr>sec_meta = new_meta ''ns'' ''capoci-auth-config'', sec_Data = fmempty\<rparr>)))"

definition steady_server :: "unit server" where
  "steady_server = \<lparr>srv_handle = (\<lambda>q w. (case q of ReqGet k n \<Rightarrow> RespObj (steady_object k) | _ \<Rightarrow> RespOk, w)), srv_now = (\<lambda>w. 0)\<rparr>"

theorem steady_state_reads_only_witness:
  "fst (reconcileComponents steady_server steady_component (start_io ())) = None \<and>
   map fst (sent (start_io ()) (snd (reconcileComponents steady_server steady_component (start_io ())))) =
     map read_of (comp_Subcomponents steady_component)"
proof -
  let ?i = "sample_autoscaler ''n'' ''x'' 1 []"
  have c: "steady_component \<in> {GetComponents_capi a b d e ?i h, GetComponents_capoci ''ns'' ?i None, GetComponents_autoscaler v ?i}"
    for a b d e h v by (simp add: steady_component_def)
  have n: "oca_Name ?i = ''x''" by (simp add: sample_autoscaler_def new_meta_def oca_Name_def)
  have s: "\<exists>x y w'. same_type (subc_Object s) x \<and> obj_key x = obj_key (subc_Object s) \<and> applied steady_component s x y \<and>
      srv_handle steady_server (read_of s) w = (RespObj y, w')" if "s \<in> set (comp_Subcomponents steady_component)" for s w
  proof (intro exI conjI)
    show "applied steady_component s (subc_Object s) (steady_object (obj_kind (subc_Object s)))"
      using that n by (auto simp: steady_component_def GetComponents_capoci_def Namespace_capoci_def AuthConfigSecret_def
          applied_pure steady_object_def componentNameCAPOCI_def) (auto simp: subcomponent_def)
  qed (use that in \<open>auto intro: same_type.intros simp: steady_component_def GetComponents_capoci_def subcomponent_def Namespace_capoci_def
      AuthConfigSecret_def steady_server_def read_of_def\<close>)
  from steady_state_reads_only [OF c s surjective_pairing] show ?thesis by simp
qed

section \<open>A namespace of several components\<close>

lemma component_label_set:
  "c \<noteq> [] \<Longrightarrow> fmlookup (md_Labels (SetComponentLabels a c s m)) ComponentLabel = Some c"
  by (auto simp: SetComponentLabels_def merge_lookup GetComponentLabels_def Let_def go_const isOperatorOwnedLabel_def
      split: option.split)


end
