(* ===== verification/Install.thy ===== *)
theory Install
  imports Lifecycle Steady
begin

text \<open>
  The positive side of the reconcile loop: on a working cluster with a valid configuration, one run of \<open>Reconcile\<close>
  installs everything and reports the resource ready.
\<close>

section \<open>A working cluster\<close>

text \<open>Writes of objects and of the resource's status succeed, and Helm answers in kind.\<close>

definition accepts_writes :: "'w server \<Rightarrow> bool" where
  "accepts_writes srv \<longleftrightarrow> (\<forall>w.
     (\<forall>x e. fst (srv_handle srv (ReqCreate x) w) \<noteq> RespErr e) \<and>
     (\<forall>x y e. fst (srv_handle srv (ReqPatch x y) w) \<noteq> RespErr e) \<and>
     (\<forall>x y e. fst (srv_handle srv (ReqStatusPatch x y) w) \<noteq> RespErr e) \<and>
     (\<forall>x. fst (srv_handle srv (ReqStatusUpdate (OAutoscaler x)) w) = RespObj (OAutoscaler x)) \<and>
     (\<forall>h e. fst (srv_handle srv (ReqHelm h) w) \<noteq> RespErr e) \<and>
     (\<forall>n. \<exists>b. fst (srv_handle srv (ReqHelm (HelmGetChart n)) w) = RespChart b) \<and>
     (\<forall>n. \<exists>x. fst (srv_handle srv (ReqHelm (HelmGetRelease n)) w) = RespRelease x))"

text \<open>
  The OpenShift objects the operator reads, tokens, and deployments that become available. The certificate of the
  machine-config server and the host name of the API server leave the ignition configuration within the user data.
\<close>

definition openshift_cluster :: "'w server \<Rightarrow> Infrastructure \<Rightarrow> nsname set \<Rightarrow> bool" where
  "openshift_cluster srv infra deployments \<longleftrightarrow> (\<forall>w.
     fst (srv_handle srv (ReqList infrastructure_kind [] fmempty) w) = RespList [OInfrastructure infra] \<and>
     (\<exists>s. fst (srv_handle srv (ReqGet secret_kind
        \<lparr>nn_Namespace = ''openshift-machine-config-operator'', nn_Name = ''machine-config-server-tls''\<rparr>) w) = RespObj (OSecret s) \<and>
        variable_size (api_server_host (infra_APIServerInternalURL infra)) (get_or_empty (sec_Data s) ''tls.crt'') \<le> 8228) \<and>
     (\<exists>m. fst (srv_handle srv (ReqGet configmap_kind \<lparr>nn_Namespace = ''kube-system'', nn_Name = ''kube-root-ca.crt''\<rparr>) w) =
        RespObj (OConfigMap m)) \<and>
     (\<forall>n a e. \<exists>t. fst (srv_handle srv (ReqToken n a e) w) = RespToken t \<and> t \<noteq> []) \<and>
     (\<forall>n \<in> deployments. \<exists>d. fst (srv_handle srv (ReqGet deployment_kind n) w) = RespObj (ODeployment d) \<and> deployment_available d))"

text \<open>
  What is stored of the managed objects: typed ones may be there already, as objects of their kind; the node pool is new; the
  \<open>Cluster\<close> object is there from its creation on (\<open>stored\<close>), with a status that is not set or says initialized.
\<close>

definition typed_kinds :: "string set" where
  "typed_kinds = {''v1/Namespace'', ''v1/Secret'', ''security.openshift.io/v1/SecurityContextConstraints'',
     ''rbac.authorization.k8s.io/v1/ClusterRole'', ''rbac.authorization.k8s.io/v1/ClusterRoleBinding'',
     ''infrastructure.cluster.x-k8s.io/v1beta2/OCICluster'', ''infrastructure.cluster.x-k8s.io/v1beta2/OCIClusterIdentity''}"

definition pool_kinds :: "string set" where
  "pool_kinds = {''infrastructure.cluster.x-k8s.io/v1beta2/OCIMachineTemplate'', ''cluster.x-k8s.io/v1beta2/MachineDeployment'',
     ''cluster.x-k8s.io/v1beta2/MachineHealthCheck''}"

definition cluster_kind :: string where "cluster_kind = ''cluster.x-k8s.io/v1beta2/Cluster''"

definition absent :: "response \<Rightarrow> bool" where
  "absent a = (case a of RespErr e \<Rightarrow> IsNotFound e | _ \<Rightarrow> False)"

definition stored_as_kind :: "string \<Rightarrow> nsname \<Rightarrow> response \<Rightarrow> bool" where
  "stored_as_kind k n a = (case a of RespObj y \<Rightarrow> obj_meta y \<noteq> None \<and> obj_kind y = k \<and> obj_key y = n | _ \<Rightarrow> False)"

definition status_ready_to_mark :: "(time \<Rightarrow> string) \<Rightarrow> time \<Rightarrow> object \<Rightarrow> bool" where
  "status_ready_to_mark fmt now u \<longleftrightarrow> fmlookup u ''status'' = None \<or> mark_initialized fmt now u = Inr None"

definition managed_objects :: "(time \<Rightarrow> string) \<Rightarrow> 'w server \<Rightarrow> ('w \<Rightarrow> bool) \<Rightarrow> nsname \<Rightarrow> bool" where
  "managed_objects fmt srv stored cluster \<longleftrightarrow> (\<forall>w.
     (\<forall>k n. k \<in> typed_kinds \<longrightarrow> absent (fst (srv_handle srv (ReqGet k n) w)) \<or> stored_as_kind k n (fst (srv_handle srv (ReqGet k n) w))) \<and>
     (\<forall>k n. k \<in> pool_kinds \<longrightarrow> absent (fst (srv_handle srv (ReqGet k n) w))) \<and>
     (if stored w then \<exists>u. fst (srv_handle srv (ReqGet cluster_kind cluster) w) = RespObj (OUnstructured u) \<and>
          obj_kind (OUnstructured u) = cluster_kind \<and> obj_key (OUnstructured u) = cluster \<and> (\<forall>now. status_ready_to_mark fmt now u)
      else absent (fst (srv_handle srv (ReqGet cluster_kind cluster) w))) \<and>
     (\<forall>q. stored w \<longrightarrow> stored (snd (srv_handle srv q w))) \<and>
     (\<forall>x. obj_kind x = cluster_kind \<longrightarrow> obj_key x = cluster \<longrightarrow> stored (snd (srv_handle srv (ReqCreate x) w))))"

section \<open>Components that reconcile\<close>

text \<open>A check that passes; the world keeps the \<open>Cluster\<close> object, and has it at the end if \<open>c\<close>.\<close>

definition passes :: "('w \<Rightarrow> bool) \<Rightarrow> bool \<Rightarrow> ('w io \<Rightarrow> check \<times> 'w io) \<Rightarrow> bool" where
  "passes stored c f \<longleftrightarrow> (\<forall>io. \<exists>io'. f io = (None, io') \<and> (c \<or> stored (io_world io) \<longrightarrow> stored (io_world io')))"

definition mutates :: "('w \<Rightarrow> bool) \<Rightarrow> kobj \<Rightarrow> 'w mutate_fn \<Rightarrow> kobj \<Rightarrow> bool" where
  "mutates stored ob f x \<longleftrightarrow> (\<forall>io. \<exists>y io'. f x io = (Inr y, io') \<and> obj_key y = obj_key ob \<and> obj_kind y = obj_kind ob \<and>
     (stored (io_world io) \<longrightarrow> stored (io_world io')))"

lemma request_world: "request_as srv D q io = (x, io') \<Longrightarrow> x = expect D (fst (srv_handle srv q (io_world io))) \<and>
    io_world io' = snd (srv_handle srv q (io_world io))"
  by (auto simp: request_as_def call_def Let_def split: prod.splits)

text \<open>\<open>CreateOrPatch\<close> passes when the object is absent or stored in its kind, and its mutation succeeds on either.\<close>

lemma reconcile_one_passes:
  assumes srv: "accepts_writes srv" and keep: "\<And>q w. stored w \<Longrightarrow> stored (snd (srv_handle srv q w))"
    and get: "\<And>w. absent (fst (srv_handle srv (read_of s) w)) \<or>
      (\<exists>y. fst (srv_handle srv (read_of s) w) = RespObj y \<and> obj_kind y = obj_kind (subc_Object s) \<and>
         mutates stored (subc_Object s) (component_mutate c s) y \<and> (k \<longrightarrow> stored w))"
    and new: "mutates stored (subc_Object s) (component_mutate c s) (subc_Object s)"
    and cluster: "\<And>x w. k \<Longrightarrow> obj_kind x = obj_kind (subc_Object s) \<Longrightarrow> obj_key x = obj_key (subc_Object s) \<Longrightarrow>
      stored (snd (srv_handle srv (ReqCreate x) w))"
  shows "passes stored k (reconcile_one srv c s)"
  unfolding passes_def
proof (intro allI)
  fix io :: "'a io"
  let ?ob = "subc_Object s" and ?f = "component_mutate c s"
  obtain x io1 where x: "request_as srv (resp_same_kind ?ob) (read_of s) io = (x, io1)" by fastforce
  note r = request_world [OF x]
  have unit: "\<exists>io'. request_as srv resp_unit q io = (Inr (), io') \<and> io_world io' = snd (srv_handle srv q (io_world io))"
    if "\<And>e. fst (srv_handle srv q (io_world io)) \<noteq> RespErr e" for q and io :: "'a io"
    by (metis expect_unit_ok [OF that] request_world surj_pair)
  from get [of "io_world io"] show "\<exists>io'. reconcile_one srv c s io = (None, io') \<and>
      (k \<or> stored (io_world io) \<longrightarrow> stored (io_world io'))"
  proof
    assume "absent (fst (srv_handle srv (read_of s) (io_world io)))"
    then obtain e where e: "x = Inl e" "IsNotFound e" using r by (auto simp: absent_def expect_def split: response.splits)
    obtain y io2 where y: "?f ?ob io1 = (Inr y, io2)" "obj_key y = obj_key ?ob" "obj_kind y = obj_kind ?ob"
      "stored (io_world io1) \<longrightarrow> stored (io_world io2)" using new unfolding mutates_def by meson
    have "\<And>e. fst (srv_handle srv (ReqCreate y) (io_world io2)) \<noteq> RespErr e" using srv by (simp add: accepts_writes_def)
    from unit [OF this] obtain io3 where 3: "request_as srv resp_unit (ReqCreate y) io2 = (Inr (), io3)"
      "io_world io3 = snd (srv_handle srv (ReqCreate y) (io_world io2))" by blast
    have "reconcile_one srv c s io = (None, io3)"
      using x e y 3 by (simp add: reconcile_one_def CreateOrPatch_def read_of_def Let_def mutate_def)
    moreover have "k \<or> stored (io_world io) \<longrightarrow> stored (io_world io3)" using r y keep 3 cluster by auto
    ultimately show ?thesis by blast
  next
    assume "\<exists>y. fst (srv_handle srv (read_of s) (io_world io)) = RespObj y \<and> obj_kind y = obj_kind ?ob \<and>
      mutates stored ?ob ?f y \<and> (k \<longrightarrow> stored (io_world io))"
    then obtain z where z: "x = Inr z" "mutates stored ?ob ?f z" "k \<longrightarrow> stored (io_world io)"
      using r by (auto simp: expect_def resp_same_kind_def)
    obtain y io2 where y: "?f z io1 = (Inr y, io2)" "obj_key y = obj_key ?ob" "obj_kind y = obj_kind ?ob"
      "stored (io_world io1) \<longrightarrow> stored (io_world io2)" using z(2) unfolding mutates_def by meson
    have "\<And>e. fst (srv_handle srv (ReqPatch z y) (io_world io2)) \<noteq> RespErr e" using srv by (simp add: accepts_writes_def)
    from unit [OF this] obtain io3 where 3: "request_as srv resp_unit (ReqPatch z y) io2 = (Inr (), io3)"
      "io_world io3 = snd (srv_handle srv (ReqPatch z y) (io_world io2))" by blast
    have "reconcile_one srv c s io = (None, if z = y then io2 else io3)"
      using x z y 3 by (simp add: reconcile_one_def CreateOrPatch_def read_of_def Let_def mutate_def)
    moreover have "k \<or> stored (io_world io) \<longrightarrow> stored (io_world (if z = y then io2 else io3))" using r y keep 3 z by auto
    ultimately show ?thesis by blast
  qed
qed

lemma run_all_passes:
  assumes "\<And>s. s \<in> set ss \<Longrightarrow> passes stored (K s) (f s)"
  shows "\<exists>rs io'. run_all f ss io = (rs, io') \<and> List.map_filter id rs = [] \<and>
    ((\<exists>s \<in> set ss. K s) \<or> stored (io_world io) \<longrightarrow> stored (io_world io'))"
  using assms
proof (induction ss arbitrary: io)
  case Nil
  then show ?case by (simp add: map_filter_simps)
next
  case (Cons s ss)
  from Cons.prems have "passes stored (K s) (f s)" by simp
  then obtain io1 where 1: "f s io = (None, io1)" "K s \<or> stored (io_world io) \<longrightarrow> stored (io_world io1)"
    unfolding passes_def by meson
  from Cons.prems have "\<And>s. s \<in> set ss \<Longrightarrow> passes stored (K s) (f s)" by simp
  from Cons.IH [OF this, of io1] obtain rs io' where 2: "run_all f ss io1 = (rs, io')" "List.map_filter id rs = []"
    "(\<exists>s \<in> set ss. K s) \<or> stored (io_world io1) \<longrightarrow> stored (io_world io')" by blast
  have "List.map_filter id (None # rs) = []" using 2(2) by (simp only: map_filter_simps id_apply option.case)
  moreover have "run_all f (s # ss) io = (None # rs, io')" using 1 2 by simp
  moreover have "(\<exists>x \<in> set (s # ss). K x) \<or> stored (io_world io) \<longrightarrow> stored (io_world io')" using 1 2(3) by auto
  ultimately show ?case by blast
qed

lemma components_pass:
  assumes "\<And>s. s \<in> set (comp_Subcomponents c) \<Longrightarrow> passes stored (K s) (reconcile_one srv c s)"
  shows "passes stored (\<exists>s \<in> set (comp_Subcomponents c). K s) (reconcileComponents srv c)"
  unfolding passes_def reconcileComponents_def
proof (intro allI)
  fix io
  obtain rs io' where "run_all (reconcile_one srv c) (comp_Subcomponents c) io = (rs, io')" "List.map_filter id rs = []"
    "(\<exists>s \<in> set (comp_Subcomponents c). K s) \<or> stored (io_world io) \<longrightarrow> stored (io_world io')"
    using run_all_passes [of "comp_Subcomponents c" stored K "reconcile_one srv c" io] assms by auto
  then show "\<exists>io'. (let (results, io') = run_all (reconcile_one srv c) (comp_Subcomponents c) io; allErrs = List.map_filter id results
     in (if allErrs = [] then None else Some (Errorf (''failed to reconcile components: ['' @ Join (map Error allErrs) '' '' @ '']'')), io')) =
      (None, io') \<and> ((\<exists>s \<in> set (comp_Subcomponents c). K s) \<or> stored (io_world io) \<longrightarrow> stored (io_world io'))"
    by simp
qed

section \<open>The components\<close>

lemma labels_keep [simp]:
  "obj_key (SetComponentLabels_obj a b n x) = obj_key x" "obj_kind (SetComponentLabels_obj a b n x) = obj_kind x"
proof -
  have u: "NestedField (SetComponentLabels_u a b n u) q = NestedField u q" if "diverge [''metadata'', ''labels''] q" for u q
    using set_meta_apart(1) [OF that] by (simp add: SetComponentLabels_u_def SetLabels_def)
  have "GetName (SetComponentLabels_u a b n u) = GetName u" "GetNamespace (SetComponentLabels_u a b n u) = GetNamespace u"
    "GetKind (SetComponentLabels_u a b n u) = GetKind u" "GetAPIVersion (SetComponentLabels_u a b n u) = GetAPIVersion u" for u
    by (simp_all add: GetName_def GetNamespace_def GetKind_def GetAPIVersion_def getNestedString_def NestedString_def nested_typed_def u)
  then show "obj_key (SetComponentLabels_obj a b n x) = obj_key x" "obj_kind (SetComponentLabels_obj a b n x) = obj_kind x"
    by (cases x; simp add: SetComponentLabels_obj_def)+
qed

lemma component_mutates:
  assumes "comp_InstanceName c \<noteq> []" and "mutates stored ob f x"
  shows "mutates stored ob (component_mutate c (subcomponent n (ob, f))) x"
  unfolding mutates_def
proof (intro allI)
  fix io
  obtain y io' where "f x io = (Inr y, io')" "obj_key y = obj_key ob" "obj_kind y = obj_kind ob"
    "stored (io_world io) \<longrightarrow> stored (io_world io')" using assms(2) unfolding mutates_def by meson
  with assms(1) show "\<exists>y io'. component_mutate c (subcomponent n (ob, f)) x io = (Inr y, io') \<and> obj_key y = obj_key ob \<and>
      obj_kind y = obj_kind ob \<and> (stored (io_world io) \<longrightarrow> stored (io_world io'))"
    by (simp add: component_mutate_def subcomponent_def del: obj_key.simps obj_kind.simps)
qed

lemma pure_mutates: "obj_key (f x) = obj_key ob \<Longrightarrow> obj_kind (f x) = obj_kind ob \<Longrightarrow> mutates stored ob (pure_mutate f) x"
  by (simp add: mutates_def pure_mutate_def)

lemma fallible_mutates:
  "f x = Inr y \<Longrightarrow> obj_key y = obj_key ob \<Longrightarrow> obj_kind y = obj_kind ob \<Longrightarrow> mutates stored ob (fallible_mutate f) x"
  by (simp add: mutates_def fallible_mutate_def)

lemma pure_keep:
  "obj_key (label_namespace i x) = obj_key x" "obj_kind (label_namespace i x) = obj_kind x"
  "obj_key (mutate_scc us i h x) = obj_key x" "obj_kind (mutate_scc us i h x) = obj_kind x"
  "obj_key (mutate_auth_secret i auth x) = obj_key x" "obj_kind (mutate_auth_secret i auth x) = obj_kind x"
  "obj_key (mutate_ClusterRole i x) = obj_key x" "obj_kind (mutate_ClusterRole i x) = obj_kind x"
  "obj_key (mutate_ClusterRoleBinding v i x) = obj_key x" "obj_kind (mutate_ClusterRoleBinding v i x) = obj_kind x"
  "obj_key (mutate_OCICluster ns n i config h x) = obj_key x" "obj_kind (mutate_OCICluster ns n i config h x) = obj_kind x"
  "obj_key (mutate_OCIClusterIdentity ns i x) = obj_key x" "obj_kind (mutate_OCIClusterIdentity ns i x) = obj_kind x"
  by (cases x; simp add: Let_def)+

text \<open>What a working cluster gives a subcomponent.\<close>

lemma managed_laws:
  assumes "managed_objects fmt srv stored cl"
  shows "k \<in> typed_kinds \<Longrightarrow> absent (fst (srv_handle srv (ReqGet k n) w)) \<or> stored_as_kind k n (fst (srv_handle srv (ReqGet k n) w))"
    and "k \<in> pool_kinds \<Longrightarrow> absent (fst (srv_handle srv (ReqGet k n) w))"
    and "if stored w then \<exists>u. fst (srv_handle srv (ReqGet cluster_kind cl) w) = RespObj (OUnstructured u) \<and>
          obj_kind (OUnstructured u) = cluster_kind \<and> obj_key (OUnstructured u) = cl \<and> (\<forall>now. status_ready_to_mark fmt now u)
      else absent (fst (srv_handle srv (ReqGet cluster_kind cl) w))"
    and "stored w \<Longrightarrow> stored (snd (srv_handle srv q w))"
    and "obj_kind x = cluster_kind \<Longrightarrow> obj_key x = cl \<Longrightarrow> stored (snd (srv_handle srv (ReqCreate x) w))"
  using spec [OF assms [unfolded managed_objects_def], of w] by (simp_all del: obj_kind.simps obj_key.simps)

lemma typed_passes:
  assumes "accepts_writes srv" and m: "managed_objects fmt srv stored cl" and "comp_InstanceName c \<noteq> []"
    and "obj_kind ob \<in> typed_kinds"
    and f: "\<And>y. obj_key y = obj_key ob \<Longrightarrow> obj_kind y = obj_kind ob \<Longrightarrow> mutates stored ob f y"
  shows "passes stored False (reconcile_one srv c (subcomponent n (ob, f)))"
proof (rule reconcile_one_passes [where stored = stored, OF assms(1) managed_laws(4) [OF m]])
  fix w
  let ?a = "fst (srv_handle srv (read_of (subcomponent n (ob, f))) w)"
  have "absent ?a \<or> stored_as_kind (obj_kind ob) (obj_key ob) ?a"
    using managed_laws(1) [OF m assms(4)] by (simp add: read_of_def subcomponent_def)
  then show "absent ?a \<or> (\<exists>y. ?a = RespObj y \<and> obj_kind y = obj_kind (subc_Object (subcomponent n (ob, f))) \<and>
      mutates stored (subc_Object (subcomponent n (ob, f))) (component_mutate c (subcomponent n (ob, f))) y \<and> (False \<longrightarrow> stored w))"
    using component_mutates [OF assms(3) f] by (auto simp: stored_as_kind_def subcomponent_def split: response.splits)
next
  show "mutates stored (subc_Object (subcomponent n (ob, f))) (component_mutate c (subcomponent n (ob, f)))
      (subc_Object (subcomponent n (ob, f)))"
    using component_mutates [OF assms(3) f] by (simp add: subcomponent_def)
qed simp_all

lemma pool_passes:
  assumes "accepts_writes srv" and m: "managed_objects fmt srv stored cl" and "comp_InstanceName c \<noteq> []"
    and "obj_kind ob \<in> pool_kinds" and f: "mutates stored ob f ob"
  shows "passes stored False (reconcile_one srv c (subcomponent n (ob, f)))"
proof (rule reconcile_one_passes [where stored = stored, OF assms(1) managed_laws(4) [OF m]])
  show "absent (fst (srv_handle srv (read_of (subcomponent n (ob, f))) w)) \<or> P w" for w P
    using managed_laws(2) [OF m assms(4)] by (simp add: read_of_def subcomponent_def)
  show "mutates stored (subc_Object (subcomponent n (ob, f))) (component_mutate c (subcomponent n (ob, f)))
      (subc_Object (subcomponent n (ob, f)))"
    using component_mutates [OF assms(3) f] by (simp add: subcomponent_def)
qed simp_all

lemma cluster_passes:
  assumes "accepts_writes srv" and m: "managed_objects fmt srv stored cl" and "comp_InstanceName c \<noteq> []"
    and ob: "obj_kind ob = cluster_kind" "obj_key ob = cl"
    and f: "\<And>u. obj_kind (OUnstructured u) = cluster_kind \<Longrightarrow> obj_key (OUnstructured u) = cl \<Longrightarrow> mutates stored ob f (OUnstructured u)"
    and f0: "mutates stored ob f ob"
  shows "passes stored True (reconcile_one srv c (subcomponent n (ob, f)))"
proof (rule reconcile_one_passes [where stored = stored, OF assms(1) managed_laws(4) [OF m]])
  fix w
  let ?s = "subcomponent n (ob, f)"
  have r: "read_of ?s = ReqGet cluster_kind cl" using ob by (simp add: read_of_def subcomponent_def)
  show "absent (fst (srv_handle srv (read_of ?s) w)) \<or>
      (\<exists>y. fst (srv_handle srv (read_of ?s) w) = RespObj y \<and> obj_kind y = obj_kind (subc_Object ?s) \<and>
         mutates stored (subc_Object ?s) (component_mutate c ?s) y \<and> (True \<longrightarrow> stored w))"
  proof (cases "stored w")
    case True
    then obtain u where "fst (srv_handle srv (ReqGet cluster_kind cl) w) = RespObj (OUnstructured u)"
      "obj_kind (OUnstructured u) = cluster_kind" "obj_key (OUnstructured u) = cl"
      using managed_laws(3) [OF m, of w] by auto
    with True component_mutates [OF assms(3) f] ob show ?thesis unfolding r by (auto simp: subcomponent_def)
  next
    case False
    then show ?thesis using managed_laws(3) [OF m, of w] by (simp add: r)
  qed
next
  show "mutates stored (subc_Object (subcomponent n (ob, f))) (component_mutate c (subcomponent n (ob, f)))
      (subc_Object (subcomponent n (ob, f)))"
    using component_mutates [OF assms(3) f0] by (simp add: subcomponent_def)
next
  show "stored (snd (srv_handle srv (ReqCreate x) w))"
    if "obj_kind x = obj_kind (subc_Object (subcomponent n (ob, f)))" "obj_key x = obj_key (subc_Object (subcomponent n (ob, f)))" for x w
    using that ob managed_laws(5) [OF m] by (simp add: subcomponent_def)
qed

lemma provider_components_pass:
  assumes "accepts_writes srv" and m: "managed_objects fmt srv stored cl" and i: "oca_Name i \<noteq> []"
    and c: "c \<in> {GetComponents_capi a b sa1 sa2 i h, GetComponents_capoci a i auth, GetComponents_autoscaler v i}"
  shows "\<exists>io'. reconcileComponents srv c io = (None, io')"
proof -
  note t = typed_passes [OF assms(1) m]
  have "passes stored False (reconcile_one srv c s)" if "s \<in> set (comp_Subcomponents c)" for s
    using c that i
    by (auto simp: GetComponents_capi_def GetComponents_capoci_def GetComponents_autoscaler_def CAPINamespace_def
        Namespace_capoci_def Namespace_autoscaler_def SecurityContextConstraints_of_def AuthConfigSecret_def
        ClusterRole_of_def ClusterRoleBinding_of_def typed_kinds_def pure_keep simp del: obj_key.simps
        intro!: t pure_mutates)
  from components_pass [of c stored "\<lambda>s. False", OF this] show ?thesis unfolding passes_def by blast
qed

section \<open>The scaling objects\<close>

text \<open>The cluster's name, the one of the specification first.\<close>

definition chosen_cluster_name :: "OCIClusterAutoscaler \<Rightarrow> Infrastructure \<Rightarrow> string" where
  "chosen_cluster_name i infra = (let n = TrimSpace (capi_ClusterName (spec_CAPI (oca_Spec i))) in
     if n \<noteq> [] then n else infra_InfrastructureName infra)"

text \<open>A configuration that describes a node pool: accepted policy, valid values, parsable blocks.\<close>

definition installable :: "OCIClusterAutoscalerReconciler \<Rightarrow> Infrastructure \<Rightarrow> OCIClusterAutoscaler \<Rightarrow> bool" where
  "installable r infra i \<longleftrightarrow>
     (let n = chosen_cluster_name i infra; cfg = apply_overrides i (rc_AutoScalingConfig r); net = cfg_Network cfg in
      oca_Name i \<noteq> [] \<and> validate i (rc_AutoScalingConfig r) = None \<and> ValidateNodePoolName (NodePoolName n (Some i)) = None \<and>
      valid_config cfg \<and> distinct_subnets cfg \<and>
      cidr_ok (cfg_ClusterNetworkCIDRBlock net) \<and> cidr_ok (cfg_ServiceNetworkCIDRBlock net) \<and>
      (if IsBareMetalShape (cfg_Shape (cfg_AutoScaling cfg))
       then TrimSpace (cfg_OCPSubnetID net) \<noteq> TrimSpace (cfg_BareMetalSubnetID net) \<and>
         TrimSpace (cfg_OCPSubnetName net) \<noteq> TrimSpace (cfg_BareMetalSubnetName net) else True))"

lemma answered:
  assumes "fst (srv_handle srv q (io_world io)) = a" and "expect D a = Inr x"
  obtains io' where "request_as srv D q io = (Inr x, io')" and "io_world io' = snd (srv_handle srv q (io_world io))"
proof -
  obtain y io' where y: "request_as srv D q io = (y, io')" by fastforce
  from request_world [OF this] assms that [of io'] y show thesis by simp
qed

lemma expect_answers:
  "expect (resp_items kobj_infrastructure) (RespList [OInfrastructure infra]) = Inr [infra]"
  "expect resp_secret (RespObj (OSecret s)) = Inr s" "expect resp_configmap (RespObj (OConfigMap m)) = Inr m"
  "expect resp_token (RespToken t) = Inr t" "expect resp_deployment (RespObj (ODeployment d)) = Inr d"
  "expect resp_unstructured (RespObj (OUnstructured u)) = Inr u" "expect resp_chart (RespChart b) = Inr b"
  "expect resp_release (RespRelease x) = Inr x" "expect resp_autoscaler (RespObj (OAutoscaler i)) = Inr i"
  by (simp_all add: expect_def resp_items_def)

lemma pool_name_parts:
  assumes "ValidateNodePoolName (NodePoolName n (Some i)) = None"
  shows "validateGeneratedNodePoolNames n i = None" "TrimSpace n \<noteq> []" "TrimSpace (autoscalingName (NodePoolName n (Some i))) \<noteq> []"
    "TrimSpace (bootstrapSecretName n) \<noteq> []"
proof -
  let ?p = "NodePoolName n (Some i)"
  from assms have p: "dns1123LabelRegexp ?p" "length ?p \<le> 51" by (simp_all add: ValidateNodePoolName_None)
  then show "validateGeneratedNodePoolNames n i = None" by (simp add: pool_names_None)
  from autoscalingName_label [OF p] show "TrimSpace (autoscalingName ?p) \<noteq> []"
    by (auto simp: dns_label_def dns1123_TrimSpace autoscalingName_def)
  have q: "?p \<noteq> []" "lower_alnum (hd ?p)" "list_all label_byte ?p" using p by (auto simp: dns1123LabelRegexp_def)
  obtain t where t: "?p = n @ t" "n = [] \<longrightarrow> t = [] \<or> hd t = CHR ''-''"
    by (cases "poolIdentifier i = []") (auto simp: NodePoolName_def Let_def)
  have n: "n \<noteq> []" using q(1,2) t by (auto simp: lower_alnum_def)
  then have "inner_byte (hd n)" "label_byte (last n)" using q t by (simp_all add: label_byte_inner list_all_iff)
  moreover have "inner_byte c" if "label_byte c" for c
    using that label_byte_inner [of c] by (auto simp: label_byte_def) (simp add: inner_byte_def)
  ultimately have "inner_byte (hd n)" "inner_byte (last n)" by simp_all
  with n show "TrimSpace n \<noteq> []" "TrimSpace (bootstrapSecretName n) \<noteq> []"
    by (simp_all add: TrimSpace_inner bootstrapSecretName_def inner_byte_def)
qed

text \<open>The mutations of the scaling objects succeed.\<close>

lemma ignition_generated:
  assumes os: "openshift_cluster srv infra ds" and keep: "\<And>q w. stored w \<Longrightarrow> stored (snd (srv_handle srv q w))"
  obtains cfg io' where "GenerateIgnitionConfig srv io = (Inr cfg, io')" and "stored (io_world io) \<longrightarrow> stored (io_world io')"
proof -
  let ?l = "ReqList infrastructure_kind [] fmempty"
  let ?g = "ReqGet secret_kind \<lparr>nn_Namespace = ''openshift-machine-config-operator'', nn_Name = ''machine-config-server-tls''\<rparr>"
  have "fst (srv_handle srv ?l (io_world io)) = RespList [OInfrastructure infra]" using os by (simp add: openshift_cluster_def)
  then obtain io1 where 1: "request_as srv (resp_items kobj_infrastructure) ?l io = (Inr [infra], io1)"
    "io_world io1 = snd (srv_handle srv ?l (io_world io))"
    by (rule answered [OF _ expect_answers(1)])
  obtain s where s: "fst (srv_handle srv ?g (io_world io1)) = RespObj (OSecret s)"
    "variable_size (api_server_host (infra_APIServerInternalURL infra)) (get_or_empty (sec_Data s) ''tls.crt'') \<le> 8228"
    using os unfolding openshift_cluster_def by blast
  obtain io2 where 2: "request_as srv resp_secret ?g io1 = (Inr s, io2)" "io_world io2 = snd (srv_handle srv ?g (io_world io1))"
    by (rule answered [OF s(1) expect_answers(2)])
  have "GetClusterAPIServerInternalURL srv io = (Inr (infra_APIServerInternalURL infra), io1)"
    "GetMachineConfigCA srv io1 = (Inr (get_or_empty (sec_Data s) ''tls.crt''), io2)"
    using 1 2 by (simp_all add: GetClusterAPIServerInternalURL_def GetInfrastructureCluster_def GetMachineConfigCA_def)
  from GenerateIgnition_outcome [OF this] s(2)
  have "GenerateIgnitionConfig srv io = (Inr (json_text (Config_tree (ignition_config
      (api_server_host (infra_APIServerInternalURL infra)) (get_or_empty (sec_Data s) ''tls.crt'')))), io2)" by (simp add: Let_def)
  then show thesis by (rule that) (simp add: 1 2 keep)
qed

lemma bootstrap_mutates:
  assumes "openshift_cluster srv infra ds" and "\<And>q w. stored w \<Longrightarrow> stored (snd (srv_handle srv q w))"
    and "obj_key x = obj_key ob" and "obj_kind x = obj_kind ob"
  shows "mutates stored ob (mutate_bootstrap srv i) x"
  unfolding mutates_def
proof (intro allI)
  fix io :: "'a io"
  obtain cfg io' where "GenerateIgnitionConfig srv io = (Inr cfg, io')" "stored (io_world io) \<longrightarrow> stored (io_world io')"
    by (rule ignition_generated [where stored = stored, OF assms(1,2)])
  then show "\<exists>y io'. mutate_bootstrap srv i x io = (Inr y, io') \<and> obj_key y = obj_key ob \<and> obj_kind y = obj_kind ob \<and>
      (stored (io_world io) \<longrightarrow> stored (io_world io'))"
    unfolding assms(3,4) [symmetric] by (cases x) simp_all
qed

lemma kubeconfig_mutates:
  assumes os: "openshift_cluster srv infra ds" and keep: "\<And>q w. stored w \<Longrightarrow> stored (snd (srv_handle srv q w))"
    and "obj_key x = obj_key ob" and "obj_kind x = obj_kind ob"
  shows "mutates stored ob (mutate_kubeconfig srv a b c d i) x"
  unfolding mutates_def
proof (intro allI)
  fix io :: "'a io"
  let ?t = "ReqToken \<lparr>nn_Namespace = b, nn_Name = d\<rparr> [''https://kubernetes.default.svc''] (24 * 60 * 60)"
  let ?g = "ReqGet configmap_kind \<lparr>nn_Namespace = ''kube-system'', nn_Name = ''kube-root-ca.crt''\<rparr>"
  obtain t where t: "fst (srv_handle srv ?t (io_world io)) = RespToken t" "t \<noteq> []" using os unfolding openshift_cluster_def by blast
  from t(1) obtain io1 where 1: "request_as srv resp_token ?t io = (Inr t, io1)" "io_world io1 = snd (srv_handle srv ?t (io_world io))"
    by (rule answered [OF _ expect_answers(4)])
  obtain m where "fst (srv_handle srv ?g (io_world io1)) = RespObj (OConfigMap m)" using os unfolding openshift_cluster_def by blast
  then obtain io2 where 2: "request_as srv resp_configmap ?g io1 = (Inr m, io2)" "io_world io2 = snd (srv_handle srv ?g (io_world io1))"
    by (rule answered [OF _ expect_answers(3)])
  from 1 2 t(2) show "\<exists>y io'. mutate_kubeconfig srv a b c d i x io = (Inr y, io') \<and> obj_key y = obj_key ob \<and> obj_kind y = obj_kind ob \<and>
      (stored (io_world io) \<longrightarrow> stored (io_world io'))"
    unfolding assms(3,4) [symmetric] by (cases x) (simp_all add: GetKubeconfigCA_def Let_def SetDefaultLabels_def keep)
qed

lemma rendered_keeps:
  "obj_key (OUnstructured (fmupd ''spec'' v (SetDefaultLabels_u nm u))) = obj_key (OUnstructured u)"
  "obj_kind (OUnstructured (fmupd ''spec'' v (SetDefaultLabels_u nm u))) = obj_kind (OUnstructured u)"
  "obj_key (OUnstructured (fmupd ''spec'' v (SetAnnotations (SetDefaultLabels_u nm u) a))) = obj_key (OUnstructured u)"
  "obj_kind (OUnstructured (fmupd ''spec'' v (SetAnnotations (SetDefaultLabels_u nm u) a))) = obj_kind (OUnstructured u)"
proof -
  have l: "NestedField (SetDefaultLabels_u nm u) q = NestedField u q" if "diverge [''metadata'', ''labels''] q" for q
    using set_meta_apart(1) [OF that] by (simp add: SetDefaultLabels_u_def SetLabels_def)
  have a: "NestedField (SetAnnotations w a) q = NestedField w q" if "diverge [''metadata'', ''annotations''] q" for q w
    using set_meta_apart(1) [OF that] by (simp add: SetAnnotations_def)
  have s: "NestedField (fmupd ''spec'' v w) (f # fs) = NestedField w (f # fs)" if "f \<noteq> ''spec''" for w f fs
    using that by (cases fs) (simp_all add: NestedField_def)
  note d = GetName_def GetNamespace_def GetKind_def GetAPIVersion_def getNestedString_def NestedString_def nested_typed_def
  show "obj_key (OUnstructured (fmupd ''spec'' v (SetDefaultLabels_u nm u))) = obj_key (OUnstructured u)"
    "obj_kind (OUnstructured (fmupd ''spec'' v (SetDefaultLabels_u nm u))) = obj_kind (OUnstructured u)"
    "obj_key (OUnstructured (fmupd ''spec'' v (SetAnnotations (SetDefaultLabels_u nm u) a))) = obj_key (OUnstructured u)"
    "obj_kind (OUnstructured (fmupd ''spec'' v (SetAnnotations (SetDefaultLabels_u nm u) a))) = obj_kind (OUnstructured u)"
    by (simp_all add: d s l a)
qed

lemma template_mutates:
  assumes "ValidateNodePoolName (NodePoolName n (Some i)) = None" and "valid_config cfg"
    and bm: "if IsBareMetalShape (cfg_Shape (cfg_AutoScaling cfg))
       then TrimSpace (cfg_OCPSubnetID (cfg_Network cfg)) \<noteq> TrimSpace (cfg_BareMetalSubnetID (cfg_Network cfg)) \<and>
         TrimSpace (cfg_OCPSubnetName (cfg_Network cfg)) \<noteq> TrimSpace (cfg_BareMetalSubnetName (cfg_Network cfg)) else True"
  shows "mutates stored (fst (OCIMachineTemplate_of ns n i cfg)) (snd (OCIMachineTemplate_of ns n i cfg)) (fst (OCIMachineTemplate_of ns n i cfg))"
proof -
  have "\<exists>spec. render_machine_spec n i cfg empty_OCIMachineSpec = Inr spec"
  proof (cases "IsBareMetalShape (cfg_Shape (cfg_AutoScaling cfg))")
    case True
    have tags: "validateDefinedTagOverrides fmempty a b = None" for a b by (simp add: validateDefinedTagOverrides_def)
    from assms(2) True have "TrimSpace (cfg_BareMetalSubnetID (cfg_Network cfg)) \<noteq> []"
      "TrimSpace (cfg_BareMetalSubnetName (cfg_Network cfg)) \<noteq> []" "TrimSpace (cfg_OCPSubnetName (cfg_Network cfg)) \<noteq> []"
      by (simp_all add: valid_config_def Let_def)
    with True bm have "first_error (bm_subnet_checks (TrimSpace (cfg_OCPSubnetID (cfg_Network cfg)))
        (TrimSpace (cfg_BareMetalSubnetID (cfg_Network cfg))) (TrimSpace (cfg_OCPSubnetName (cfg_Network cfg)))
        (TrimSpace (cfg_BareMetalSubnetName (cfg_Network cfg))) (TrimSpace (cfg_OCPSubnetName (cfg_Network cfg))) @ [None, None]) = None"
      by (simp add: bm_subnet_checks_def first_error_None)
    with True show ?thesis
      by (simp add: render_machine_spec_def Let_def ResolveSubnetNamesForShape_def tags machine_spec_common_def empty_OCIMachineSpec_def)
  next
    case False
    then show ?thesis by (simp add: render_machine_spec_def Let_def ResolveSubnetNamesForShape_def)
  qed
  then show ?thesis using pool_name_parts(1) [OF assms(1)]
    by (auto simp: OCIMachineTemplate_of_def intro!: fallible_mutates)
qed

lemma deployment_mutates:
  assumes "ValidateNodePoolName (NodePoolName n (Some i)) = None"
  shows "mutates stored (fst (MachineDeployment ns n i cfg)) (snd (MachineDeployment ns n i cfg)) (fst (MachineDeployment ns n i cfg))"
proof -
  let ?u = "new_unstructured ''MachineDeployment'' ns (NodePoolName n (Some i))"
  let ?md1 = "SetDefaultLabels_u (oca_Name i) ?u"
  let ?md2 = "SetAnnotations ?md1 (Some (machine_annotations cfg (GetAnnotations ?md1)))"
  note p = pool_name_parts [OF assms(1)]
  have "fmlookup ?u ''spec'' = None" by (simp add: new_unstructured_def fmlookup_of_list)
  then have sp: "initial_spec cfg ?md2 = Inr (fmupd ''replicas'' (JInt (sint (cfg_MinNodes (cfg_AutoScaling cfg)))) fmempty)"
    by (simp add: initial_spec_def NestedMap_def nested_typed_def NestedField_def spec_untouched)
  obtain v where "render_MachineDeployment n i cfg ?u = Inr (fmupd ''spec'' v ?md2)"
    using p rendered_deployment_valid [OF p(2-4)]
    by (simp add: render_MachineDeployment_def Let_def infrastructureRef_eq trim_kinds sp)
  then show ?thesis
    by (auto simp: MachineDeployment_def rendered_keeps simp del: obj_key.simps obj_kind.simps intro!: fallible_mutates)
qed

lemma check_mutates:
  assumes "ValidateNodePoolName (NodePoolName n (Some i)) = None"
  shows "mutates stored (fst (MachineHealthCheck ns n i cfg)) (snd (MachineHealthCheck ns n i cfg)) (fst (MachineHealthCheck ns n i cfg))"
  using pool_name_parts(1) [OF assms(1)]
  by (auto simp: MachineHealthCheck_def render_MachineHealthCheck_def Let_def rendered_keeps
      simp del: obj_key.simps obj_kind.simps intro!: fallible_mutates)

lemma cluster_mutates:
  fixes stored :: "'w \<Rightarrow> bool" and x :: "kobj \<times> 'w mutate_fn"
  assumes x: "x = CAPICluster ns n i cfg"
    and "TrimSpace n \<noteq> []" and "cidr_ok (cfg_ClusterNetworkCIDRBlock (cfg_Network cfg))"
    and "cidr_ok (cfg_ServiceNetworkCIDRBlock (cfg_Network cfg))"
    and u: "obj_key (OUnstructured u) = obj_key (fst x)" "obj_kind (OUnstructured u) = obj_kind (fst x)"
  shows "mutates stored (fst x) (snd x) (OUnstructured u)"
proof -
  obtain u' where "render_CAPICluster n i cfg u = Inr u'" using render_CAPICluster_iff [of n i cfg u] assms(2-4) by blast
  moreover then obtain v where "u' = fmupd ''spec'' v (SetDefaultLabels_u (oca_Name i) u)"
    by (auto simp: render_CAPICluster_def Let_def split: sum.splits option.splits)
  ultimately show ?thesis using u unfolding x CAPICluster_def fst_conv snd_conv
    by (intro fallible_mutates [where y = "OUnstructured u'"]) (simp_all only: mutate_unstructured.simps sum.case rendered_keeps)
qed

lemma scaling_components_pass:
  assumes srv: "accepts_writes srv" and os: "openshift_cluster srv infra ds"
    and m: "managed_objects fmt srv stored \<lparr>nn_Namespace = ns, nn_Name = n\<rparr>"
    and inst: "installable r infra i" and n: "n = chosen_cluster_name i infra"
  defines "cfg \<equiv> apply_overrides i (rc_AutoScalingConfig r)"
  shows "\<exists>io'. reconcileComponents srv (GetComponents_enable srv ns sans n sa i cfg ip) io = (None, io') \<and>
    stored (io_world io')"
proof -
  let ?c = "GetComponents_enable srv ns sans n sa i cfg ip"
  let ?K = "\<lambda>s. s = subcomponent ''cluster'' (CAPICluster ns n i cfg)"
  have nm: "oca_Name i \<noteq> []" and pool: "ValidateNodePoolName (NodePoolName n (Some i)) = None"
    and v: "valid_config cfg"
    and cidr: "cidr_ok (cfg_ClusterNetworkCIDRBlock (cfg_Network cfg))" "cidr_ok (cfg_ServiceNetworkCIDRBlock (cfg_Network cfg))"
    and bm: "if IsBareMetalShape (cfg_Shape (cfg_AutoScaling cfg))
       then TrimSpace (cfg_OCPSubnetID (cfg_Network cfg)) \<noteq> TrimSpace (cfg_BareMetalSubnetID (cfg_Network cfg)) \<and>
         TrimSpace (cfg_OCPSubnetName (cfg_Network cfg)) \<noteq> TrimSpace (cfg_BareMetalSubnetName (cfg_Network cfg)) else True"
    using inst [unfolded installable_def Let_def, folded n cfg_def] by - (elim conjE, assumption)+
  from nm have i: "comp_InstanceName ?c \<noteq> []" by (simp add: GetComponents_enable_def)
  note t = typed_passes [OF srv m i] and keep = managed_laws(4) [OF m]
  have typed: "passes stored False (reconcile_one srv ?c (subcomponent k x))"
    if "x \<in> {ManagedResourceNamespace_of ns i, BootstrapConfigSecret srv ns n i, KubeConfigSecret srv ns ns sans n sa i,
        OCICluster_of ns n i cfg ip, OCIClusterIdentity_of ns n i}" for k x
    using that
    by (auto simp: ManagedResourceNamespace_of_def BootstrapConfigSecret_def KubeConfigSecret_def OCICluster_of_def
        OCIClusterIdentity_of_def typed_kinds_def pure_keep simp del: obj_key.simps
        intro!: t pure_mutates bootstrap_mutates [where stored = stored, OF os keep]
          kubeconfig_mutates [where stored = stored, OF os keep])
  have pool: "passes stored False (reconcile_one srv ?c (subcomponent k x))"
    if "x \<in> {OCIMachineTemplate_of ns n i cfg, MachineDeployment ns n i cfg, MachineHealthCheck ns n i cfg}" for k x
  proof -
    have "obj_kind (fst x) \<in> pool_kinds"
      using that by (auto simp: pool_kinds_def OCIMachineTemplate_of_def MachineDeployment_def MachineHealthCheck_def new_unstructured_def
          GetAPIVersion_def GetKind_def getNestedString_def NestedString_def nested_typed_def NestedField_def fmlookup_of_list
          capiClusterAPIVersion_def)
    moreover have "mutates stored (fst x) (snd x) (fst x)"
      using that template_mutates [OF pool v bm] deployment_mutates [OF pool] check_mutates [OF pool] by auto
    ultimately show ?thesis using pool_passes [OF srv m i, of "fst x" "snd x"] by simp
  qed
  have cl: "passes stored True (reconcile_one srv ?c (subcomponent ''cluster'' (CAPICluster ns n i cfg)))"
  proof -
    define x :: "kobj \<times> 'a mutate_fn" where x: "x = CAPICluster ns n i cfg"
    have k: "obj_kind (fst x) = cluster_kind" "obj_key (fst x) = \<lparr>nn_Namespace = ns, nn_Name = n\<rparr>"
      by (simp_all add: x CAPICluster_def cluster_kind_def new_unstructured_def GetAPIVersion_def GetKind_def GetName_def
          GetNamespace_def getNestedString_def NestedString_def nested_typed_def NestedField_def fmlookup_of_list
          capiClusterAPIVersion_def jmap_def)
    obtain u where u: "fst x = OUnstructured u" by (simp add: x CAPICluster_def)
    note f = cluster_mutates [OF x pool_name_parts(2) [OF \<open>ValidateNodePoolName (NodePoolName n (Some i)) = None\<close>] cidr, where stored = stored]
    have "passes stored True (reconcile_one srv ?c (subcomponent ''cluster'' (fst x, snd x)))"
    proof (rule cluster_passes [OF srv m i k])
      fix u assume "obj_kind (OUnstructured u) = cluster_kind" "obj_key (OUnstructured u) = \<lparr>nn_Namespace = ns, nn_Name = n\<rparr>"
      then show "mutates stored (fst x) (snd x) (OUnstructured u)" by (intro f) (simp_all only: k)
    next
      show "mutates stored (fst x) (snd x) (fst x)" using f [of u] by (simp only: u)
    qed
    then show ?thesis by (simp add: x)
  qed
  have "passes stored (?K s) (reconcile_one srv ?c s)" if "s \<in> set (comp_Subcomponents ?c)" for s
  proof (cases "?K s")
    case True
    with cl show ?thesis by simp
  next
    case False
    have "s \<in> {subcomponent ''managedResourceNamespace'' (ManagedResourceNamespace_of ns i),
        subcomponent ''bootstrapConfigSecret'' (BootstrapConfigSecret srv ns n i),
        subcomponent ''kubeConfigSecret'' (KubeConfigSecret srv ns ns sans n sa i),
        subcomponent ''machineTemplate'' (OCIMachineTemplate_of ns n i cfg),
        subcomponent ''machineDeployment'' (MachineDeployment ns n i cfg),
        subcomponent ''machineHealthCheck'' (MachineHealthCheck ns n i cfg),
        subcomponent ''ociCluster'' (OCICluster_of ns n i cfg ip),
        subcomponent ''ociClusterIdentity'' (OCIClusterIdentity_of ns n i)}"
      using that False by (auto simp: GetComponents_enable_def split: if_splits)
    then obtain k x where s: "s = subcomponent k x" and x: "x \<in> {ManagedResourceNamespace_of ns i,
        BootstrapConfigSecret srv ns n i, KubeConfigSecret srv ns ns sans n sa i,
        OCICluster_of ns n i cfg ip, OCIClusterIdentity_of ns n i} \<or>
        x \<in> {OCIMachineTemplate_of ns n i cfg, MachineDeployment ns n i cfg, MachineHealthCheck ns n i cfg}"
      by (elim insertE emptyE) (rule that, assumption, blast)+
    from x have "passes stored False (reconcile_one srv ?c s)" unfolding s by (elim disjE) (rule typed pool, assumption)+
    with False show ?thesis by simp
  qed
  from components_pass [of ?c stored ?K, OF this]
  have "passes stored True (reconcileComponents srv ?c)" by (simp add: GetComponents_enable_def)
  then show ?thesis unfolding passes_def by blast
qed

section \<open>Marking the cluster\<close>

lemma unmarked_cluster:
  assumes "fmlookup u ''status'' = None"
  shows "\<exists>u'. mark_initialized fmt now u = Inr (Some u')"
proof -
  have l: "NestedBool u initialized_path = Inr None" "clusterStatusConditionIsTrue u ''ControlPlaneInitialized'' = Inr False"
    using assms by (simp_all add: NestedBool_def nested_typed_def NestedField_def initialized_path_def
        clusterStatusConditionIsTrue_def NestedSlice_def)
  let ?u1 = "fmupd ''status'' (JMap (fmupd ''initialization'' (JMap (fmupd ''controlPlaneInitialized'' (JBool True) fmempty)) fmempty)) u"
  have 1: "SetNestedField u (JBool True) initialized_path = Inr ?u1"
    using assms by (simp add: SetNestedField_def initialized_path_def)
  have "NestedSlice ?u1 [''status'', ''conditions''] = Inr None" by (simp add: NestedSlice_def nested_typed_def NestedField_def)
  then obtain u2 where "setClusterStatusCondition ?u1 (initialized_condition fmt now ?u1) = Inr u2"
    by (simp add: setClusterStatusCondition_def SetNestedSlice_def SetNestedField_def)
  with l 1 show ?thesis by (simp add: mark_initialized_def)
qed

lemma cluster_marked:
  assumes srv: "accepts_writes srv" and m: "managed_objects fmt srv stored \<lparr>nn_Namespace = ns, nn_Name = n\<rparr>" and "stored (io_world io)"
  shows "\<exists>io'. markExistingClusterControlPlaneInitialized fmt srv ns n io = (None, io')"
proof -
  let ?g = "ReqGet cluster_kind \<lparr>nn_Namespace = ns, nn_Name = n\<rparr>"
  obtain u where u: "fst (srv_handle srv ?g (io_world io)) = RespObj (OUnstructured u)" "\<And>now. status_ready_to_mark fmt now u"
    using managed_laws(3) [OF m, of "io_world io"] assms(3) by auto
  from u(1) obtain io1 where 1: "request_as srv resp_unstructured ?g io = (Inr u, io1)" by (rule answered [OF _ expect_answers(6)])
  obtain y where y: "mark_initialized fmt (srv_now srv (io_world io1)) u = Inr y"
    using u(2) unmarked_cluster unfolding status_ready_to_mark_def by blast
  have w: "\<exists>io2. request_as srv resp_unit (ReqStatusPatch (OUnstructured u) (OUnstructured u')) io1 = (Inr (), io2)" for u'
    using srv by (intro unit_request_ok) (simp add: accepts_writes_def)
  have "\<exists>io'. markExistingClusterControlPlaneInitializedForVersion fmt srv ns n ''cluster.x-k8s.io/v1beta2'' io = (None, io')"
  proof (cases y)
    case (Some u')
    from w [of u'] obtain io2 where "request_as srv resp_unit (ReqStatusPatch (OUnstructured u) (OUnstructured u')) io1 = (Inr (), io2)" ..
    with 1 y Some show ?thesis by (simp add: markExistingClusterControlPlaneInitializedForVersion_def cluster_kind_def)
  qed (use 1 y in \<open>simp add: markExistingClusterControlPlaneInitializedForVersion_def cluster_kind_def\<close>)
  then show ?thesis by (auto simp: markExistingClusterControlPlaneInitialized_def)
qed

section \<open>The release\<close>

lemma InstallAutoscaler_succeeds:
  assumes srv: "accepts_writes srv"
  shows "\<exists>io'. InstallAutoscaler srv y i v io = (None, io')"
proof -
  have u: "\<exists>io'. request_as srv resp_unit (ReqHelm h) io = (Inr (), io')" for h io
    using srv by (intro unit_request_ok) (simp add: accepts_writes_def)
  obtain io1 where 1: "GetHelmClient srv (dv_Namespace v) io = (None, io1)"
    using u [of "HelmNewClient (dv_Namespace v)" io] that by (auto simp: GetHelmClient_def)
  obtain io2 where 2: "ensure_repo srv v io1 = (None, io2)"
  proof -
    obtain b where "fst (srv_handle srv (ReqHelm (HelmGetChart (dv_Chart v))) (io_world io1)) = RespChart b"
      using srv unfolding accepts_writes_def by blast
    then obtain io' where c: "request_as srv resp_chart (ReqHelm (HelmGetChart (dv_Chart v))) io1 = (Inr b, io')"
      by (rule answered [OF _ expect_answers(7)])
    from u [of "HelmAddRepo (dv_Name v) (dv_RepositoryURL v)" io'] obtain io'' where
      "request_as srv resp_unit (ReqHelm (HelmAddRepo (dv_Name v) (dv_RepositoryURL v))) io' = (Inr (), io'')" by blast
    with c that show thesis by (cases b) (auto simp: ensure_repo_def ChartExists_def AddChartRepo_def)
  qed
  obtain b io3 where 3: "release_lookup srv (dv_Name v) io2 = (Inr b, io3)"
  proof -
    obtain x where "fst (srv_handle srv (ReqHelm (HelmGetRelease (dv_Name v))) (io_world io2)) = RespRelease x"
      using srv unfolding accepts_writes_def by blast
    then obtain io' where "request_as srv resp_release (ReqHelm (HelmGetRelease (dv_Name v))) io2 = (Inr x, io')"
      by (rule answered [OF _ expect_answers(8)])
    with that show thesis by (auto simp: release_lookup_def ReleaseExists_def)
  qed
  show ?thesis
  proof (cases b)
    case True
    obtain z io4 where z: "autoscalerReleaseUpToDate srv y v (GetValuesString v) io3 = (z, io4)" by fastforce
    from u [of "HelmUpgrade (autoscaler_chart_spec i v)" io4] obtain io5 where
      "request_as srv resp_unit (ReqHelm (HelmUpgrade (autoscaler_chart_spec i v))) io4 = (Inr (), io5)" by blast
    with 1 2 3 True z show ?thesis by (auto simp: InstallAutoscaler_def Let_def split: sum.split bool.split)
  next
    case False
    from u [of "HelmInstall (autoscaler_chart_spec i v)" io3] 1 2 3 False show ?thesis
      by (auto simp: InstallAutoscaler_def InstallHelmChart_def Let_def)
  qed
qed

section \<open>Stages that go on\<close>

definition goes_on :: "OCIClusterAutoscaler \<Rightarrow> ('w, 'a) stage \<Rightarrow> ('a \<Rightarrow> bool) \<Rightarrow> bool" where
  "goes_on i0 m Q \<longleftrightarrow> (\<forall>i io. same_resource i i0 \<longrightarrow> (\<exists>a i' io'. m (i, io) = (Inr a, (i', io')) \<and> same_resource i' i0 \<and> Q a))"

lemma goes_on_and_then:
  assumes "goes_on i0 m Q" and "\<And>a. Q a \<Longrightarrow> goes_on i0 (f a) R"
  shows "goes_on i0 (and_then m f) R"
  unfolding goes_on_def
proof (intro allI impI)
  fix i io assume "same_resource i i0"
  with assms(1) obtain a i1 io1 where 1: "m (i, io) = (Inr a, (i1, io1))" "same_resource i1 i0" "Q a"
    unfolding goes_on_def by meson
  with assms(2) obtain b i' io' where "f a (i1, io1) = (Inr b, (i', io'))" "same_resource i' i0" "R b"
    unfolding goes_on_def by meson
  with 1 show "\<exists>a i' io'. and_then m f (i, io) = (Inr a, (i', io')) \<and> same_resource i' i0 \<and> R a" by (simp add: and_then_def)
qed

lemma report_goes_on:
  assumes "same_resource i i0"
  shows "\<exists>a i' io'. report hr srv ct st reason message (i, io) = (Inr a, (i', io')) \<and> same_resource i' i0"
proof -
  obtain x i' io' where r: "report hr srv ct st reason message (i, io) = (x, (i', io'))" by (metis prod.collapse)
  from recordD(2) [OF this] r assms show ?thesis by (cases x) simp_all
qed

lemma same_inputs:
  assumes "same_resource i i0"
  shows "validate i c = validate i0 c" "chosen_cluster_name i infra = chosen_cluster_name i0 infra"
    "apply_overrides i c = apply_overrides i0 c" "NodePoolName n (Some i) = NodePoolName n (Some i0)" "oca_Name i = oca_Name i0"
    "getAutoscalerDeploymentValues i ns = getAutoscalerDeploymentValues i0 ns"
proof -
  from assms have e: "oca_meta i = oca_meta i0" "oca_Spec i = oca_Spec i0" by (simp_all add: same_resource_def)
  show np: "NodePoolName n (Some i) = NodePoolName n (Some i0)" for n by (simp add: NodePoolName_def poolIdentifier_def e)
  show "validate i c = validate i0 c" unfolding validate_def ValidateMinMaxNodes_def e np ..
  show "chosen_cluster_name i infra = chosen_cluster_name i0 infra" by (simp add: chosen_cluster_name_def e)
  show "apply_overrides i c = apply_overrides i0 c" by (simp add: apply_overrides_def shape_cpus_def shape_memory_def e)
  show "oca_Name i = oca_Name i0" by (simp add: oca_Name_def e)
  show "getAutoscalerDeploymentValues i ns = getAutoscalerDeploymentValues i0 ns"
    unfolding getAutoscalerDeploymentValues_def GetAutoscalerDeploymentValues_def managedResourceNamespaceFor_def e ..
qed

lemma installable_same: "same_resource i i0 \<Longrightarrow> installable r infra i = installable r infra i0"
  by (simp add: installable_def same_inputs)

text \<open>The deployments a resource waits for, and the whole setting.\<close>

definition awaited_deployments :: "OCIClusterAutoscalerReconciler \<Rightarrow> OCIClusterAutoscaler \<Rightarrow> nsname set" where
  "awaited_deployments r i = (let values = getAutoscalerDeploymentValues i (namespaces_of r) in
     {\<lparr>nn_Namespace = CAPIProviderNamespace (namespaces_of r), nn_Name = CAPIDeploymentName\<rparr>,
      \<lparr>nn_Namespace = CAPOCIProviderNamespace (namespaces_of r), nn_Name = CAPOCIDeploymentName\<rparr>,
      \<lparr>nn_Namespace = dv_Namespace values, nn_Name = dv_Name values\<rparr>})"

definition working_cluster ::
    "'w server \<Rightarrow> ('w \<Rightarrow> bool) \<Rightarrow> libraries \<Rightarrow> OCIClusterAutoscalerReconciler \<Rightarrow> Infrastructure \<Rightarrow> OCIClusterAutoscaler \<Rightarrow> bool" where
  "working_cluster srv stored lib r infra i \<longleftrightarrow> accepts_writes srv \<and> openshift_cluster srv infra (awaited_deployments r i) \<and>
     managed_objects (lib_time lib) srv stored
       \<lparr>nn_Namespace = managedResourceNamespaceFor i (namespaces_of r), nn_Name = chosen_cluster_name i infra\<rparr>"

lemma working_same: "same_resource i i0 \<Longrightarrow> working_cluster srv stored lib r infra i = working_cluster srv stored lib r infra i0"
  by (simp add: working_cluster_def awaited_deployments_def same_inputs managedResourceNamespaceFor_def)

lemma goes_onI:
  assumes "\<And>i io. same_resource i i0 \<Longrightarrow> installable r infra i \<Longrightarrow> working_cluster srv stored lib r infra i \<Longrightarrow>
      \<exists>a i' io'. m (i, io) = (Inr a, (i', io')) \<and> same_resource i' i \<and> Q a"
    and "installable r infra i0" and "working_cluster srv stored lib r infra i0"
  shows "goes_on i0 m Q"
  unfolding goes_on_def
proof (intro allI impI)
  fix i io assume s: "same_resource i i0"
  with assms(2,3) have "installable r infra i" "working_cluster srv stored lib r infra i"
    by (simp_all add: installable_same working_same)
  from assms(1) [OF s this] s show "\<exists>a i' io'. m (i, io) = (Inr a, (i', io')) \<and> same_resource i' i0 \<and> Q a"
    by (blast intro: same_resource_trans)
qed

lemma deployment_found:
  assumes "working_cluster srv stored lib r infra i" and "\<lparr>nn_Namespace = ns, nn_Name = n\<rparr> \<in> awaited_deployments r i"
  shows "\<exists>io'. checkDeploymentAvailable srv ns n io = (None, io')"
proof -
  let ?g = "ReqGet deployment_kind \<lparr>nn_Namespace = ns, nn_Name = n\<rparr>"
  from assms obtain d where d: "fst (srv_handle srv ?g (io_world io)) = RespObj (ODeployment d)" "deployment_available d"
    unfolding working_cluster_def openshift_cluster_def by blast
  from d(1) obtain io' where "request_as srv resp_deployment ?g io = (Inr d, io')" by (rule answered [OF _ expect_answers(5)])
  with d(2) show ?thesis by (auto simp: checkDeploymentAvailable_def deployment_available_def)
qed

lemma same_installed [simp]:
  "same_resource (set_CAPIInstalled b i) j = same_resource i j" "same_resource (set_Deployed b i) j = same_resource i j"
  by (simp_all add: same_resource_def set_CAPIInstalled_def set_Deployed_def)

lemma stages_go_on:
  assumes "installable r infra i0" and "working_cluster srv stored lib r infra i0"
  shows "goes_on i0 (policy_stage srv r) (\<lambda>u. True)" "goes_on i0 (capi_stage srv r) (\<lambda>u. True)"
    "goes_on i0 (capoci_stage srv r) (\<lambda>u. True)" "goes_on i0 (rollout_stage srv r) (\<lambda>u. True)"
    "goes_on i0 (autoscaler_stage srv lib r) (\<lambda>u. True)"
proof -
  note I = goes_onI [OF _ assms]
  have nm: "oca_Name i \<noteq> []" if "installable r infra i" for i using that by (simp add: installable_def Let_def)
  have w: "accepts_writes srv" "\<exists>cl. managed_objects (lib_time lib) srv stored cl" using assms(2) by (auto simp: working_cluster_def)
  show "goes_on i0 (policy_stage srv r) (\<lambda>u. True)"
  proof (rule I)
    fix i :: OCIClusterAutoscaler and io :: "'a io" assume "installable r infra i"
    then have "validate i (rc_AutoScalingConfig r) = None" by (simp add: installable_def Let_def)
    then show "\<exists>a i' io'. policy_stage srv r (i, io) = (Inr a, (i', io')) \<and> same_resource i' i \<and> True"
      using report_goes_on [OF same_resource_status(1)] by (simp add: policy_stage_def)
  qed
  show "goes_on i0 (capi_stage srv r) (\<lambda>u. True)"
  proof (rule I)
    fix i :: OCIClusterAutoscaler and io :: "'a io" assume "installable r infra i"
    let ?c = "GetComponents_capi (CAPIProviderNamespace (namespaces_of r)) (CAPOCIProviderNamespace (namespaces_of r))
        CAPIServiceAccountName CAPOCIServiceAccountName i (UsesInstancePrincipal (Some (rc_CAPOCICredentials r))) :: 'a Component"
    obtain io1 where "reconcileComponents srv ?c io = (None, io1)"
      using provider_components_pass [OF w(1) _ nm [OF \<open>installable r infra i\<close>]] w(2) by blast
    then show "\<exists>a i' io'. capi_stage srv r (i, io) = (Inr a, (i', io')) \<and> same_resource i' i \<and> True"
      using report_goes_on [OF same_resource_status(1)] by (simp add: capi_stage_def) blast
  qed
  show "goes_on i0 (capoci_stage srv r) (\<lambda>u. True)"
  proof (rule I)
    fix i :: OCIClusterAutoscaler and io :: "'a io" assume "installable r infra i"
    let ?c = "GetComponents_capoci (CAPOCIProviderNamespace (namespaces_of r)) i (Some (rc_CAPOCICredentials r)) :: 'a Component"
    obtain io1 where "reconcileComponents srv ?c io = (None, io1)"
      using provider_components_pass [OF w(1) _ nm [OF \<open>installable r infra i\<close>]] w(2) by blast
    then show "\<exists>a i' io'. capoci_stage srv r (i, io) = (Inr a, (i', io')) \<and> same_resource i' i \<and> True"
      by (simp add: capoci_stage_def)
  qed
  show "goes_on i0 (rollout_stage srv r) (\<lambda>u. True)"
  proof (rule I)
    fix i :: OCIClusterAutoscaler and io :: "'a io" assume ws: "working_cluster srv stored lib r infra i"
    obtain io1 where 1: "checkDeploymentAvailable srv (CAPIProviderNamespace (namespaces_of r)) CAPIDeploymentName io = (None, io1)"
      using deployment_found [OF ws] by (fastforce simp: awaited_deployments_def Let_def)
    obtain io2 where "checkDeploymentAvailable srv (CAPOCIProviderNamespace (namespaces_of r)) CAPOCIDeploymentName io1 = (None, io2)"
      using deployment_found [OF ws] by (fastforce simp: awaited_deployments_def Let_def)
    with 1 have "checkCAPIInstallation srv r io = ((True, None), io2)" by (simp add: checkCAPIInstallation_def)
    then show "\<exists>a i' io'. rollout_stage srv r (i, io) = (Inr a, (i', io')) \<and> same_resource i' i \<and> True"
      using report_goes_on [of "set_CAPIInstalled True i" i] by (simp add: rollout_stage_def)
  qed
  show "goes_on i0 (autoscaler_stage srv lib r) (\<lambda>u. True)"
  proof (rule I)
    fix i :: OCIClusterAutoscaler and io :: "'a io"
    assume inst: "installable r infra i" and ws: "working_cluster srv stored lib r infra i"
    let ?v = "getAutoscalerDeploymentValues i (namespaces_of r)"
    obtain io1 where 1: "reconcileComponents srv (GetComponents_autoscaler ?v i) io = (None, io1)"
      using provider_components_pass [OF w(1) _ nm [OF inst]] w(2) by blast
    obtain io2 where 2: "InstallAutoscaler srv (lib_yaml lib) i ?v io1 = (None, io2)" using InstallAutoscaler_succeeds [OF w(1)] by blast
    obtain io3 where "checkDeploymentAvailable srv (dv_Namespace ?v) (dv_Name ?v) io2 = (None, io3)"
      using deployment_found [OF ws] by (fastforce simp: awaited_deployments_def Let_def)
    with 1 2 show "\<exists>a i' io'. autoscaler_stage srv lib r (i, io) = (Inr a, (i', io')) \<and> same_resource i' i \<and> True"
      using report_goes_on [of "set_Deployed True i" i] by (simp add: autoscaler_stage_def Let_def)
  qed
qed

lemma no_cidr_empty: "\<not> cidr_ok []"
  unfolding cidr_ok_def TrimSpace_Nil by code_simp

lemma config_resolved:
  assumes "installable r infra i"
  shows "SetAutoScalingConfig srv i (rc_AutoScalingConfig r) io = (Inr (apply_overrides i (rc_AutoScalingConfig r)), io)"
proof -
  let ?c = "apply_overrides i (rc_AutoScalingConfig r)"
  have v: "valid_config ?c" "distinct_subnets ?c" "cidr_ok (cfg_ClusterNetworkCIDRBlock (cfg_Network ?c))"
    "cidr_ok (cfg_ServiceNetworkCIDRBlock (cfg_Network ?c))"
    using assms unfolding installable_def Let_def by blast+
  obtain x io1 where x: "SetNetworkConfig srv ?c io = (x, io1)" by fastforce
  obtain y io2 where y: "SetAutoScalingConfig srv i (rc_AutoScalingConfig r) io = (y, io2)" by fastforce
  have "cfg_ClusterNetworkCIDRBlock (cfg_Network ?c) \<noteq> []" "cfg_ServiceNetworkCIDRBlock (cfg_Network ?c) \<noteq> []"
    using v(3,4) no_cidr_empty by metis+
  from SetNetworkConfig_given [OF this x] SetAutoScalingConfig_valid [OF y] v x y show ?thesis by simp
qed

lemma cluster_named:
  assumes "working_cluster srv stored lib r infra i"
  shows "\<exists>io'. clusterNameFor srv (Some i) io = (Inr (chosen_cluster_name i infra), io')"
proof (cases "TrimSpace (capi_ClusterName (spec_CAPI (oca_Spec i))) = []")
  case True
  let ?l = "ReqList infrastructure_kind [] fmempty"
  have "fst (srv_handle srv ?l (io_world io)) = RespList [OInfrastructure infra]"
    using assms by (simp add: working_cluster_def openshift_cluster_def)
  then obtain io1 where "request_as srv (resp_items kobj_infrastructure) ?l io = (Inr [infra], io1)"
    by (rule answered [OF _ expect_answers(1)])
  with True show ?thesis
    by (simp add: clusterNameFor_def GetClusterName_def GetInfrastructureCluster_def chosen_cluster_name_def)
qed (simp add: clusterNameFor_def chosen_cluster_name_def)

lemma scaling_stages_go_on:
  assumes "installable r infra i0" and "working_cluster srv stored lib r infra i0"
  shows "goes_on i0 (config_stage srv r) (\<lambda>x. x = (chosen_cluster_name i0 infra, apply_overrides i0 (rc_AutoScalingConfig r)))"
    and "goes_on i0 (scaling_stage srv lib r (chosen_cluster_name i0 infra, apply_overrides i0 (rc_AutoScalingConfig r))) (\<lambda>u. True)"
proof -
  note I = goes_onI [OF _ assms]
  show "goes_on i0 (config_stage srv r) (\<lambda>x. x = (chosen_cluster_name i0 infra, apply_overrides i0 (rc_AutoScalingConfig r)))"
  proof (rule I)
    fix i :: OCIClusterAutoscaler and io :: "'a io"
    assume s: "same_resource i i0" and inst: "installable r infra i" and ws: "working_cluster srv stored lib r infra i"
    let ?n = "chosen_cluster_name i infra"
    obtain io1 where 1: "clusterNameFor srv (Some i) io = (Inr ?n, io1)" using cluster_named [OF ws] by blast
    have "ValidateNodePoolName (NodePoolName ?n (Some i)) = None" using inst by (simp add: installable_def Let_def)
    with 1 config_resolved [OF inst, of srv io1]
    have "config_stage srv r (i, io) = (Inr (?n, apply_overrides i (rc_AutoScalingConfig r)), (i, io1))" by (simp add: config_stage_def)
    with s show "\<exists>a i' io'. config_stage srv r (i, io) = (Inr a, (i', io')) \<and> same_resource i' i \<and>
        a = (chosen_cluster_name i0 infra, apply_overrides i0 (rc_AutoScalingConfig r))" by (simp add: same_inputs)
  qed
  show "goes_on i0 (scaling_stage srv lib r (chosen_cluster_name i0 infra, apply_overrides i0 (rc_AutoScalingConfig r))) (\<lambda>u. True)"
  proof (rule I)
    fix i :: OCIClusterAutoscaler and io :: "'a io"
    assume s: "same_resource i i0" and inst: "installable r infra i" and ws: "working_cluster srv stored lib r infra i"
    let ?n = "chosen_cluster_name i infra" and ?ns = "managedResourceNamespaceFor i (namespaces_of r)"
    let ?cfg = "apply_overrides i (rc_AutoScalingConfig r)"
    have w: "accepts_writes srv" "openshift_cluster srv infra (awaited_deployments r i)"
      "managed_objects (lib_time lib) srv stored \<lparr>nn_Namespace = ?ns, nn_Name = ?n\<rparr>"
      using ws by (simp_all add: working_cluster_def)
    let ?c = "GetComponents_enable srv ?ns (CAPIProviderNamespace (namespaces_of r)) ?n CAPIServiceAccountName i ?cfg
        (UsesInstancePrincipal (Some (rc_CAPOCICredentials r)))"
    obtain io1 where 1: "reconcileComponents srv ?c io = (None, io1)" "stored (io_world io1)"
      using scaling_components_pass [OF w inst refl] by blast
    obtain io2 where 2: "markExistingClusterControlPlaneInitialized (lib_time lib) srv ?ns ?n io1 = (None, io2)"
      using cluster_marked [OF w(1,3) 1(2)] by blast
    obtain i' io3 where 3: "setConditionAndRecord (rc_hasRecorder r) srv i ConditionScalingResourcesReady ConditionTrue
        ReasonScalingResourcesReady (''Managed scaling resources for cluster '' @ Quote ?n @ '' are reconciled'') io2 = (i', io3)" by fastforce
    obtain snap io4 where 4: "call srv (ReqGet machine_template_kind
        \<lparr>nn_Namespace = ?ns, nn_Name = AutoscalingResourceName ?n (Some i')\<rparr>) io3 = (snap, io4)" by fastforce
    have "scaling_stage srv lib r (?n, ?cfg) (i, io) = (Inr (), (i', io4))" using 1 2 3 4 by (simp add: scaling_stage_def)
    moreover have "same_resource i' i" using recordD(1) [OF 3] by simp
    ultimately show "\<exists>a i' io'. scaling_stage srv lib r (chosen_cluster_name i0 infra, apply_overrides i0 (rc_AutoScalingConfig r))
        (i, io) = (Inr a, (i', io')) \<and> same_resource i' i \<and> True" by (simp add: same_inputs [OF s, symmetric])
  qed
qed

lemma stack_goes_on:
  assumes "installable r infra i" and "working_cluster srv stored lib r infra i"
  shows "\<exists>i' io'. reconcileOCICapiStack srv lib r (i, io) = ((kubeconfigSecretRefreshInterval, None), (i', io'))"
proof -
  define m where "m = and_then (policy_stage srv r) (\<lambda>_.
           and_then (capi_stage srv r) (\<lambda>_.
           and_then (capoci_stage srv r) (\<lambda>_.
           and_then (rollout_stage srv r) (\<lambda>_.
           and_then (autoscaler_stage srv lib r) (\<lambda>_.
           and_then (config_stage srv r) (scaling_stage srv lib r))))))"
  note st = stages_go_on [OF assms] and sc = scaling_stages_go_on [OF assms]
  have g: "goes_on i m (\<lambda>u. True)" unfolding m_def
    by (rule goes_on_and_then [OF st(1)] goes_on_and_then [OF st(2)] goes_on_and_then [OF st(3)] goes_on_and_then [OF st(4)]
        goes_on_and_then [OF st(5)] goes_on_and_then [OF sc(1)])+ (use sc(2) in simp)
  obtain a i' io' where "m (i, io) = (Inr a, (i', io'))"
    using g [unfolded goes_on_def, rule_format, OF same_resource_status(1), of io] by blast
  then show ?thesis by (simp add: reconcileOCICapiStack_def m_def)
qed

section \<open>The run\<close>

lemma stack_reports_ready:
  assumes inst: "installable r infra i" and ws: "working_cluster srv stored lib r infra i"
    and "\<not> conditionIsTrue i ConditionReady"
  obtains x io1 io' where "reconcile_stack srv lib r (i, io) = ((kubeconfigSecretRefreshInterval, None), io')"
    and "emits (\<lambda>x. True) io io1" and "io_log io' = io_log io1 @ [(ReqStatusUpdate (OAutoscaler x), RespObj (OAutoscaler x))]"
    and "conditionIsTrue x ConditionReady" and "oca_Phase x = PhaseReady"
proof -
  obtain i1 io1 where 1: "reconcileOCICapiStack srv lib r (i, io) = ((kubeconfigSecretRefreshInterval, None), (i1, io1))"
    using stack_goes_on [OF inst ws] by blast
  from stack_ensures [OF 1] have ready: "autoscalerStackReady i1"
    by (auto simp: stopped_def track_def Let_def autoscalerStackReady_def kubeconfigSecretRefreshInterval_def)
  obtain x io2 where 2: "setAggregateReadyCondition (rc_hasRecorder r) srv i1 io1 = (x, io2)" by fastforce
  have x: "x = setAutoscalerCondition (srv_now srv (io_world io1)) (set_Phase PhaseReady (set_ObservedGeneration i1)) ConditionReady
      ConditionTrue ReasonReconcileSuccess ''OCI CAPI autoscaler is ready''"
    using setAggregate_cases [of "rc_hasRecorder r" srv i1 io1] 2 ready stackReady_no_failure [OF ready] by (simp add: Let_def)
  have c: "conditionIsTrue x ConditionReady" "oca_Phase x = PhaseReady" unfolding x by simp_all
  have e2: "emits (\<lambda>x. True) io io2"
    using emits_any [OF reconcileOCICapiStack_emits [OF 1]] record_emits(5) [OF 2] by (rule emits_trans)
  have ne: "oca_Status i \<noteq> oca_Status x" using c(1) assms(3) by (auto simp: conditionIsTrue_def)
  have echo: "\<And>y w. fst (srv_handle srv (ReqStatusUpdate (OAutoscaler y)) w) = RespObj (OAutoscaler y)"
    using ws by (simp add: working_cluster_def accepts_writes_def)
  from Status_Update_echo [OF this] obtain io' where u: "Status_Update srv x io2 = (None, x, io')" by blast
  have l: "io_log io' = io_log io2 @ [(ReqStatusUpdate (OAutoscaler x), RespObj (OAutoscaler x))]"
    using u echo by (auto simp: Status_Update_def request_as_def call_def Let_def split: prod.splits sum.splits) (metis fst_conv)
  have "reconcile_stack srv lib r (i, io) = ((kubeconfigSecretRefreshInterval, None), io')"
    using 1 2 u ne by (simp add: reconcile_stack_def)
  from that [OF this e2 l c] show thesis .
qed

lemma initialize_unready:
  assumes "accepts_writes srv" and "\<not> conditionIsTrue i ConditionReady"
  obtains i' io' where "initialize srv r (i, io) = (None, i', io')" and "same_resource i' i" and "\<not> conditionIsTrue i' ConditionReady"
proof (cases "oca_Phase i = []")
  case True
  obtain i1 io1 where 1: "setConditionAndRecord (rc_hasRecorder r) srv (set_Phase PhaseInitializing i) ConditionReady
      ConditionUnknown ReasonInitializing ''OCIClusterAutoscaler reconciliation has started'' io = (i1, io1)" by fastforce
  have echo: "\<And>y w. fst (srv_handle srv (ReqStatusUpdate (OAutoscaler y)) w) = RespObj (OAutoscaler y)"
    using assms(1) by (simp add: accepts_writes_def)
  from Status_Update_echo [OF echo] obtain io2 where "Status_Update srv i1 io1 = (None, i1, io2)" by blast
  moreover have "same_resource i1 i" using same_resource_record [OF 1] by simp
  moreover have "\<not> conditionIsTrue i1 ConditionReady" using recordD(1) [OF 1] by simp
  ultimately show thesis using that 1 True by (simp add: initialize_def)
next
  case False
  with that assms(2) show thesis by (simp add: initialize_def)
qed

lemma owner_unopposed:
  assumes "\<And>w. fst (srv_handle srv (ReqList autoscaler_kind [] fmempty) w) = RespList (map OAutoscaler items)"
    and "map_option oca_key (selectSingletonOwner items False) = Some (oca_key i)"
  obtains io' where "singletonConflict srv i io = (Inr (Some (oca_key i), False), io')"
proof -
  have "expect (resp_items kobj_autoscaler) (RespList (map OAutoscaler items)) = Inr items"
    by (auto simp: expect_def resp_items_def list_all_iff o_def)
  with assms(1) obtain io' where "request_as srv (resp_items kobj_autoscaler) (ReqList autoscaler_kind [] fmempty) io = (Inr items, io')"
    by (rule answered)
  with assms(2) show thesis
    by (intro that [of io']) (auto simp: singletonConflict_def resolveSingletonOwnerName_def resolveSingletonOwner_def)
qed


section \<open>A sample installation\<close>

text \<open>A new resource with the finalizer and a cluster name, and a server whose world is whether the \<open>Cluster\<close> object is stored.\<close>

definition install_sample :: OCIClusterAutoscaler where
  "install_sample = (let i = set_Finalizers [FinalizerName] (sample_autoscaler ''n'' ''x'' 1 []) in
     i\<lparr>oca_Spec := (oca_Spec i)\<lparr>spec_CAPI := (spec_CAPI (oca_Spec i))\<lparr>capi_ClusterName := ''c''\<rparr>\<rparr>\<rparr>)"

definition install_infra :: Infrastructure where
  "install_infra = \<lparr>infra_InfrastructureName = ''c'', infra_APIServerInternalURL = ''https://a:1''\<rparr>"

definition install_get :: "string \<Rightarrow> nsname \<Rightarrow> bool \<Rightarrow> response" where
  "install_get k n w =
     (if k = autoscaler_kind then RespObj (OAutoscaler install_sample)
      else if k = deployment_kind then RespObj (ODeployment \<lparr>dep_meta = new_meta (nn_Namespace n) (nn_Name n),
        dep_Conditions = [\<lparr>dc_Type = ''Available'', dc_Status = ConditionTrue, dc_Reason = [], dc_Message = []\<rparr>]\<rparr>)
      else if k = secret_kind then RespObj (OSecret \<lparr>sec_meta = new_meta (nn_Namespace n) (nn_Name n), sec_Data = fmap_of_list [(''tls.crt'', ''pem'')]\<rparr>)
      else if k = configmap_kind then RespObj (OConfigMap \<lparr>cm_meta = new_meta (nn_Namespace n) (nn_Name n), cm_Data = fmempty\<rparr>)
      else if k = cluster_kind \<and> w then RespObj (OUnstructured (new_unstructured ''Cluster'' (nn_Namespace n) (nn_Name n)))
      else RespErr (StatusError NotFound []))"

definition install_handle :: "request \<Rightarrow> bool \<Rightarrow> response \<times> bool" where
  "install_handle q w = (case q of
     ReqGet k n \<Rightarrow> (install_get k n w, w)
   | ReqList k n l \<Rightarrow> (RespList [if k = infrastructure_kind then OInfrastructure install_infra else OAutoscaler install_sample], w)
   | ReqCreate x \<Rightarrow> (RespOk, w \<or> obj_kind x = cluster_kind)
   | ReqStatusUpdate x \<Rightarrow> (RespObj x, w)
   | ReqToken n a e \<Rightarrow> (RespToken ''t'', w)
   | ReqHelm h \<Rightarrow> (case h of HelmGetChart n \<Rightarrow> RespChart True | _ \<Rightarrow> RespRelease None, w)
   | _ \<Rightarrow> (RespOk, w))"

definition install_server :: "bool server" where
  "install_server = \<lparr>srv_handle = install_handle, srv_now = (\<lambda>w. 7)\<rparr>"

lemma install_kinds:
  "k \<in> pool_kinds \<Longrightarrow> k \<notin> {autoscaler_kind, deployment_kind, secret_kind, configmap_kind, cluster_kind}"
  "k \<in> typed_kinds \<Longrightarrow> k \<notin> {autoscaler_kind, deployment_kind, configmap_kind, cluster_kind}"
  "secret_kind \<notin> {autoscaler_kind, deployment_kind}" "configmap_kind \<notin> {autoscaler_kind, deployment_kind, secret_kind}"
  "deployment_kind \<noteq> autoscaler_kind" "cluster_kind \<notin> {autoscaler_kind, deployment_kind, secret_kind, configmap_kind}"
  "autoscaler_kind \<noteq> infrastructure_kind"
  by (auto simp: pool_kinds_def typed_kinds_def autoscaler_kind_def deployment_kind_def secret_kind_def configmap_kind_def
      cluster_kind_def infrastructure_kind_def)

lemma install_working: "working_cluster install_server (\<lambda>w. w) lib r install_infra i"
proof -
  have "accepts_writes install_server"
    by (auto simp: accepts_writes_def install_server_def install_handle_def split: helm_request.split)
  moreover have "escape_text (api_server_host (infra_APIServerInternalURL install_infra)) = ''a''" by code_simp
  then have "variable_size (api_server_host (infra_APIServerInternalURL install_infra)) ''pem'' \<le> 8228"
    by (simp add: variable_size_def EncodedLen_correct EncodedLen_def)
  then have "openshift_cluster install_server install_infra ds" for ds
    using install_kinds by (auto simp: get_or_empty_def fmlookup_of_list openshift_cluster_def install_server_def install_handle_def install_get_def deployment_available_def)
  moreover have "managed_objects (lib_time lib) install_server (\<lambda>w. w) n" for n
    unfolding managed_objects_def
  proof (intro allI conjI)
    fix w k m
    show "k \<in> typed_kinds \<longrightarrow> absent (fst (srv_handle install_server (ReqGet k m) w)) \<or>
        stored_as_kind k m (fst (srv_handle install_server (ReqGet k m) w))"
      using install_kinds(2) [of k]
      by (auto simp: install_server_def install_handle_def install_get_def absent_def stored_as_kind_def new_meta_def secret_kind_def)
    show "k \<in> pool_kinds \<longrightarrow> absent (fst (srv_handle install_server (ReqGet k m) w))"
      using install_kinds(1) [of k] by (auto simp: install_server_def install_handle_def install_get_def absent_def)
  next
    fix w
    have "status_ready_to_mark (lib_time lib) now (new_unstructured ''Cluster'' a b)" for now a b
      by (simp add: status_ready_to_mark_def new_unstructured_def fmlookup_of_list)
    then show "if w then \<exists>u. fst (srv_handle install_server (ReqGet cluster_kind n) w) = RespObj (OUnstructured u) \<and>
          obj_kind (OUnstructured u) = cluster_kind \<and> obj_key (OUnstructured u) = n \<and> (\<forall>now. status_ready_to_mark (lib_time lib) now u)
        else absent (fst (srv_handle install_server (ReqGet cluster_kind n) w))"
      using install_kinds(6)
      by (simp add: install_server_def install_handle_def install_get_def absent_def) (simp add: cluster_kind_def new_unstructured_def GetAPIVersion_def
          GetKind_def GetName_def GetNamespace_def getNestedString_def NestedString_def nested_typed_def NestedField_def fmlookup_of_list
          capiClusterAPIVersion_def jmap_def)
  next
    fix w q
    show "w \<longrightarrow> snd (srv_handle install_server q w)" by (cases q) (simp_all add: install_server_def install_handle_def)
  next
    fix w x
    show "obj_kind x = cluster_kind \<longrightarrow> obj_key x = n \<longrightarrow> snd (srv_handle install_server (ReqCreate x) w)"
      by (simp add: install_server_def install_handle_def)
  qed
  ultimately show ?thesis by (simp add: working_cluster_def)
qed

lemma install_pool: "ValidateNodePoolName (NodePoolName ''c'' (Some install_sample)) = None"
proof -
  have "NodePoolName ''c'' (Some install_sample) = ''c''"
    by (simp add: NodePoolName_def poolIdentifier_def install_sample_def sample_defs Let_def set_Finalizers_def)
  moreover have "dns1123LabelRegexp ''c''" by code_simp
  ultimately show ?thesis by (simp add: ValidateNodePoolName_None)
qed

lemma install_accepted: "validate install_sample (rc_AutoScalingConfig sample_reconciler) = None"
proof -
  have "ValidateMinMaxNodes install_sample (rc_AutoScalingConfig sample_reconciler) = None"
    by (simp add: ValidateMinMaxNodes_def install_sample_def sample_reconciler_def sample_config_def sample_defs Let_def override_def
        set_Finalizers_def)
  moreover have "capi_ClusterName (spec_CAPI (oca_Spec install_sample)) = ''c''"
    "ca_Name (spec_ClusterAutoscaler (oca_Spec install_sample)) = []"
    "ca_ServiceAccountName (spec_ClusterAutoscaler (oca_Spec install_sample)) = []"
    by (simp_all add: install_sample_def sample_defs Let_def set_Finalizers_def)
  moreover have "dns_label ''c''" by code_simp
  ultimately show ?thesis
    by (simp add: validate_def first_error_None validateOptionalObjectName_None sample_trim install_pool Let_def)
qed

lemma install_resolved: "apply_overrides install_sample (sample_config b) = sample_config b"
  by (simp add: install_sample_def apply_overrides_def sample_autoscaler_def sample_config_def override_def override_str_def
      shape_cpus_def shape_memory_def Let_def set_Finalizers_def)

lemma sample_cidr: "cidr_ok ''10.0.0.0/16''"
proof -
  have "TrimSpace ''10.0.0.0/16'' = ''10.0.0.0/16''" by (rule TrimSpace_inner) (simp add: inner_byte_def)
  moreover have "ParseCIDR ''10.0.0.0/16'' = None" by code_simp
  ultimately show ?thesis by (simp add: cidr_ok_def)
qed

lemma sample_not_BM: "\<not> IsBareMetalShape (cfg_Shape (cfg_AutoScaling (sample_config b)))"
  by (simp add: IsBareMetalShape_def sample_config_def sample_trim Let_def ToUpper_def upper_byte_def HasPrefix_def)

lemma install_installable: "installable sample_reconciler install_infra install_sample"
proof -
  let ?c = "sample_config ''10.0.0.0/16''"
  have c: "apply_overrides install_sample (rc_AutoScalingConfig sample_reconciler) = ?c"
    by (simp add: sample_reconciler_def install_resolved)
  have n: "chosen_cluster_name install_sample install_infra = ''c''"
    by (simp add: chosen_cluster_name_def install_sample_def sample_defs Let_def set_Finalizers_def sample_trim)
  note sample_cidr install_pool sample_not_BM
  moreover have "oca_Name install_sample \<noteq> []" by code_simp
  ultimately show ?thesis
    using install_accepted sample_valid sample_distinct
    by (simp add: installable_def c n) (simp add: sample_config_def)
qed


end
