(* ===== verification/ScalingSteady.thy ===== *)
theory ScalingSteady
  imports Install
begin

text \<open>
  The steady state of the scaling component (\<open>internal/components/enable_autoscaler\<close>): applied again to objects it made, it writes
  nothing but its two secrets. The untyped objects (the cluster, the machine deployment, the health check) are maps
  whose labels, annotations and \<open>spec\<close> are rewritten by every reconcile, so the argument is that each rewriting is idempotent.
\<close>

section \<open>Labels of untyped objects\<close>

lemma metadata_mapE:
  assumes "metadata_map u"
  obtains md where "fmlookup u ''metadata'' = Some (JMap md)"
  using assms by (auto simp: metadata_map_def split: option.splits json.splits)

definition labelled :: "object \<Rightarrow> string \<Rightarrow> string gomap \<Rightarrow> bool" where
  "labelled u f l \<longleftrightarrow> NestedField u [''metadata'', f] = Inr (Some (JMap (fmmap JStr l)))"

lemma labelled_get: "labelled u f l \<Longrightarrow> get_meta_map f u = l"
  by (simp add: labelled_def get_meta_map_def NestedStringMap_def nested_typed_def as_str_map_JStr)

lemma labelled_same: "labelled u f l \<Longrightarrow> set_meta_map f u (Some l) = u"
  by (rule set_meta_map_same) (simp add: labelled_def)

lemma set_meta_map_eq:
  assumes "fmlookup u ''metadata'' = Some (JMap md)"
  shows "set_meta_map f u (Some l) = fmupd ''metadata'' (JMap (fmupd f (JMap (fmmap JStr l)) md)) u"
  using assms by (simp add: set_meta_map_def try_set_def SetNestedField_def)

lemma labelled_set: "metadata_map u \<Longrightarrow> labelled (set_meta_map f u (Some l)) f l"
  by (erule metadata_mapE) (simp add: set_meta_map_eq labelled_def NestedField_def)

lemma labelled_other: "f \<noteq> g \<Longrightarrow> labelled (set_meta_map g u l') f l = labelled u f l"
  by (simp add: labelled_def set_meta_apart)

lemma labelled_spec [simp]: "labelled (fmupd ''spec'' v u) f l = labelled u f l"
  by (simp add: labelled_def NestedField_def)

lemma metadata_map_set [simp]: "metadata_map u \<Longrightarrow> metadata_map (set_meta_map f u (Some l))"
  by (erule metadata_mapE) (simp add: set_meta_map_eq metadata_map_def)

lemma metadata_map_spec [simp]: "metadata_map (fmupd ''spec'' v u) = metadata_map u"
  by (simp add: metadata_map_def)

text \<open>What identifies an object, which rewriting labels, annotations and \<open>spec\<close> keeps.\<close>

definition same_identity :: "object \<Rightarrow> object \<Rightarrow> bool" where
  "same_identity u v \<longleftrightarrow> GetKind u = GetKind v \<and> GetAPIVersion u = GetAPIVersion v \<and> GetName u = GetName v \<and>
     GetNamespace u = GetNamespace v"

lemma same_identity_fields:
  assumes "\<And>q. q \<in> {[''kind''], [''apiVersion''], [''metadata'', ''name''], [''metadata'', ''namespace'']} \<Longrightarrow> NestedField u q = NestedField v q"
  shows "same_identity u v"
  unfolding same_identity_def GetKind_def GetAPIVersion_def GetName_def GetNamespace_def
  by (intro conjI getNestedString_cong assms) simp_all

lemma same_identity_set: "f \<notin> {''name'', ''namespace''} \<Longrightarrow> same_identity (set_meta_map f u l) u"
  by (rule same_identity_fields) (auto simp: set_meta_apart)

lemma same_identity_spec: "same_identity (fmupd ''spec'' v u) u"
  by (rule same_identity_fields) (auto simp: NestedField_def)

lemma same_identity_trans: "same_identity u v \<Longrightarrow> same_identity v w \<Longrightarrow> same_identity u w"
  by (simp add: same_identity_def)

lemmas label_setters = SetDefaultLabels_u_def SetComponentLabels_u_def SetLabels_def GetLabels_def SetAnnotations_def GetAnnotations_def

text \<open>After the component's labels, the default labels and the component's labels change nothing.\<close>

lemma component_labels_settled:
  assumes "metadata_map u" and y: "y = SetComponentLabels_u a c s u"
  shows "SetDefaultLabels_u a y = y" "SetComponentLabels_u a c s y = y" "metadata_map y" "same_identity y u"
    "fmlookup y ''spec'' = fmlookup u ''spec''" "labelled y ''annotations'' l = labelled u ''annotations'' l"
proof -
  let ?l = "mergeManagedLabels (GetLabels u) (GetComponentLabels a c s)"
  have l: "labelled y ''labels'' ?l" using assms by (simp add: label_setters labelled_set)
  then have g: "GetLabels y = ?l" by (simp add: GetLabels_def labelled_get)
  show "SetDefaultLabels_u a y = y" "SetComponentLabels_u a c s y = y"
    using labelled_same [OF l] by (simp_all add: SetDefaultLabels_u_def SetComponentLabels_u_def SetLabels_def g merge_after_component merge_idem)
  show "metadata_map y" "same_identity y u" "labelled y ''annotations'' l = labelled u ''annotations'' l"
    using assms by (simp_all add: label_setters same_identity_set labelled_other)
  show "fmlookup y ''spec'' = fmlookup u ''spec''"
    using assms by (auto elim!: metadata_mapE simp: label_setters set_meta_map_eq)
qed

section \<open>Mutations that settle\<close>

lemma applied_fallible:
  "applied c (subcomponent n (ob, fallible_mutate f)) x y \<longleftrightarrow> comp_InstanceName c \<noteq> [] \<and>
     (\<exists>x'. f x = Inr x' \<and> y = SetComponentLabels_obj (comp_InstanceName c) (comp_Name c) n x')"
  by (cases "f x") (auto simp: applied_def component_mutate_def subcomponent_def fallible_mutate_def)

text \<open>An untyped object: its rendering keeps the identity, and renders again what it rendered, once labelled.\<close>

lemma untyped_settles:
  assumes n: "comp_InstanceName c = oca_Name i"
    and f: "\<And>u u'. metadata_map u \<Longrightarrow> f u = Inr u' \<Longrightarrow> metadata_map u' \<and> same_identity u' u"
    and again: "\<And>u u' y. metadata_map u \<Longrightarrow> f u = Inr u' \<Longrightarrow> y = SetComponentLabels_u (oca_Name i) (comp_Name c) k u' \<Longrightarrow> f y = Inr y"
  shows "settled_sub c (subcomponent k (OUnstructured ob, fallible_mutate (mutate_unstructured f)))"
proof (unfold settled_sub_def, intro allI impI)
  fix x y
  assume "same_type (subc_Object (subcomponent k (OUnstructured ob, fallible_mutate (mutate_unstructured f)) :: 'a Subcomponent)) x"
  then have "same_type (OUnstructured ob) x" by (simp add: subcomponent_def)
  then obtain u where u: "x = OUnstructured u" "GetKind u = GetKind ob" "GetAPIVersion u = GetAPIVersion ob" "metadata_map u"
    by (auto elim: same_typeE)
  assume "applied c (subcomponent k (OUnstructured ob, fallible_mutate (mutate_unstructured f))) x y"
  then obtain u' where u': "f u = Inr u'" "y = OUnstructured (SetComponentLabels_u (oca_Name i) (comp_Name c) k u')" "oca_Name i \<noteq> []"
    using u(1) n by (auto simp: applied_fallible SetComponentLabels_obj_def split: sum.splits)
  let ?y = "SetComponentLabels_u (oca_Name i) (comp_Name c) k u'"
  from f [OF u(4) u'(1)] have m: "metadata_map u'" "same_identity u' u" by simp_all
  note s = component_labels_settled [OF m(1) refl, of "oca_Name i" "comp_Name c" k]
  have "same_identity ?y u" using s(4) m(2) by (rule same_identity_trans)
  moreover have "applied c (subcomponent k (OUnstructured ob, fallible_mutate (mutate_unstructured f))) y y"
    using again [OF u(4) u'(1) refl] s(2) u'(2,3) n by (simp add: applied_fallible SetComponentLabels_obj_def)
  ultimately show "applied c (subcomponent k (OUnstructured ob, fallible_mutate (mutate_unstructured f))) y y \<and> obj_key y = obj_key x \<and>
      obj_kind y = obj_kind (subc_Object (subcomponent k (OUnstructured ob, fallible_mutate (mutate_unstructured f)) :: 'a Subcomponent))"
    using u u'(2) by (simp add: same_identity_def) (simp add: subcomponent_def)
qed

lemma default_labels_settled:
  "metadata_map u \<Longrightarrow> metadata_map (SetDefaultLabels_u a u) \<and> same_identity (SetDefaultLabels_u a u) u"
  by (simp add: label_setters same_identity_set)

lemma spec_labelled_settles:
  assumes m: "metadata_map u" and u': "u' = fmupd ''spec'' w (SetDefaultLabels_u a u)" and y: "y = SetComponentLabels_u a c k u'"
  shows "metadata_map u'" "same_identity u' u" "fmupd ''spec'' w (SetDefaultLabels_u a y) = y"
proof -
  show m': "metadata_map u'" using default_labels_settled [OF m] by (simp add: u')
  show "same_identity u' u"
    unfolding u' using same_identity_spec default_labels_settled [OF m] by (blast intro: same_identity_trans)
  note s = component_labels_settled [OF m' y]
  have "fmlookup y ''spec'' = Some w" by (simp add: s(5) u')
  then show "fmupd ''spec'' w (SetDefaultLabels_u a y) = y" by (simp add: s(1) fmupd_same)
qed

lemma health_check_settles:
  assumes "comp_InstanceName c = oca_Name i"
  shows "settled_sub c (subcomponent k (MachineHealthCheck ns clusterName i config))"
  unfolding MachineHealthCheck_def
proof (rule untyped_settles [OF assms], goal_cases)
  case (1 u u')
  then show ?case
    using spec_labelled_settles [OF 1(1) _ refl] by (auto simp: render_MachineHealthCheck_def Let_def split: option.splits)
next
  case (2 u u' y)
  show ?case
    using 2(2) spec_labelled_settles(3) [OF 2(1) _ 2(3)] by (auto simp: render_MachineHealthCheck_def Let_def split: option.splits)
qed

lemma cluster_settles:
  assumes "comp_InstanceName c = oca_Name i"
  shows "settled_sub c (subcomponent k (CAPICluster ns clusterName i config))"
  unfolding CAPICluster_def
proof (rule untyped_settles [OF assms], goal_cases)
  case (1 u u')
  then show ?case
    using spec_labelled_settles [OF 1(1) _ refl] by (auto simp: render_CAPICluster_def Let_def split: option.splits sum.splits)
next
  case (2 u u' y)
  from 2(2) have "TrimSpace clusterName \<noteq> [] \<and> cidr_ok (cfg_ClusterNetworkCIDRBlock (cfg_Network config)) \<and>
     cidr_ok (cfg_ServiceNetworkCIDRBlock (cfg_Network config))" using render_CAPICluster_iff by blast
  then obtain y' where y': "render_CAPICluster clusterName i config y = Inr y'" using render_CAPICluster_iff by blast
  with 2(2) show ?case
    using spec_labelled_settles(3) [OF 2(1) _ 2(3)] by (auto simp: render_CAPICluster_def Let_def split: option.splits sum.splits)
qed

lemma validate_deployment_cong:
  "fmlookup u ''spec'' = fmlookup v ''spec'' \<Longrightarrow> validateMachineDeploymentObject u = validateMachineDeploymentObject v"
  by (simp add: validateMachineDeploymentObject_def validateCAPIInfrastructureRef_def required_string_def NestedMap_def NestedString_def
      nested_typed_def NestedField_def)

lemma initial_spec_has_replicas: "initial_spec config md = Inr spec \<Longrightarrow> \<exists>r. NestedInt64 spec [''replicas''] = Inr (Some r)"
  by (auto simp: initial_spec_def NestedInt64_def nested_typed_def NestedField_def split: sum.splits option.splits)

lemma initial_spec_kept:
  "fmlookup md ''spec'' = Some (JMap s) \<Longrightarrow> NestedInt64 s [''replicas''] = Inr (Some r) \<Longrightarrow> initial_spec config md = Inr s"
  by (simp add: initial_spec_def NestedMap_def nested_typed_def NestedField_def)

lemma machine_deployment_spec_idem:
  "machine_deployment_spec c p i config ref (machine_deployment_spec c p i config ref sp) = machine_deployment_spec c p i config ref sp"
  by (rule fmap_ext) (auto simp: machine_deployment_spec_def Let_def)

lemma machine_deployment_spec_replicas:
  "NestedInt64 (machine_deployment_spec c p i config ref sp) [''replicas''] = NestedInt64 sp [''replicas'']"
  by (simp add: NestedInt64_def nested_typed_def NestedField_def machine_deployment_spec_def Let_def)

lemma machine_annotations_idem: "machine_annotations config (machine_annotations config a) = machine_annotations config a"
  by (rule fmap_ext) (simp add: machine_annotations_def Let_def)

lemma render_MachineDeployment_again:
  assumes m: "metadata_map u" and r: "render_MachineDeployment clusterName i config u = Inr u'"
    and y: "y = SetComponentLabels_u (oca_Name i) c k u'"
  shows "metadata_map u' \<and> same_identity u' u \<and> render_MachineDeployment clusterName i config y = Inr y"
proof -
  let ?p = "NodePoolName clusterName (Some i)"
  let ?md1 = "SetDefaultLabels_u (oca_Name i) u"
  let ?A = "machine_annotations config (GetAnnotations ?md1)"
  let ?md2 = "SetAnnotations ?md1 (Some ?A)"
  from r obtain ref spec where v: "validateGeneratedNodePoolNames clusterName i = None"
    and ref: "infrastructureRef ociInfrastructureAPIVersion ''OCIMachineTemplate'' (autoscalingName ?p) = Inr ref"
    and sp: "initial_spec config ?md2 = Inr spec"
    and u': "u' = fmupd ''spec'' (JMap (machine_deployment_spec clusterName ?p i config ref spec)) ?md2"
    and ok: "validateMachineDeploymentObject u' = None"
    by (auto simp: render_MachineDeployment_def Let_def split: option.splits sum.splits)
  let ?S = "machine_deployment_spec clusterName ?p i config ref spec"
  note d = default_labels_settled [OF m, of "oca_Name i"]
  have m2: "metadata_map ?md2" "labelled ?md2 ''annotations'' ?A" using d by (simp_all add: SetAnnotations_def labelled_set)
  have m': "metadata_map u'" "labelled u' ''annotations'' ?A" using m2 by (simp_all add: u')
  have "same_identity ?md2 ?md1" by (simp add: SetAnnotations_def same_identity_set)
  then have id: "same_identity u' u" unfolding u' using d same_identity_spec by (meson same_identity_trans)
  note s = component_labels_settled [OF m'(1) y]
  have sy: "fmlookup y ''spec'' = Some (JMap ?S)" by (simp add: s(5) u')
  have a: "labelled y ''annotations'' ?A" using m'(2) by (simp add: s(6))
  have ay: "SetAnnotations y (Some (machine_annotations config (GetAnnotations y))) = y"
    using labelled_same [OF a] by (simp add: SetAnnotations_def GetAnnotations_def labelled_get [OF a] machine_annotations_idem)
  obtain n where "NestedInt64 ?S [''replicas''] = Inr (Some n)"
    using initial_spec_has_replicas [OF sp] by (auto simp: machine_deployment_spec_replicas)
  then have iy: "initial_spec config y = Inr ?S" by (rule initial_spec_kept [OF sy])
  have "validateMachineDeploymentObject y = None" using ok validate_deployment_cong [OF s(5)] by simp
  moreover have "fmupd ''spec'' (JMap ?S) y = y" by (rule fmupd_same [OF sy])
  ultimately have "render_MachineDeployment clusterName i config y = Inr y"
    using v ref by (simp add: render_MachineDeployment_def Let_def s(1) ay iy machine_deployment_spec_idem)
  with m' id show ?thesis by simp
qed

lemma machine_deployment_settles:
  assumes "comp_InstanceName c = oca_Name i"
  shows "settled_sub c (subcomponent k (MachineDeployment ns clusterName i config))"
  unfolding MachineDeployment_def
  by (rule untyped_settles [OF assms]) (use render_MachineDeployment_again in blast)+

section \<open>Typed objects\<close>

lemma settled_fallible:
  assumes "\<And>x x'. same_type ob x \<Longrightarrow> f x = Inr x' \<Longrightarrow> let y = SetComponentLabels_obj (comp_InstanceName c) (comp_Name c) n x' in
    (\<exists>z. f y = Inr z \<and> SetComponentLabels_obj (comp_InstanceName c) (comp_Name c) n z = y) \<and> obj_key y = obj_key x \<and> obj_kind y = obj_kind ob"
  shows "settled_sub c (subcomponent n (ob, fallible_mutate f))"
proof (unfold settled_sub_def, intro allI impI)
  fix x y
  assume "same_type (subc_Object (subcomponent n (ob, fallible_mutate f) :: 'a Subcomponent)) x"
    and a: "applied c (subcomponent n (ob, fallible_mutate f)) x y"
  then have t: "same_type ob x" by (simp add: subcomponent_def)
  from a obtain x' where x': "comp_InstanceName c \<noteq> []" "f x = Inr x'" "y = SetComponentLabels_obj (comp_InstanceName c) (comp_Name c) n x'"
    unfolding applied_fallible by blast
  from assms [OF t x'(2)] x'(3) obtain z where z: "f y = Inr z" "SetComponentLabels_obj (comp_InstanceName c) (comp_Name c) n z = y"
    "obj_key y = obj_key x" "obj_kind y = obj_kind ob" by (auto simp: Let_def)
  from z(1,2) x'(1) have "applied c (subcomponent n (ob, fallible_mutate f)) y y" unfolding applied_fallible by metis
  with z(3,4) show "applied c (subcomponent n (ob, fallible_mutate f)) y y \<and> obj_key y = obj_key x \<and>
      obj_kind y = obj_kind (subc_Object (subcomponent n (ob, fallible_mutate f) :: 'a Subcomponent))"
    by simp (simp add: subcomponent_def)
qed

text \<open>The metadata of the cluster: an annotation is added beneath those that are there.\<close>

lemma annotated_again:
  assumes "m' = SetComponentLabels a c s (SetDefaultLabels a m\<lparr>md_Annotations := x ++\<^sub>f md_Annotations (SetDefaultLabels a m)\<rparr>)"
  shows "SetComponentLabels a c s (m'\<lparr>md_Annotations := x ++\<^sub>f md_Annotations m'\<rparr>) = m'"
    "md_Name m' = md_Name m" "md_Namespace m' = md_Namespace m"
  using assms by (simp_all add: SetDefaultLabels_def SetComponentLabels_def merge_after_component merge_idem fmadd_assoc [symmetric])

lemma oci_cluster_settles:
  assumes n: "comp_InstanceName c = oca_Name i"
  shows "settled_sub c (subcomponent k (OCICluster_of ns clusterName i config b))"
  unfolding OCICluster_of_def
  by (rule settled_pure) (auto elim!: same_typeE simp: SetComponentLabels_obj_def n Let_def annotated_again [OF refl])

lemma identity_settles:
  assumes n: "comp_InstanceName c = oca_Name i"
  shows "settled_sub c (subcomponent k (OCIClusterIdentity_of ns clusterName i))"
  unfolding OCIClusterIdentity_of_def
  by (rule settled_pure) (auto elim!: same_typeE simp: SetComponentLabels_obj_def n)

section \<open>The machine template\<close>

lemma merge_tags_idem:
  assumes "k1 \<noteq> k2" and t: "t = mergeDefinedTags (mergeDefinedTags e n1 (fmupd k1 v1 fmempty)) n2 (fmupd k2 v2 fmempty)"
  shows "mergeDefinedTags (mergeDefinedTags t n1 (fmupd k1 v1 fmempty)) n2 (fmupd k2 v2 fmempty) = t"
  unfolding t mergeDefinedTags_def using assms(1)
  by (intro fmap_ext) (auto intro!: fmap_ext split: option.split)

lemma merged_tags_valid:
  assumes "k1 \<noteq> k2" and t: "t = mergeDefinedTags (mergeDefinedTags e n1 (fmupd k1 v1 fmempty)) n2 (fmupd k2 v2 fmempty)"
  shows "validateDefinedTagOverrides t n1 [(k1, v1)] = None" "validateDefinedTagOverrides t n2 [(k2, v2)] = None"
  using assms by (auto simp: validateDefinedTagOverrides_def mergeDefinedTags_def first_error_None split: option.split)

lemma common_tags [simp]:
  "ms_DefinedTags (machine_spec_common c i config t p) = t"
  "machine_spec_BM config sub (machine_spec_common c i config t p) = machine_spec_BM config sub (machine_spec_common c i config t' p) \<longleftrightarrow>
     ms_DefinedTags (machine_spec_BM config sub (machine_spec_common c i config t p)) =
     ms_DefinedTags (machine_spec_BM config sub (machine_spec_common c i config t' p))"
  by (auto simp: machine_spec_common_def machine_spec_BM_def Let_def)

lemma BM_tags:
  "ms_DefinedTags (machine_spec_BM config sub spec) = mergeDefinedTags
     (mergeDefinedTags (ms_DefinedTags spec) openshiftTagNS (fmupd ''openshift-resource'' ''openshift-resource-infra'' fmempty))
     (bootVolumeDefinedTagNamespace config) (fmupd ''boot-volume-type'' ''ISCSI'' fmempty)"
  by (simp add: machine_spec_BM_def Let_def)

lemma render_machine_spec_again:
  assumes "render_machine_spec clusterName i config old = Inr spec"
  shows "render_machine_spec clusterName i config spec = Inr spec"
proof (cases "IsBareMetalShape (cfg_Shape (cfg_AutoScaling config))")
  case False
  with assms show ?thesis by (auto simp: render_machine_spec_def Let_def machine_spec_common_def split: prod.splits)
next
  case True
  obtain p sub where ps: "ResolveSubnetNamesForShape (cfg_Shape (cfg_AutoScaling config)) (TrimSpace (cfg_OCPSubnetName (cfg_Network config)))
      (TrimSpace (cfg_BareMetalSubnetName (cfg_Network config))) = (p, sub)" by (meson prod.exhaust)
  let ?b = "\<lambda>e. machine_spec_BM config sub (machine_spec_common clusterName i config e p)"
  from assms True ps have spec: "spec = ?b (ms_DefinedTags old)"
    and b: "first_error (bm_subnet_checks (TrimSpace (cfg_OCPSubnetID (cfg_Network config)))
      (TrimSpace (cfg_BareMetalSubnetID (cfg_Network config))) (TrimSpace (cfg_OCPSubnetName (cfg_Network config)))
      (TrimSpace (cfg_BareMetalSubnetName (cfg_Network config))) sub) = None"
    by (auto simp: render_machine_spec_def Let_def first_error_None split: option.splits)
  have k: "''openshift-resource'' \<noteq> ''boot-volume-type''" by simp
  note t = BM_tags [of config sub "machine_spec_common clusterName i config (ms_DefinedTags old) p", unfolded common_tags(1), folded spec]
  have "?b (ms_DefinedTags spec) = spec"
    unfolding spec common_tags(2) unfolding spec [symmetric] by (simp add: BM_tags merge_tags_idem [OF k t])
  then show ?thesis
    using True ps b merged_tags_valid [OF k t] by (auto simp: render_machine_spec_def Let_def first_error_None split: option.splits)
qed

lemma machine_template_settles:
  assumes n: "comp_InstanceName c = oca_Name i" "comp_Name c = ''EnableAutoscaler''"
  shows "settled_sub c (subcomponent ''machineTemplate'' (OCIMachineTemplate_of ns clusterName i config))"
  unfolding OCIMachineTemplate_of_def
proof (rule settled_fallible, goal_cases)
  case (1 x x')
  then show ?case using render_machine_spec_again
    by (auto elim!: same_typeE simp: SetComponentLabels_obj_def n Let_def split: option.splits sum.splits)
qed

section \<open>The two secrets\<close>

text \<open>
  The bootstrap secret depends on the cluster's certificates and the kubeconfig secret carries a new token each time: these are the writes
  that a settled component still makes, a token request or a write of one of the secrets.
\<close>

fun secret_write :: "nsname set \<Rightarrow> request \<Rightarrow> bool" where
  "secret_write K (ReqToken n a t) = True"
| "secret_write K (ReqCreate y) = (obj_kind y = ''v1/Secret'' \<and> obj_key y \<in> K)"
| "secret_write K (ReqPatch x y) = (obj_kind y = ''v1/Secret'' \<and> obj_key y \<in> K)"
| "secret_write K _ = False"

definition tokens_only :: "'w mutate_fn \<Rightarrow> bool" where
  "tokens_only f \<longleftrightarrow> (\<forall>x io r io'. f x io = (r, io') \<longrightarrow> emits (\<lambda>(q, a). read_only q \<or> secret_write {} q) io io' \<and>
     (case r of Inl e \<Rightarrow> True | Inr y \<Rightarrow> obj_kind y = obj_kind x))"

lemma emits_reads_tokens: "emits (\<lambda>(q, a). read_only q) io io' \<Longrightarrow> emits (\<lambda>(q, a). read_only q \<or> secret_write K q) io io'"
  by (erule emits_mono) auto

lemma secret_write_mono: "secret_write {} q \<Longrightarrow> secret_write K q"
  by (cases q) auto

lemma bootstrap_tokens: "tokens_only (mutate_bootstrap srv i)"
  unfolding tokens_only_def
proof (intro allI impI)
  fix x io r io' assume "mutate_bootstrap srv i x io = (r, io')"
  then show "emits (\<lambda>(q, a). read_only q \<or> secret_write {} q) io io' \<and> (case r of Inl e \<Rightarrow> True | Inr y \<Rightarrow> obj_kind y = obj_kind x)"
    by (cases x) (auto split: prod.splits sum.splits dest!: GenerateIgnition_read_only intro: emits_reads_tokens)
qed

lemma kubeconfig_tokens: "tokens_only (mutate_kubeconfig srv a b c d i)"
  unfolding tokens_only_def
proof (intro allI impI)
  fix x io r io' assume m: "mutate_kubeconfig srv a b c d i x io = (r, io')"
  let ?P = "\<lambda>(q, a). read_only q \<or> secret_write {} q"
  have t: "emits ?P io io1" if "request_as srv resp_token (ReqToken n aud e) io = (t, io1)" for n aud e t io1
    using that by (rule emits_request_as) simp
  show "emits ?P io io' \<and> (case r of Inl e \<Rightarrow> True | Inr y \<Rightarrow> obj_kind y = obj_kind x)"
    using m by (cases x) (auto simp: Let_def split: prod.splits sum.splits if_splits dest!: t discovery_read_only(5)
        intro: emits_trans emits_reads_tokens)
qed

lemma labels_keep_kind: "obj_kind (SetComponentLabels_obj a c s x) = obj_kind x"
proof (cases x)
  case (OUnstructured u)
  have "NestedField (SetComponentLabels_u a c s u) q = NestedField u q" if "q \<in> {[''kind''], [''apiVersion'']}" for q
    using that by (auto simp: label_setters set_meta_apart)
  then have "GetKind (SetComponentLabels_u a c s u) = GetKind u" "GetAPIVersion (SetComponentLabels_u a c s u) = GetAPIVersion u"
    unfolding GetKind_def GetAPIVersion_def by (auto intro: getNestedString_cong)
  with OUnstructured show ?thesis by (simp add: SetComponentLabels_obj_def)
qed (simp_all add: SetComponentLabels_obj_def)

lemma tokens_component: "tokens_only f \<Longrightarrow> tokens_only (component_mutate c (subcomponent n (ob, f)))"
  unfolding tokens_only_def component_mutate_def
  by (auto simp: subcomponent_def labels_keep_kind split: prod.splits sum.splits if_splits)

lemma same_kind_answer: "request_as srv (resp_same_kind ob) q io = (Inr y, io') \<Longrightarrow> obj_kind y = obj_kind ob"
  by (drule request_as_log) (auto simp: expect_def resp_same_kind_def split: response.splits option.splits if_splits)

lemma tokens_mutate:
  assumes "tokens_only g" and "mutate g key x io = (r, io')"
  shows "emits (\<lambda>(q, a). read_only q \<or> secret_write K q) io io'"
    "r = Inr y \<Longrightarrow> obj_kind y = obj_kind x \<and> obj_key y = key"
proof -
  obtain z io1 where z: "g x io = (z, io1)" by (meson prod.exhaust)
  have e: "emits (\<lambda>(q, a). read_only q \<or> secret_write {} q) io io1" and k: "case z of Inl e \<Rightarrow> True | Inr y \<Rightarrow> obj_kind y = obj_kind x"
    using assms(1) z unfolding tokens_only_def by blast+
  have "io' = io1" using assms(2) z by (auto simp: mutate_def split: sum.splits if_splits)
  with e show "emits (\<lambda>(q, a). read_only q \<or> secret_write K q) io io'" by (auto intro: secret_write_mono elim!: emits_mono)
  show "r = Inr y \<Longrightarrow> obj_kind y = obj_kind x \<and> obj_key y = key"
    using assms(2) z k by (auto simp: mutate_def split: sum.splits if_splits)
qed

lemma secret_reconciled:
  assumes f: "tokens_only f" and k: "obj_kind ob = ''v1/Secret''" "obj_key ob \<in> K"
    and r: "reconcile_one srv c (subcomponent n (ob, f)) io = (r, io')"
  shows "emits (\<lambda>(q, a). read_only q \<or> secret_write K q) io io'"
proof -
  let ?P = "\<lambda>(q, a). read_only q \<or> secret_write K q"
  let ?g = "component_mutate c (subcomponent n (ob, f))"
  note t = tokens_component [OF f, of c n ob]
  obtain x io1 where x: "request_as srv (resp_same_kind ob) (ReqGet (obj_kind ob) (obj_key ob)) io = (x, io1)" by (meson prod.exhaust)
  have e1: "emits ?P io io1" by (rule emits_request_as [OF x]) simp
  have m: "emits ?P io1 io2" if "mutate ?g (obj_key ob) y io1 = (z, io2)" for y z io2
    by (rule tokens_mutate(1) [OF t that])
  have w: "emits ?P io2 io3" if "mutate ?g (obj_key ob) y io1 = (Inr z, io2)" "obj_kind y = obj_kind ob"
    "request_as srv resp_unit q io2 = (u, io3)" "q = ReqCreate z \<or> q = ReqPatch y z" for y z io2 q u io3
    using tokens_mutate(2) [OF t that(1) refl] that(2,4) k by (intro emits_request_as [OF that(3)]) auto
  have o: "subc_Object (subcomponent n (ob, f)) = ob" by (simp add: subcomponent_def)
  show ?thesis
  proof (cases x)
    case (Inl e)
    with r x show ?thesis using e1
      by (auto simp: reconcile_one_def CreateOrPatch_def o Let_def split: sum.splits prod.splits if_splits
          dest: m w [OF _ refl] intro: emits_trans)
  next
    case (Inr y)
    note y = same_kind_answer [OF x [unfolded Inr]]
    from Inr r x show ?thesis using e1
      by (auto simp: reconcile_one_def CreateOrPatch_def o Let_def split: sum.splits prod.splits if_splits
          dest: m w [OF _ y] intro: emits_trans)
  qed
qed

section \<open>The steady state of the component\<close>

definition secret_names :: "string list" where
  "secret_names = [''bootstrapConfigSecret'', ''kubeConfigSecret'']"

definition secret_keys :: "string \<Rightarrow> string \<Rightarrow> nsname set" where
  "secret_keys ns clusterName = {\<lparr>nn_Namespace = ns, nn_Name = clusterName @ ''-bootstrap''\<rparr>,
     \<lparr>nn_Namespace = ns, nn_Name = clusterName @ ''-kubeconfig''\<rparr>}"

lemma sub_name [simp]: "subc_Name (subcomponent n x) = n"
  by (simp add: subcomponent_def)

lemma scaling_subs:
  assumes "s \<in> set (comp_Subcomponents (GetComponents_enable srv ns sans clusterName sa i config ip))"
  obtains (bootstrap) "s = subcomponent ''bootstrapConfigSecret'' (BootstrapConfigSecret srv ns clusterName i)"
  | (kubeconfig) "s = subcomponent ''kubeConfigSecret'' (KubeConfigSecret srv ns ns sans clusterName sa i)"
  | (other) "s \<in> {subcomponent ''managedResourceNamespace'' (ManagedResourceNamespace_of ns i),
      subcomponent ''machineTemplate'' (OCIMachineTemplate_of ns clusterName i config),
      subcomponent ''machineDeployment'' (MachineDeployment ns clusterName i config),
      subcomponent ''machineHealthCheck'' (MachineHealthCheck ns clusterName i config),
      subcomponent ''ociCluster'' (OCICluster_of ns clusterName i config ip),
      subcomponent ''cluster'' (CAPICluster ns clusterName i config),
      subcomponent ''ociClusterIdentity'' (OCIClusterIdentity_of ns clusterName i)}"
  using assms unfolding GetComponents_enable_def Component.select_convs set_append
  by (elim UnE; simp only: list.set insert_iff empty_iff if_True if_False split: if_splits; blast)

lemma scaling_settles:
  assumes c: "c = GetComponents_enable srv ns sans clusterName sa i config ip" and s: "s \<in> set (comp_Subcomponents c)"
    and n: "subc_Name s \<notin> set secret_names"
  shows "settled_sub c s"
proof -
  have i: "comp_InstanceName c = oca_Name i" "comp_Name c = ''EnableAutoscaler''" by (simp_all add: c GetComponents_enable_def)
  from s [unfolded c] show ?thesis
  proof (cases rule: scaling_subs)
    case other
    then show ?thesis
      by (elim insertE emptyE; simp only: machine_template_settles [OF i] machine_deployment_settles [OF i(1)]
        health_check_settles [OF i(1)] oci_cluster_settles [OF i(1)] cluster_settles [OF i(1)] identity_settles [OF i(1)]
        namespace_settles [OF i(1)] ManagedResourceNamespace_of_def)
  qed (use n in \<open>simp_all add: secret_names_def\<close>)
qed

text \<open>
  C25. The steady state of the scaling component: when every object but the two secrets is stored as the component made it, from
  whatever object it started, then reconciling the component again, whatever the server answers about the secrets, writes
  nothing but these two secrets, and requests tokens for them: the machine template, the deployment and its
  replica count, the health check, the clusters, the identity and the namespace are left as they are.
\<close>

theorem scaling_steady_state:
  fixes srv :: "'w server"
  assumes c: "c = GetComponents_enable srv ns sans clusterName sa i config ip"
    and stored: "\<And>s w. s \<in> set (comp_Subcomponents c) \<Longrightarrow> subc_Name s \<notin> set secret_names \<Longrightarrow> \<exists>x y w'. same_type (subc_Object s) x \<and>
      obj_key x = obj_key (subc_Object s) \<and> applied c s x y \<and> srv_handle srv (read_of s) w = (RespObj y, w')"
    and run: "reconcileComponents srv c io = (r, io')"
  shows "list_all (\<lambda>(q, a). read_only q \<or> secret_write (secret_keys ns clusterName) q) (sent io io')"
proof -
  let ?P = "\<lambda>(q, a). read_only q \<or> secret_write (secret_keys ns clusterName) q"
  have one: "emits ?P io io'" if s: "s \<in> set (comp_Subcomponents c)" and r: "reconcile_one srv c s io = (r, io')" for s io r io'
  proof (cases "subc_Name s \<in> set secret_names")
    case True
    from s [unfolded c] show ?thesis
    proof (cases rule: scaling_subs)
      case bootstrap
      from r [unfolded this BootstrapConfigSecret_def] show ?thesis
        by (rule secret_reconciled [OF bootstrap_tokens, rotated 2]) (simp_all add: new_meta_def secret_keys_def)
    next
      case kubeconfig
      from r [unfolded this KubeConfigSecret_def] show ?thesis
        by (rule secret_reconciled [OF kubeconfig_tokens, rotated 2]) (simp_all add: new_meta_def secret_keys_def)
    next
      case other
      with True show ?thesis by (elim insertE emptyE) (simp_all add: secret_names_def)
    qed
  next
    case False
    from stored [OF s False] obtain x y w' where x: "same_type (subc_Object s) x" "obj_key x = obj_key (subc_Object s)"
      "applied c s x y" "srv_handle srv (read_of s) (io_world io) = (RespObj y, w')" by blast
    with scaling_settles [OF c s False] have "applied c s y y" "obj_key y = obj_key (subc_Object s)" "obj_kind y = obj_kind (subc_Object s)"
      by (auto simp: settled_sub_def)
    from reconcile_one_settled [OF x(4) this] r show ?thesis by (auto simp: emits_def read_of_def)
  qed
  have "requester (reconcile_one srv c) (\<lambda>s. s \<in> set (comp_Subcomponents c)) ?P"
    by unfold_locales (rule one)
  from requester.run_all_emits [OF this] run have "emits ?P io io'"
    by (auto simp: reconcileComponents_def Let_def list_all_iff split: prod.splits)
  then show ?thesis by (auto simp: emits_def sent_def)
qed

text \<open>A server that stores every object as the component makes it of its empty object.\<close>

definition scaling_sample :: "unit server \<Rightarrow> unit Component" where
  "scaling_sample srv = GetComponents_enable srv ''ns'' ''ns'' ''c'' ''sa'' install_sample
     (sample_config ''10.0.0.0/16'') False"

definition made :: "unit Subcomponent \<Rightarrow> kobj" where
  "made s = (case component_mutate (scaling_sample (const_server RespOk)) s (subc_Object s) (start_io ()) of
     (Inr y, io) \<Rightarrow> y | (Inl e, io) \<Rightarrow> subc_Object s)"

definition scaling_server :: "unit server" where
  "scaling_server = \<lparr>srv_handle = (\<lambda>q w. (case filter (\<lambda>s. read_of s = q) (comp_Subcomponents (scaling_sample (const_server RespOk))) of
     s # ss \<Rightarrow> RespObj (made s) | [] \<Rightarrow> fst (install_handle q True), w)), srv_now = (\<lambda>w. 7)\<rparr>"

lemma sample_objects:
  assumes "s \<in> set (comp_Subcomponents (scaling_sample srv))" "subc_Name s \<notin> set secret_names"
  shows "\<exists>y. applied (scaling_sample srv) s (subc_Object s) y" "same_type (subc_Object s) (subc_Object s)"
    "s \<in> set (comp_Subcomponents (scaling_sample srv'))"
proof -
  let ?cfg = "sample_config ''10.0.0.0/16''"
  have n: "comp_InstanceName (scaling_sample srv) \<noteq> []"
    by (simp add: scaling_sample_def GetComponents_enable_def) code_simp
  have pure: "\<exists>y. applied (scaling_sample srv) (subcomponent k (ob, pure_mutate f)) ob y" for k ob f
    using n by (simp add: applied_pure)
  have fall: "\<exists>y. applied (scaling_sample srv) (subcomponent k (ob, fallible_mutate f)) ob y"
    if "mutates (\<lambda>w. True) ob (fallible_mutate f :: unit mutate_fn) ob" for k ob f
  proof -
    from that have "\<exists>x'. f ob = Inr x'" by (auto simp: mutates_def fallible_mutate_def)
    with n show ?thesis unfolding applied_fallible by auto
  qed
  have "if IsBareMetalShape (cfg_Shape (cfg_AutoScaling ?cfg))
       then TrimSpace (cfg_OCPSubnetID (cfg_Network ?cfg)) \<noteq> TrimSpace (cfg_BareMetalSubnetID (cfg_Network ?cfg)) \<and>
         TrimSpace (cfg_OCPSubnetName (cfg_Network ?cfg)) \<noteq> TrimSpace (cfg_BareMetalSubnetName (cfg_Network ?cfg)) else True"
    by (simp add: sample_not_BM)
  note m = template_mutates [OF install_pool sample_valid this, of "\<lambda>w :: unit. True" "''ns''"]
    deployment_mutates [OF install_pool, of "\<lambda>w :: unit. True" "''ns''" ?cfg]
    check_mutates [OF install_pool, of "\<lambda>w :: unit. True" "''ns''" ?cfg]
  have cl: "\<exists>u'. render_CAPICluster ''c'' install_sample ?cfg u = Inr u'" for u
    by (rule iffD2 [OF render_CAPICluster_iff]) (simp add: sample_trim sample_cidr, simp add: sample_config_def sample_cidr)
  have nu: "metadata_map (new_unstructured k ns nm)" for k ns nm by (simp add: metadata_map_def new_unstructured_def jmap_def fmlookup_of_list)
  have c: "\<exists>x'. mutate_unstructured (render_CAPICluster ''c'' install_sample ?cfg) (OUnstructured u) = Inr x'" for u
    using cl [of u] by (auto simp: mutate_unstructured.simps)
  note defs = ManagedResourceNamespace_of_def OCIMachineTemplate_of_def MachineDeployment_def MachineHealthCheck_def OCICluster_of_def
    CAPICluster_def OCIClusterIdentity_of_def
  have ap: "\<exists>y. applied (scaling_sample srv) (subcomponent k x) (fst x) y"
    if "x \<in> {ManagedResourceNamespace_of ''ns'' install_sample, OCIMachineTemplate_of ''ns'' ''c'' install_sample ?cfg,
      MachineDeployment ''ns'' ''c'' install_sample ?cfg, MachineHealthCheck ''ns'' ''c'' install_sample ?cfg,
      OCICluster_of ''ns'' ''c'' install_sample ?cfg False, CAPICluster ''ns'' ''c'' install_sample ?cfg,
      OCIClusterIdentity_of ''ns'' ''c'' install_sample}" for k x
    using that
  proof (elim insertE emptyE, goal_cases)
    case 1 show ?case unfolding 1 defs fst_conv by (rule pure)
  next
    case 2 show ?case unfolding 2 defs fst_conv by (rule fall [OF m(1) [unfolded defs fst_conv snd_conv]])
  next
    case 3 show ?case unfolding 3 defs fst_conv by (rule fall [OF m(2) [unfolded defs fst_conv snd_conv]])
  next
    case 4 show ?case unfolding 4 defs fst_conv by (rule fall [OF m(3) [unfolded defs fst_conv snd_conv]])
  next
    case 5 show ?case unfolding 5 defs fst_conv by (rule pure)
  next
    case 6 show ?case unfolding 6 defs fst_conv applied_fallible using c n by blast
  next
    case 7 show ?case unfolding 7 defs fst_conv by (rule pure)
  qed
  have ty: "same_type (fst x) (fst x)"
    if "x \<in> {ManagedResourceNamespace_of ''ns'' install_sample, OCIMachineTemplate_of ''ns'' ''c'' install_sample ?cfg,
      MachineDeployment ''ns'' ''c'' install_sample ?cfg, MachineHealthCheck ''ns'' ''c'' install_sample ?cfg,
      OCICluster_of ''ns'' ''c'' install_sample ?cfg False, CAPICluster ''ns'' ''c'' install_sample ?cfg,
      OCIClusterIdentity_of ''ns'' ''c'' install_sample :: kobj \<times> unit mutate_fn}" for x
    using that by (elim insertE emptyE) (auto simp: defs nu intro: same_type.intros)
  have o: "subc_Object (subcomponent k x) = fst x" for k and x :: "kobj \<times> unit mutate_fn" by (simp add: subcomponent_def)
  from assms(1) [unfolded scaling_sample_def] have "(\<exists>y. applied (scaling_sample srv) s (subc_Object s) y) \<and> same_type (subc_Object s) (subc_Object s)"
  proof (cases rule: scaling_subs)
    case other
    then show ?thesis by (elim insertE emptyE; simp only: o; intro conjI ap ty; blast)
  qed (use assms(2) in \<open>simp_all add: secret_names_def\<close>)
  then show "\<exists>y. applied (scaling_sample srv) s (subc_Object s) y" "same_type (subc_Object s) (subc_Object s)" by simp_all
  show "s \<in> set (comp_Subcomponents (scaling_sample srv'))"
    using assms by (auto simp: scaling_sample_def GetComponents_enable_def secret_names_def)
qed

lemma sample_reads: "distinct (map read_of (comp_Subcomponents (scaling_sample srv)))"
  by (simp add: scaling_sample_def GetComponents_enable_def read_of_def subcomponent_def ManagedResourceNamespace_of_def
      BootstrapConfigSecret_def KubeConfigSecret_def OCIMachineTemplate_of_def MachineDeployment_def MachineHealthCheck_def
      OCICluster_of_def CAPICluster_def new_unstructured_def GetAPIVersion_def GetKind_def getNestedString_def NestedString_def
      nested_typed_def NestedField_def fmlookup_of_list capiClusterAPIVersion_def new_meta_def)

lemma filter_own: "distinct (map f xs) \<Longrightarrow> x \<in> set xs \<Longrightarrow> filter (\<lambda>y. f y = f x) xs = [x]"
proof (induction xs)
  case (Cons a xs)
  then show ?case by (cases "x = a") (auto simp: filter_empty_conv image_iff)
qed simp

lemma scaling_server_stores:
  assumes "s \<in> set (comp_Subcomponents (scaling_sample srv))" "subc_Name s \<notin> set secret_names"
  shows "applied (scaling_sample srv) s (subc_Object s) (made s)" "srv_handle scaling_server (read_of s) w = (RespObj (made s), w)"
proof -
  have "comp_InstanceName (scaling_sample srv) = comp_InstanceName (scaling_sample srv')"
    "comp_Name (scaling_sample srv) = comp_Name (scaling_sample srv')" for srv'
    by (simp_all add: scaling_sample_def GetComponents_enable_def)
  then have a: "applied (scaling_sample srv) s x y = applied (scaling_sample srv') s x y" for x y srv'
    unfolding applied_def component_mutate_def by metis
  obtain y where y: "applied (scaling_sample srv) s (subc_Object s) y" using sample_objects(1) [OF assms] by blast
  then have "made s = y" unfolding a [of _ _ "const_server RespOk"] by (simp add: made_def applied_def)
  with y show "applied (scaling_sample srv) s (subc_Object s) (made s)" by simp
  show "srv_handle scaling_server (read_of s) w = (RespObj (made s), w)"
    using filter_own [OF sample_reads sample_objects(3) [OF assms]] by (simp add: scaling_server_def)
qed

theorem scaling_steady_state_witness:
  "list_all (\<lambda>(q, a). read_only q \<or> secret_write (secret_keys ''ns'' ''c'') q)
     (sent (start_io ()) (snd (reconcileComponents scaling_server (scaling_sample scaling_server) (start_io ()))))"
proof (rule scaling_steady_state [OF scaling_sample_def _ surjective_pairing], goal_cases)
  case (1 s w)
  then show ?case using scaling_server_stores sample_objects(2) by metis
qed

end
