(* ===== verification/Startup.thy ===== *)
theory Startup
  imports Reconcile
begin

text \<open>
  The start of the manager (\<open>run\<close> of \<open>cmd/main.go\<close>): the manager's options, and how the environment is turned into
  the configuration of the two controllers. Creating the manager, reading the environment into \<open>Options\<close> and
  serving are libraries; \<open>CLUSTER_NAME\<close> of the environment is an argument.
\<close>

section \<open>Operations\<close>

record CSRApprovalConfig =
  csrc_MachineNamespace :: string
  csrc_ClusterName :: string

record RunOptions =
  ro_EnableLeaderElection :: bool
  ro_MetricsAddr :: string
  ro_ProbeAddr :: string
  ro_EnableHTTP2 :: bool

record Options =
  opt_CAPOCICredentials :: CAPOCICredentials
  opt_ProviderConfig :: ProviderConfig
  opt_AutoScalingConfig :: Config
  opt_CAPOCIProvider :: ProviderConfig
  opt_NamespaceConfig :: NamespaceConfig
  opt_CSRApprovalConfig :: CSRApprovalConfig
  opt_RunOptions :: RunOptions

text \<open>The flags of the \<open>run\<close> command; \<open>None\<close> for a flag that is not given.\<close>

definition command_options ::
    "string option \<Rightarrow> string option \<Rightarrow> bool option \<Rightarrow> bool option \<Rightarrow> RunOptions" where
  "command_options metrics_bind_address health_probe_bind_address leader_elect enable_http2 =
     \<lparr>ro_EnableLeaderElection = (case leader_elect of None \<Rightarrow> True | Some b \<Rightarrow> b),
      ro_MetricsAddr = (case metrics_bind_address of None \<Rightarrow> '':8080'' | Some s \<Rightarrow> s),
      ro_ProbeAddr = (case health_probe_bind_address of None \<Rightarrow> '':8081'' | Some s \<Rightarrow> s),
      ro_EnableHTTP2 = (case enable_http2 of None \<Rightarrow> False | Some b \<Rightarrow> b)\<rparr>"

text \<open>The manager's options; durations in seconds, \<open>None\<close> the library's default.\<close>

record ctrl_Options =
  co_NextProtos :: "string list option"
  co_MetricsAddr :: string
  co_ProbeAddr :: string
  co_LeaderElection :: bool
  co_LeaderElectionID :: string
  co_LeaseDuration :: "nat option"
  co_RenewDeadline :: "nat option"
  co_RetryPeriod :: "nat option"
  co_ReleaseOnCancel :: bool

definition applyLeaderElectionTiming :: "ctrl_Options \<Rightarrow> ctrl_Options" where
  "applyLeaderElectionTiming options = options\<lparr>co_LeaseDuration := Some 15, co_RenewDeadline := Some 10,
     co_RetryPeriod := Some 2, co_ReleaseOnCancel := True\<rparr>"

definition manager_options :: "RunOptions \<Rightarrow> ctrl_Options" where
  "manager_options ro =
     (let mgrOpts = \<lparr>co_NextProtos = (if ro_EnableHTTP2 ro then None else Some [''http/1.1'']), co_MetricsAddr = ro_MetricsAddr ro,
            co_ProbeAddr = ro_ProbeAddr ro, co_LeaderElection = ro_EnableLeaderElection ro,
            co_LeaderElectionID = ''1af242a3.openshift.io'', co_LeaseDuration = None, co_RenewDeadline = None,
            co_RetryPeriod = None, co_ReleaseOnCancel = False\<rparr>
      in if co_LeaderElection mgrOpts then applyLeaderElectionTiming mgrOpts else mgrOpts)"

definition validateOptions :: "Options \<Rightarrow> check" where
  "validateOptions options = first_error
     [Validate_credentials (Some (opt_CAPOCICredentials options)),
      Validate_namespaces (opt_NamespaceConfig options),
      ValidateShapeConfig None (opt_AutoScalingConfig options),
      (if TrimSpace (csrc_ClusterName (opt_CSRApprovalConfig options)) = []
       then Some (Errorf ''CSR approval requires CSR_CLUSTER_NAME or CLUSTER_NAME'') else None)]"

definition resolveCSRApprovalConfig ::
    "'w server \<Rightarrow> CSRApprovalConfig \<Rightarrow> string \<Rightarrow> string \<Rightarrow> 'w io \<Rightarrow> (go_error + CSRApprovalConfig) \<times> 'w io" where
  "resolveCSRApprovalConfig srv config defaultMachineNS CLUSTER_NAME io =
     (let ns0 = TrimSpace (csrc_MachineNamespace config);
          ns1 = (if ns0 = [] then TrimSpace defaultMachineNS else ns0);
          ns2 = (if ns1 = [] then DefaultOperatorNamespace else ns1);
          name0 = TrimSpace (csrc_ClusterName config);
          name1 = (if name0 = [] then TrimSpace CLUSTER_NAME else name0);
          (found, io') = (if name1 \<noteq> [] then (Inr name1, io)
            else case GetClusterName srv io of
                (Inl e, io1) \<Rightarrow> (Inl (Wrapf ''CSR approval cluster name was not configured and cluster discovery failed: '' e), io1)
              | (Inr discovered, io1) \<Rightarrow> (Inr (TrimSpace discovered), io1))
      in (case found of
            Inl e \<Rightarrow> Inl e
          | Inr name \<Rightarrow> if name = []
              then Inl (Errorf ''CSR approval cluster name must not be empty; set CSR_CLUSTER_NAME or CLUSTER_NAME'')
              else Inr \<lparr>csrc_MachineNamespace = ns2, csrc_ClusterName = name\<rparr>, io'))"

definition capociAuthMode :: "CAPOCICredentials \<Rightarrow> string" where
  "capociAuthMode credentials = (if UsesInstancePrincipal (Some credentials) then ''instancePrincipal'' else ''userPrincipal'')"

definition autoscaler_controller :: "Options \<Rightarrow> OCIClusterAutoscalerReconciler" where
  "autoscaler_controller options = \<lparr>rc_CAPOCICredentials = opt_CAPOCICredentials options,
     rc_ProviderConfig = opt_ProviderConfig options, rc_CAPOCIProvider = opt_CAPOCIProvider options,
     rc_AutoScalingConfig = opt_AutoScalingConfig options, rc_NamespaceConfig = opt_NamespaceConfig options, rc_hasRecorder = True\<rparr>"

definition certificate_controller :: "Options \<Rightarrow> CertificateApprovalReconciler" where
  "certificate_controller options = \<lparr>car_MachineNamespace = csrc_MachineNamespace (opt_CSRApprovalConfig options),
     car_ClusterName = csrc_ClusterName (opt_CSRApprovalConfig options)\<rparr>"

text \<open>From the options read from the environment to the controllers.\<close>

definition startup :: "'w server \<Rightarrow> Options \<Rightarrow> string \<Rightarrow> 'w io \<Rightarrow>
    (go_error + OCIClusterAutoscalerReconciler \<times> CertificateApprovalReconciler) \<times> 'w io" where
  "startup srv options0 CLUSTER_NAME io =
     (let options1 = options0\<lparr>opt_NamespaceConfig := WithDefaults (opt_NamespaceConfig options0)\<rparr>
      in case resolveCSRApprovalConfig srv (opt_CSRApprovalConfig options1)
               (ManagedResourceNamespace (opt_NamespaceConfig options1)) CLUSTER_NAME io of
           (Inl e, io') \<Rightarrow> (Inl e, io')
         | (Inr csr, io') \<Rightarrow>
             (let options = options1\<lparr>opt_CSRApprovalConfig := csr\<rparr>
              in case first_error [validateOptions options,
                     ValidateProviderVersion (pc_CAPIVersion (opt_ProviderConfig options)),
                     ValidateProviderVersion (pc_Version (opt_CAPOCIProvider options))] of
                   Some e \<Rightarrow> (Inl e, io')
                 | None \<Rightarrow> (Inr (autoscaler_controller options, certificate_controller options), io')))"

section \<open>Properties\<close>

lemma TrimSpace_operator: "TrimSpace DefaultOperatorNamespace = DefaultOperatorNamespace"
  by (rule TrimSpace_inner) (simp add: DefaultOperatorNamespace_def inner_byte_def)

text \<open>Which names are resolved, and that discovery is asked only when nothing is configured.\<close>

lemma resolveCSRApprovalConfig_spec:
  assumes "resolveCSRApprovalConfig srv c d env io = (Inr c', io')"
  shows "csrc_MachineNamespace c' \<noteq> []" "TrimSpace (csrc_MachineNamespace c') = csrc_MachineNamespace c'"
    "csrc_ClusterName c' \<noteq> []" "TrimSpace (csrc_ClusterName c') = csrc_ClusterName c'"
    "TrimSpace (csrc_ClusterName c) \<noteq> [] \<Longrightarrow> csrc_ClusterName c' = TrimSpace (csrc_ClusterName c) \<and> io' = io"
    "TrimSpace (csrc_ClusterName c) = [] \<Longrightarrow> TrimSpace env \<noteq> [] \<Longrightarrow> csrc_ClusterName c' = TrimSpace env \<and> io' = io"
  using assms TrimSpace_operator
  by (auto simp: resolveCSRApprovalConfig_def Let_def DefaultOperatorNamespace_def split: if_splits prod.splits sum.splits)

lemma scopes_configured:
  assumes "TrimSpace (car_MachineNamespace c) = car_MachineNamespace c" "car_MachineNamespace c \<noteq> []"
    and "TrimSpace (car_ClusterName c) = car_ClusterName c" "car_ClusterName c \<noteq> []"
    and "certificateApprovalScopes srv c io = (Inr scopes, io')"
  shows "\<exists>s. scopes = [s] \<and> scope_namespace s = car_MachineNamespace c \<and> scope_clusterName s \<noteq> []"
  using assms
  by (auto simp: certificateApprovalScopes_def Let_def addScope_once split: prod.splits sum.splits option.splits if_splits)

text \<open>
  What the manager starts with: if startup succeeds, the credentials, the namespaces, the shape and both provider versions passed
  their checks, and the reconciler uses exactly the checked namespaces. The certificate controller's machine namespace and
  cluster name are not blank (a configured name is used as it is, without asking the server), so whatever the
  server answers later, it looks for machines in exactly one scope, in that namespace and for a named cluster.
\<close>

theorem startup_checked:
  "case startup srv options env io of
     (Inl e, io') \<Rightarrow> True
   | (Inr (r, c), io') \<Rightarrow>
       Validate_credentials (Some (rc_CAPOCICredentials r)) = None \<and>
       Validate_namespaces (rc_NamespaceConfig r) = None \<and> namespaces_of r = rc_NamespaceConfig r \<and>
       ValidateShapeConfig None (rc_AutoScalingConfig r) = None \<and>
       ValidateProviderVersion (pc_CAPIVersion (rc_ProviderConfig r)) = None \<and>
       ValidateProviderVersion (pc_Version (rc_CAPOCIProvider r)) = None \<and>
       (let name = TrimSpace (csrc_ClusterName (opt_CSRApprovalConfig options)) in
          if name = [] then True else car_ClusterName c = name \<and> io' = io) \<and>
       (case certificateApprovalScopes srv2 c io2 of
          (Inl e, io3) \<Rightarrow> True
        | (Inr scopes, io3) \<Rightarrow> \<exists>s. scopes = [s] \<and> scope_namespace s = car_MachineNamespace c \<and>
            car_MachineNamespace c \<noteq> [] \<and> scope_clusterName s \<noteq> [])"
proof -
  let ?o = "options\<lparr>opt_NamespaceConfig := WithDefaults (opt_NamespaceConfig options)\<rparr>"
  obtain x io1 where x: "resolveCSRApprovalConfig srv (opt_CSRApprovalConfig ?o) (ManagedResourceNamespace (opt_NamespaceConfig ?o))
      env io = (x, io1)" by (meson prod.exhaust)
  show ?thesis
  proof (cases x)
    case (Inl e)
    with x show ?thesis by (simp add: startup_def)
  next
    case (Inr csr)
    note spec = resolveCSRApprovalConfig_spec [OF x [unfolded Inr]]
    let ?p = "?o\<lparr>opt_CSRApprovalConfig := csr\<rparr>"
    let ?cs = "[validateOptions ?p, ValidateProviderVersion (pc_CAPIVersion (opt_ProviderConfig ?p)),
      ValidateProviderVersion (pc_Version (opt_CAPOCIProvider ?p))]"
    show ?thesis
    proof (cases "first_error ?cs")
      case None
      then have ok: "validateOptions ?p = None" "ValidateProviderVersion (pc_CAPIVersion (opt_ProviderConfig ?p)) = None"
        "ValidateProviderVersion (pc_Version (opt_CAPOCIProvider ?p)) = None" by (simp_all add: first_error_None)
      from ok(1) have v: "Validate_credentials (Some (opt_CAPOCICredentials options)) = None"
        "Validate_namespaces (opt_NamespaceConfig ?o) = None" "ValidateShapeConfig None (opt_AutoScalingConfig options) = None"
        by (simp_all add: validateOptions_def first_error_None)
      have s: "startup srv options env io = (Inr (autoscaler_controller ?p, certificate_controller ?p), io1)"
        using x Inr None by (simp add: startup_def Let_def del: first_error.simps)
      have n: "namespaces_of (autoscaler_controller ?p) = rc_NamespaceConfig (autoscaler_controller ?p)"
        by (simp add: namespaces_of_def Namespaces_of_def autoscaler_controller_def WithDefaults_fixed)
      have c: "case certificateApprovalScopes srv2 (certificate_controller ?p) io2 of
          (Inl e, io3) \<Rightarrow> True
        | (Inr scopes, io3) \<Rightarrow> \<exists>s. scopes = [s] \<and> scope_namespace s = car_MachineNamespace (certificate_controller ?p) \<and>
            car_MachineNamespace (certificate_controller ?p) \<noteq> [] \<and> scope_clusterName s \<noteq> []"
        using scopes_configured [of "certificate_controller ?p" srv2 io2] spec(1-4)
        by (auto simp: certificate_controller_def split: prod.split sum.split)
      show ?thesis
        unfolding s sum.case prod.case
        using c n ok(2,3) v spec(5) by (simp add: autoscaler_controller_def certificate_controller_def Let_def)
    next
      case (Some e)
      with x Inr show ?thesis by (simp add: startup_def Let_def del: first_error.simps)
    qed
  qed
qed

end
