(* ===== verification/CrdInit.thy ===== *)
theory CrdInit
  imports ClusterctlUpdate Namespaces
begin

text \<open>
  The \<open>init\<close> command (\<open>cmd/init.go\<close>): it fetches the CRDs of the two providers, points their conversion webhooks
  to the configured namespaces and creates or patches each of them. The environment and the client's
  configuration are read by libraries; their outcomes are the record \<open>init_env\<close>.
\<close>

section \<open>Operations\<close>

text \<open>The error of creating the client, if any, and the two environment groups.\<close>

record init_env =
  env_client :: check
  env_providers :: "go_error + ProviderConfig"
  env_namespaces :: "go_error + NamespaceConfig"

definition webhook_service :: "string \<Rightarrow> string list" where
  "webhook_service f = [''spec'', ''conversion'', ''webhook'', ''clientConfig'', ''service'', f]"

definition set_webhook_namespace :: "string \<Rightarrow> object \<Rightarrow> go_error + object" where
  "set_webhook_namespace namespace crd =
     (case NestedString crd (webhook_service ''name'') of
        Inl e \<Rightarrow> Inl (Wrapf (''failed to read CRD conversion webhook service name for '' @ GetName crd @ '': '') e)
      | Inr serviceName \<Rightarrow>
          if serviceName = None \<or> serviceName = Some [] then Inr crd
          else (case SetNestedField crd (JStr namespace) (webhook_service ''namespace'') of
              Inl e \<Rightarrow> Inl (Wrapf (''failed to set CRD conversion webhook namespace for '' @ GetName crd @ '': '') e)
            | Inr crd' \<Rightarrow> Inr crd'))"

fun setProviderCRDWebhookNamespace :: "object list \<Rightarrow> string \<Rightarrow> go_error + object list" where
  "setProviderCRDWebhookNamespace [] namespace = Inr []"
| "setProviderCRDWebhookNamespace (crd # crds) namespace =
     (case set_webhook_namespace namespace crd of
        Inl e \<Rightarrow> Inl e
      | Inr crd' \<Rightarrow> (case setProviderCRDWebhookNamespace crds namespace of
            Inl e \<Rightarrow> Inl e
          | Inr crds' \<Rightarrow> Inr (crd' # crds')))"

text \<open>The nil map when both are empty, else the union in which the second wins.\<close>

definition mergeStringMaps :: "string gomap \<Rightarrow> string gomap \<Rightarrow> string gomap option" where
  "mergeStringMaps base over = (if base = fmempty \<and> over = fmempty then None else Some (fmadd base over))"

text \<open>Go prints a path as \<open>[spec versions]\<close>.\<close>

definition show_path :: "string list \<Rightarrow> string" where
  "show_path path = ''['' @ Join path '' '' @ '']''"

definition copyNestedField :: "object \<Rightarrow> object \<Rightarrow> string list \<Rightarrow> go_error + object" where
  "copyNestedField target source path =
     (case NestedField source path of
        Inl e \<Rightarrow> Inl (Wrapf (''failed to read desired CRD field '' @ show_path path @ '': '') e)
      | Inr None \<Rightarrow> Inr (RemoveNestedField target path)
      | Inr (Some value) \<Rightarrow> (case SetNestedField target value path of
            Inl e \<Rightarrow> Inl (Wrapf (''failed to set CRD field '' @ show_path path @ '': '') e)
          | Inr target' \<Rightarrow> Inr target'))"

definition mutable_paths :: "string list list" where
  "mutable_paths = [[''spec'', ''versions''], [''spec'', ''conversion''], [''spec'', ''preserveUnknownFields'']]"

fun copy_fields :: "object \<Rightarrow> object \<Rightarrow> string list list \<Rightarrow> go_error + object" where
  "copy_fields target source [] = Inr target"
| "copy_fields target source (p # ps) =
     (case copyNestedField target source p of Inl e \<Rightarrow> Inl e | Inr target' \<Rightarrow> copy_fields target' source ps)"

definition copyMutableCRDSpecFields :: "object \<Rightarrow> object \<Rightarrow> go_error + object" where
  "copyMutableCRDSpecFields target source = copy_fields target source mutable_paths"

text \<open>The stored object with the generated labels, annotations and mutable fields.\<close>

definition updated_crd :: "object \<Rightarrow> object \<Rightarrow> go_error + object" where
  "updated_crd desired existing =
     (let labelled = SetLabels existing (mergeStringMaps (GetLabels existing) (GetLabels desired));
          annotated = SetAnnotations labelled (mergeStringMaps (GetAnnotations existing) (GetAnnotations desired))
      in copyMutableCRDSpecFields annotated desired)"

text \<open>The kind that is looked up: the group version of the generated object printed again, or the CRD kind.\<close>

definition existing_kind :: "object \<Rightarrow> string" where
  "existing_kind desired =
     (let (gv, kind) = (case ParseGroupVersion (GetAPIVersion desired) of
            Inl e \<Rightarrow> ([], [])
          | Inr (g, v) \<Rightarrow> (if g = [] then v else g @ ''/'' @ v, GetKind desired))
      in if gv = [] \<or> kind = [] then ''apiextensions.k8s.io/v1/CustomResourceDefinition'' else gv @ ''/'' @ kind)"

definition applyProviderCRD :: "'w server \<Rightarrow> object \<Rightarrow> 'w io \<Rightarrow> (go_error + string) \<times> 'w io" where
  "applyProviderCRD srv desired io =
     (case request_as srv resp_unit (ReqCreate (OUnstructured desired)) io of
        (Inr u, io1) \<Rightarrow> (Inr ''created'', io1)
      | (Inl e, io1) \<Rightarrow>
          if \<not> IsAlreadyExists e then (Inl e, io1)
          else (case request_as srv resp_unstructured
                  (ReqGet (existing_kind desired) \<lparr>nn_Namespace = [], nn_Name = GetName desired\<rparr>) io1 of
              (Inl e, io2) \<Rightarrow> (Inl e, io2)
            | (Inr existing, io2) \<Rightarrow> (case updated_crd desired existing of
                  Inl e \<Rightarrow> (Inl e, io2)
                | Inr updated \<Rightarrow> (case request_as srv resp_unit (ReqPatch (OUnstructured existing) (OUnstructured updated)) io2 of
                      (Inl e, io3) \<Rightarrow> (Inl e, io3)
                    | (Inr u, io3) \<Rightarrow> (Inr ''updated'', io3)))))"

text \<open>The CRDs \<open>init\<close> applies: every check and fetch before the first request.\<close>

definition provider_crds :: "clusterctl \<Rightarrow> string \<Rightarrow> string \<Rightarrow> string \<Rightarrow> string \<Rightarrow> go_error + object list" where
  "provider_crds ctl provider providerType version namespace =
     (case ValidateProviderVersion version of
        Some e \<Rightarrow> Inl e
      | None \<Rightarrow> (case GetClusterctlComponents_crds ctl provider providerType version of
            Inl e \<Rightarrow> Inl e
          | Inr crds \<Rightarrow> setProviderCRDWebhookNamespace crds namespace))"

definition init_crds :: "clusterctl \<Rightarrow> init_env \<Rightarrow> go_error + object list" where
  "init_crds ctl env =
     (case env_client env of Some e \<Rightarrow> Inl e | None \<Rightarrow>
      case env_providers env of Inl e \<Rightarrow> Inl e | Inr providerConfig \<Rightarrow>
      case env_namespaces env of Inl e \<Rightarrow> Inl e | Inr config \<Rightarrow>
      (let namespaceConfig = WithDefaults config in
       case Validate_namespaces namespaceConfig of Some e \<Rightarrow> Inl e | None \<Rightarrow>
       case provider_crds ctl coreProviderName CoreProviderType (pc_CAPIVersion providerConfig)
           (CAPIProviderNamespace namespaceConfig) of Inl e \<Rightarrow> Inl e | Inr capiCRDs \<Rightarrow>
       case provider_crds ctl infrastructureOCIProviderName InfrastructureProviderType (pc_CAPOCIVersion providerConfig)
           (CAPOCIProviderNamespace namespaceConfig) of Inl e \<Rightarrow> Inl e | Inr capociCRDs \<Rightarrow>
       Inr (capiCRDs @ capociCRDs)))"

definition runInit :: "'w server \<Rightarrow> clusterctl \<Rightarrow> init_env \<Rightarrow> 'w io \<Rightarrow> check \<times> 'w io" where
  "runInit srv ctl env io =
     (case init_crds ctl env of
        Inl e \<Rightarrow> (Some e, io)
      | Inr crds \<Rightarrow> (case run_until (applyProviderCRD srv) (\<lambda>r. case r of Inl e \<Rightarrow> True | Inr s \<Rightarrow> False) crds io of
            (None, io') \<Rightarrow> (None, io')
          | (Some (Inl e), io') \<Rightarrow> (Some e, io')
          | (Some (Inr s), io') \<Rightarrow> (None, io')))"

section \<open>Updating a stored CRD\<close>

lemma copyNestedField_copy:
  "copyNestedField t s p = Inr t' \<longleftrightarrow> nested_access.copy_field NestedField SetNestedField RemoveNestedField t s p = Inr t'"
  by (simp add: copyNestedField_def nf.copy_field_def split: sum.splits option.splits)

lemma copy_fields_apart:
  "copy_fields t s ps = Inr t' \<Longrightarrow> list_all (\<lambda>p. diverge p q) ps \<Longrightarrow> NestedField t' q = NestedField t q"
proof (induction ps arbitrary: t)
  case (Cons p ps)
  from Cons.prems(1) obtain t1 where 1: "copyNestedField t s p = Inr t1" and 2: "copy_fields t1 s ps = Inr t'"
    by (auto split: sum.splits)
  from Cons.IH [OF 2] Cons.prems(2) nf.copy_field_apart [OF 1 [unfolded copyNestedField_copy]] show ?case by simp
qed simp

text \<open>Copying fields on paths that leave each other copies every one of them, and copying again changes nothing.\<close>

lemma copy_fields_get:
  assumes "copy_fields t s ps = Inr t'" and "sorted_wrt (\<lambda>p q. diverge p q \<and> diverge q p) ps" and "p \<in> set ps" and "p \<noteq> []"
    and "\<exists>x. NestedField t p = Inr x"
  shows "NestedField t' p = NestedField s p"
  using assms(1,2,3,5)
proof (induction ps arbitrary: t)
  case (Cons q qs)
  from Cons.prems(1) obtain t1 where 1: "nested_access.copy_field NestedField SetNestedField RemoveNestedField t s q = Inr t1"
    and 2: "copy_fields t1 s qs = Inr t'" by (auto simp: copyNestedField_copy [symmetric] split: sum.splits)
  show ?case
  proof (cases "p = q")
    case True
    from Cons.prems(2) True have "list_all (\<lambda>q. diverge q p) qs" by (auto simp: list_all_iff)
    from copy_fields_apart [OF 2 this] Cons.prems(4) nf.copy_field_get [OF 1] True assms(4) show ?thesis by auto
  next
    case False
    with Cons.prems(2,3) have "diverge q p" "p \<in> set qs" by auto
    with Cons.IH [OF 2] Cons.prems(2,4) nf.copy_field_apart [OF 1] show ?thesis by auto
  qed
qed simp

lemma copy_fields_same:
  assumes "list_all (\<lambda>p. p \<noteq> [] \<and> NestedField t p = NestedField s p \<and> (\<exists>x. NestedField s p = Inr x)) ps"
  shows "copy_fields t s ps = Inr t"
  using assms
proof (induction ps)
  case (Cons p ps)
  then obtain x where "p \<noteq> []" "NestedField s p = Inr x" "NestedField t p = Inr x" by auto
  then have "copyNestedField t s p = Inr t" by (simp add: copyNestedField_copy nf.copy_field_same)
  with Cons show ?case by simp
qed simp

lemma level_readable: "has_map k u \<Longrightarrow> \<exists>x. NestedField u [k, f] = Inr x"
  by (auto simp: has_map_def NestedField_def split: option.splits)

text \<open>Reading back a label or annotation map from an object with metadata.\<close>

lemma get_set_meta_map:
  assumes "has_map ''metadata'' u"
  shows "get_meta_map f (set_meta_map f u mo) = (case mo of None \<Rightarrow> fmempty | Some m \<Rightarrow> m)"
proof (cases mo)
  case None
  from level_readable [OF assms] nf.get_remove [of "[''metadata'', f]" u]
  have "NestedField (RemoveNestedField u [''metadata'', f]) [''metadata'', f] = Inr None" by blast
  with None show ?thesis by (simp add: set_meta_map_def get_meta_map_def NestedStringMap_def nested_typed_def)
next
  case (Some m)
  with get_try_set_level [OF assms] show ?thesis
    by (simp add: set_meta_map_def get_meta_map_def NestedStringMap_def nested_typed_def as_str_map_JStr)
qed

lemma set_meta_map_field:
  assumes "has_map ''metadata'' u"
  shows "NestedField (set_meta_map f u mo) [''metadata'', f] = Inr (map_option (\<lambda>m. JMap (fmmap JStr m)) mo)"
  using level_readable [OF assms, of f] get_try_set_level [OF assms] nf.get_remove [of "[''metadata'', f]" u]
  by (cases mo) (auto simp: set_meta_map_def simp del: RemoveNestedField.simps)

lemma has_map_set_meta [simp]:
  "has_map k u \<Longrightarrow> has_map k (set_meta_map f u mo)"
  by (simp add: set_meta_map_def del: RemoveNestedField.simps split: option.split)

definition meta_merged :: "string \<Rightarrow> object \<Rightarrow> object \<Rightarrow> object \<Rightarrow> object" where
  "meta_merged f desired existing u = set_meta_map f u (mergeStringMaps (get_meta_map f existing) (get_meta_map f desired))"

lemma updated_crd_merged:
  "updated_crd desired existing =
     copyMutableCRDSpecFields (meta_merged ''annotations'' desired existing (meta_merged ''labels'' desired existing existing)) desired"
  by (simp add: updated_crd_def meta_merged_def Let_def SetLabels_def SetAnnotations_def GetLabels_def GetAnnotations_def)

lemma merge_again: "mergeStringMaps (case mergeStringMaps a b of None \<Rightarrow> fmempty | Some m \<Rightarrow> m) b = mergeStringMaps a b"
  by (auto simp: mergeStringMaps_def intro: fmap_ext)

lemma mutable_apart:
  "sorted_wrt (\<lambda>p q. diverge p q \<and> diverge q p) mutable_paths" "p \<in> set mutable_paths \<Longrightarrow> p \<noteq> []"
  "p \<in> set mutable_paths \<Longrightarrow> diverge [''metadata'', f] p \<and> diverge p [''metadata'', f]"
  "p \<in> set mutable_paths \<Longrightarrow> \<exists>f. p = [''spec'', f]"
  by (auto simp: mutable_paths_def)

lemma meta_merged_field:
  "has_map ''metadata'' u \<Longrightarrow> NestedField (meta_merged f d x u) [''metadata'', f] =
     Inr (map_option (\<lambda>m. JMap (fmmap JStr m)) (mergeStringMaps (get_meta_map f x) (get_meta_map f d)))"
  by (simp add: meta_merged_def set_meta_map_field)

lemma meta_merged_apart: "diverge [''metadata'', f] q \<Longrightarrow> NestedField (meta_merged f d x u) q = NestedField u q"
  by (simp add: meta_merged_def set_meta_apart del: diverge.simps)

lemma get_meta_map_cong: "NestedField u [''metadata'', f] = NestedField v [''metadata'', f] \<Longrightarrow> get_meta_map f u = get_meta_map f v"
  by (simp add: get_meta_map_def NestedStringMap_def nested_typed_def)

lemma copy_fields_metadata:
  "copyMutableCRDSpecFields u d = Inr v \<Longrightarrow> NestedField v [''metadata'', f] = NestedField u [''metadata'', f]"
  unfolding copyMutableCRDSpecFields_def by (erule copy_fields_apart) (simp add: mutable_paths_def)

lemma updated_crd_metadata:
  assumes "updated_crd d x = Inr y" and "has_map ''metadata'' x" and "f \<in> {''labels'', ''annotations''}"
  shows "NestedField y [''metadata'', f] =
    Inr (map_option (\<lambda>m. JMap (fmmap JStr m)) (mergeStringMaps (get_meta_map f x) (get_meta_map f d)))"
proof -
  let ?l = "meta_merged ''labels'' d x x"
  have l: "has_map ''metadata'' ?l" using assms(2) by (simp add: meta_merged_def)
  have "NestedField y [''metadata'', f] = NestedField (meta_merged ''annotations'' d x ?l) [''metadata'', f]"
    using copy_fields_metadata [OF assms(1) [unfolded updated_crd_merged]] .
  then show ?thesis
    using assms(3) l assms(2) by (auto simp: meta_merged_field meta_merged_apart)
qed

lemma meta_merged_same:
  assumes "NestedField y [''metadata'', f] =
    Inr (map_option (\<lambda>m. JMap (fmmap JStr m)) (mergeStringMaps (get_meta_map f x) (get_meta_map f d)))"
  shows "meta_merged f d y y = y"
proof -
  have "get_meta_map f y = (case mergeStringMaps (get_meta_map f x) (get_meta_map f d) of None \<Rightarrow> fmempty | Some m \<Rightarrow> m)"
    using assms by (auto simp: get_meta_map_def NestedStringMap_def nested_typed_def as_str_map_JStr split: option.splits)
  then have "mergeStringMaps (get_meta_map f y) (get_meta_map f d) = mergeStringMaps (get_meta_map f x) (get_meta_map f d)"
    by (simp add: merge_again)
  with assms show ?thesis unfolding meta_merged_def by (intro set_meta_map_same) (auto split: option.splits)
qed

lemma updated_crd_mutable:
  assumes "updated_crd d x = Inr y" and "has_map ''spec'' x" and "p \<in> set mutable_paths"
  shows "NestedField y p = NestedField d p"
proof -
  let ?l = "meta_merged ''annotations'' d x (meta_merged ''labels'' d x x)"
  from mutable_apart(4) [OF assms(3)] obtain f where p: "p = [''spec'', f]" ..
  have "has_map ''spec'' ?l" using assms(2) by (simp add: meta_merged_def)
  from level_readable [OF this, of f] p have "\<exists>z. NestedField ?l p = Inr z" by simp
  with assms(1) show ?thesis
    unfolding updated_crd_merged copyMutableCRDSpecFields_def
    by (rule copy_fields_get [OF _ mutable_apart(1) assms(3) mutable_apart(2) [OF assms(3)]])
qed

lemma updated_crd_again:
  assumes "updated_crd d x = Inr y" and "has_map ''metadata'' x" and "has_map ''spec'' x"
    and "\<And>p. p \<in> set mutable_paths \<Longrightarrow> \<exists>z. NestedField d p = Inr z"
  shows "updated_crd d y = Inr y"
proof -
  have "meta_merged f d y y = y" if "f \<in> {''labels'', ''annotations''}" for f
    using updated_crd_metadata [OF assms(1,2) that] by (rule meta_merged_same)
  then have "updated_crd d y = copy_fields y d mutable_paths" by (simp add: updated_crd_merged copyMutableCRDSpecFields_def)
  also have "\<dots> = Inr y"
    using updated_crd_mutable [OF assms(1,3)] assms(4) mutable_apart(2)
    by (intro copy_fields_same) (auto simp: list_all_iff)
  finally show ?thesis .
qed

section \<open>Requests\<close>

text \<open>The log shows that a CRD was applied: created, or patched to its update of the stored object.\<close>

definition applied_in :: "(request \<times> response) list \<Rightarrow> object \<Rightarrow> bool" where
  "applied_in log crd \<longleftrightarrow>
     (\<exists>a. (ReqCreate (OUnstructured crd), a) \<in> set log \<and> (\<forall>e. a \<noteq> RespErr e)) \<or>
     (\<exists>x y a. (ReqPatch (OUnstructured x) (OUnstructured y), a) \<in> set log \<and> updated_crd crd x = Inr y \<and> (\<forall>e. a \<noteq> RespErr e))"

fun init_request :: "request \<Rightarrow> bool" where
  "init_request (ReqCreate (OUnstructured x)) = True"
| "init_request (ReqGet k n) = True"
| "init_request (ReqPatch (OUnstructured x) (OUnstructured y)) = True"
| "init_request q = False"

lemma apply_emits: "applyProviderCRD srv crd io = (r, io') \<Longrightarrow> emits (\<lambda>(q, a). init_request q) io io'"
  by (auto simp: applyProviderCRD_def split: prod.splits sum.splits if_splits dest!: request_as_log) (auto simp: emits_def)

interpretation crd: requester "applyProviderCRD srv" "\<lambda>s. True" "\<lambda>(q, a). init_request q" for srv :: "'w server"
  by unfold_locales (rule apply_emits)

lemma unit_answer:
  assumes "request_as srv resp_unit q io = (x, io')"
  obtains a where "io_log io' = io_log io @ [(q, a)]" and "x = Inr () \<longleftrightarrow> (\<forall>e. a \<noteq> RespErr e)"
    and "\<And>e. x = Inl e \<longleftrightarrow> a = RespErr e"
proof -
  from request_as_log [OF assms] obtain a where 1: "io_log io' = io_log io @ [(q, a)]" and x: "x = expect resp_unit a" by blast
  have "x = Inr () \<longleftrightarrow> (\<forall>e. a \<noteq> RespErr e)" "\<And>e. x = Inl e \<longleftrightarrow> a = RespErr e"
    unfolding x by (cases a; simp add: expect_def)+
  with 1 show thesis by (rule that)
qed

lemma apply_created:
  assumes "applyProviderCRD srv crd io = (Inr s, io')"
  shows "applied_in (sent io io') crd"
proof -
  obtain x io1 where c: "request_as srv resp_unit (ReqCreate (OUnstructured crd)) io = (x, io1)" by (meson prod.exhaust)
  obtain a where a: "io_log io1 = io_log io @ [(ReqCreate (OUnstructured crd), a)]"
    "x = Inr () \<longleftrightarrow> (\<forall>e. a \<noteq> RespErr e)" by (rule unit_answer [OF c])
  show ?thesis
  proof (cases x)
    case (Inr u)
    with assms c a show ?thesis by (auto simp: applyProviderCRD_def applied_in_def sent_def)
  next
    case (Inl e)
    with assms c obtain ex io2 y where
      g: "request_as srv resp_unstructured (ReqGet (existing_kind crd) \<lparr>nn_Namespace = [], nn_Name = GetName crd\<rparr>) io1 = (Inr ex, io2)"
      and y: "updated_crd crd ex = Inr y"
      and p: "request_as srv resp_unit (ReqPatch (OUnstructured ex) (OUnstructured y)) io2 = (Inr (), io')"
      by (auto simp: applyProviderCRD_def split: if_splits prod.splits sum.splits)
    obtain b where b: "io_log io' = io_log io2 @ [(ReqPatch (OUnstructured ex) (OUnstructured y), b)]" "\<forall>e. b \<noteq> RespErr e"
      by (rule unit_answer [OF p]) simp
    from b request_as_log [OF g] a(1) y show ?thesis by (auto simp: applied_in_def sent_def)
  qed
qed

lemma applied_in_mono: "applied_in log crd \<Longrightarrow> set log \<subseteq> set log' \<Longrightarrow> applied_in log' crd"
  unfolding applied_in_def by blast

lemma apply_loop_None:
  assumes "run_until (applyProviderCRD srv) (\<lambda>r. case r of Inl e \<Rightarrow> True | Inr s \<Rightarrow> False) crds io = (None, io')"
  shows "list_all (applied_in (sent io io')) crds"
  using assms
proof (induction crds arbitrary: io)
  case (Cons crd crds)
  from Cons.prems obtain s io1 where 1: "applyProviderCRD srv crd io = (Inr s, io1)"
    and 2: "run_until (applyProviderCRD srv) (\<lambda>r. case r of Inl e \<Rightarrow> True | Inr s \<Rightarrow> False) crds io1 = (None, io')"
    by (auto split: prod.splits sum.splits if_splits)
  have "emits (\<lambda>(q, a). init_request q) io1 io'" using crd.run_until_emits [OF _ 2] by (simp add: list_all_iff)
  with apply_emits [OF 1] have "set (sent io io1) \<subseteq> set (sent io io')" "set (sent io1 io') \<subseteq> set (sent io io')"
    by (auto simp: emits_def sent_def)
  with apply_created [OF 1] Cons.IH [OF 2] show ?case by (auto simp: list_all_iff intro: applied_in_mono)
qed simp

lemma apply_loop_Some:
  assumes "run_until (applyProviderCRD srv) stop crds io = (Some r, io')"
  shows "sent io io' \<noteq> []"
proof (cases crds)
  case (Cons c cs)
  obtain x io1 where 1: "applyProviderCRD srv c io = (x, io1)" by (meson prod.exhaust)
  have "emits (\<lambda>(q, a). init_request q) io1 io' \<and> sent io io1 \<noteq> []"
  proof
    show "sent io io1 \<noteq> []"
      using 1 by (auto simp: applyProviderCRD_def sent_def split: prod.splits sum.splits if_splits dest!: request_as_log)
    show "emits (\<lambda>(q, a). init_request q) io1 io'"
      using assms 1 Cons crd.run_until_emits [of cs srv stop io1] by (auto simp: list_all_iff emits_def split: if_splits)
  qed
  with apply_emits [OF 1] show ?thesis by (auto simp: emits_def sent_def)
qed (use assms in simp)

text \<open>What \<open>init\<close> checked before it sends anything.\<close>

lemma set_webhook_namespace_spec:
  assumes "set_webhook_namespace n c = Inr c'"
  shows "NestedString c' (webhook_service ''name'') = NestedString c (webhook_service ''name'')"
    and "case NestedString c (webhook_service ''name'') of
      Inr (Some s) \<Rightarrow> s = [] \<or> NestedField c' (webhook_service ''namespace'') = Inr (Some (JStr n)) | Inr None \<Rightarrow> True | Inl e \<Rightarrow> False"
proof -
  have "diverge (webhook_service ''namespace'') (webhook_service ''name'')" by (simp add: webhook_service_def)
  from assms nf.get_put_apart [OF _ this, of c "JStr n" c'] nf.get_put [of c "JStr n" "webhook_service ''namespace''" c']
  show "NestedString c' (webhook_service ''name'') = NestedString c (webhook_service ''name'')"
    and "case NestedString c (webhook_service ''name'') of
      Inr (Some s) \<Rightarrow> s = [] \<or> NestedField c' (webhook_service ''namespace'') = Inr (Some (JStr n)) | Inr None \<Rightarrow> True | Inl e \<Rightarrow> False"
    by (auto simp: set_webhook_namespace_def NestedString_def nested_typed_def split: sum.splits option.splits if_splits)
qed

text \<open>A CRD whose conversion webhook, if it names a service, points to the namespace.\<close>

definition webhook_in :: "string \<Rightarrow> object \<Rightarrow> bool" where
  "webhook_in n c = (case NestedString c (webhook_service ''name'') of
      Inr (Some s) \<Rightarrow> s = [] \<or> NestedField c (webhook_service ''namespace'') = Inr (Some (JStr n)) | Inr None \<Rightarrow> True | Inl e \<Rightarrow> False)"

lemma webhook_namespaces: "setProviderCRDWebhookNamespace crds n = Inr crds' \<Longrightarrow> list_all (webhook_in n) crds'"
proof (induction crds arbitrary: crds')
  case (Cons c cs)
  from Cons.prems obtain c' cs' where 1: "set_webhook_namespace n c = Inr c'" and 2: "setProviderCRDWebhookNamespace cs n = Inr cs'"
    and e: "crds' = c' # cs'" by (auto split: sum.splits)
  from set_webhook_namespace_spec [OF 1] Cons.IH [OF 2] e show ?case by (simp add: webhook_in_def)
qed simp

lemma init_crds_checked:
  assumes "init_crds ctl env = Inr crds"
  obtains pc nc xs ys where "env_client env = None" and "env_providers env = Inr pc" and "env_namespaces env = Inr nc"
    and "Validate_namespaces (WithDefaults nc) = None" and "ValidateProviderVersion (pc_CAPIVersion pc) = None"
    and "ValidateProviderVersion (pc_CAPOCIVersion pc) = None" and "crds = xs @ ys"
    and "list_all (webhook_in (CAPIProviderNamespace (WithDefaults nc))) xs"
    and "list_all (webhook_in (CAPOCIProviderNamespace (WithDefaults nc))) ys"
  using assms webhook_namespaces unfolding init_crds_def Let_def provider_crds_def
  by (auto split: option.splits sum.splits)

section \<open>Properties\<close>

lemma copy_fields_read: "copy_fields t s ps = Inr t' \<Longrightarrow> p \<in> set ps \<Longrightarrow> \<exists>z. NestedField s p = Inr z"
  by (induction ps arbitrary: t) (auto simp: copyNestedField_def split: sum.splits)

text \<open>
  C30. Upgrading a stored CRD: the update takes the versions, the conversion and \<open>preserveUnknownFields\<close> of the
  generated one, adds its labels and annotations to the stored ones, keeps every other field of the stored
  object, and updating again changes nothing.
\<close>

theorem crd_update_contract:
  assumes "updated_crd desired existing = Inr updated"
    and "has_map ''metadata'' existing" and "has_map ''spec'' existing"
  shows "(\<forall>q. list_all (\<lambda>p. diverge p q) ([''metadata'', ''labels''] # [''metadata'', ''annotations''] # mutable_paths) \<longrightarrow>
      NestedField updated q = NestedField existing q) \<and>
    (\<forall>p \<in> set mutable_paths. NestedField updated p = NestedField desired p) \<and>
    GetLabels updated = fmadd (GetLabels existing) (GetLabels desired) \<and>
    GetAnnotations updated = fmadd (GetAnnotations existing) (GetAnnotations desired) \<and>
    updated_crd desired updated = Inr updated"
proof -
  note u = assms(1) [unfolded updated_crd_merged copyMutableCRDSpecFields_def]
  have keep: "NestedField updated q = NestedField existing q"
    if "list_all (\<lambda>p. diverge p q) ([''metadata'', ''labels''] # [''metadata'', ''annotations''] # mutable_paths)" for q
    using copy_fields_apart [OF u, of q] that by (simp add: meta_merged_apart del: diverge.simps)
  have meta: "get_meta_map f updated = fmadd (get_meta_map f existing) (get_meta_map f desired)"
    if "f \<in> {''labels'', ''annotations''}" for f
  proof (cases "mergeStringMaps (get_meta_map f existing) (get_meta_map f desired)")
    case None
    with updated_crd_metadata [OF assms(1,2) that] show ?thesis
      by (auto simp: get_meta_map_def [of f updated] NestedStringMap_def nested_typed_def mergeStringMaps_def split: if_splits)
  next
    case (Some m)
    then have "m = fmadd (get_meta_map f existing) (get_meta_map f desired)" by (auto simp: mergeStringMaps_def split: if_splits)
    with Some updated_crd_metadata [OF assms(1,2) that] show ?thesis
      by (simp add: get_meta_map_def [of f updated] NestedStringMap_def nested_typed_def as_str_map_JStr del: fmmap_add)
  qed
  have "updated_crd desired updated = Inr updated"
    by (rule updated_crd_again [OF assms]) (rule copy_fields_read [OF u])
  with keep meta updated_crd_mutable [OF assms(1,3)] show ?thesis by (simp add: GetLabels_def GetAnnotations_def)
qed


definition sample_crd :: "string \<Rightarrow> object" where
  "sample_crd v = fmap_of_list
     [(''kind'', JStr ''CustomResourceDefinition''), (''metadata'', JMap (fmap_of_list [(''name'', JStr ''x'')])),
      (''spec'', JMap (fmap_of_list [(''versions'', JList [JStr v])]))]"

lemma crd_update_contract_witness:
  "\<exists>y. updated_crd (sample_crd ''v2'') (sample_crd ''v1'') = Inr y \<and>
    NestedField y [''spec'', ''versions''] = Inr (Some (JList [JStr ''v2''])) \<and>
    updated_crd (sample_crd ''v2'') y = Inr y"
proof -
  have u: "(case updated_crd (sample_crd ''v2'') (sample_crd ''v1'') of Inl e \<Rightarrow> False | Inr y \<Rightarrow> True)" by code_simp
  then obtain y where y: "updated_crd (sample_crd ''v2'') (sample_crd ''v1'') = Inr y"
    by (auto split: sum.splits)
  have m: "has_map ''metadata'' (sample_crd ''v1'')" "has_map ''spec'' (sample_crd ''v1'')"
    by (simp_all add: has_map_def sample_crd_def fmap_of_list.rep_eq)
  have "NestedField (sample_crd ''v2'') [''spec'', ''versions''] = Inr (Some (JList [JStr ''v2'']))"
    by (simp add: NestedField_def sample_crd_def fmap_of_list.rep_eq)
  with crd_update_contract [OF y m] y show ?thesis by (auto simp: mutable_paths_def)
qed

end
