(* ===== verification/Manager.thy ===== *)
theory Manager
  imports Startup CrdInit
begin

text \<open>
  The process (\<open>cmd/main.go\<close>, \<open>cmd/init.go\<close>): \<open>main\<close> with its two commands, and \<open>run\<close> from the flags to the started manager.
  The manager, cobra and envconfig are libraries: what each of their calls answers is a field of \<open>process_env\<close>, and
  the calls on the manager are kept, in order, as a list of actions. The exit status is what an operator's deployment observes.
\<close>

section \<open>Operations\<close>

text \<open>Calls on the manager, with what they are given.\<close>

datatype manager_action =
    CreateManager ctrl_Options
  | SetupAutoscaler OCIClusterAutoscalerReconciler
  | CreateCSRClient
  | SetupCertificate CertificateApprovalReconciler
  | AddHealthzCheck string
  | AddReadyzCheck string
  | StartManager

text \<open>\<open>pe_Process\<close> fills the options, empty but for the flags, from the environment; \<open>pe_init\<close> are the outcomes \<open>runInit\<close> needs.\<close>

record process_env =
  pe_AddToScheme :: "string \<Rightarrow> check"
  pe_GetConfig :: check
  pe_Action :: "manager_action \<Rightarrow> check"
  pe_Process :: "RunOptions \<Rightarrow> go_error + Options"
  pe_CLUSTER_NAME :: string
  pe_init :: init_env
  pe_clusterctl :: clusterctl

text \<open>\<open>run\<close> returns an error or nil to its caller, or ends the process itself.\<close>

datatype run_result = Returned check | ExitedWith nat

text \<open>Calls in order up to the first that fails; the failing call was made too.\<close>

fun perform :: "(manager_action \<Rightarrow> check) \<Rightarrow> manager_action list \<Rightarrow> check \<times> manager_action list" where
  "perform answer [] = (None, [])"
| "perform answer (c # cs) =
     (case answer c of Some e \<Rightarrow> (Some e, [c])
      | None \<Rightarrow> (case perform answer cs of (r, performed) \<Rightarrow> (r, c # performed)))"

definition manager_actions :: "OCIClusterAutoscalerReconciler \<Rightarrow> CertificateApprovalReconciler \<Rightarrow> manager_action list" where
  "manager_actions r c =
     [SetupAutoscaler r, CreateCSRClient, SetupCertificate c, AddHealthzCheck ''healthz'', AddReadyzCheck ''readyz'', StartManager]"

definition run :: "'w server \<Rightarrow> process_env \<Rightarrow> RunOptions \<Rightarrow> 'w io \<Rightarrow> run_result \<times> manager_action list \<times> 'w io" where
  "run srv env flags io =
     (let create = CreateManager (manager_options flags)
      in if pe_GetConfig env \<noteq> None then (ExitedWith 1, [], io)
         else case pe_Action env create of
           Some e \<Rightarrow> (Returned (Some e), [create], io)
         | None \<Rightarrow> (case pe_Process env flags of
               Inl e \<Rightarrow> (ExitedWith 1, [create], io)
             | Inr options \<Rightarrow> (case startup srv options (pe_CLUSTER_NAME env) io of
                   (Inl e, io1) \<Rightarrow> (Returned (Some e), [create], io1)
                 | (Inr (r, c), io1) \<Rightarrow> (case perform (pe_Action env) (manager_actions r c) of
                       (result, performed) \<Rightarrow> (Returned result, create # performed, io1)))))"

text \<open>The functions of the two commands, and \<open>main\<close> on a command line as cobra takes it apart.\<close>

fun exit_status :: "run_result \<Rightarrow> nat" where
  "exit_status (ExitedWith n) = n"
| "exit_status (Returned None) = 0"
| "exit_status (Returned (Some e)) = 1"

definition NewRunCommand :: "'w server \<Rightarrow> process_env \<Rightarrow> RunOptions \<Rightarrow> 'w io \<Rightarrow> nat \<times> manager_action list \<times> 'w io" where
  "NewRunCommand srv env flags io = (case run srv env flags io of (r, performed, io') \<Rightarrow> (exit_status r, performed, io'))"

text \<open>\<open>utilruntime.Must\<close> panics, which ends the process with status 2.\<close>

definition NewInitCommand :: "'w server \<Rightarrow> process_env \<Rightarrow> 'w io \<Rightarrow> nat \<times> manager_action list \<times> 'w io" where
  "NewInitCommand srv env io =
     (if pe_AddToScheme env ''apiextensionsv1'' \<noteq> None then (2, [], io)
      else case runInit srv (pe_clusterctl env) (pe_init env) io of
        (Some e, io') \<Rightarrow> (1, [], io')
      | (None, io') \<Rightarrow> (0, [], io'))"

definition scheme_packages :: "string list" where
  "scheme_packages = [''clientgoscheme'', ''corev1'', ''rbacv1'', ''admissionregistrationv1'', ''appsv1'', ''configv1'',
     ''ocicapioperatorv1alpha1'', ''infrastructurev1beta2'', ''capiv1beta1'', ''securityv1'']"

datatype command_line = NoCommand | Rejected | InitCommand | RunCommand RunOptions

definition main :: "'w server \<Rightarrow> process_env \<Rightarrow> command_line \<Rightarrow> 'w io \<Rightarrow> nat \<times> manager_action list \<times> 'w io" where
  "main srv env cmd io =
     (if first_error (map (pe_AddToScheme env) scheme_packages) \<noteq> None then (2, [], io)
      else case cmd of
        NoCommand \<Rightarrow> (1, [], io)
      | Rejected \<Rightarrow> (1, [], io)
      | InitCommand \<Rightarrow> NewInitCommand srv env io
      | RunCommand flags \<Rightarrow> NewRunCommand srv env flags io)"

section \<open>Properties\<close>

lemma perform_prefix: "perform answer cs = (r, performed) \<Longrightarrow> prefix performed cs"
  by (induction cs arbitrary: r performed) (auto split: option.splits prod.splits)

text \<open>The last call is made only after every other one succeeded, and then decides the result.\<close>

lemma perform_last:
  "perform answer (cs @ [c]) = (r, performed) \<Longrightarrow> c \<notin> set cs \<Longrightarrow>
    (if c \<in> set performed then performed = cs @ [c] \<and> r = answer c else r \<noteq> None)"
proof (induction cs arbitrary: r performed)
  case (Cons a cs)
  show ?case
  proof (cases "answer a")
    case None
    with Cons show ?thesis by (auto split: prod.splits if_splits)
  next
    case (Some e)
    with Cons.prems have "r = answer a" "performed = [a]" "c \<noteq> a" by auto
    with Some show ?thesis by simp
  qed
qed (auto split: option.splits)

lemma resolve_reads:
  "resolveCSRApprovalConfig srv c d env io = (x, io') \<Longrightarrow> emits (\<lambda>(q, a). read_only q) io io'"
  by (auto simp: resolveCSRApprovalConfig_def Let_def split: if_splits prod.splits sum.splits dest: discovery_read_only(2))

lemma startup_reads: "startup srv options env io = (x, io') \<Longrightarrow> emits (\<lambda>(q, a). read_only q) io io'"
  by (auto simp: startup_def Let_def split: prod.splits sum.splits option.splits dest: resolve_reads)

lemma run_cases:
  assumes "run srv env flags io = (r, performed, io')"
  obtains (stopped) "StartManager \<notin> set performed" "exit_status r = 1" "emits (\<lambda>(q, a). read_only q) io io'"
  | (started) options rc cc where "pe_Process env flags = Inr options" "startup srv options (pe_CLUSTER_NAME env) io = (Inr (rc, cc), io')"
      "performed = CreateManager (manager_options flags) # manager_actions rc cc" "r = Returned (pe_Action env StartManager)"
proof (cases "pe_GetConfig env = None \<and> pe_Action env (CreateManager (manager_options flags)) = None")
  case False
  then show ?thesis using assms by (intro stopped) (auto simp: run_def Let_def split: if_splits option.splits)
next
  case True
  show ?thesis
  proof (cases "pe_Process env flags")
    case (Inl e)
    then show ?thesis using assms True by (intro stopped) (auto simp: run_def Let_def)
  next
    case (Inr options)
    obtain x io1 where x: "startup srv options (pe_CLUSTER_NAME env) io = (x, io1)" by (meson prod.exhaust)
    note reads = startup_reads [OF this]
    show ?thesis
    proof (cases x)
      case (Inl e)
      then show ?thesis using assms True Inr x reads by (intro stopped) (auto simp: run_def Let_def)
    next
      case (Inr rc_cc)
      obtain rc cc where c: "rc_cc = (rc, cc)" by (cases rc_cc)
      obtain res ps where p: "perform (pe_Action env) (manager_actions rc cc) = (res, ps)" by (meson prod.exhaust)
      have e: "r = Returned res" "performed = CreateManager (manager_options flags) # ps" "io' = io1"
        using assms True \<open>pe_Process env flags = Inr options\<close> x Inr c p by (auto simp: run_def Let_def)
      have l: "if StartManager \<in> set ps then ps = manager_actions rc cc \<and> res = pe_Action env StartManager else res \<noteq> None"
      proof -
        let ?cs = "[SetupAutoscaler rc, CreateCSRClient, SetupCertificate cc, AddHealthzCheck ''healthz'', AddReadyzCheck ''readyz'']"
        have m: "manager_actions rc cc = ?cs @ [StartManager]" by (simp add: manager_actions_def)
        have "StartManager \<notin> set ?cs" by simp
        then show ?thesis unfolding m by (rule perform_last [OF p [unfolded m]])
      qed
      show ?thesis
      proof (cases "StartManager \<in> set ps")
        case True
        then show ?thesis using l e x Inr c \<open>pe_Process env flags = Inr options\<close> by (intro started) auto
      next
        case False
        then show ?thesis using l e reads by (intro stopped) auto
      qed
    qed
  qed
qed


end
