(* ===== verification/Ownership.thy ===== *)
theory Ownership
  imports Lifecycle
begin

text \<open>
  Ownership of the shared resources as a state machine: what the stored custom resources look like to the election, the steps
  users and the controller take, the invariant that shared resources always have an owner that will clean
  them up, and the refinement: every run of \<open>Reconcile\<close> is a step of the machine.
\<close>

section \<open>The machine\<close>

text \<open>What matters of a stored resource. \<open>v_foreign\<close>: it has finalizers of others.\<close>

record view =
  v_key :: nsname
  v_created :: time
  v_deleting :: bool
  v_finalizer :: bool
  v_foreign :: bool

definition age :: "view \<Rightarrow> time \<times> string \<times> string" where
  "age v = (v_created v, nn_Namespace (v_key v), nn_Name (v_key v))"

definition oldest :: "view set \<Rightarrow> view \<Rightarrow> bool" where
  "oldest S v \<longleftrightarrow> v \<in> S \<and> (\<forall>u \<in> S. \<not> age u < age v)"

definition live :: "view set \<Rightarrow> view set" where
  "live S = {v \<in> S. \<not> v_deleting v}"

text \<open>What is left of a deleting resource without the operator's finalizer.\<close>

definition released :: "view \<Rightarrow> view set" where
  "released v = (if v_foreign v then {v\<lparr>v_finalizer := False\<rparr>} else {})"

text \<open>A state: the stored resources, and whether shared resources may exist.\<close>

inductive controller_step :: "view set \<times> bool \<Rightarrow> view set \<times> bool \<Rightarrow> bool" where
  idle: "controller_step (S, sh) (S, sh)"
| claim: "oldest (live S) v \<Longrightarrow> controller_step (S, sh) (insert (v\<lparr>v_finalizer := True\<rparr>) (S - {v}), sh)"
| provision: "oldest (live S) v \<Longrightarrow> v_finalizer v \<Longrightarrow> controller_step (S, sh) (S, True)"
| clean: "oldest S v \<Longrightarrow> v_deleting v \<Longrightarrow> v_finalizer v \<Longrightarrow> controller_step (S, sh) (S - {v} \<union> released v, False)"
| skip: "v \<in> S \<Longrightarrow> v_deleting v \<Longrightarrow> v_finalizer v \<Longrightarrow> \<not> oldest S v \<Longrightarrow> controller_step (S, sh) (S - {v} \<union> released v, sh)"

text \<open>
  Users and the API server. In the strict form resources are created after all existing ones, as the age of the
  election has it, and without finalizers of others.
\<close>

inductive user_step :: "bool \<Rightarrow> view set \<times> bool \<Rightarrow> view set \<times> bool \<Rightarrow> bool" for strict where
  create: "v_key v \<notin> v_key ` S \<Longrightarrow> \<not> v_deleting v \<Longrightarrow> \<not> v_finalizer v \<Longrightarrow>
    (strict \<Longrightarrow> \<not> v_foreign v \<and> (\<forall>u \<in> S. age u < age v)) \<Longrightarrow> user_step strict (S, sh) (insert v S, sh)"
| delete_now: "v \<in> S \<Longrightarrow> \<not> v_finalizer v \<Longrightarrow> \<not> v_foreign v \<Longrightarrow> user_step strict (S, sh) (S - {v}, sh)"
| delete: "v \<in> S \<Longrightarrow> v_finalizer v \<or> v_foreign v \<Longrightarrow>
    user_step strict (S, sh) (insert (v\<lparr>v_deleting := True\<rparr>) (S - {v}), sh)"

inductive reachable :: "bool \<Rightarrow> view set \<times> bool \<Rightarrow> bool" for strict where
  start: "reachable strict ({}, False)"
| user: "reachable strict s \<Longrightarrow> user_step strict s s' \<Longrightarrow> reachable strict s'"
| controller: "reachable strict s \<Longrightarrow> controller_step s s' \<Longrightarrow> reachable strict s'"

inductive_cases controller_stepE: "controller_step s s'"
inductive_cases user_stepE: "user_step strict s s'"

section \<open>The invariant\<close>

definition owned :: "view set \<times> bool \<Rightarrow> bool" where
  "owned = (\<lambda>(S, sh). finite S \<and> inj_on v_key S \<and> (\<forall>v \<in> S. \<not> v_foreign v \<and> (v_deleting v \<longrightarrow> v_finalizer v)) \<and>
     (sh \<longrightarrow> (\<exists>v. oldest S v \<and> v_finalizer v)))"

lemma age_setters [simp]: "age (v\<lparr>v_finalizer := b\<rparr>) = age v" "age (v\<lparr>v_deleting := b\<rparr>) = age v"
  by (simp_all add: age_def)

lemma age_key: "age u = age v \<Longrightarrow> v_key u = v_key v"
  by (simp add: age_def)

text \<open>Replacing a resource by one of the same age.\<close>

lemma oldest_replace:
  assumes "oldest S m" and "v \<in> S" and "age v' = age v"
  shows "oldest (insert v' (S - {v})) (if m = v then v' else m)"
  using assms by (auto simp: oldest_def)

lemma oldest_remove: "oldest S m \<Longrightarrow> m \<noteq> v \<Longrightarrow> oldest (S - {v}) m"
  by (auto simp: oldest_def)

lemma oldest_exists: "finite S \<Longrightarrow> S \<noteq> {} \<Longrightarrow> \<exists>m. oldest S m"
proof (induction rule: finite_ne_induct)
  case (insert x S)
  then obtain m where m: "oldest S m" by blast
  show ?case
  proof (cases "age x < age m")
    case True
    with m have "oldest (insert x S) x" by (fastforce simp: oldest_def)
    then show ?thesis ..
  next
    case False
    with m have "oldest (insert x S) m" by (auto simp: oldest_def)
    then show ?thesis ..
  qed
qed (auto simp: oldest_def)

lemma oldest_unique: "oldest S u \<Longrightarrow> oldest S v \<Longrightarrow> inj_on v_key S \<Longrightarrow> u = v"
  by (metis age_key inj_onD linorder_neqE oldest_def)

text \<open>If the oldest live resource is not the oldest of all, the oldest one is being deleted.\<close>

lemma oldest_live:
  assumes "oldest (live S) v" and "oldest S m" and "inj_on v_key S"
  shows "m = v \<or> v_deleting m"
proof (rule ccontr)
  assume n: "\<not> (m = v \<or> v_deleting m)"
  with assms(2) have "oldest (live S) m" by (auto simp: oldest_def live_def)
  moreover have "inj_on v_key (live S)" using assms(3) by (rule inj_on_subset) (auto simp: live_def)
  ultimately show False using oldest_unique assms(1) n by blast
qed

lemma inj_replace:
  "inj_on v_key S \<Longrightarrow> v \<in> S \<Longrightarrow> v_key v' = v_key v \<Longrightarrow> inj_on v_key (insert v' (S - {v}))"
  by (auto simp: inj_on_def)

lemma ownedI:
  assumes "finite S" "inj_on v_key S" "\<And>v. v \<in> S \<Longrightarrow> \<not> v_foreign v \<and> (v_deleting v \<longrightarrow> v_finalizer v)"
    and "sh \<Longrightarrow> \<exists>v. oldest S v \<and> v_finalizer v"
  shows "owned (S, sh)"
  using assms by (auto simp: owned_def)

lemma ownedD:
  assumes "owned (S, sh)"
  shows "finite S" "inj_on v_key S" "v \<in> S \<Longrightarrow> \<not> v_foreign v" "v \<in> S \<Longrightarrow> v_deleting v \<Longrightarrow> v_finalizer v"
    "sh \<Longrightarrow> \<exists>v. oldest S v \<and> v_finalizer v"
  using assms by (auto simp: owned_def)

text \<open>Changing one resource without changing its age and without dropping the finalizer.\<close>

lemma owned_replace:
  assumes o: "owned (S, sh)" and v: "v \<in> S" and k: "age v' = age v" "v_key v' = v_key v" "\<not> v_foreign v'"
    and f: "v_finalizer v \<Longrightarrow> v_finalizer v'" "v_deleting v' \<Longrightarrow> v_finalizer v'"
  shows "owned (insert v' (S - {v}), sh)"
proof (rule ownedI)
  note d = ownedD [OF o]
  show "finite (insert v' (S - {v}))" using d(1) by simp
  show "inj_on v_key (insert v' (S - {v}))" using d(2) v k(2) by (rule inj_replace)
  show "\<not> v_foreign u \<and> (v_deleting u \<longrightarrow> v_finalizer u)" if "u \<in> insert v' (S - {v})" for u
    using that d(3,4) k(3) f(2) by auto
  assume sh
  with d(5) obtain m where m: "oldest S m" "v_finalizer m" by blast
  with oldest_replace [OF m(1) v k(1)] f(1) show "\<exists>u. oldest (insert v' (S - {v})) u \<and> v_finalizer u"
    by (intro exI [of _ "if m = v then v' else m"]) auto
qed

lemma owned_remove:
  assumes o: "owned (S, sh)" and v: "sh' \<Longrightarrow> sh \<and> \<not> (oldest S v \<and> v_finalizer v)"
  shows "owned (S - {v}, sh')"
proof (rule ownedI)
  note d = ownedD [OF o]
  show "finite (S - {v})" using d(1) by simp
  show "inj_on v_key (S - {v})" using d(2) by (rule inj_on_subset) auto
  show "\<not> v_foreign u \<and> (v_deleting u \<longrightarrow> v_finalizer u)" if "u \<in> S - {v}" for u using that d(3,4) by auto
  assume sh'
  with v d(5) obtain m where "oldest S m" "v_finalizer m" "m \<noteq> v" by blast
  then show "\<exists>u. oldest (S - {v}) u \<and> v_finalizer u" using oldest_remove by blast
qed

lemma owned_user: "user_step True s s' \<Longrightarrow> owned s \<Longrightarrow> owned s'"
proof (induction rule: user_step.induct)
  case (create v S sh)
  note d = ownedD [OF create.prems]
  show ?case
  proof (rule ownedI)
    show "finite (insert v S)" using d(1) by simp
    show "inj_on v_key (insert v S)" using d(2) create.hyps(1) by (simp add: inj_on_insert image_iff)
    show "\<not> v_foreign u \<and> (v_deleting u \<longrightarrow> v_finalizer u)" if "u \<in> insert v S" for u
      using that d(3,4) create.hyps(2,4) by auto
    assume sh
    with d(5) obtain m where m: "oldest S m" "v_finalizer m" by blast
    with create.hyps(4) have "oldest (insert v S) m" by (auto simp: oldest_def dest: order.asym)
    with m(2) show "\<exists>u. oldest (insert v S) u \<and> v_finalizer u" by blast
  qed
next
  case (delete_now v S sh)
  then show ?case by (intro owned_remove [of S sh]) auto
next
  case (delete v S sh)
  then show ?case using ownedD(3) [OF delete.prems, of v] by (intro owned_replace) auto
qed

lemma owned_controller: "controller_step s s' \<Longrightarrow> owned s \<Longrightarrow> owned s'"
proof (induction rule: controller_step.induct)
  case (claim S v sh)
  then show ?case using ownedD(3) [OF claim.prems, of v] by (intro owned_replace) (auto simp: oldest_def live_def)
next
  case (provision S v sh)
  note d = ownedD [OF provision.prems]
  from provision.hyps(1) have "S \<noteq> {}" by (auto simp: oldest_def live_def)
  with oldest_exists d(1) obtain m where m: "oldest S m" by blast
  with oldest_live [OF provision.hyps(1) m d(2)] d(4) [of m] provision.hyps(2) have "v_finalizer m" by (auto simp: oldest_def)
  with d m show ?case by (intro ownedI) auto
next
  case (clean S v sh)
  then have "released v = {}" using ownedD(3) [OF clean.prems, of v] by (auto simp: released_def oldest_def)
  with owned_remove [OF clean.prems, of False v] show ?case by simp
next
  case (skip v S sh)
  then have "released v = {}" using ownedD(3) [OF skip.prems, of v] by (auto simp: released_def)
  with owned_remove [OF skip.prems, of sh v] skip.hyps show ?case by simp
qed simp

lemma reachable_owned: "reachable True s \<Longrightarrow> owned s"
proof (induction rule: reachable.induct)
  case start
  show ?case by (simp add: owned_def)
qed (blast intro: owned_user owned_controller)+

section \<open>From the code to the machine\<close>

definition view_of :: "OCIClusterAutoscaler \<Rightarrow> view" where
  "view_of i = \<lparr>v_key = oca_key i, v_created = md_CreationTimestamp (oca_meta i),
     v_deleting = (md_DeletionTimestamp (oca_meta i) \<noteq> None), v_finalizer = ContainsFinalizer i FinalizerName,
     v_foreign = list_ex (\<lambda>f. f \<noteq> FinalizerName) (md_Finalizers (oca_meta i))\<rparr>"

text \<open>
  The stored resources after the requests of a run: an accepted update of a resource replaces it, and a deleting
  resource without finalizers is removed. No other request changes what a view shows.
\<close>

definition stored_as :: "view set \<Rightarrow> view \<Rightarrow> view set" where
  "stored_as S v = (let rest = {u \<in> S. v_key u \<noteq> v_key v} in
     if v_deleting v \<and> \<not> v_finalizer v \<and> \<not> v_foreign v then rest else insert v rest)"

definition store_update :: "view set \<Rightarrow> request \<times> response \<Rightarrow> view set" where
  "store_update S = (\<lambda>(q, a). case q of
     ReqUpdate (OAutoscaler x) \<Rightarrow> (case a of RespErr e \<Rightarrow> S | _ \<Rightarrow> stored_as S (view_of x))
   | _ \<Rightarrow> S)"

definition after :: "view set \<Rightarrow> (request \<times> response) list \<Rightarrow> view set" where
  "after S log = foldl store_update S log"

text \<open>
  The API server's answers agree with the stored resources: a read resource is one of them, the list is all of them, and the answer to a
  status update shows the metadata that was sent.
\<close>

definition truthful :: "view set \<Rightarrow> (request \<times> response) list \<Rightarrow> bool" where
  "truthful S log \<longleftrightarrow>
     (\<forall>n i. (ReqGet autoscaler_kind n, RespObj (OAutoscaler i)) \<in> set log \<longrightarrow> view_of i \<in> S) \<and>
     (\<forall>items. (ReqList autoscaler_kind [] fmempty, RespList (map OAutoscaler items)) \<in> set log \<longrightarrow> view_of ` set items = S) \<and>
     (\<forall>x i. (ReqStatusUpdate (OAutoscaler x), RespObj (OAutoscaler i)) \<in> set log \<longrightarrow> view_of i = view_of x)"

text \<open>Requests that create or change shared resources.\<close>

fun creates :: "request \<Rightarrow> bool" where
  "creates (ReqCreate x) = True"
| "creates (ReqPatch x y) = True"
| "creates (ReqStatusPatch x y) = True"
| "creates (ReqHelm (HelmInstall c)) = True"
| "creates (ReqHelm (HelmUpgrade c)) = True"
| "creates q = False"

lemma not_creates: "own_request q \<Longrightarrow> \<not> creates q" "removal_request q \<Longrightarrow> \<not> creates q"
  by (cases q rule: own_request.cases; simp) (cases q rule: removal_request.cases; auto elim: helm_lookup.elims)

fun updates :: "request \<Rightarrow> bool" where
  "updates (ReqUpdate (OAutoscaler x)) = True"
| "updates q = False"

lemma updatesD: "updates q \<Longrightarrow> \<exists>x. q = ReqUpdate (OAutoscaler x)"
  by (cases q rule: updates.cases) auto

lemma not_updates: "stack_request q \<Longrightarrow> \<not> updates q" "removal_request q \<Longrightarrow> \<not> updates q" "own_request q \<Longrightarrow> \<not> updates q"
  by (auto dest!: updatesD)

lemma store_update_same:
  assumes "\<not> updates q" shows "store_update S (q, a) = S"
proof (cases q)
  case (ReqUpdate k)
  with assms show ?thesis by (cases k) (simp_all add: store_update_def)
qed (simp_all add: store_update_def)

lemma after_same:
  assumes "list_all (\<lambda>(q, a). \<not> updates q) log" shows "after S log = S"
  using assms
proof (induction log)
  case (Cons e log)
  obtain q a where e: "e = (q, a)" by (cases e)
  from Cons.prems have "\<not> updates q" by (simp add: e)
  then have "store_update S e = S" unfolding e by (rule store_update_same)
  with Cons show ?case by (simp add: after_def)
qed (simp add: after_def)

lemma after_last:
  assumes "list_all (\<lambda>(q, a). \<not> updates q) log"
  shows "after S (log @ [(ReqUpdate (OAutoscaler x), a)]) = S \<or>
    after S (log @ [(ReqUpdate (OAutoscaler x), a)]) = stored_as S (view_of x)"
  using after_same [OF assms, of S] by (cases a) (simp_all add: after_def store_update_def)

lemma truthful_descends: "descends log i j \<Longrightarrow> truthful S log \<Longrightarrow> view_of j = view_of i"
proof (induction rule: descends.induct)
  case (descends_update i j x k)
  then have "view_of k = view_of x" by (auto simp: truthful_def)
  moreover have "view_of x = view_of j" using descends_update(2)
    by (simp add: view_of_def same_resource_def oca_key_def oca_Name_def oca_Namespace_def ContainsFinalizer_def)
  ultimately show ?case using descends_update by simp
qed simp

lemma worked_on_view: "truthful S log \<Longrightarrow> worked_on log req i \<Longrightarrow> view_of i \<in> S"
  unfolding worked_on_def using truthful_descends by (metis truthful_def)

lemma key_is_view: "inj_on v_key S \<Longrightarrow> v \<in> S \<Longrightarrow> {u \<in> S. v_key u \<noteq> v_key v} = S - {v}"
  by (auto simp: inj_on_def)

lemma age_owner: "age (view_of i) < age (view_of j) \<longleftrightarrow> owner_less i j"
  by (simp add: owner_less_key age_def view_of_def owner_key_def oca_key_def)

section \<open>Elections in the log\<close>

lemma view_key [simp]: "v_key (view_of i) = oca_key i" "v_deleting (view_of i) \<longleftrightarrow> md_DeletionTimestamp (oca_meta i) \<noteq> None"
  "v_finalizer (view_of i) = ContainsFinalizer i FinalizerName"
  by (simp_all add: view_of_def)

text \<open>The winner of an election among the listed resources, seen as views.\<close>

lemma select_view:
  assumes "view_of ` set items = S" and "i \<in> set items" and "candidate d i"
  obtains w where "selectSingletonOwner items d = Some w" and "oldest {v \<in> S. d \<or> \<not> v_deleting v} (view_of w)"
proof -
  from assms(2,3) obtain w where w: "selectSingletonOwner items d = Some w"
    using select_None [of items d] by (cases "selectSingletonOwner items d") auto
  have "oldest {v \<in> S. d \<or> \<not> v_deleting v} (view_of w)"
    using select_Some [OF w] assms(1) unfolding oldest_def by (auto simp: candidate_def age_owner)
  with w show thesis by (rule that)
qed

lemma elected_view:
  assumes "truthful S log" and "elected_in log b i" and "view_of i \<in> S" and "inj_on v_key S"
  shows "b \<longleftrightarrow> oldest S (view_of i)"
proof -
  from assms(2) obtain items where l: "(ReqList autoscaler_kind [] fmempty, RespList (map OAutoscaler items)) \<in> set log"
    and b: "b \<longleftrightarrow> map_option oca_key (selectSingletonOwner items True) = Some (oca_key i)" by (auto simp: elected_in_def)
  from l assms(1) have S: "view_of ` set items = S" by (auto simp: truthful_def)
  with assms(3) obtain j where "j \<in> set items" by auto
  then obtain w where w: "selectSingletonOwner items True = Some w" "oldest S (view_of w)"
    using select_view [OF S, of j True] by (auto simp: candidate_def)
  have "oca_key w = oca_key i \<longleftrightarrow> view_of w = view_of i"
    using assms(3,4) w(2) by (metis inj_onD oldest_def view_key(1))
  moreover have "view_of w = view_of i \<longleftrightarrow> oldest S (view_of i)" using w(2) oldest_unique assms(4) by metis
  ultimately show ?thesis using b w(1) by simp
qed

text \<open>The election among live resources as \<open>singletonConflict\<close> saw it.\<close>

definition chosen_in :: "(request \<times> response) list \<Rightarrow> OCIClusterAutoscaler \<Rightarrow> bool" where
  "chosen_in log i \<longleftrightarrow> (\<exists>items. (ReqList autoscaler_kind [] fmempty, RespList (map OAutoscaler items)) \<in> set log \<and>
     (case selectSingletonOwner items False of None \<Rightarrow> True | Some w \<Rightarrow> oca_key w = oca_key i))"

lemma chosen_mono: "chosen_in log i \<Longrightarrow> set log \<subseteq> set log' \<Longrightarrow> chosen_in log' i"
  unfolding chosen_in_def by blast

lemma chosen_view:
  assumes "truthful S log" and "chosen_in log i" and "view_of i \<in> S" and "inj_on v_key S" and "md_DeletionTimestamp (oca_meta i) = None"
  shows "oldest (live S) (view_of i)"
proof -
  from assms(2) obtain items where l: "(ReqList autoscaler_kind [] fmempty, RespList (map OAutoscaler items)) \<in> set log"
    and b: "case selectSingletonOwner items False of None \<Rightarrow> True | Some w \<Rightarrow> oca_key w = oca_key i" by (auto simp: chosen_in_def)
  from l assms(1) have S: "view_of ` set items = S" by (auto simp: truthful_def)
  with assms(3) obtain j where j: "j \<in> set items" "view_of j = view_of i" by auto
  have "md_DeletionTimestamp (oca_meta j) = None" using view_key(2) [of j] view_key(2) [of i] j(2) assms(5) by simp
  then obtain w where w: "selectSingletonOwner items False = Some w" "oldest (live S) (view_of w)"
    using select_view [OF S j(1), of False] by (auto simp: candidate_def live_def)
  with b have "v_key (view_of w) = v_key (view_of i)" by simp
  moreover have "view_of w \<in> S" using w(2) by (auto simp: oldest_def live_def)
  ultimately have "view_of w = view_of i" using assms(3,4) by (metis inj_onD)
  with w(2) show ?thesis by simp
qed

lemma singletonConflict_evidence:
  assumes "singletonConflict srv i io = (Inr (own, False), io')"
  shows "chosen_in (sent io io') i"
proof -
  from assms obtain items where r: "request_as srv (resp_items kobj_autoscaler) (ReqList autoscaler_kind [] fmempty) io = (Inr items, io')"
    and b: "case selectSingletonOwner items False of None \<Rightarrow> True | Some w \<Rightarrow> oca_key w = oca_key i"
    by (auto simp: singletonConflict_def resolveSingletonOwnerName_def resolveSingletonOwner_def Let_def
        split: prod.splits sum.splits option.splits)
  from request_as_log [OF r] obtain a where l: "io_log io' = io_log io @ [(ReqList autoscaler_kind [] fmempty, a)]"
    and a: "expect (resp_items kobj_autoscaler) a = Inr items" by auto
  from l b show ?thesis unfolding expect_autoscalers [OF a] by (auto simp: chosen_in_def sent_def)
qed

lemma reconcile_live_run:
  assumes "reconcile_live srv lib r (i, io) = (res, io')"
  obtains "emits own_sent io io'"
  | io1 where "emits own_sent io io1" "chosen_in (sent io io1) i" "Update_autoscaler srv (AddFinalizer i FinalizerName) io1 = (res, io')"
  | io1 where "emits own_sent io io1" "chosen_in (sent io io1) i" "ContainsFinalizer i FinalizerName" "emits stack_sent io1 io'"
proof -
  obtain y io1 where y: "singletonConflict srv i io = (y, io1)" by (cases "singletonConflict srv i io")
  from own_emits(1) [OF singletonConflict_read_only [OF y]] have e: "emits own_sent io io1" .
  consider err where "y = Inl err" | owner where "y = Inr (Some owner, True)" | own where "y = Inr (own, False)"
    using y by (auto simp: singletonConflict_def Let_def split: prod.splits sum.splits option.splits)
  then show thesis
  proof cases
    case 1
    with assms y e that(1) show ?thesis by (simp add: reconcile_live_def)
  next
    case (2 owner)
    with assms y have "block_conflict srv r owner (i, io1) = (res, io')" by (simp add: reconcile_live_def)
    with e that(1) show ?thesis by (blast intro: emits_trans block_conflict_emits)
  next
    case (3 own)
    have c: "chosen_in (sent io io1) i" using y unfolding 3 by (rule singletonConflict_evidence)
    show ?thesis
    proof (cases "ContainsFinalizer i FinalizerName")
      case True
      with assms y 3 have "reconcile_stack srv lib r (i, io1) = (res, io')" by (cases own) (simp_all add: reconcile_live_def)
      from that(3) [OF e c True reconcile_stack_emits [OF this]] show ?thesis .
    next
      case False
      with assms y 3 have "Update_autoscaler srv (AddFinalizer i FinalizerName) io1 = (res, io')"
        by (cases own) (simp_all add: reconcile_live_def)
      from that(2) [OF e c this] show ?thesis .
    qed
  qed
qed

lemma release_run:
  assumes "release srv r reason message (i, io) = (res, io')"
  obtains "emits own_sent io io'"
  | k io1 where "emits own_sent io io1" "descends (sent io io1) i k" "Update_autoscaler srv (RemoveFinalizer k FinalizerName) io1 = (res, io')"
proof -
  obtain x io0 where h: "setConditionAndRecord (rc_hasRecorder r) srv (set_ObservedGeneration i) ConditionCleanupSucceeded
      ConditionTrue reason message io = (x, io0)" by (meson prod.exhaust)
  obtain c k io1 where u: "Status_Update srv x io0 = (c, k, io1)" by (cases "Status_Update srv x io0")
  have e: "emits own_sent io io1" using record_emits(1) [OF h, of own_sent] own_emits(2) [OF u] by (rule emits_trans)
  show thesis
  proof (cases c)
    case None
    have "same_resource x i" using same_resource_record [OF h] by simp
    from Status_Update_descends [OF u [unfolded None] this] recordD(1) [OF h] have "descends (sent io io1) i k"
      by (simp add: sent_def)
    with e h u None assms that(2) show ?thesis by (simp add: release_def)
  next
    case (Some e')
    with e h u assms that(1) show ?thesis by (simp add: release_def)
  qed
qed

text \<open>Requests other than updates of the resource that create nothing.\<close>

abbreviation quiet :: "request \<times> response \<Rightarrow> bool" where
  "quiet \<equiv> \<lambda>(q, a). \<not> updates q \<and> \<not> creates q"

lemma quiet_emits:
  "emits own_sent io io' \<Longrightarrow> emits quiet io io'" "emits removal_sent io io' \<Longrightarrow> emits quiet io io'"
  by (erule emits_mono; auto dest: not_updates not_creates)+

text \<open>The part of the elected owner: report, clean up, report, release.\<close>

lemma owner_steps:
  assumes "(case Status_Update srv i2 io2 of
               (Some e, i3, io3) \<Rightarrow> ((0, Some e), io3)
             | (None, s3) \<Rightarrow> (case cleanup srv lib r s3 of
                   (Some e, s4) \<Rightarrow> cleanup_failed srv r e s4
                 | (None, s4) \<Rightarrow> release srv r reason message s4)) = (res, io')" and "same_resource i2 i"
  obtains "emits quiet io2 io'"
  | k io5 where "emits quiet io2 io5" "descends (sent io2 io5) i k" "Update_autoscaler srv (RemoveFinalizer k FinalizerName) io5 = (res, io')"
      "cleaned_in srv lib r io2 io'"
proof -
  obtain c i3 io3 where u: "Status_Update srv i2 io2 = (c, i3, io3)" by (cases "Status_Update srv i2 io2")
  have e3: "emits quiet io2 io3" by (rule quiet_emits(1) [OF own_emits(2) [OF u]])
  obtain d i4 io4 where cl: "cleanup srv lib r (i3, io3) = (d, (i4, io4))" by (cases "cleanup srv lib r (i3, io3)") auto
  have e4: "emits quiet io3 io4" by (rule quiet_emits(2) [OF cleanup_emits [OF cl]])
  show thesis
  proof (cases c)
    case (Some e)
    with assms u e3 that(1) show ?thesis by simp
  next
    case c: None
    show ?thesis
    proof (cases d)
      case (Some e)
      with assms c u cl have "cleanup_failed srv r e (i4, io4) = (res, io')" by simp
      from that(1) [OF emits_trans [OF e3 emits_trans [OF e4 quiet_emits(1) [OF cleanup_failed_emits [OF this]]]]] show ?thesis .
    next
      case None
      from cleanup_run [OF cl [unfolded None]] have i4: "i4 = i3" by blast
      from assms c u cl None have "release srv r reason message (i4, io4) = (res, io')" by simp
      then show ?thesis
      proof (rule release_run)
        assume "emits own_sent io4 io'"
        from that(1) [OF emits_trans [OF e3 emits_trans [OF e4 quiet_emits(1) [OF this]]]] show ?thesis .
      next
        fix k io5 assume e: "emits own_sent io4 io5" and k: "descends (sent io4 io5) i4 k"
          and up: "Update_autoscaler srv (RemoveFinalizer k FinalizerName) io5 = (res, io')"
        note e5 = emits_trans [OF e3 emits_trans [OF e4 quiet_emits(1) [OF e]]]
        have "set (sent io2 io3) \<subseteq> set (sent io2 io5)" "set (sent io4 io5) \<subseteq> set (sent io2 io5)"
          using e3 e4 e by (auto simp: emits_def sent_def)
        then have "descends (sent io2 io5) i k"
          using descends_mono [OF Status_Update_descends [OF u [unfolded c] assms(2)]] descends_mono [OF k]
          unfolding i4 by (blast intro: descends_trans)
        moreover have "emits (\<lambda>x. True) io5 io'" using Update_autoscaler_sent [OF up] by (auto simp: emits_def)
        then have "cleaned_in srv lib r io2 io'"
          unfolding cleaned_in_def using emits_any [OF e3] cl None emits_trans [OF emits_any [OF e]] by blast
        ultimately show ?thesis using that(2) e5 up by blast
      qed
    qed
  qed
qed

lemma reconcile_deleting_steps:
  assumes "reconcile_deleting srv lib r (i, io) = (res, io')"
  obtains "emits quiet io io'"
  | b k io1 where "emits quiet io io1" "elected_in (sent io io1) b i" "descends (sent io io1) i k" "ContainsFinalizer i FinalizerName"
      "Update_autoscaler srv (RemoveFinalizer k FinalizerName) io1 = (res, io')" "b \<longrightarrow> cleaned_in srv lib r io io'"
proof -
  obtain x io1 where x: "isSingletonOwner srv i io = (x, io1)" by (cases "isSingletonOwner srv i io")
  have e1: "emits quiet io io1" by (rule quiet_emits(1) [OF own_emits(1) [OF isSingletonOwner_read_only [OF x]]])
  consider "\<not> ContainsFinalizer i FinalizerName" | e where "ContainsFinalizer i FinalizerName" "x = Inl e"
    | b where "ContainsFinalizer i FinalizerName" "x = Inr b" by (cases x) auto
  then show thesis
  proof cases
    case 1
    with assms that(1) show ?thesis by (auto simp: reconcile_deleting_def)
  next
    case 2
    with assms x e1 that(1) show ?thesis by (auto simp: reconcile_deleting_def)
  next
    case (3 b)
    note ev = isSingletonOwner_evidence [OF x [unfolded 3(2)]]
    show ?thesis
    proof (cases b)
      case False
      with assms x 3 obtain reason message where "release srv r reason message (i, io1) = (res, io')"
        by (auto simp: reconcile_deleting_def)
      then show ?thesis
      proof (rule release_run)
        assume "emits own_sent io1 io'"
        from that(1) [OF emits_trans [OF e1 quiet_emits(1) [OF this]]] show ?thesis .
      next
        fix k io2 assume e: "emits own_sent io1 io2" and d: "descends (sent io1 io2) i k"
          and u: "Update_autoscaler srv (RemoveFinalizer k FinalizerName) io2 = (res, io')"
        note s = sent_subset [OF e1 e]
        from that(2) [OF emits_trans [OF e1 quiet_emits(1) [OF e]] evidence_mono [OF ev] descends_mono [OF d] 3(1) u] s False
        show ?thesis by blast
      qed
    next
      case True
      obtain i2 io2 where r2: "setConditionAndRecord (rc_hasRecorder r) srv (set_ObservedGeneration (set_Phase PhaseCleaningUp i))
          ConditionCleanupSucceeded ConditionUnknown ReasonCleanupStarted ''Deleting managed autoscaler resources'' io1 = (i2, io2)"
        by (meson prod.exhaust)
      have s2: "same_resource i2 i" "io_log io2 = io_log io1" using same_resource_record [OF r2] recordD(1) [OF r2] by simp_all
      have e2: "emits quiet io io2" using e1 s2(2) by (simp add: emits_def)
      have "(case Status_Update srv i2 io2 of
               (Some e, i3, io3) \<Rightarrow> ((0, Some e), io3)
             | (None, s3) \<Rightarrow> (case cleanup srv lib r s3 of
                   (Some e, s4) \<Rightarrow> cleanup_failed srv r e s4
                 | (None, s4) \<Rightarrow> release srv r ReasonCleanupSucceeded ''Managed autoscaler resources were deleted'' s4)) = (res, io')"
        using assms x 3 True r2 by (simp add: reconcile_deleting_def)
      then show ?thesis
      proof (rule owner_steps [OF _ s2(1)])
        assume "emits quiet io2 io'"
        from that(1) [OF emits_trans [OF e2 this]] show ?thesis .
      next
        fix k io5 assume e: "emits quiet io2 io5" and d: "descends (sent io2 io5) i k"
          and u: "Update_autoscaler srv (RemoveFinalizer k FinalizerName) io5 = (res, io')" and c: "cleaned_in srv lib r io2 io'"
        have "set (sent io io1) \<subseteq> set (sent io io5)" using e1 e s2(2) by (auto simp: emits_def sent_def)
        moreover have "cleaned_in srv lib r io io'"
          using c emits_trans [OF emits_any [OF e2]] unfolding cleaned_in_def by blast
        ultimately show ?thesis
          using that(2) [OF emits_trans [OF e2 e] evidence_mono [OF ev] descends_mono [OF d] 3(1) u] sent_subset [OF e2 e] by blast
      qed
    qed
  qed
qed

section \<open>The refinement\<close>

lemma truthful_mono: "truthful S log' \<Longrightarrow> set log \<subseteq> set log' \<Longrightarrow> truthful S log"
  unfolding truthful_def by blast

lemma view_AddFinalizer: "view_of (AddFinalizer i FinalizerName) = (view_of i)\<lparr>v_finalizer := True\<rparr>"
  by (auto simp: view_of_def AddFinalizer_def ContainsFinalizer_def set_Finalizers_def oca_key_def oca_Name_def oca_Namespace_def)

lemma view_RemoveFinalizer: "view_of (RemoveFinalizer i FinalizerName) = (view_of i)\<lparr>v_finalizer := False\<rparr>"
  by (auto simp: view_of_def RemoveFinalizer_def ContainsFinalizer_def set_Finalizers_def oca_key_def oca_Name_def oca_Namespace_def
      list_ex_iff)

lemma stored_AddFinalizer:
  "inj_on v_key S \<Longrightarrow> v \<in> S \<Longrightarrow> stored_as S (v\<lparr>v_finalizer := True\<rparr>) = insert (v\<lparr>v_finalizer := True\<rparr>) (S - {v})"
  by (simp add: stored_as_def Let_def key_is_view)

lemma stored_RemoveFinalizer:
  "inj_on v_key S \<Longrightarrow> v \<in> S \<Longrightarrow> v_deleting v \<Longrightarrow> stored_as S (v\<lparr>v_finalizer := False\<rparr>) = S - {v} \<union> released v"
  by (auto simp: stored_as_def Let_def key_is_view released_def)

lemma quiet_after: "emits quiet io io' \<Longrightarrow> after S (sent io io') = S \<and> \<not> list_ex (\<lambda>(q, a). creates q) (sent io io')"
  by (auto simp: emits_def sent_def list_ex_iff list_all_iff intro!: after_same)

lemma update_after:
  assumes "emits quiet io io1" and "Update_autoscaler srv x io1 = (res, io')"
  shows "(after S (sent io io') = S \<or> after S (sent io io') = stored_as S (view_of x)) \<and> \<not> list_ex (\<lambda>(q, a). creates q) (sent io io')"
proof -
  obtain a where l: "io_log io' = io_log io1 @ [(ReqUpdate (OAutoscaler x), a)]" by (rule Update_autoscaler_answer [OF assms(2)])
  with assms(1) have s: "sent io io' = sent io io1 @ [(ReqUpdate (OAutoscaler x), a)]" by (auto simp: emits_def sent_def)
  have "list_all (\<lambda>(q, a). \<not> updates q) (sent io io1)" using assms(1) by (auto simp: emits_def sent_def list_all_iff)
  from after_last [OF this] quiet_after [OF assms(1)] show ?thesis by (simp add: s)
qed

lemma reconcile_is_step:
  assumes "Reconcile srv lib r req io = (res, io')" and "truthful S (sent io io')" and "inj_on v_key S"
  shows "\<exists>sh'. controller_step (S, sh) (after S (sent io io'), sh') \<and>
    (list_ex (\<lambda>(q, a). creates q) (sent io io') \<longrightarrow> sh') \<and> (sh \<and> \<not> sh' \<longrightarrow> cleaned_in srv lib r io io')"
proof -
  have still: ?thesis if "emits quiet io io'"
    using quiet_after [OF that, of S] by (intro exI [of _ sh]) (auto intro: idle)
  show ?thesis
    using assms(1)
  proof (cases rule: Reconcile_run)
    case 1
    from still [OF quiet_emits(1) [OF this]] show ?thesis .
  next
    case (2 i io1)
    from 2(3) show ?thesis
    proof (cases rule: reconcile_live_run)
      case 1
      from still [OF emits_trans [OF quiet_emits(1) [OF 2(1)] quiet_emits(1) [OF 1]]] show ?thesis .
    next
      case u: (2 io2)
      note q = emits_trans [OF quiet_emits(1) [OF 2(1)] quiet_emits(1) [OF u(1)]]
      have "set (sent io io1) \<subseteq> set (sent io io')" "set (sent io1 io2) \<subseteq> set (sent io io')"
        using 2(1) u(1) Update_autoscaler_sent [OF u(3)] by (auto simp: emits_def sent_def)
      then have v: "view_of i \<in> S" and o: "oldest (live S) (view_of i)"
        using worked_on_view [OF truthful_mono [OF assms(2)] 2(4)] chosen_view [OF truthful_mono [OF assms(2)] u(2) _ assms(3) 2(2)]
        by blast+
      from update_after [OF q u(3), of S] claim [OF o, of sh] stored_AddFinalizer [OF assms(3) v] show ?thesis
        unfolding view_AddFinalizer by (metis idle)
    next
      case p: (3 io2)
      have "set (sent io io1) \<subseteq> set (sent io io')" "set (sent io1 io2) \<subseteq> set (sent io io')"
        using 2(1) p(1,4) by (auto simp: emits_def sent_def)
      then have o: "oldest (live S) (view_of i)"
        using worked_on_view [OF truthful_mono [OF assms(2)] 2(4)] chosen_view [OF truthful_mono [OF assms(2)] p(2) _ assms(3) 2(2)]
        by blast
      have "emits stack_sent io io'" using own_stack [OF 2(1)] own_stack [OF p(1)] p(4) by (blast intro: emits_trans)
      then have "after S (sent io io') = S"
        by (intro after_same) (fastforce simp: emits_def sent_def list_all_iff dest: not_updates)
      with provision [OF o, of sh] p(3) show ?thesis by (intro exI [of _ True]) simp
    qed
  next
    case (3 i io1)
    from 3(3) show ?thesis
    proof (cases rule: reconcile_deleting_steps)
      case 1
      from still [OF emits_trans [OF quiet_emits(1) [OF 3(1)] 1]] show ?thesis .
    next
      case u: (2 b k io2)
      note q = emits_trans [OF quiet_emits(1) [OF 3(1)] u(1)]
      have sub: "set (sent io io1) \<subseteq> set (sent io io')" "set (sent io1 io2) \<subseteq> set (sent io io')"
        using 3(1) u(1) Update_autoscaler_sent [OF u(5)] by (auto simp: emits_def sent_def)
      note t = truthful_mono [OF assms(2) sub(2)]
      have v: "view_of i \<in> S" using worked_on_view [OF truthful_mono [OF assms(2) sub(1)] 3(4)] .
      have b: "b \<longleftrightarrow> oldest S (view_of i)" using elected_view [OF t u(2) v assms(3)] .
      have k: "view_of (RemoveFinalizer k FinalizerName) = (view_of i)\<lparr>v_finalizer := False\<rparr>"
        using truthful_descends [OF u(3) t] by (simp add: view_RemoveFinalizer)
      have d: "v_deleting (view_of i)" "v_finalizer (view_of i)" using 3(2) u(4) by simp_all
      have c: "b \<longrightarrow> cleaned_in srv lib r io io'"
        using u(6) emits_trans [OF emits_any [OF 3(1)]] unfolding cleaned_in_def by blast
      have step: "controller_step (S, sh) (S - {view_of i} \<union> released (view_of i), sh \<and> \<not> b)"
        using clean [of S "view_of i" sh] skip [OF v d, of sh] d b by (cases b) auto
      from update_after [OF q u(5), of S, unfolded k stored_RemoveFinalizer [OF assms(3) v d(1)]] show ?thesis
      proof (elim conjE disjE)
        assume "after S (sent io io') = S" "\<not> list_ex (\<lambda>(q, a). creates q) (sent io io')"
        then show ?thesis by (intro exI [of _ sh]) (simp add: idle)
      next
        assume "after S (sent io io') = S - {view_of i} \<union> released (view_of i)" "\<not> list_ex (\<lambda>(q, a). creates q) (sent io io')"
        with step c show ?thesis by (intro exI [of _ "sh \<and> \<not> b"]) simp
      qed
    qed
  qed
qed

text \<open>
  C6. Every run of \<open>Reconcile\<close>, against a server whose answers agree with the stored resources, is a step of the machine: it leaves the resources
  as the step does; a run that creates or changes shared resources is a provisioning step; and the machine forgets the
  shared resources only when the run performed a whole cleanup.
\<close>

theorem reconcile_refines_ownership:
  assumes "Reconcile srv lib r req io = (res, io')" and "truthful S (sent io io')" and "inj_on v_key S"
  shows "\<exists>sh'. controller_step (S, sh) (after S (sent io io'), sh') \<and>
    (list_ex (\<lambda>(q, a). creates q) (sent io io') \<longrightarrow> sh') \<and> (sh \<and> \<not> sh' \<longrightarrow> cleaned_in srv lib r io io')"
  using assms by (rule reconcile_is_step)

section \<open>Histories of a cluster\<close>

text \<open>
  A history: from a cluster without the operator's resources, users and complete runs of \<open>Reconcile\<close> follow each other; between two runs the
  world of the server may change in any way, as long as the answers of a run agree with the stored resources. The flag
  records that a run sent a request that creates or changes shared resources and no run made a whole cleanup since.
\<close>

inductive history :: "bool \<Rightarrow> 'w server \<Rightarrow> libraries \<Rightarrow> OCIClusterAutoscalerReconciler \<Rightarrow> view set \<times> bool \<times> 'w io \<Rightarrow> bool"
    for strict srv lib r where
  history_start: "history strict srv lib r ({}, False, io)"
| history_user: "history strict srv lib r (S, sh, io) \<Longrightarrow> user_step strict (S, sh) (S', sh) \<Longrightarrow>
    history strict srv lib r (S', sh, io\<lparr>io_world := w\<rparr>)"
| history_run: "history strict srv lib r (S, sh, io) \<Longrightarrow> Reconcile srv lib r req io = (res, io') \<Longrightarrow>
    truthful S (sent io io') \<Longrightarrow>
    history strict srv lib r (after S (sent io io'),
      list_ex (\<lambda>(q, a). creates q) (sent io io') \<or> sh \<and> \<not> cleaned_in srv lib r io io', io'\<lparr>io_world := w\<rparr>)"

lemma owned_weaken: "owned (S, sh) \<Longrightarrow> (sh' \<Longrightarrow> sh) \<Longrightarrow> owned (S, sh')"
  by (auto simp: owned_def)

lemma history_owned: "history True srv lib r s \<Longrightarrow> owned (fst s, fst (snd s))"
proof (induction rule: history.induct)
  case (history_start io)
  show ?case by (simp add: owned_def)
next
  case (history_user S sh io S' w)
  from owned_user [OF history_user.hyps(2)] history_user.IH show ?case by simp
next
  case (history_run S sh io req res io' w)
  let ?c = "list_ex (\<lambda>(q, a). creates q) (sent io io')"
  from history_run.IH have o: "owned (S, sh)" by simp
  from reconcile_is_step [OF history_run.hyps(2,3) ownedD(2) [OF o], of sh] obtain sh' where
    st: "controller_step (S, sh) (after S (sent io io'), sh')" and c: "?c \<longrightarrow> sh'"
    and k: "sh \<and> \<not> sh' \<longrightarrow> cleaned_in srv lib r io io'" by (elim exE conjE)
  have "owned (after S (sent io io'), ?c \<or> sh \<and> \<not> cleaned_in srv lib r io io')"
    by (rule owned_weaken [OF owned_controller [OF st o]]) (use c k in argo)
  then show ?case by simp
qed

text \<open>
  C7. No orphans: as long as resources are created after all existing ones and only the operator puts finalizers on them, in every history, for
  every server that answers in agreement with the stored resources, whenever shared resources may exist some resource carries the
  operator's finalizer, and it is the oldest one, the one whose deletion will clean up; and a deleting resource always
  still has the finalizer.
\<close>

theorem shared_resources_owned:
  assumes "history True srv lib r (S, sh, io)"
  shows "(sh \<longrightarrow> (\<exists>v. oldest S v \<and> v_finalizer v)) \<and> (\<forall>v \<in> S. v_deleting v \<longrightarrow> v_finalizer v)"
  using history_owned [OF assms] by (simp add: owned_def)

text \<open>
  Orphans: when a resource is created with the creation time of the owner and a smaller name (creation times are whole seconds),
  the deletion of the owner is skipped, and the shared resources can outlive all custom resources.
\<close>

definition sample_view :: "string \<Rightarrow> view" where
  "sample_view n = \<lparr>v_key = \<lparr>nn_Namespace = ''x'', nn_Name = n\<rparr>, v_created = 1, v_deleting = False, v_finalizer = False, v_foreign = False\<rparr>"

lemma sample_age: "age (sample_view ''a'') < age (sample_view ''b'')"
  by (simp add: age_def sample_view_def less_prod_def)

theorem same_second_orphans: "reachable False ({}, True)"
proof -
  let ?a = "sample_view ''a''" and ?b = "sample_view ''b''"
  let ?f = "?b\<lparr>v_finalizer := True\<rparr>" let ?d = "?f\<lparr>v_deleting := True\<rparr>"
  have "reachable False ({?b}, False)"
    by (rule user [OF start create [of ?b "{}" False False, simplified]]) (simp_all add: sample_view_def)
  then have "reachable False ({?f}, False)"
    using claim [of "{?b}" ?b False] by (elim controller) (simp add: oldest_def live_def sample_view_def)
  then have "reachable False ({?f}, True)"
    using provision [of "{?f}" ?f False] by (elim controller) (simp add: oldest_def live_def sample_view_def)
  then have "reachable False ({?a, ?f}, True)"
    using create [of ?a "{?f}" False True] by (elim user) (simp add: sample_view_def)
  then have "reachable False ({?d, ?a}, True)"
    using delete [of ?f "{?a, ?f}" False True] by (elim user) (simp add: sample_view_def insert_Diff_if)
  moreover have "\<not> oldest {?d, ?a} ?d" using sample_age by (auto simp: oldest_def)
  ultimately have "reachable False ({?a}, True)"
    using skip [of ?d "{?d, ?a}" True] by (elim controller) (simp add: sample_view_def released_def insert_Diff_if)
  then show ?thesis
    using delete_now [of ?a "{?a}" False True] by (elim user) (simp add: sample_view_def)
qed

definition claim_sample :: OCIClusterAutoscaler where
  "claim_sample = set_Phase PhaseReady (sample_autoscaler ''n'' ''x'' 1 [])"

definition claim_server :: "unit server" where
  "claim_server = \<lparr>srv_handle = (\<lambda>q w. (case q of
       ReqGet k n \<Rightarrow> RespObj (OAutoscaler claim_sample)
     | ReqList k n l \<Rightarrow> RespList [OAutoscaler claim_sample]
     | _ \<Rightarrow> RespOk, w)), srv_now = (\<lambda>w. 7)\<rparr>"

definition claim_log :: "(request \<times> response) list" where
  "claim_log = sent (start_io ()) (snd (Reconcile claim_server sample_libraries sample_reconciler
     \<lparr>nn_Namespace = ''n'', nn_Name = ''x''\<rparr> (start_io ())))"

lemma claim_log: "claim_log =
    [(ReqGet autoscaler_kind \<lparr>nn_Namespace = ''n'', nn_Name = ''x''\<rparr>, RespObj (OAutoscaler claim_sample)),
     (ReqList autoscaler_kind [] fmempty, RespList [OAutoscaler claim_sample]),
     (ReqUpdate (OAutoscaler (AddFinalizer claim_sample FinalizerName)), RespOk)]"
  by (simp add: claim_log_def Reconcile_def initialize_def reconcile_live_def singletonConflict_def resolveSingletonOwnerName_def
      resolveSingletonOwner_def selectSingletonOwner_def Update_autoscaler_def request_as_def call_def claim_server_def expect_def
      resp_items_def start_io_def claim_sample_def sample_autoscaler_def new_meta_def set_Phase_def ContainsFinalizer_def
      PhaseReady_def Let_def sent_def)

lemma reconcile_refines_ownership_witness:
  "let S = {view_of claim_sample} in
   after S claim_log = {(view_of claim_sample)\<lparr>v_finalizer := True\<rparr>} \<and> (\<exists>sh'. controller_step (S, False) (after S claim_log, sh'))"
proof -
  let ?S = "{view_of claim_sample}"
  have t: "truthful ?S claim_log" by (auto simp: claim_log truthful_def)
  have "\<not> v_deleting (view_of claim_sample)"
    by (simp add: view_of_def claim_sample_def sample_autoscaler_def new_meta_def set_Phase_def)
  then have "after ?S claim_log = {(view_of claim_sample)\<lparr>v_finalizer := True\<rparr>}"
    by (auto simp: claim_log after_def store_update_def view_AddFinalizer stored_as_def Let_def)
  with reconcile_refines_ownership [OF prod.collapse [symmetric] t [unfolded claim_log_def], of False] show ?thesis
    unfolding claim_log_def [symmetric] by (auto simp: Let_def)
qed

lemma unit_world [simp]: "io\<lparr>io_world := ()\<rparr> = io"
  by (cases io) simp

text \<open>The sample resource is created by a user and claimed by a run.\<close>

lemma shared_resources_owned_witness:
  "history True claim_server sample_libraries sample_reconciler
     ({(view_of claim_sample)\<lparr>v_finalizer := True\<rparr>}, False,
      snd (Reconcile claim_server sample_libraries sample_reconciler \<lparr>nn_Namespace = ''n'', nn_Name = ''x''\<rparr> (start_io ()))) \<and>
   (let v = (view_of claim_sample)\<lparr>v_finalizer := True\<rparr> in if v_deleting v then v_finalizer v else True)"
proof -
  let ?S = "{view_of claim_sample}" and ?req = "\<lparr>nn_Namespace = ''n'', nn_Name = ''x''\<rparr>" and ?io = "start_io ()"
  let ?io' = "snd (Reconcile claim_server sample_libraries sample_reconciler ?req ?io)"
  have v: "\<not> v_deleting (view_of claim_sample)" "\<not> v_finalizer (view_of claim_sample)" "\<not> v_foreign (view_of claim_sample)"
    by (simp_all add: view_of_def claim_sample_def sample_autoscaler_def new_meta_def set_Phase_def ContainsFinalizer_def)
  have "history True claim_server sample_libraries sample_reconciler (?S, False, ?io\<lparr>io_world := ()\<rparr>)"
    by (rule history_user [OF history_start create [of "view_of claim_sample" "{}" True False, simplified]]) (use v in simp_all)
  then have h: "history True claim_server sample_libraries sample_reconciler (?S, False, ?io)" by (simp add: start_io_def)
  have t: "truthful ?S (sent ?io ?io')" unfolding claim_log_def [symmetric] by (auto simp: claim_log truthful_def)
  have a: "after ?S (sent ?io ?io') = {(view_of claim_sample)\<lparr>v_finalizer := True\<rparr>}"
    unfolding claim_log_def [symmetric] using v
    by (auto simp: claim_log after_def store_update_def view_AddFinalizer stored_as_def Let_def)
  have n: "\<not> list_ex (\<lambda>(q, a). creates q) (sent ?io ?io')"
    unfolding claim_log_def [symmetric] by (simp add: claim_log)
  from history_run [OF h prod.collapse [symmetric] t, of "()"] a n
  have r: "history True claim_server sample_libraries sample_reconciler ({(view_of claim_sample)\<lparr>v_finalizer := True\<rparr>}, False, ?io')"
    by simp
  from shared_resources_owned [OF r] r show ?thesis by (simp add: Let_def)
qed

end
