(* ===== verification/StatusTypes.thy ===== *)
theory StatusTypes
  imports Lifecycle
begin

text \<open>
  The status as a typed value: what the schema of the custom resource (\<open>api/v1alpha1/ociclusterautoscaler_types.go\<close>) promises of
  conditions and phases, and that every update \<open>Reconcile\<close> sends keeps it.
\<close>

section \<open>Well-typed statuses\<close>

definition stable_condition_types :: "string list" where
  "stable_condition_types = [ConditionReady, ConditionPolicyAccepted, ConditionProvidersReady, ConditionAutoscalerReady,
     ConditionScalingResourcesReady, ConditionCleanupSucceeded]"

definition phases :: "string list" where
  "phases = [PhaseInitializing, PhaseBlocked, PhaseReconciling, PhaseReady, PhaseError, PhaseCleaningUp]"

text \<open>Conditions are a map by type with the documented types as keys, and the phase is a known one or not set yet.\<close>

definition status_typed :: "OCIClusterAutoscaler \<Rightarrow> bool" where
  "status_typed i \<longleftrightarrow> unique_types (oca_Conditions i) \<and>
     list_all (\<lambda>c. cond_Type c \<in> set stable_condition_types) (oca_Conditions i) \<and> (oca_Phase i = [] \<or> oca_Phase i \<in> set phases)"

text \<open>The resource a request writes, if it does.\<close>

fun own_update :: "request \<Rightarrow> OCIClusterAutoscaler option" where
  "own_update (ReqStatusUpdate (OAutoscaler x)) = Some x"
| "own_update (ReqUpdate (OAutoscaler x)) = Some x"
| "own_update _ = None"

abbreviation typed_sent :: "request \<times> response \<Rightarrow> bool" where
  "typed_sent \<equiv> \<lambda>(q, a). case own_update q of None \<Rightarrow> True | Some x \<Rightarrow> status_typed x"

text \<open>A server that stores well-typed resources only.\<close>

definition typed_server :: "'w server \<Rightarrow> bool" where
  "typed_server srv \<longleftrightarrow> (\<forall>q w i w'. srv_handle srv q w = (RespObj (OAutoscaler i), w') \<longrightarrow> status_typed i)"

lemma answer_typed:
  assumes "typed_server srv" and "request_as srv resp_autoscaler q io = (Inr i, io')"
  shows "status_typed i"
proof -
  from assms(2) obtain a w where a: "srv_handle srv q (io_world io) = (a, w)" "expect resp_autoscaler a = Inr i"
    by (auto simp: request_as_def call_def Let_def split: prod.splits)
  then have "a = RespObj (OAutoscaler i)" by (cases a rule: resp_autoscaler.cases) (auto simp: expect_def)
  with a(1) assms(1) show ?thesis by (auto simp: typed_server_def)
qed

lemma types_set_condition:
  "list_all (\<lambda>c. cond_Type c \<in> T) (oca_Conditions i) \<Longrightarrow> ct \<in> T \<Longrightarrow>
   list_all (\<lambda>c. cond_Type c \<in> T) (oca_Conditions (setAutoscalerCondition now i ct st r m))"
proof -
  let ?c = "\<lparr>cond_Type = ct, cond_Status = st, cond_ObservedGeneration = oca_Generation i, cond_LastTransitionTime = 0,
      cond_Reason = r, cond_Message = m\<rparr>"
  assume a: "list_all (\<lambda>c. cond_Type c \<in> T) (oca_Conditions i)" and t: "ct \<in> T"
  have s: "list_all (\<lambda>c. cond_Type c \<in> T) cs \<longleftrightarrow> set (map cond_Type cs) \<subseteq> T" for cs :: "Condition list"
    by (auto simp: list_all_iff)
  have "set (map cond_Type (SetStatusCondition now cs ?c)) \<subseteq> insert ct (set (map cond_Type cs))" for cs
    by (auto simp: SetStatusCondition_def types_update_condition [unfolded map_eq_conv] simp flip: set_map
        simp: types_update_condition split: option.split)
  with a t show ?thesis unfolding s setAutoscalerCondition_def status_setter_simps by blast
qed

lemma typed_set_condition [simp]:
  "status_typed i \<Longrightarrow> ct \<in> set stable_condition_types \<Longrightarrow> status_typed (setAutoscalerCondition now i ct st r m)"
  using types_set_condition [of "set stable_condition_types" i ct] by (simp add: status_typed_def unique_types_set_condition)

lemma typed_setters [simp]:
  "p \<in> set phases \<Longrightarrow> status_typed i \<Longrightarrow> status_typed (set_Phase p i)"
  "status_typed (set_ObservedGeneration i) = status_typed i" "status_typed (set_CAPIInstalled b i) = status_typed i"
  "status_typed (set_Deployed b i) = status_typed i" "status_typed (set_Finalizers fs i) = status_typed i"
  by (auto simp: status_typed_def status_setters set_Finalizers_def)

lemma typed_members [simp]:
  "ConditionReady \<in> set stable_condition_types" "ConditionPolicyAccepted \<in> set stable_condition_types"
  "ConditionProvidersReady \<in> set stable_condition_types" "ConditionAutoscalerReady \<in> set stable_condition_types"
  "ConditionScalingResourcesReady \<in> set stable_condition_types" "ConditionCleanupSucceeded \<in> set stable_condition_types"
  "PhaseInitializing \<in> set phases" "PhaseBlocked \<in> set phases" "PhaseReconciling \<in> set phases" "PhaseReady \<in> set phases"
  "PhaseError \<in> set phases" "PhaseCleaningUp \<in> set phases"
  by (simp_all add: stable_condition_types_def phases_def)

lemma typed_finalizers [simp]:
  "status_typed (AddFinalizer i f) = status_typed i" "status_typed (RemoveFinalizer i f) = status_typed i"
  by (simp_all add: AddFinalizer_def RemoveFinalizer_def)

section \<open>Requests that write no resource\<close>

lemma no_update:
  "provisioning q \<Longrightarrow> own_update q = None" "read_only q \<Longrightarrow> own_update q = None" "helm_lookup q \<Longrightarrow> own_update q = None"
  "removal_request q \<Longrightarrow> own_update q = None"
  by (cases q rule: own_update.cases; simp)+

lemma typed_classes:
  "emits (\<lambda>(q, a). provisioning q) io io' \<Longrightarrow> emits typed_sent io io'"
  "emits (\<lambda>(q, a). read_only q) io io' \<Longrightarrow> emits typed_sent io io'"
  "emits looks io io' \<Longrightarrow> emits typed_sent io io'"
  "emits removal_sent io io' \<Longrightarrow> emits typed_sent io io'"
  by (erule emits_mono; auto simp: no_update)+

lemma InstallAutoscaler_typed: "InstallAutoscaler srv y i v io = (r, io') \<Longrightarrow> emits typed_sent io io'"
  by (drule InstallAutoscaler_sends, erule emits_mono) (auto elim: helm_apply.elims)

lemma markExisting_typed: "markExistingClusterControlPlaneInitialized f srv ns c io = (r, io') \<Longrightarrow> emits typed_sent io io'"
  by (drule markExisting_sends, erule emits_mono) (auto elim: marking.cases simp: no_update)

lemmas typed_emits = polite_components [THEN reconcileComponents_emits, THEN typed_classes(1)]
  polite_autoscaler [THEN reconcileComponents_emits, THEN typed_classes(1)]
  checkDeploymentAvailable_emits [THEN typed_classes(2)] checkCAPIInstallation_emits [THEN typed_classes(2)]
  clusterNameFor_emits [THEN typed_classes(2)] SetAutoScalingConfig_read_only [THEN typed_classes(2)]
  markExisting_typed InstallAutoscaler_typed record_emits [where P = typed_sent] emits_call [where P = typed_sent]

section \<open>Stages keep the status well-typed\<close>

definition keeps_typed :: "('w, 'a) stage \<Rightarrow> bool" where
  "keeps_typed m \<longleftrightarrow> (\<forall>i io. status_typed i \<longrightarrow>
     status_typed (fst (snd (m (i, io)))) \<and> emits typed_sent io (snd (snd (m (i, io)))))"

lemma keepsI:
  "(\<And>i io x i' io'. status_typed i \<Longrightarrow> m (i, io) = (x, (i', io')) \<Longrightarrow> status_typed i') \<Longrightarrow>
   (\<And>i io x i' io'. status_typed i \<Longrightarrow> m (i, io) = (x, (i', io')) \<Longrightarrow> emits typed_sent io io') \<Longrightarrow> keeps_typed m"
  unfolding keeps_typed_def by (metis prod.collapse)

lemma keepsD:
  assumes "keeps_typed m" and "status_typed i" and "m (i, io) = (x, (i', io'))"
  shows "status_typed i'" "emits typed_sent io io'"
  using assms(1) [unfolded keeps_typed_def, rule_format, OF assms(2), of io] assms(3) by simp_all

lemma and_then_run:
  assumes "and_then m f s = (x, s')"
  obtains res where "m s = (Inl res, s')" | a s1 where "m s = (Inr a, s1)" and "f a s1 = (x, s')"
  using assms by (auto simp: and_then_def split: prod.splits sum.splits)

lemma keeps_and_then:
  assumes "keeps_typed m" and "\<And>a. keeps_typed (f a)"
  shows "keeps_typed (and_then m f)"
proof (rule keepsI)
  fix i io x i' io' assume i: "status_typed i" and run: "and_then m f (i, io) = (x, (i', io'))"
  have "status_typed i' \<and> emits typed_sent io io'"
  proof (rule and_then_run [OF run])
    fix res assume "m (i, io) = (Inl res, (i', io'))"
    from keepsD [OF assms(1) i this] show ?thesis by simp
  next
    fix a s1 assume m: "m (i, io) = (Inr a, s1)" and f: "f a s1 = (x, (i', io'))"
    obtain i1 io1 where s1: "s1 = (i1, io1)" by (cases s1)
    from keepsD [OF assms(1) i m [unfolded s1]] have k: "status_typed i1" "emits typed_sent io io1" .
    from keepsD [OF assms(2) k(1) f [unfolded s1]] k(2) show ?thesis by (blast intro: emits_trans)
  qed
  then show "status_typed i'" "emits typed_sent io io'" by simp_all
qed

lemma Status_Update_typed:
  assumes "typed_server srv" and "status_typed i" and u: "Status_Update srv i io = (c, i', io')"
  shows "status_typed i'" and "emits typed_sent io io'"
proof -
  from Status_Update_log [OF u] assms(2) show "emits typed_sent io io'" by (auto simp: emits_def)
  show "status_typed i'"
  proof (cases c)
    case (Some e)
    with u assms(2) show ?thesis by (auto simp: Status_Update_def split: prod.splits sum.splits)
  next
    case None
    with u have "request_as srv resp_autoscaler (ReqStatusUpdate (OAutoscaler i)) io = (Inr i', io')"
      by (auto simp: Status_Update_def split: prod.splits sum.splits)
    then show ?thesis by (rule answer_typed [OF assms(1)])
  qed
qed

lemma failed_stage_typed:
  "setReadyConditionFromFailedStage hr srv i io = (b, i', io') \<Longrightarrow> status_typed i \<Longrightarrow> status_typed i'"
  by (auto simp: setReadyConditionFromFailedStage_def Let_def split: option.splits prod.splits dest!: recordD(1))

lemma aggregate_typed:
  "setAggregateReadyCondition hr srv i io = (i', io') \<Longrightarrow> status_typed i \<Longrightarrow> status_typed i'"
  by (auto simp: setAggregateReadyCondition_def Let_def split: if_splits prod.splits dest!: recordD(1) failed_stage_typed)

lemma record_typed:
  "setConditionAndRecord hr srv i ct st reason message io = (i', io') \<Longrightarrow> status_typed i \<Longrightarrow> ct \<in> set stable_condition_types \<Longrightarrow>
   status_typed i'"
  by (auto dest!: recordD(1))

lemma policy_stage_typed:
  assumes "typed_server srv" shows "keeps_typed (policy_stage srv r)"
proof (rule keepsI)
  fix i io x i' io' assume i: "status_typed i" and m: "policy_stage srv r (i, io) = (x, (i', io'))"
  have "status_typed i' \<and> emits typed_sent io io'"
  proof (cases "validate i (rc_AutoScalingConfig r)")
    case None
    with m i show ?thesis by (auto simp: policy_stage_def emits_same_log dest!: recordD)
  next
    case (Some e)
    with m obtain i1 io1 i2 io2 c b where
      r1: "setConditionAndRecord (rc_hasRecorder r) srv (set_ObservedGeneration (set_Phase PhaseBlocked i)) ConditionPolicyAccepted
        ConditionFalse ReasonPolicyRejected (''Autoscaler policy rejected: '' @ Error e) io = (i1, io1)"
      and r2: "setReadyConditionFromFailedStage (rc_hasRecorder r) srv i1 io1 = (b, i2, io2)"
      and u: "Status_Update srv i2 io2 = (c, i', io')"
      by (auto simp: policy_stage_def Let_def split: option.splits prod.splits)
    from record_typed [OF r1] i have "status_typed i1" by simp
    from Status_Update_typed [OF assms failed_stage_typed [OF r2 this] u] record_emits(1) [OF r1] record_emits(4) [OF r2]
    show ?thesis by (blast intro: emits_trans)
  qed
  then show "status_typed i'" "emits typed_sent io io'" by simp_all
qed

lemma capi_stages_typed: "keeps_typed (capi_stage srv r)" "keeps_typed (capoci_stage srv r)"
proof -
  show "keeps_typed (capi_stage srv r)"
  proof (rule keepsI)
    fix i io x i' io' assume "status_typed i" and m: "capi_stage srv r (i, io) = (x, (i', io'))"
    then show "status_typed i'"
      by (auto simp: capi_stage_def Let_def split: option.splits prod.splits if_splits dest!: recordD)
    from m show "emits typed_sent io io'"
      by (auto simp: capi_stage_def Let_def split: option.splits prod.splits if_splits dest!: typed_emits intro: emits_trans)
  qed
  show "keeps_typed (capoci_stage srv r)"
  proof (rule keepsI)
    fix i io x i' io' assume "status_typed i" and m: "capoci_stage srv r (i, io) = (x, (i', io'))"
    then show "status_typed i'"
      by (auto simp: capoci_stage_def split: option.splits prod.splits dest!: recordD)
    from m show "emits typed_sent io io'"
      by (auto simp: capoci_stage_def split: option.splits prod.splits dest!: typed_emits intro: emits_trans)
  qed
qed

lemma rollout_stage_typed: "keeps_typed (rollout_stage srv r)"
proof (rule keepsI)
  fix i io x i' io' assume "status_typed i" and m: "rollout_stage srv r (i, io) = (x, (i', io'))"
  then show "status_typed i'"
    by (auto simp: rollout_stage_def Let_def split: option.splits prod.splits if_splits dest!: recordD)
  from m show "emits typed_sent io io'"
    by (auto simp: rollout_stage_def Let_def split: option.splits prod.splits if_splits dest!: typed_emits intro: emits_trans)
qed

lemma autoscaler_stage_typed: "keeps_typed (autoscaler_stage srv lib r)"
proof (rule keepsI)
  fix i io x i' io' assume "status_typed i" and m: "autoscaler_stage srv lib r (i, io) = (x, (i', io'))"
  then show "status_typed i'"
    by (auto simp: autoscaler_stage_def Let_def split: option.splits prod.splits dest!: recordD)
  from m show "emits typed_sent io io'"
    by (auto simp: autoscaler_stage_def Let_def split: option.splits prod.splits dest!: typed_emits intro: emits_trans)
qed

lemma config_stage_typed: "keeps_typed (config_stage srv r)"
proof (rule keepsI)
  fix i io x i' io' assume "status_typed i" and m: "config_stage srv r (i, io) = (x, (i', io'))"
  then show "status_typed i'"
    by (auto simp: config_stage_def split: option.splits prod.splits sum.splits dest!: recordD)
  from m show "emits typed_sent io io'"
    by (auto simp: config_stage_def split: option.splits prod.splits sum.splits dest!: typed_emits intro: emits_trans)
qed

lemma scaling_stage_typed: "keeps_typed (scaling_stage srv lib r x)"
proof (rule keepsI)
  fix i io y i' io' assume "status_typed i" and m: "scaling_stage srv lib r x (i, io) = (y, (i', io'))"
  then show "status_typed i'"
    by (auto simp: scaling_stage_def Let_def split: option.splits prod.splits dest!: recordD)
  from m show "emits typed_sent io io'"
    by (auto simp: scaling_stage_def Let_def split: option.splits prod.splits dest!: typed_emits intro: emits_trans)
qed

lemma cleanup_typed:
  assumes "status_typed i" and "cleanup srv lib r (i, io) = (c, (i', io'))"
  shows "status_typed i'" and "emits typed_sent io io'"
proof -
  from assms show "status_typed i'"
    by (auto simp: cleanup_def Let_def split: prod.splits sum.splits option.splits if_splits dest!: recordD(1))
  from cleanup_emits [OF assms(2)] show "emits typed_sent io io'" by (rule typed_classes(4))
qed

section \<open>The stack\<close>

lemma reconcileOCICapiStack_typed:
  assumes "typed_server srv" and "status_typed i" and "reconcileOCICapiStack srv lib r (i, io) = (res, (i', io'))"
  shows "status_typed i'" and "emits typed_sent io io'"
proof -
  define m where "m = and_then (policy_stage srv r) (\<lambda>_.
           and_then (capi_stage srv r) (\<lambda>_.
           and_then (capoci_stage srv r) (\<lambda>_.
           and_then (rollout_stage srv r) (\<lambda>_.
           and_then (autoscaler_stage srv lib r) (\<lambda>_.
           and_then (config_stage srv r) (scaling_stage srv lib r))))))"
  have k: "keeps_typed m" unfolding m_def
    by (intro keeps_and_then policy_stage_typed [OF assms(1)] capi_stages_typed rollout_stage_typed autoscaler_stage_typed
        config_stage_typed scaling_stage_typed)
  obtain x where x: "m (i, io) = (x, (i', io'))"
    using assms(3) by (auto simp: reconcileOCICapiStack_def m_def [symmetric] split: prod.splits sum.splits)
  show "status_typed i'" "emits typed_sent io io'" by (rule keepsD [OF k assms(2) x])+
qed

text \<open>A run that works on a resource: what a well-typed resource leads to.\<close>

abbreviation typed_run :: "'w io \<Rightarrow> 'a \<times> 'w io \<Rightarrow> bool" where
  "typed_run io s \<equiv> emits typed_sent io (snd s)"

lemma update_typed: "status_typed i \<Longrightarrow> typed_run io (Update_autoscaler srv i io)"
  by (cases "Update_autoscaler srv i io") (auto simp: emits_def dest!: Update_autoscaler_sent)

lemma reconcile_stack_typed:
  assumes srv: "typed_server srv" and i: "status_typed i"
  shows "typed_run io (reconcile_stack srv lib r (i, io))"
proof -
  obtain requeue err i1 io1 where s: "reconcileOCICapiStack srv lib r (i, io) = ((requeue, err), (i1, io1))" by (metis prod.collapse)
  note t = reconcileOCICapiStack_typed [OF srv i s]
  show ?thesis
  proof (cases err)
    case None
    obtain i2 io2 where ag: "setAggregateReadyCondition (rc_hasRecorder r) srv i1 io1 = (i2, io2)" by fastforce
    obtain c i3 io3 where u: "Status_Update srv i2 io2 = (c, i3, io3)" by (metis prod.collapse)
    from t(2) record_emits(5) [OF ag] have e: "emits typed_sent io io2" by (rule emits_trans)
    from e Status_Update_typed(2) [OF srv aggregate_typed [OF ag t(1)] u] have "emits typed_sent io io3" by (rule emits_trans)
    with e None s ag u show ?thesis by (auto simp: reconcile_stack_def Let_def split: option.splits)
  next
    case (Some e)
    obtain b i2 io2 where f: "setReadyConditionFromFailedStage (rc_hasRecorder r) srv i1 io1 = (b, i2, io2)" by (metis prod.collapse)
    obtain i3 io3 where g: "(if b then (i2, io2) else setConditionAndRecord (rc_hasRecorder r) srv (set_Phase PhaseError i2)
        ConditionReady ConditionFalse ReasonReconcileError (Error e) io2) = (i3, io3)" by (metis prod.collapse)
    have "status_typed i3" using failed_stage_typed [OF f t(1)] g by (auto split: if_splits dest!: recordD(1))
    moreover have "emits typed_sent io2 io3" using g by (auto simp: emits_same_log split: if_splits dest!: recordD(1))
    moreover obtain c i4 io4 where u: "Status_Update srv (set_ObservedGeneration i3) io3 = (c, i4, io4)" by (metis prod.collapse)
    ultimately have "emits typed_sent io io4"
      using t(2) record_emits(4) [OF f] Status_Update_typed(2) [OF srv _ u] by (auto intro: emits_trans)
    with Some s f g u show ?thesis by (auto simp: reconcile_stack_def Let_def split: option.splits)
  qed
qed

lemma block_conflict_typed:
  assumes srv: "typed_server srv" and "status_typed i"
  shows "typed_run io (block_conflict srv r owner (i, io))"
  using assms(2)
  by (auto simp: block_conflict_def Let_def split: prod.split
      dest!: Status_Update_typed(2) [OF srv, rotated] recordD(1) simp: emits_def)

lemma cleanup_failed_typed:
  assumes srv: "typed_server srv" and "status_typed i"
  shows "typed_run io (cleanup_failed srv r e (i, io))"
  using assms(2)
  by (auto simp: cleanup_failed_def Let_def split: prod.split option.split
      dest!: Status_Update_typed(2) [OF srv, rotated] recordD(1) simp: emits_def)

lemma release_typed:
  assumes srv: "typed_server srv" and i: "status_typed i"
  shows "typed_run io (release srv r reason message (i, io))"
proof -
  obtain i1 io1 where a: "setConditionAndRecord (rc_hasRecorder r) srv (set_ObservedGeneration i) ConditionCleanupSucceeded
      ConditionTrue reason message io = (i1, io1)" by fastforce
  obtain c i2 io2 where u: "Status_Update srv i1 io1 = (c, i2, io2)" by (metis prod.collapse)
  have "status_typed i1" using record_typed [OF a] i by simp
  note t = Status_Update_typed [OF srv this u]
  have e: "emits typed_sent io io2" by (rule emits_trans [OF record_emits(1) [OF a] t(2)])
  from t(1) have "typed_run io2 (Update_autoscaler srv (RemoveFinalizer i2 FinalizerName) io2)" by (simp add: update_typed)
  with e have "typed_run io (Update_autoscaler srv (RemoveFinalizer i2 FinalizerName) io2)" by (rule emits_trans)
  with e a u show ?thesis by (auto simp: release_def Let_def split: option.splits)
qed

lemma reconcile_deleting_typed:
  assumes srv: "typed_server srv" and i: "status_typed i"
  shows "typed_run io (reconcile_deleting srv lib r (i, io))"
proof -
  obtain x io1 where x: "isSingletonOwner srv i io = (x, io1)" by fastforce
  then have e1: "emits typed_sent io io1" by (rule typed_classes(2) [OF isSingletonOwner_read_only])
  obtain i2 io2 where a: "setConditionAndRecord (rc_hasRecorder r) srv (set_ObservedGeneration (set_Phase PhaseCleaningUp i))
      ConditionCleanupSucceeded ConditionUnknown ReasonCleanupStarted ''Deleting managed autoscaler resources'' io1 = (i2, io2)"
    by fastforce
  obtain c i3 io3 where u: "Status_Update srv i2 io2 = (c, i3, io3)" by (metis prod.collapse)
  have "status_typed i2" using record_typed [OF a] i by simp
  note t = Status_Update_typed [OF srv this u]
  have e3: "emits typed_sent io io3" by (rule emits_trans [OF emits_trans [OF e1 record_emits(1) [OF a]] t(2)])
  obtain d i4 io4 where cl: "cleanup srv lib r (i3, io3) = (d, (i4, io4))" by (metis prod.collapse)
  note k = cleanup_typed [OF t(1) cl]
  from e3 k(2) have e4: "emits typed_sent io io4" by (rule emits_trans)
  note f = emits_trans [OF e4 cleanup_failed_typed [OF srv k(1)]] emits_trans [OF e4 release_typed [OF srv k(1)]]
    emits_trans [OF e1 release_typed [OF srv i]]
  show ?thesis
    using e1 e3 f x a u cl unfolding reconcile_deleting_def
    by (auto simp: emits_refl split: sum.split bool.split option.split)
qed

lemma initialize_typed:
  assumes srv: "typed_server srv" and "status_typed i" and "initialize srv r (i, io) = (c, (i', io'))"
  shows "status_typed i'" and "emits typed_sent io io'"
proof -
  have "status_typed i' \<and> emits typed_sent io io'"
  proof (cases "oca_Phase i = []")
    case True
    with assms(3) obtain i1 io1 where
      a: "setConditionAndRecord (rc_hasRecorder r) srv (set_Phase PhaseInitializing i) ConditionReady ConditionUnknown
        ReasonInitializing ''OCIClusterAutoscaler reconciliation has started'' io = (i1, io1)"
      and u: "Status_Update srv i1 io1 = (c, i', io')"
      by (auto simp: initialize_def Let_def split: prod.splits)
    have "status_typed i1" using record_typed [OF a] assms(2) by simp
    from Status_Update_typed [OF srv this u] record_emits(1) [OF a] show ?thesis by (blast intro: emits_trans)
  next
    case False
    with assms show ?thesis by (auto simp: initialize_def emits_refl)
  qed
  then show "status_typed i'" "emits typed_sent io io'" by simp_all
qed

lemma reconcile_live_typed:
  assumes srv: "typed_server srv" and i: "status_typed i"
  shows "typed_run io (reconcile_live srv lib r (i, io))"
proof -
  obtain y io1 where y: "singletonConflict srv i io = (y, io1)" by fastforce
  obtain res io' where l: "reconcile_live srv lib r (i, io) = (res, io')" by fastforce
  from singletonConflict_read_only [OF y] have e: "emits typed_sent io io1" by (rule typed_classes(2))
  from i have f: "status_typed (AddFinalizer i FinalizerName)" by simp
  note k = emits_trans [OF e block_conflict_typed [OF srv i]] emits_trans [OF e update_typed [OF f]]
    emits_trans [OF e reconcile_stack_typed [OF srv i]]
  from y l have "emits typed_sent io io'"
  proof (rule reconcile_live_cases)
    assume "io' = io1" with e show ?thesis by simp
  next
    fix owner assume "block_conflict srv r owner (i, io1) = (res, io')"
    with k(1) [of r owner] show ?thesis by simp
  next
    assume "Update_autoscaler srv (AddFinalizer i FinalizerName) io1 = (res, io')"
    with k(2) [of srv] show ?thesis by simp
  next
    assume "reconcile_stack srv lib r (i, io1) = (res, io')"
    with k(3) [of lib r] show ?thesis by simp
  qed
  with l show ?thesis by simp
qed

section \<open>The resource is updated with well-typed statuses\<close>


section \<open>Sample run\<close>

text \<open>A server with one new resource, that fails every other request.\<close>

definition failing_answer :: "request \<Rightarrow> response" where
  "failing_answer q = (case q of ReqGet k n \<Rightarrow> RespObj (OAutoscaler (sample_autoscaler ''n'' ''x'' 1 [])) | _ \<Rightarrow> RespErr (Errorf ''down''))"

definition failing_server :: "unit server" where
  "failing_server = \<lparr>srv_handle = (\<lambda>q w. (failing_answer q, w)), srv_now = (\<lambda>w. 7)\<rparr>"

lemma failing_typed: "typed_server failing_server"
proof -
  have "status_typed (sample_autoscaler ''n'' ''x'' 1 [])" by code_simp
  then show ?thesis by (auto simp: typed_server_def failing_server_def failing_answer_def split: request.splits)
qed


end
