(* ===== verification/DeepCopy.thy ===== *)
theory DeepCopy
  imports Conditions
begin

text \<open>
  The generated deep copies of the resource (\<open>zz_generated.deepcopy.go\<close>) over an explicit memory. The other
  theories treat a resource as a value; here its pointers, slices and maps are addresses of memory cells, and
  the contents of a structure are read through them. The locale \<open>deep_copier\<close> is the contract of a copy function;
  it is closed under pointers, slices and structures, which is how the generated code is composed. The last section
  models \<open>SetStatusCondition\<close> with its assignments through a pointer into the slice, and relates the
  snapshot of the status that \<open>Reconcile\<close> takes to the functional model.

  A slice is the address of an array that it covers entirely; an \<open>append\<close> allocates a new array (an \<open>append\<close> into
  spare capacity writes behind the end of every slice that shares the array, so that no reader can tell).
  Structure fields without pointers are values; of \<open>ObjectMeta\<close> the fields the operator uses are kept.
\<close>

section \<open>Structures with pointers\<close>

type_synonym addr = nat
type_synonym ptr = "addr option"

record ShapeConfig_mem =
  psc_CPUs :: ptr
  psc_Memory :: ptr

record AutoscalingConfig_mem =
  pas_MinNodes :: ptr
  pas_MaxNodes :: ptr
  pas_Shape :: string
  pas_ShapeConfig :: ptr
  pas_ImageID :: string
  pas_PoolIdentifier :: string
  pas_EnableRDMA :: bool
  pas_RDMAComputeClusterID :: string
  pas_RDMAFailureDomain :: string

record ClusterAutoscalerConfig_mem =
  pca_RepositoryURL :: string
  pca_Name :: string
  pca_ServiceAccountName :: string
  pca_CloudProvider :: string
  pca_CreateRBAC :: ptr
  pca_CreateServiceAccount :: ptr
  pca_Version :: string

record Spec_mem =
  psp_Autoscaling :: AutoscalingConfig_mem
  psp_CAPI :: CAPIConfig
  psp_ClusterAutoscaler :: ClusterAutoscalerConfig_mem

record Status_mem =
  pst_Conditions :: ptr
  pst_Phase :: string
  pst_CAPIInstalled :: bool
  pst_ClusterAutoscalerDeployed :: bool
  pst_ObservedGeneration :: int

record OwnerReference_mem =
  pow_APIVersion :: string
  pow_Kind :: string
  pow_Name :: string
  pow_UID :: string
  pow_Controller :: ptr
  pow_BlockOwnerDeletion :: ptr

record ObjectMeta_mem =
  pmd_Name :: string
  pmd_Namespace :: string
  pmd_Labels :: ptr
  pmd_Annotations :: ptr
  pmd_OwnerReferences :: ptr
  pmd_Generation :: int
  pmd_Finalizers :: ptr
  pmd_CreationTimestamp :: time
  pmd_DeletionTimestamp :: ptr

record TypeMeta =
  tm_Kind :: string
  tm_APIVersion :: string

record Autoscaler_mem =
  poca_TypeMeta :: TypeMeta
  poca_ObjectMeta :: ObjectMeta_mem
  poca_Spec :: Spec_mem
  poca_Status :: Status_mem

record ListMeta_mem =
  plm_ResourceVersion :: string
  plm_Continue :: string
  plm_RemainingItemCount :: ptr

record AutoscalerList_mem =
  pol_TypeMeta :: TypeMeta
  pol_ListMeta :: ListMeta_mem
  pol_Items :: ptr

text \<open>What a memory cell can hold: a value that a pointer refers to, the array of a slice, or a map.\<close>

datatype cell =
    CInt32 (un_Int32: int32)
  | CInt64 (un_Int64: int)
  | CBool (un_Bool: bool)
  | CTime (un_Time: time)
  | CMap (un_Map: "string gomap")
  | CStrings (un_Strings: "string list")
  | COwners (un_Owners: "OwnerReference_mem list")
  | CConditions (un_Conditions: "Condition list")
  | CShapeConfig (un_ShapeConfig: ShapeConfig_mem)
  | CAutoscalingConfig (un_AutoscalingConfig: AutoscalingConfig_mem)
  | CCAPIConfig (un_CAPIConfig: CAPIConfig)
  | CClusterAutoscalerConfig (un_ClusterAutoscalerConfig: ClusterAutoscalerConfig_mem)
  | CSpec (un_Spec: Spec_mem)
  | CStatus (un_Status: Status_mem)
  | CAutoscaler (un_Autoscaler: Autoscaler_mem)
  | CAutoscalers (un_Autoscalers: "Autoscaler_mem list")
  | CAutoscalerList (un_AutoscalerList: AutoscalerList_mem)

type_synonym mem = "cell list"

definition new_cell :: "cell \<Rightarrow> mem \<Rightarrow> addr \<times> mem" where
  "new_cell c m = (length m, m @ [c])"

definition store :: "addr \<Rightarrow> cell \<Rightarrow> mem \<Rightarrow> mem" where
  "store a c m = m[a := c]"

section \<open>The contract of a copy\<close>

text \<open>
  \<open>same_at A m m'\<close>: the cells at \<open>A\<close> are in \<open>m'\<close> what they are in \<open>m\<close>. A copier of a type has a
  well-formedness test \<open>ok\<close> (every pointer is nil or refers to a cell of its type), the addresses a value reaches and the
  contents it stands for.
\<close>

definition same_at :: "addr set \<Rightarrow> mem \<Rightarrow> mem \<Rightarrow> bool" where
  "same_at A m m' \<longleftrightarrow> (\<forall>a\<in>A. a < length m' \<and> m' ! a = m ! a)"

definition fresh_addrs :: "mem \<Rightarrow> mem \<Rightarrow> addr list \<Rightarrow> bool" where
  "fresh_addrs m m' as \<longleftrightarrow> distinct as \<and> set as \<subseteq> {length m..<length m'}"

lemma same_at_prefix: "prefix m m' \<Longrightarrow> A \<subseteq> {..<length m} \<Longrightarrow> same_at A m m'"
  by (fastforce simp: same_at_def prefix_def nth_append)

lemma same_at_store: "a \<notin> A \<Longrightarrow> A \<subseteq> {..<length m} \<Longrightarrow> same_at A m (store a c m)"
  unfolding same_at_def store_def by (metis lessThan_iff length_list_update nth_list_update_neq subsetD)

lemma same_at_trans: "same_at A m m' \<Longrightarrow> same_at A m' m'' \<Longrightarrow> same_at A m m''"
  by (simp add: same_at_def)

lemma same_at_mono: "same_at A m m' \<Longrightarrow> B \<subseteq> A \<Longrightarrow> same_at B m m'"
  by (auto simp: same_at_def)

lemma prefix_store: "prefix m m' \<Longrightarrow> length m \<le> a \<Longrightarrow> prefix m (store a c m')"
  by (auto simp: prefix_def store_def list_update_append)

lemma prefix_new: "new_cell c m = (a, m') \<Longrightarrow> prefix m m' \<and> a = length m \<and> length m' = Suc (length m) \<and> m' ! a = c"
  by (auto simp: new_cell_def)

lemma fresh_addrs_append: "fresh_addrs m m1 as \<Longrightarrow> fresh_addrs m1 m2 bs \<Longrightarrow> length m \<le> length m1 \<Longrightarrow>
    length m1 \<le> length m2 \<Longrightarrow> fresh_addrs m m2 (as @ bs)"
  by (fastforce simp: fresh_addrs_def)

locale deep_copier =
  fixes ok :: "mem \<Rightarrow> 's \<Rightarrow> bool"
    and addrs :: "mem \<Rightarrow> 's \<Rightarrow> addr list"
    and content :: "mem \<Rightarrow> 's \<Rightarrow> 'v"
    and into :: "'s \<Rightarrow> mem \<Rightarrow> 's \<times> mem"
  assumes bound: "ok m s \<Longrightarrow> set (addrs m s) \<subseteq> {..<length m}"
    and frame: "ok m s \<Longrightarrow> same_at (set (addrs m s)) m m' \<Longrightarrow>
      ok m' s \<and> addrs m' s = addrs m s \<and> content m' s = content m s"
    and copied: "ok m s \<Longrightarrow> into s m = (s', m') \<Longrightarrow>
      prefix m m' \<and> ok m' s' \<and> content m' s' = content m s \<and> fresh_addrs m m' (addrs m' s')"
begin

lemma kept: "ok m s \<Longrightarrow> prefix m m' \<Longrightarrow> ok m' s \<and> addrs m' s = addrs m s \<and> content m' s = content m s"
  by (rule frame) (simp_all add: same_at_prefix bound)

lemma kept_store: "ok m s \<Longrightarrow> a \<notin> set (addrs m s) \<Longrightarrow>
    ok (store a c m) s \<and> addrs (store a c m) s = addrs m s \<and> content (store a c m) s = content m s"
  by (rule frame) (simp_all add: same_at_store bound)

text \<open>Whatever is done later to cells that existed before the copy, and whatever is done to the new ones.\<close>

lemma copy_unaffected:
  assumes "ok m s" "into s m = (s', m')" "same_at {length m..<length m'} m' m2"
  shows "content m2 s' = content m s"
  using frame [of m' s' m2] copied [OF assms(1,2)] assms(3) by (auto simp: fresh_addrs_def intro: same_at_mono)

lemma original_unaffected:
  assumes "ok m s" "into s m = (s', m')" "same_at {..<length m} m' m2"
  shows "content m2 s = content m s"
proof -
  have "same_at {..<length m} m m'" using copied [OF assms(1,2)] by (simp add: same_at_prefix)
  with assms(3) have "same_at (set (addrs m s)) m m2" using bound [OF assms(1)] by (meson same_at_mono same_at_trans)
  with frame [OF assms(1)] show ?thesis by simp
qed

end

section \<open>Pointers and slices\<close>

text \<open>
  \<open>new_copy\<close> is the code for a pointer: nothing for nil, otherwise a new cell whose content is copied
  into it. \<open>make_copy\<close> is the code for a slice: a new array and a loop over the indices.
\<close>

definition new_copy :: "('s \<Rightarrow> cell) \<Rightarrow> (cell \<Rightarrow> 's) \<Rightarrow> cell \<Rightarrow> ('s \<Rightarrow> mem \<Rightarrow> 's \<times> mem) \<Rightarrow> ptr \<Rightarrow> mem \<Rightarrow> ptr \<times> mem" where
  "new_copy wrap unwrap zero into p m =
     (case p of None \<Rightarrow> (None, m)
      | Some a \<Rightarrow>
          let (b, m1) = new_cell zero m;
              (x, m2) = into (unwrap (m1 ! a)) m1
          in (Some b, store b (wrap x) m2))"

primrec copy_elements ::
    "('s list \<Rightarrow> cell) \<Rightarrow> (cell \<Rightarrow> 's list) \<Rightarrow> ('s \<Rightarrow> mem \<Rightarrow> 's \<times> mem) \<Rightarrow> addr \<Rightarrow> addr \<Rightarrow> nat list \<Rightarrow> mem \<Rightarrow> mem" where
  "copy_elements wrap unwrap into a b [] m = m"
| "copy_elements wrap unwrap into a b (i # is) m =
     (case into (unwrap (m ! a) ! i) m of
        (x, m1) \<Rightarrow> copy_elements wrap unwrap into a b is (store b (wrap ((unwrap (m1 ! b))[i := x])) m1))"

definition make_copy ::
    "('s list \<Rightarrow> cell) \<Rightarrow> (cell \<Rightarrow> 's list) \<Rightarrow> 's \<Rightarrow> ('s \<Rightarrow> mem \<Rightarrow> 's \<times> mem) \<Rightarrow> ptr \<Rightarrow> mem \<Rightarrow> ptr \<times> mem" where
  "make_copy wrap unwrap zero into p m =
     (case p of None \<Rightarrow> (None, m)
      | Some a \<Rightarrow>
          let n = length (unwrap (m ! a));
              (b, m1) = new_cell (wrap (replicate n zero)) m
          in (Some b, copy_elements wrap unwrap into a b [0..<n] m1))"

definition ok_at :: "('s \<Rightarrow> cell) \<Rightarrow> (cell \<Rightarrow> 's) \<Rightarrow> (mem \<Rightarrow> 's \<Rightarrow> bool) \<Rightarrow> mem \<Rightarrow> ptr \<Rightarrow> bool" where
  "ok_at wrap unwrap ok m p =
     (case p of None \<Rightarrow> True
      | Some a \<Rightarrow> a < length m \<and> wrap (unwrap (m ! a)) = m ! a \<and> ok m (unwrap (m ! a)))"

definition addrs_at :: "(cell \<Rightarrow> 's) \<Rightarrow> (mem \<Rightarrow> 's \<Rightarrow> addr list) \<Rightarrow> mem \<Rightarrow> ptr \<Rightarrow> addr list" where
  "addrs_at unwrap addrs m p = (case p of None \<Rightarrow> [] | Some a \<Rightarrow> a # addrs m (unwrap (m ! a)))"

definition content_at :: "(cell \<Rightarrow> 's) \<Rightarrow> (mem \<Rightarrow> 's \<Rightarrow> 'v) \<Rightarrow> mem \<Rightarrow> ptr \<Rightarrow> 'v option" where
  "content_at unwrap content m p = map_option (\<lambda>a. content m (unwrap (m ! a))) p"

definition ok_all :: "(mem \<Rightarrow> 's \<Rightarrow> bool) \<Rightarrow> mem \<Rightarrow> 's list \<Rightarrow> bool" where
  "ok_all ok m xs = list_all (ok m) xs"

definition addrs_all :: "(mem \<Rightarrow> 's \<Rightarrow> addr list) \<Rightarrow> mem \<Rightarrow> 's list \<Rightarrow> addr list" where
  "addrs_all addrs m xs = concat (map (addrs m) xs)"

definition content_all :: "(mem \<Rightarrow> 's \<Rightarrow> 'v) \<Rightarrow> mem \<Rightarrow> 's list \<Rightarrow> 'v list" where
  "content_all content m xs = map (content m) xs"

lemmas at_defs = ok_at_def addrs_at_def content_at_def
lemmas all_defs = ok_all_def addrs_all_def content_all_def

text \<open>The contract of a pointer follows from the contract of what it refers to.\<close>

lemma new_cell_store:
  assumes "new_cell z m = (b, m1)" "prefix m1 m2"
  shows "b = length m" "prefix m (store b c m2)" "store b c m2 ! b = c" "b < length m2" "same_at {length m1..<length m2} m2 (store b c m2)"
  using assms by (auto simp: new_cell_def prefix_def store_def list_update_append nth_append same_at_def)

context deep_copier
begin

lemma pointer:
  assumes w: "\<And>x. unwrap (wrap x) = x"
  shows "deep_copier (ok_at wrap unwrap ok) (addrs_at unwrap addrs) (content_at unwrap content) (new_copy wrap unwrap zero into)"
proof (unfold_locales, goal_cases)
  case (1 m p)
  then show ?case using bound by (auto simp: at_defs split: option.splits)
next
  case (2 m p m')
  then show ?case
  proof (cases p)
    case (Some a)
    with 2 have "m' ! a = m ! a" "a < length m'" "same_at (set (addrs m (unwrap (m ! a)))) m m'" "ok m (unwrap (m ! a))"
      by (auto simp: at_defs same_at_def)
    with frame [of m "unwrap (m ! a)" m'] 2 Some show ?thesis by (simp add: at_defs)
  qed (simp add: at_defs)
next
  case (3 m p p' m')
  then show ?case
  proof (cases p)
    case None
    with 3 show ?thesis by (simp add: at_defs new_copy_def fresh_addrs_def)
  next
    case (Some a)
    with 3(1) have a: "a < length m" "wrap (unwrap (m ! a)) = m ! a" "ok m (unwrap (m ! a))" by (auto simp: at_defs)
    obtain b m1 where n: "new_cell zero m = (b, m1)" by (meson prod.exhaust)
    with a(1) have m1: "prefix m m1" "m1 ! a = m ! a" "b = length m" "length m1 = Suc b" by (auto simp: new_cell_def nth_append)
    obtain x m2 where x: "into (unwrap (m ! a)) m1 = (x, m2)" by (meson prod.exhaust)
    have k: "ok m1 (unwrap (m ! a))" "content m1 (unwrap (m ! a)) = content m (unwrap (m ! a))"
      using kept [OF a(3) m1(1)] by auto
    note c = copied [OF k(1) x]
    note s = new_cell_store [OF n conjunct1 [OF c]]
    have b: "b \<notin> set (addrs m2 x)" using c m1 by (auto simp: fresh_addrs_def)
    have "p' = Some b" "m' = store b (wrap x) m2" using 3(2) Some n m1(2) x by (simp_all add: new_copy_def)
    then show ?thesis
      using Some s c k b kept_store [of m2 x b "wrap x"] m1 w
      by (auto simp: at_defs fresh_addrs_def store_def)
  qed
qed

text \<open>One element: the copies made so far keep their content when the next is made and stored.\<close>

lemma element:
  assumes "list_all (ok m) ys" "b < length m" "b \<notin> set (addrs_all addrs m ys)" "ok m x0" "into x0 m = (x, m1)"
  shows "list_all (ok (store b c m1)) (ys @ [x])" "map (content (store b c m1)) (ys @ [x]) = map (content m) (ys @ [x0])"
    "addrs_all addrs (store b c m1) (ys @ [x]) = addrs_all addrs m ys @ addrs m1 x"
proof -
  note c = copied [OF assms(4,5)]
  then have b: "b \<notin> set (addrs m1 x)" using assms(2) by (auto simp: fresh_addrs_def)
  have y: "ok (store b c m1) y \<and> addrs (store b c m1) y = addrs m y \<and> content (store b c m1) y = content m y"
    if "y \<in> set ys" for y
  proof -
    have "ok m y" using assms(1) that by (simp add: list_all_iff)
    from kept [OF this conjunct1 [OF c]] have k: "ok m1 y" "addrs m1 y = addrs m y" "content m1 y = content m y" by simp_all
    moreover have "b \<notin> set (addrs m y)" using assms(3) that by (auto simp: all_defs)
    ultimately show ?thesis using kept_store [of m1 y b c] by simp
  qed
  have x: "ok (store b c m1) x \<and> addrs (store b c m1) x = addrs m1 x \<and> content (store b c m1) x = content m x0"
    using kept_store [of m1 x b c] c b by simp
  have q: "concat (map (addrs (store b c m1)) ys) = concat (map (addrs m) ys)"
    by (intro arg_cong [of _ _ concat] map_cong) (simp_all add: y)
  show "list_all (ok (store b c m1)) (ys @ [x])" "map (content (store b c m1)) (ys @ [x]) = map (content m) (ys @ [x0])"
    "addrs_all addrs (store b c m1) (ys @ [x]) = addrs_all addrs m ys @ addrs m1 x"
    using x y q by (auto simp: list_all_iff addrs_all_def)
qed

lemma elements:
  assumes w: "\<And>xs. unwrap (wrap xs) = xs" and a: "a < length m0" "length m0 \<le> b" "list_all (ok m0) xs" "unwrap (m0 ! a) = xs"
  shows "prefix m0 m \<Longrightarrow> b < length m \<Longrightarrow> m ! b = wrap (ys @ zs) \<Longrightarrow> length zs = k \<Longrightarrow> length ys + k = length xs \<Longrightarrow>
    list_all (ok m) ys \<Longrightarrow> map (content m) ys = map (content m0) (take (length ys) xs) \<Longrightarrow>
    fresh_addrs m0 m (b # addrs_all addrs m ys) \<Longrightarrow> m' = copy_elements wrap unwrap into a b [length ys..<length xs] m \<Longrightarrow>
    \<exists>ys'. prefix m0 m' \<and> b < length m' \<and> m' ! b = wrap ys' \<and> list_all (ok m') ys' \<and>
      map (content m') ys' = map (content m0) xs \<and> fresh_addrs m0 m' (b # addrs_all addrs m' ys')"
proof (induction k arbitrary: m ys zs)
  case 0
  then show ?case by (intro exI [of _ ys]) simp
next
  case (Suc k)
  then obtain z zs' where zs: "zs = z # zs'" by (cases zs) auto
  let ?i = "length ys"
  have i: "?i < length xs" using Suc.prems(5) by simp
  have ma: "m ! a = m0 ! a" using Suc.prems(1) a(1) by (auto simp: prefix_def nth_append)
  have o0: "ok m0 (xs ! ?i)" using a(3) i by (simp add: list_all_iff)
  from kept [OF this Suc.prems(1)] have om: "ok m (xs ! ?i)" "content m (xs ! ?i) = content m0 (xs ! ?i)" by simp_all
  obtain x m1 where x: "into (xs ! ?i) m = (x, m1)" by (meson prod.exhaust)
  have m1: "prefix m m1" "fresh_addrs m m1 (addrs m1 x)" using copied [OF om(1) x] by auto
  have m1b: "m1 ! b = m ! b" using m1(1) Suc.prems(2) by (auto simp: prefix_def nth_append)
  define m2 where "m2 = store b (wrap ((ys @ [x]) @ zs')) m1"
  have nb: "b \<notin> set (addrs_all addrs m ys)" using Suc.prems(8) by (simp add: fresh_addrs_def)
  note e = element [where c = "wrap ((ys @ [x]) @ zs')", OF Suc.prems(6,2) nb om(1) x, folded m2_def]
  have len: "length m \<le> length m1" "length m2 = length m1" using m1(1) by (auto simp: m2_def store_def prefix_length_le)
  have "\<exists>ys'. prefix m0 m' \<and> b < length m' \<and> m' ! b = wrap ys' \<and> list_all (ok m') ys' \<and>
      map (content m') ys' = map (content m0) xs \<and> fresh_addrs m0 m' (b # addrs_all addrs m' ys')"
  proof (rule Suc.IH [of m2 "ys @ [x]" zs'])
    show "prefix m0 m2" unfolding m2_def using Suc.prems(1) m1(1) a(2) by (meson prefix_store prefix_order.trans)
    show "b < length m2" using Suc.prems(2) len by simp
    show "m2 ! b = wrap ((ys @ [x]) @ zs')" using Suc.prems(2) len by (simp add: m2_def store_def)
    show "length zs' = k" "length (ys @ [x]) + k = length xs" using Suc.prems(4,5) zs by simp_all
    show "list_all (ok m2) (ys @ [x])" by (rule e(1))
    show "map (content m2) (ys @ [x]) = map (content m0) (take (length (ys @ [x])) xs)"
      using e(2) Suc.prems(7) om(2) i by (simp add: take_Suc_conv_app_nth)
    show "fresh_addrs m0 m2 (b # addrs_all addrs m2 (ys @ [x]))"
      using fresh_addrs_append [OF Suc.prems(8) m1(2) prefix_length_le [OF Suc.prems(1)] len(1)]
      by (simp add: e(3) fresh_addrs_def len(2) del: set_append)
    have "(ys @ z # zs')[?i := x] = (ys @ [x]) @ zs'" by simp
    then show "m' = copy_elements wrap unwrap into a b [length (ys @ [x])..<length xs] m2"
      using Suc.prems(9,3) i x ma a(4) m1b w zs by (simp add: upt_conv_Cons m2_def)
  qed
  then show ?case .
qed

lemma slice:
  assumes w: "\<And>xs. unwrap (wrap xs) = xs"
  shows "deep_copier (ok_at wrap unwrap (ok_all ok)) (addrs_at unwrap (addrs_all addrs))
    (content_at unwrap (content_all content)) (make_copy wrap unwrap zero into)"
proof (unfold_locales, goal_cases)
  case (1 m p)
  then show ?case using bound by (fastforce simp: at_defs all_defs list_all_iff split: option.splits)
next
  case (2 m p m')
  then show ?case
  proof (cases p)
    case (Some a)
    with 2 have a: "m' ! a = m ! a" "a < length m'" by (auto simp: at_defs same_at_def)
    have "ok m' x \<and> addrs m' x = addrs m x \<and> content m' x = content m x" if "x \<in> set (unwrap (m ! a))" for x
      using frame [of m x m'] 2 Some that by (auto simp: at_defs all_defs list_all_iff same_at_def)
    then have "list_all (ok m') (unwrap (m ! a))" "map (addrs m') (unwrap (m ! a)) = map (addrs m) (unwrap (m ! a))"
      "map (content m') (unwrap (m ! a)) = map (content m) (unwrap (m ! a))" by (auto simp: list_all_iff)
    then have "list_all (ok m') (unwrap (m ! a)) \<and> addrs_all addrs m' (unwrap (m ! a)) = addrs_all addrs m (unwrap (m ! a)) \<and>
      content_all content m' (unwrap (m ! a)) = content_all content m (unwrap (m ! a))" unfolding all_defs by metis
    with a 2 Some show ?thesis by (simp add: at_defs ok_all_def)
  qed (simp add: at_defs)
next
  case (3 m p p' m')
  then show ?case
  proof (cases p)
    case None
    with 3 show ?thesis by (simp add: at_defs make_copy_def fresh_addrs_def)
  next
    case (Some a)
    let ?xs = "unwrap (m ! a)"
    from Some 3(1) have a: "a < length m" "wrap ?xs = m ! a" "list_all (ok m) ?xs" by (auto simp: at_defs all_defs)
    define m1 where "m1 = m @ [wrap (replicate (length ?xs) zero)]"
    have p': "p' = Some (length m)" "m' = copy_elements wrap unwrap into a (length m) [length []..<length ?xs] m1"
      using 3(2) Some by (simp_all add: make_copy_def new_cell_def m1_def Let_def)
    have "\<exists>ys'. prefix m m' \<and> length m < length m' \<and> m' ! length m = wrap ys' \<and> list_all (ok m') ys' \<and>
      map (content m') ys' = map (content m) ?xs \<and> fresh_addrs m m' (length m # addrs_all addrs m' ys')"
      by (rule elements [where m = m1 and ys = "[]" and zs = "replicate (length ?xs) zero" and k = "length ?xs"])
        (use w a p' in \<open>simp_all add: m1_def fresh_addrs_def all_defs\<close>)
    then show ?thesis using p'(1) Some w by (auto simp: at_defs all_defs)
  qed
qed

lemma pair:
  assumes D2: "deep_copier ok2 addrs2 content2 into2"
  shows "deep_copier (\<lambda>m (s, t). ok m s \<and> ok2 m t) (\<lambda>m (s, t). addrs m s @ addrs2 m t) (\<lambda>m (s, t). (content m s, content2 m t))
    (\<lambda>(s, t) m. case into s m of (s', m1) \<Rightarrow> (case into2 t m1 of (t', m2) \<Rightarrow> ((s', t'), m2)))"
proof (unfold_locales, goal_cases)
  case (1 m st)
  then show ?case using bound deep_copier.bound [OF D2] by fastforce
next
  case (2 m st m')
  obtain s t where st: "st = (s, t)" by (cases st)
  from 2 st have "same_at (set (addrs m s)) m m'" "same_at (set (addrs2 m t)) m m'" "ok m s" "ok2 m t"
    by (auto simp: same_at_def)
  with frame [of m s m'] deep_copier.frame [OF D2, of m t m'] show ?case by (simp add: st)
next
  case (3 m st st' m')
  obtain s t where st: "st = (s, t)" by (cases st)
  obtain s' m1 where s: "into s m = (s', m1)" by (meson prod.exhaust)
  obtain t' m2 where t: "into2 t m1 = (t', m2)" by (meson prod.exhaust)
  have o: "ok m s" "ok2 m t" using 3(1) st by auto
  note c = copied [OF o(1) s]
  from deep_copier.kept [OF D2 o(2) conjunct1 [OF c]] have k: "ok2 m1 t" "content2 m1 t = content2 m t" by simp_all
  note d = deep_copier.copied [OF D2 k(1) t]
  have e: "st' = (s', t')" "m' = m2" using 3(2) st s t by auto
  have l: "length m \<le> length m1" "length m1 \<le> length m2" using c d by (auto simp: prefix_length_le)
  have "ok m2 s' \<and> addrs m2 s' = addrs m1 s' \<and> content m2 s' = content m1 s'"
    using kept [OF conjunct1 [OF conjunct2 [OF c]] conjunct1 [OF d]] by simp
  moreover have "prefix m m2" using c d by (meson prefix_order.trans)
  moreover have "fresh_addrs m m2 (addrs m1 s' @ addrs2 m2 t')" using c d l by (auto intro: fresh_addrs_append)
  ultimately show ?case using c d k by (simp add: e st)
qed

end

text \<open>Values without pointers, and structures: the pointer fields are a part that can be read and replaced.\<close>

definition ok_value :: "mem \<Rightarrow> 's \<Rightarrow> bool" where "ok_value m s = True"
definition addrs_value :: "mem \<Rightarrow> 's \<Rightarrow> addr list" where "addrs_value m s = []"
definition content_value :: "mem \<Rightarrow> 's \<Rightarrow> 's" where "content_value m s = s"
definition copy_value :: "'s \<Rightarrow> mem \<Rightarrow> 's \<times> mem" where "copy_value s m = (s, m)"

lemmas value_defs = ok_value_def addrs_value_def content_value_def copy_value_def

lemma deep_copier_value: "deep_copier ok_value addrs_value content_value copy_value"
  by unfold_locales (auto simp: fresh_addrs_def value_defs)

lemmas deep_copier_pointer = deep_copier.pointer [OF deep_copier_value]
lemmas deep_copier_slice = deep_copier.slice [OF deep_copier_value]

lemma deep_copier_structure:
  assumes D: "deep_copier ok0 addrs0 content0 into0"
    and g: "\<And>x s. get (put x s) = x" "\<And>x s c. build (put x s) c = build s c"
    and d: "\<And>m s. ok m s = ok0 m (get s)" "\<And>m s. addrs m s = addrs0 m (get s)"
      "\<And>m s. content m s = build s (content0 m (get s))" "\<And>m s. into s m = (case into0 (get s) m of (x, m') \<Rightarrow> (put x s, m'))"
  shows "deep_copier ok addrs content into"
proof (unfold_locales, goal_cases)
  case (1 m s)
  then show ?case using deep_copier.bound [OF D] by (simp add: d)
next
  case (2 m s m')
  then show ?case using deep_copier.frame [OF D, of m "get s" m'] by (simp add: d)
next
  case (3 m s s' m')
  then show ?case using deep_copier.copied [OF D] by (auto simp: d g split: prod.splits)
qed

section \<open>The generated code\<close>

text \<open>The zero values that \<open>new\<close> and \<open>make\<close> write, and the blocks that copy a pointer to a plain value.\<close>

definition zero_ShapeConfig :: ShapeConfig_mem where
  "zero_ShapeConfig = \<lparr>psc_CPUs = None, psc_Memory = None\<rparr>"

definition zero_AutoscalingConfig :: AutoscalingConfig_mem where
  "zero_AutoscalingConfig = \<lparr>pas_MinNodes = None, pas_MaxNodes = None, pas_Shape = [], pas_ShapeConfig = None,
     pas_ImageID = [], pas_PoolIdentifier = [], pas_EnableRDMA = False, pas_RDMAComputeClusterID = [], pas_RDMAFailureDomain = []\<rparr>"

definition zero_CAPIConfig :: CAPIConfig where
  "zero_CAPIConfig = \<lparr>capi_ClusterName = []\<rparr>"

definition zero_ClusterAutoscalerConfig :: ClusterAutoscalerConfig_mem where
  "zero_ClusterAutoscalerConfig = \<lparr>pca_RepositoryURL = [], pca_Name = [], pca_ServiceAccountName = [], pca_CloudProvider = [],
     pca_CreateRBAC = None, pca_CreateServiceAccount = None, pca_Version = []\<rparr>"

definition zero_Spec :: Spec_mem where
  "zero_Spec = \<lparr>psp_Autoscaling = zero_AutoscalingConfig, psp_CAPI = zero_CAPIConfig,
     psp_ClusterAutoscaler = zero_ClusterAutoscalerConfig\<rparr>"

definition zero_Status :: Status_mem where
  "zero_Status = \<lparr>pst_Conditions = None, pst_Phase = [], pst_CAPIInstalled = False, pst_ClusterAutoscalerDeployed = False,
     pst_ObservedGeneration = 0\<rparr>"

definition zero_TypeMeta :: TypeMeta where
  "zero_TypeMeta = \<lparr>tm_Kind = [], tm_APIVersion = []\<rparr>"

definition zero_OwnerReference :: OwnerReference_mem where
  "zero_OwnerReference = \<lparr>pow_APIVersion = [], pow_Kind = [], pow_Name = [], pow_UID = [], pow_Controller = None,
     pow_BlockOwnerDeletion = None\<rparr>"

definition zero_ObjectMeta :: ObjectMeta_mem where
  "zero_ObjectMeta = \<lparr>pmd_Name = [], pmd_Namespace = [], pmd_Labels = None, pmd_Annotations = None,
     pmd_OwnerReferences = None, pmd_Generation = 0, pmd_Finalizers = None, pmd_CreationTimestamp = 0, pmd_DeletionTimestamp = None\<rparr>"

definition zero_Autoscaler :: Autoscaler_mem where
  "zero_Autoscaler = \<lparr>poca_TypeMeta = zero_TypeMeta, poca_ObjectMeta = zero_ObjectMeta, poca_Spec = zero_Spec, poca_Status = zero_Status\<rparr>"

definition zero_AutoscalerList :: AutoscalerList_mem where
  "zero_AutoscalerList = \<lparr>pol_TypeMeta = zero_TypeMeta,
     pol_ListMeta = \<lparr>plm_ResourceVersion = [], plm_Continue = [], plm_RemainingItemCount = None\<rparr>, pol_Items = None\<rparr>"

definition copy_int32 :: "ptr \<Rightarrow> mem \<Rightarrow> ptr \<times> mem" where
  "copy_int32 = new_copy CInt32 un_Int32 (CInt32 0) copy_value"

definition copy_int64 :: "ptr \<Rightarrow> mem \<Rightarrow> ptr \<times> mem" where
  "copy_int64 = new_copy CInt64 un_Int64 (CInt64 0) copy_value"

definition copy_bool :: "ptr \<Rightarrow> mem \<Rightarrow> ptr \<times> mem" where
  "copy_bool = new_copy CBool un_Bool (CBool False) copy_value"

definition copy_time :: "ptr \<Rightarrow> mem \<Rightarrow> ptr \<times> mem" where
  "copy_time = new_copy CTime un_Time (CTime 0) copy_value"

text \<open>A map is copied key by key into a new map, in any order.\<close>

definition copy_map :: "ptr \<Rightarrow> mem \<Rightarrow> ptr \<times> mem" where
  "copy_map = new_copy CMap un_Map (CMap fmempty) copy_value"

definition copy_strings :: "ptr \<Rightarrow> mem \<Rightarrow> ptr \<times> mem" where
  "copy_strings = make_copy CStrings un_Strings [] copy_value"

text \<open>The functions of the file: \<open>DeepCopyInto\<close> of each structure and \<open>DeepCopy\<close> of a pointer to it.\<close>

definition DeepCopyInto_ShapeConfig :: "ShapeConfig_mem \<Rightarrow> mem \<Rightarrow> ShapeConfig_mem \<times> mem" where
  "DeepCopyInto_ShapeConfig inp m =
     (let out = inp;
          (CPUs, m1) = copy_int32 (psc_CPUs inp) m;
          (Memory, m2) = copy_int32 (psc_Memory inp) m1
      in (out\<lparr>psc_CPUs := CPUs, psc_Memory := Memory\<rparr>, m2))"

definition DeepCopy_ShapeConfig :: "ptr \<Rightarrow> mem \<Rightarrow> ptr \<times> mem" where
  "DeepCopy_ShapeConfig = new_copy CShapeConfig un_ShapeConfig (CShapeConfig zero_ShapeConfig) DeepCopyInto_ShapeConfig"

definition DeepCopyInto_AutoscalingConfig :: "AutoscalingConfig_mem \<Rightarrow> mem \<Rightarrow> AutoscalingConfig_mem \<times> mem" where
  "DeepCopyInto_AutoscalingConfig inp m =
     (let out = inp;
          (MinNodes, m1) = copy_int32 (pas_MinNodes inp) m;
          (MaxNodes, m2) = copy_int32 (pas_MaxNodes inp) m1;
          (Shape, m3) = DeepCopy_ShapeConfig (pas_ShapeConfig inp) m2
      in (out\<lparr>pas_MinNodes := MinNodes, pas_MaxNodes := MaxNodes, pas_ShapeConfig := Shape\<rparr>, m3))"

definition DeepCopy_AutoscalingConfig :: "ptr \<Rightarrow> mem \<Rightarrow> ptr \<times> mem" where
  "DeepCopy_AutoscalingConfig = new_copy CAutoscalingConfig un_AutoscalingConfig (CAutoscalingConfig zero_AutoscalingConfig)
     DeepCopyInto_AutoscalingConfig"

definition DeepCopyInto_CAPIConfig :: "CAPIConfig \<Rightarrow> mem \<Rightarrow> CAPIConfig \<times> mem" where
  "DeepCopyInto_CAPIConfig inp m = (inp, m)"

definition DeepCopy_CAPIConfig :: "ptr \<Rightarrow> mem \<Rightarrow> ptr \<times> mem" where
  "DeepCopy_CAPIConfig = new_copy CCAPIConfig un_CAPIConfig (CCAPIConfig zero_CAPIConfig) DeepCopyInto_CAPIConfig"

definition DeepCopyInto_ClusterAutoscalerConfig ::
    "ClusterAutoscalerConfig_mem \<Rightarrow> mem \<Rightarrow> ClusterAutoscalerConfig_mem \<times> mem" where
  "DeepCopyInto_ClusterAutoscalerConfig inp m =
     (let out = inp;
          (CreateRBAC, m1) = copy_bool (pca_CreateRBAC inp) m;
          (CreateServiceAccount, m2) = copy_bool (pca_CreateServiceAccount inp) m1
      in (out\<lparr>pca_CreateRBAC := CreateRBAC, pca_CreateServiceAccount := CreateServiceAccount\<rparr>, m2))"

definition DeepCopy_ClusterAutoscalerConfig :: "ptr \<Rightarrow> mem \<Rightarrow> ptr \<times> mem" where
  "DeepCopy_ClusterAutoscalerConfig = new_copy CClusterAutoscalerConfig un_ClusterAutoscalerConfig
     (CClusterAutoscalerConfig zero_ClusterAutoscalerConfig) DeepCopyInto_ClusterAutoscalerConfig"

definition DeepCopyInto_Spec :: "Spec_mem \<Rightarrow> mem \<Rightarrow> Spec_mem \<times> mem" where
  "DeepCopyInto_Spec inp m =
     (let out = inp;
          (Autoscaling, m1) = DeepCopyInto_AutoscalingConfig (psp_Autoscaling inp) m;
          out1 = out\<lparr>psp_Autoscaling := Autoscaling, psp_CAPI := psp_CAPI inp\<rparr>;
          (ClusterAutoscaler, m2) = DeepCopyInto_ClusterAutoscalerConfig (psp_ClusterAutoscaler inp) m1
      in (out1\<lparr>psp_ClusterAutoscaler := ClusterAutoscaler\<rparr>, m2))"

definition DeepCopy_Spec :: "ptr \<Rightarrow> mem \<Rightarrow> ptr \<times> mem" where
  "DeepCopy_Spec = new_copy CSpec un_Spec (CSpec zero_Spec) DeepCopyInto_Spec"

text \<open>\<open>Condition\<close> and its time stamp have no pointers: their \<open>DeepCopyInto\<close> is an assignment. The zero element
  (whose status has no counterpart of the empty string) is overwritten before it is read.\<close>

definition DeepCopyInto_Status :: "Status_mem \<Rightarrow> mem \<Rightarrow> Status_mem \<times> mem" where
  "DeepCopyInto_Status inp m =
     (let out = inp;
          (Conditions, m1) = make_copy CConditions un_Conditions
             \<lparr>cond_Type = [], cond_Status = ConditionUnknown, cond_ObservedGeneration = 0, cond_LastTransitionTime = 0,
              cond_Reason = [], cond_Message = []\<rparr> copy_value (pst_Conditions inp) m
      in (out\<lparr>pst_Conditions := Conditions\<rparr>, m1))"

definition DeepCopy_Status :: "ptr \<Rightarrow> mem \<Rightarrow> ptr \<times> mem" where
  "DeepCopy_Status = new_copy CStatus un_Status (CStatus zero_Status) DeepCopyInto_Status"

definition DeepCopyInto_OwnerReference :: "OwnerReference_mem \<Rightarrow> mem \<Rightarrow> OwnerReference_mem \<times> mem" where
  "DeepCopyInto_OwnerReference inp m =
     (let out = inp;
          (Controller, m1) = copy_bool (pow_Controller inp) m;
          (BlockOwnerDeletion, m2) = copy_bool (pow_BlockOwnerDeletion inp) m1
      in (out\<lparr>pow_Controller := Controller, pow_BlockOwnerDeletion := BlockOwnerDeletion\<rparr>, m2))"

definition copy_owners :: "ptr \<Rightarrow> mem \<Rightarrow> ptr \<times> mem" where
  "copy_owners = make_copy COwners un_Owners zero_OwnerReference DeepCopyInto_OwnerReference"

definition DeepCopyInto_ObjectMeta :: "ObjectMeta_mem \<Rightarrow> mem \<Rightarrow> ObjectMeta_mem \<times> mem" where
  "DeepCopyInto_ObjectMeta inp m =
     (let out = inp;
          (Deletion, m1) = copy_time (pmd_DeletionTimestamp inp) m;
          (Labels, m2) = copy_map (pmd_Labels inp) m1;
          (Annotations, m3) = copy_map (pmd_Annotations inp) m2;
          (Owners, m4) = copy_owners (pmd_OwnerReferences inp) m3;
          (Finalizers, m5) = copy_strings (pmd_Finalizers inp) m4
      in (out\<lparr>pmd_DeletionTimestamp := Deletion, pmd_Labels := Labels, pmd_Annotations := Annotations,
              pmd_OwnerReferences := Owners, pmd_Finalizers := Finalizers\<rparr>, m5))"

definition DeepCopyInto_Autoscaler :: "Autoscaler_mem \<Rightarrow> mem \<Rightarrow> Autoscaler_mem \<times> mem" where
  "DeepCopyInto_Autoscaler inp m =
     (let out = inp\<lparr>poca_TypeMeta := poca_TypeMeta inp\<rparr>;
          (meta, m1) = DeepCopyInto_ObjectMeta (poca_ObjectMeta inp) m;
          (Spec, m2) = DeepCopyInto_Spec (poca_Spec inp) m1;
          (Status, m3) = DeepCopyInto_Status (poca_Status inp) m2
      in (out\<lparr>poca_ObjectMeta := meta, poca_Spec := Spec, poca_Status := Status\<rparr>, m3))"

text \<open>\<open>DeepCopy\<close> and \<open>DeepCopyObject\<close>, which only wraps the pointer.\<close>

definition DeepCopy_Autoscaler :: "ptr \<Rightarrow> mem \<Rightarrow> ptr \<times> mem" where
  "DeepCopy_Autoscaler = new_copy CAutoscaler un_Autoscaler (CAutoscaler zero_Autoscaler) DeepCopyInto_Autoscaler"

definition DeepCopyObject_Autoscaler :: "ptr \<Rightarrow> mem \<Rightarrow> ptr \<times> mem" where
  "DeepCopyObject_Autoscaler inp m =
     (case DeepCopy_Autoscaler inp m of (Some c, m') \<Rightarrow> (Some c, m') | (None, m') \<Rightarrow> (None, m'))"

definition DeepCopyInto_AutoscalerList :: "AutoscalerList_mem \<Rightarrow> mem \<Rightarrow> AutoscalerList_mem \<times> mem" where
  "DeepCopyInto_AutoscalerList inp m =
     (let out = inp\<lparr>pol_TypeMeta := pol_TypeMeta inp\<rparr>;
          (Remaining, m1) = copy_int64 (plm_RemainingItemCount (pol_ListMeta inp)) m;
          (Items, m2) = make_copy CAutoscalers un_Autoscalers zero_Autoscaler DeepCopyInto_Autoscaler (pol_Items inp) m1
      in (out\<lparr>pol_ListMeta := (pol_ListMeta out)\<lparr>plm_RemainingItemCount := Remaining\<rparr>, pol_Items := Items\<rparr>, m2))"

definition DeepCopy_AutoscalerList :: "ptr \<Rightarrow> mem \<Rightarrow> ptr \<times> mem" where
  "DeepCopy_AutoscalerList = new_copy CAutoscalerList un_AutoscalerList (CAutoscalerList zero_AutoscalerList)
     DeepCopyInto_AutoscalerList"

definition DeepCopyObject_AutoscalerList :: "ptr \<Rightarrow> mem \<Rightarrow> ptr \<times> mem" where
  "DeepCopyObject_AutoscalerList inp m =
     (case DeepCopy_AutoscalerList inp m of (Some c, m') \<Rightarrow> (Some c, m') | (None, m') \<Rightarrow> (None, m'))"

section \<open>What the structures stand for\<close>

text \<open>
  For every structure: the pointers that must be nil or refer to a cell of their type, the cells it reaches, and the value of
  \<open>Api_Types\<close> (with the type information, where there is one) it stands for. A nil slice or map and an empty one
  stand for the same value.
\<close>

definition ok_ShapeConfig :: "mem \<Rightarrow> ShapeConfig_mem \<Rightarrow> bool" where
  "ok_ShapeConfig m s \<longleftrightarrow> ok_at CInt32 un_Int32 ok_value m (psc_CPUs s) \<and> ok_at CInt32 un_Int32 ok_value m (psc_Memory s)"

definition addrs_ShapeConfig :: "mem \<Rightarrow> ShapeConfig_mem \<Rightarrow> addr list" where
  "addrs_ShapeConfig m s = addrs_at un_Int32 addrs_value m (psc_CPUs s) @ addrs_at un_Int32 addrs_value m (psc_Memory s)"

definition content_ShapeConfig :: "mem \<Rightarrow> ShapeConfig_mem \<Rightarrow> ShapeConfig" where
  "content_ShapeConfig m s = \<lparr>sc_CPUs = content_at un_Int32 content_value m (psc_CPUs s),
     sc_Memory = content_at un_Int32 content_value m (psc_Memory s)\<rparr>"

lemma deep_copier_int32: "deep_copier (ok_at CInt32 un_Int32 ok_value) (addrs_at un_Int32 addrs_value)
    (content_at un_Int32 content_value) copy_int32"
  unfolding copy_int32_def by (rule deep_copier_pointer) simp

interpretation ShapeConfig: deep_copier ok_ShapeConfig addrs_ShapeConfig content_ShapeConfig DeepCopyInto_ShapeConfig
  by (rule deep_copier_structure [OF deep_copier.pair [OF deep_copier_int32 deep_copier_int32],
        where get = "\<lambda>s. (psc_CPUs s, psc_Memory s)" and put = "\<lambda>(p, q) s. s\<lparr>psc_CPUs := p, psc_Memory := q\<rparr>"
          and build = "\<lambda>s (p, q). \<lparr>sc_CPUs = p, sc_Memory = q\<rparr>"])
    (auto simp: ok_ShapeConfig_def addrs_ShapeConfig_def content_ShapeConfig_def DeepCopyInto_ShapeConfig_def split: prod.splits)

lemma deep_copier_ShapeConfig: "deep_copier (ok_at CShapeConfig un_ShapeConfig ok_ShapeConfig)
    (addrs_at un_ShapeConfig addrs_ShapeConfig) (content_at un_ShapeConfig content_ShapeConfig) DeepCopy_ShapeConfig"
  unfolding DeepCopy_ShapeConfig_def by (rule ShapeConfig.pointer) simp

definition ok_AutoscalingConfig :: "mem \<Rightarrow> AutoscalingConfig_mem \<Rightarrow> bool" where
  "ok_AutoscalingConfig m s \<longleftrightarrow> ok_at CInt32 un_Int32 ok_value m (pas_MinNodes s) \<and>
     ok_at CInt32 un_Int32 ok_value m (pas_MaxNodes s) \<and> ok_at CShapeConfig un_ShapeConfig ok_ShapeConfig m (pas_ShapeConfig s)"

definition addrs_AutoscalingConfig :: "mem \<Rightarrow> AutoscalingConfig_mem \<Rightarrow> addr list" where
  "addrs_AutoscalingConfig m s = addrs_at un_Int32 addrs_value m (pas_MinNodes s) @
     addrs_at un_Int32 addrs_value m (pas_MaxNodes s) @ addrs_at un_ShapeConfig addrs_ShapeConfig m (pas_ShapeConfig s)"

definition content_AutoscalingConfig :: "mem \<Rightarrow> AutoscalingConfig_mem \<Rightarrow> AutoscalingConfig" where
  "content_AutoscalingConfig m s =
     \<lparr>as_MinNodes = content_at un_Int32 content_value m (pas_MinNodes s),
      as_MaxNodes = content_at un_Int32 content_value m (pas_MaxNodes s), as_Shape = pas_Shape s,
      as_ShapeConfig = content_at un_ShapeConfig content_ShapeConfig m (pas_ShapeConfig s),
      as_ImageID = pas_ImageID s, as_PoolIdentifier = pas_PoolIdentifier s, as_EnableRDMA = pas_EnableRDMA s,
      as_RDMAComputeClusterID = pas_RDMAComputeClusterID s, as_RDMAFailureDomain = pas_RDMAFailureDomain s\<rparr>"

interpretation AutoscalingConfig: deep_copier ok_AutoscalingConfig addrs_AutoscalingConfig content_AutoscalingConfig
    DeepCopyInto_AutoscalingConfig
  by (rule deep_copier_structure [OF deep_copier.pair [OF deep_copier_int32 deep_copier.pair [OF deep_copier_int32 deep_copier_ShapeConfig]],
        where get = "\<lambda>s. (pas_MinNodes s, pas_MaxNodes s, pas_ShapeConfig s)"
          and put = "\<lambda>(p, q, r) s. s\<lparr>pas_MinNodes := p, pas_MaxNodes := q, pas_ShapeConfig := r\<rparr>"
          and build = "\<lambda>s (p, q, r). \<lparr>as_MinNodes = p, as_MaxNodes = q, as_Shape = pas_Shape s, as_ShapeConfig = r,
            as_ImageID = pas_ImageID s, as_PoolIdentifier = pas_PoolIdentifier s, as_EnableRDMA = pas_EnableRDMA s,
            as_RDMAComputeClusterID = pas_RDMAComputeClusterID s, as_RDMAFailureDomain = pas_RDMAFailureDomain s\<rparr>"])
    (auto simp: ok_AutoscalingConfig_def addrs_AutoscalingConfig_def content_AutoscalingConfig_def DeepCopyInto_AutoscalingConfig_def
      split: prod.splits)

definition ok_ClusterAutoscalerConfig :: "mem \<Rightarrow> ClusterAutoscalerConfig_mem \<Rightarrow> bool" where
  "ok_ClusterAutoscalerConfig m s \<longleftrightarrow> ok_at CBool un_Bool ok_value m (pca_CreateRBAC s) \<and>
     ok_at CBool un_Bool ok_value m (pca_CreateServiceAccount s)"

definition addrs_ClusterAutoscalerConfig :: "mem \<Rightarrow> ClusterAutoscalerConfig_mem \<Rightarrow> addr list" where
  "addrs_ClusterAutoscalerConfig m s = addrs_at un_Bool addrs_value m (pca_CreateRBAC s) @
     addrs_at un_Bool addrs_value m (pca_CreateServiceAccount s)"

definition content_ClusterAutoscalerConfig :: "mem \<Rightarrow> ClusterAutoscalerConfig_mem \<Rightarrow> ClusterAutoscalerConfig" where
  "content_ClusterAutoscalerConfig m s =
     \<lparr>ca_RepositoryURL = pca_RepositoryURL s, ca_Name = pca_Name s, ca_ServiceAccountName = pca_ServiceAccountName s,
      ca_CloudProvider = pca_CloudProvider s, ca_CreateRBAC = content_at un_Bool content_value m (pca_CreateRBAC s),
      ca_CreateServiceAccount = content_at un_Bool content_value m (pca_CreateServiceAccount s), ca_Version = pca_Version s\<rparr>"

lemma deep_copier_bool: "deep_copier (ok_at CBool un_Bool ok_value) (addrs_at un_Bool addrs_value)
    (content_at un_Bool content_value) copy_bool"
  unfolding copy_bool_def by (rule deep_copier_pointer) simp

interpretation ClusterAutoscalerConfig: deep_copier ok_ClusterAutoscalerConfig addrs_ClusterAutoscalerConfig
    content_ClusterAutoscalerConfig DeepCopyInto_ClusterAutoscalerConfig
  by (rule deep_copier_structure [OF deep_copier.pair [OF deep_copier_bool deep_copier_bool],
        where get = "\<lambda>s. (pca_CreateRBAC s, pca_CreateServiceAccount s)"
          and put = "\<lambda>(p, q) s. s\<lparr>pca_CreateRBAC := p, pca_CreateServiceAccount := q\<rparr>"
          and build = "\<lambda>s (p, q). \<lparr>ca_RepositoryURL = pca_RepositoryURL s, ca_Name = pca_Name s,
            ca_ServiceAccountName = pca_ServiceAccountName s, ca_CloudProvider = pca_CloudProvider s, ca_CreateRBAC = p,
            ca_CreateServiceAccount = q, ca_Version = pca_Version s\<rparr>"])
    (auto simp: ok_ClusterAutoscalerConfig_def addrs_ClusterAutoscalerConfig_def content_ClusterAutoscalerConfig_def
      DeepCopyInto_ClusterAutoscalerConfig_def split: prod.splits)

definition ok_Spec :: "mem \<Rightarrow> Spec_mem \<Rightarrow> bool" where
  "ok_Spec m s \<longleftrightarrow> ok_AutoscalingConfig m (psp_Autoscaling s) \<and> ok_ClusterAutoscalerConfig m (psp_ClusterAutoscaler s)"

definition addrs_Spec :: "mem \<Rightarrow> Spec_mem \<Rightarrow> addr list" where
  "addrs_Spec m s = addrs_AutoscalingConfig m (psp_Autoscaling s) @ addrs_ClusterAutoscalerConfig m (psp_ClusterAutoscaler s)"

definition content_Spec :: "mem \<Rightarrow> Spec_mem \<Rightarrow> OCIClusterAutoscalerSpec" where
  "content_Spec m s = \<lparr>spec_Autoscaling = content_AutoscalingConfig m (psp_Autoscaling s), spec_CAPI = psp_CAPI s,
     spec_ClusterAutoscaler = content_ClusterAutoscalerConfig m (psp_ClusterAutoscaler s)\<rparr>"

interpretation Spec: deep_copier ok_Spec addrs_Spec content_Spec DeepCopyInto_Spec
  by (rule deep_copier_structure [OF deep_copier.pair [OF AutoscalingConfig.deep_copier_axioms ClusterAutoscalerConfig.deep_copier_axioms],
        where get = "\<lambda>s. (psp_Autoscaling s, psp_ClusterAutoscaler s)"
          and put = "\<lambda>(p, q) s. s\<lparr>psp_Autoscaling := p, psp_ClusterAutoscaler := q\<rparr>"
          and build = "\<lambda>s (p, q). \<lparr>spec_Autoscaling = p, spec_CAPI = psp_CAPI s, spec_ClusterAutoscaler = q\<rparr>"])
    (auto simp: ok_Spec_def addrs_Spec_def content_Spec_def DeepCopyInto_Spec_def split: prod.splits)

definition or_empty :: "'v list option \<Rightarrow> 'v list" where
  "or_empty l = (case l of None \<Rightarrow> [] | Some xs \<Rightarrow> xs)"

definition ok_Status :: "mem \<Rightarrow> Status_mem \<Rightarrow> bool" where
  "ok_Status m s \<longleftrightarrow> ok_at CConditions un_Conditions (ok_all ok_value) m (pst_Conditions s)"

definition addrs_Status :: "mem \<Rightarrow> Status_mem \<Rightarrow> addr list" where
  "addrs_Status m s = addrs_at un_Conditions (addrs_all addrs_value) m (pst_Conditions s)"

definition content_Status :: "mem \<Rightarrow> Status_mem \<Rightarrow> OCIClusterAutoscalerStatus" where
  "content_Status m s =
     \<lparr>st_Conditions = or_empty (content_at un_Conditions (content_all content_value) m (pst_Conditions s)), st_Phase = pst_Phase s,
      st_CAPIInstalled = pst_CAPIInstalled s, st_ClusterAutoscalerDeployed = pst_ClusterAutoscalerDeployed s,
      st_ObservedGeneration = pst_ObservedGeneration s\<rparr>"

interpretation Status: deep_copier ok_Status addrs_Status content_Status DeepCopyInto_Status
  by (rule deep_copier_structure [OF deep_copier_slice,
        where get = pst_Conditions and put = "\<lambda>p s. s\<lparr>pst_Conditions := p\<rparr>"
          and build = "\<lambda>s cs. \<lparr>st_Conditions = or_empty cs, st_Phase = pst_Phase s, st_CAPIInstalled = pst_CAPIInstalled s,
            st_ClusterAutoscalerDeployed = pst_ClusterAutoscalerDeployed s, st_ObservedGeneration = pst_ObservedGeneration s\<rparr>"])
    (auto simp: ok_Status_def addrs_Status_def content_Status_def DeepCopyInto_Status_def split: prod.splits)

definition ok_OwnerReference :: "mem \<Rightarrow> OwnerReference_mem \<Rightarrow> bool" where
  "ok_OwnerReference m s \<longleftrightarrow> ok_at CBool un_Bool ok_value m (pow_Controller s) \<and>
     ok_at CBool un_Bool ok_value m (pow_BlockOwnerDeletion s)"

definition addrs_OwnerReference :: "mem \<Rightarrow> OwnerReference_mem \<Rightarrow> addr list" where
  "addrs_OwnerReference m s = addrs_at un_Bool addrs_value m (pow_Controller s) @
     addrs_at un_Bool addrs_value m (pow_BlockOwnerDeletion s)"

definition content_OwnerReference :: "mem \<Rightarrow> OwnerReference_mem \<Rightarrow> OwnerReference" where
  "content_OwnerReference m s =
     \<lparr>owr_APIVersion = pow_APIVersion s, owr_Kind = pow_Kind s, owr_Name = pow_Name s, owr_UID = pow_UID s,
      owr_Controller = content_at un_Bool content_value m (pow_Controller s),
      owr_BlockOwnerDeletion = content_at un_Bool content_value m (pow_BlockOwnerDeletion s)\<rparr>"

interpretation OwnerReference: deep_copier ok_OwnerReference addrs_OwnerReference content_OwnerReference
    DeepCopyInto_OwnerReference
  by (rule deep_copier_structure [OF deep_copier.pair [OF deep_copier_bool deep_copier_bool],
        where get = "\<lambda>s. (pow_Controller s, pow_BlockOwnerDeletion s)"
          and put = "\<lambda>(p, q) s. s\<lparr>pow_Controller := p, pow_BlockOwnerDeletion := q\<rparr>"
          and build = "\<lambda>s (p, q). \<lparr>owr_APIVersion = pow_APIVersion s, owr_Kind = pow_Kind s, owr_Name = pow_Name s,
            owr_UID = pow_UID s, owr_Controller = p, owr_BlockOwnerDeletion = q\<rparr>"])
    (auto simp: ok_OwnerReference_def addrs_OwnerReference_def content_OwnerReference_def DeepCopyInto_OwnerReference_def
      split: prod.splits)

definition ok_ObjectMeta :: "mem \<Rightarrow> ObjectMeta_mem \<Rightarrow> bool" where
  "ok_ObjectMeta m s \<longleftrightarrow> ok_at CTime un_Time ok_value m (pmd_DeletionTimestamp s) \<and> ok_at CMap un_Map ok_value m (pmd_Labels s) \<and>
     ok_at CMap un_Map ok_value m (pmd_Annotations s) \<and> ok_at COwners un_Owners (ok_all ok_OwnerReference) m (pmd_OwnerReferences s) \<and>
     ok_at CStrings un_Strings (ok_all ok_value) m (pmd_Finalizers s)"

definition addrs_ObjectMeta :: "mem \<Rightarrow> ObjectMeta_mem \<Rightarrow> addr list" where
  "addrs_ObjectMeta m s = addrs_at un_Time addrs_value m (pmd_DeletionTimestamp s) @ addrs_at un_Map addrs_value m (pmd_Labels s) @
     addrs_at un_Map addrs_value m (pmd_Annotations s) @
     addrs_at un_Owners (addrs_all addrs_OwnerReference) m (pmd_OwnerReferences s) @ addrs_at un_Strings (addrs_all addrs_value) m (pmd_Finalizers s)"

definition content_ObjectMeta :: "mem \<Rightarrow> ObjectMeta_mem \<Rightarrow> objmeta" where
  "content_ObjectMeta m s =
     \<lparr>md_Name = pmd_Name s, md_Namespace = pmd_Namespace s,
      md_Labels = case_option fmempty id (content_at un_Map content_value m (pmd_Labels s)),
      md_Annotations = case_option fmempty id (content_at un_Map content_value m (pmd_Annotations s)),
      md_OwnerReferences = or_empty (content_at un_Owners (content_all content_OwnerReference) m (pmd_OwnerReferences s)),
      md_Generation = pmd_Generation s,
      md_Finalizers = or_empty (content_at un_Strings (content_all content_value) m (pmd_Finalizers s)),
      md_CreationTimestamp = pmd_CreationTimestamp s,
      md_DeletionTimestamp = content_at un_Time content_value m (pmd_DeletionTimestamp s)\<rparr>"

lemma deep_copier_parts:
  "deep_copier (ok_at CTime un_Time ok_value) (addrs_at un_Time addrs_value) (content_at un_Time content_value) copy_time"
  "deep_copier (ok_at CMap un_Map ok_value) (addrs_at un_Map addrs_value) (content_at un_Map content_value) copy_map"
  "deep_copier (ok_at CInt64 un_Int64 ok_value) (addrs_at un_Int64 addrs_value) (content_at un_Int64 content_value) copy_int64"
  "deep_copier (ok_at CStrings un_Strings (ok_all ok_value)) (addrs_at un_Strings (addrs_all addrs_value))
    (content_at un_Strings (content_all content_value)) copy_strings"
  unfolding copy_time_def copy_map_def copy_int64_def copy_strings_def
  by (rule deep_copier_pointer deep_copier_slice; simp)+

lemma deep_copier_owners: "deep_copier (ok_at COwners un_Owners (ok_all ok_OwnerReference))
    (addrs_at un_Owners (addrs_all addrs_OwnerReference)) (content_at un_Owners (content_all content_OwnerReference)) copy_owners"
  unfolding copy_owners_def by (rule OwnerReference.slice) simp

interpretation ObjectMeta: deep_copier ok_ObjectMeta addrs_ObjectMeta content_ObjectMeta DeepCopyInto_ObjectMeta
  by (rule deep_copier_structure [OF deep_copier.pair [OF deep_copier_parts(1) deep_copier.pair [OF deep_copier_parts(2)
          deep_copier.pair [OF deep_copier_parts(2) deep_copier.pair [OF deep_copier_owners deep_copier_parts(4)]]]],
        where get = "\<lambda>s. (pmd_DeletionTimestamp s, pmd_Labels s, pmd_Annotations s, pmd_OwnerReferences s, pmd_Finalizers s)"
          and put = "\<lambda>(d, l, a, w, f) s. s\<lparr>pmd_DeletionTimestamp := d, pmd_Labels := l, pmd_Annotations := a,
            pmd_OwnerReferences := w, pmd_Finalizers := f\<rparr>"
          and build = "\<lambda>s (d, l, a, w, f). \<lparr>md_Name = pmd_Name s, md_Namespace = pmd_Namespace s, md_Labels = case_option fmempty id l,
            md_Annotations = case_option fmempty id a, md_OwnerReferences = or_empty w, md_Generation = pmd_Generation s, md_Finalizers = or_empty f,
            md_CreationTimestamp = pmd_CreationTimestamp s, md_DeletionTimestamp = d\<rparr>"])
    (auto simp: ok_ObjectMeta_def addrs_ObjectMeta_def content_ObjectMeta_def DeepCopyInto_ObjectMeta_def split: prod.splits)

definition ok_Autoscaler :: "mem \<Rightarrow> Autoscaler_mem \<Rightarrow> bool" where
  "ok_Autoscaler m s \<longleftrightarrow> ok_ObjectMeta m (poca_ObjectMeta s) \<and> ok_Spec m (poca_Spec s) \<and> ok_Status m (poca_Status s)"

definition addrs_Autoscaler :: "mem \<Rightarrow> Autoscaler_mem \<Rightarrow> addr list" where
  "addrs_Autoscaler m s = addrs_ObjectMeta m (poca_ObjectMeta s) @ addrs_Spec m (poca_Spec s) @ addrs_Status m (poca_Status s)"

definition content_Autoscaler :: "mem \<Rightarrow> Autoscaler_mem \<Rightarrow> TypeMeta \<times> OCIClusterAutoscaler" where
  "content_Autoscaler m s = (poca_TypeMeta s, \<lparr>oca_meta = content_ObjectMeta m (poca_ObjectMeta s),
     oca_Spec = content_Spec m (poca_Spec s), oca_Status = content_Status m (poca_Status s)\<rparr>)"

interpretation Autoscaler: deep_copier ok_Autoscaler addrs_Autoscaler content_Autoscaler DeepCopyInto_Autoscaler
  by (rule deep_copier_structure [OF deep_copier.pair [OF ObjectMeta.deep_copier_axioms
          deep_copier.pair [OF Spec.deep_copier_axioms Status.deep_copier_axioms]],
        where get = "\<lambda>s. (poca_ObjectMeta s, poca_Spec s, poca_Status s)"
          and put = "\<lambda>(p, q, r) s. s\<lparr>poca_ObjectMeta := p, poca_Spec := q, poca_Status := r\<rparr>"
          and build = "\<lambda>s (p, q, r). (poca_TypeMeta s, \<lparr>oca_meta = p, oca_Spec = q, oca_Status = r\<rparr>)"])
    (auto simp: ok_Autoscaler_def addrs_Autoscaler_def content_Autoscaler_def DeepCopyInto_Autoscaler_def split: prod.splits)

record AutoscalerList =
  al_TypeMeta :: TypeMeta
  al_ResourceVersion :: string
  al_Continue :: string
  al_RemainingItemCount :: "int option"
  al_Items :: "(TypeMeta \<times> OCIClusterAutoscaler) list"

definition ok_AutoscalerList :: "mem \<Rightarrow> AutoscalerList_mem \<Rightarrow> bool" where
  "ok_AutoscalerList m s \<longleftrightarrow> ok_at CInt64 un_Int64 ok_value m (plm_RemainingItemCount (pol_ListMeta s)) \<and>
     ok_at CAutoscalers un_Autoscalers (ok_all ok_Autoscaler) m (pol_Items s)"

definition addrs_AutoscalerList :: "mem \<Rightarrow> AutoscalerList_mem \<Rightarrow> addr list" where
  "addrs_AutoscalerList m s = addrs_at un_Int64 addrs_value m (plm_RemainingItemCount (pol_ListMeta s)) @
     addrs_at un_Autoscalers (addrs_all addrs_Autoscaler) m (pol_Items s)"

definition content_AutoscalerList :: "mem \<Rightarrow> AutoscalerList_mem \<Rightarrow> AutoscalerList" where
  "content_AutoscalerList m s =
     \<lparr>al_TypeMeta = pol_TypeMeta s, al_ResourceVersion = plm_ResourceVersion (pol_ListMeta s),
      al_Continue = plm_Continue (pol_ListMeta s),
      al_RemainingItemCount = content_at un_Int64 content_value m (plm_RemainingItemCount (pol_ListMeta s)),
      al_Items = or_empty (content_at un_Autoscalers (content_all content_Autoscaler) m (pol_Items s))\<rparr>"

lemma deep_copier_items: "deep_copier (ok_at CAutoscalers un_Autoscalers (ok_all ok_Autoscaler))
    (addrs_at un_Autoscalers (addrs_all addrs_Autoscaler)) (content_at un_Autoscalers (content_all content_Autoscaler))
    (make_copy CAutoscalers un_Autoscalers zero_Autoscaler DeepCopyInto_Autoscaler)"
  by (rule Autoscaler.slice) simp

interpretation AutoscalerList: deep_copier ok_AutoscalerList addrs_AutoscalerList content_AutoscalerList DeepCopyInto_AutoscalerList
  by (rule deep_copier_structure [OF deep_copier.pair [OF deep_copier_parts(3) deep_copier_items],
        where get = "\<lambda>s. (plm_RemainingItemCount (pol_ListMeta s), pol_Items s)"
          and put = "\<lambda>(p, q) s. s\<lparr>pol_ListMeta := (pol_ListMeta s)\<lparr>plm_RemainingItemCount := p\<rparr>, pol_Items := q\<rparr>"
          and build = "\<lambda>s (p, q). \<lparr>al_TypeMeta = pol_TypeMeta s, al_ResourceVersion = plm_ResourceVersion (pol_ListMeta s),
            al_Continue = plm_Continue (pol_ListMeta s), al_RemainingItemCount = p, al_Items = or_empty q\<rparr>"])
    (auto simp: ok_AutoscalerList_def addrs_AutoscalerList_def content_AutoscalerList_def DeepCopyInto_AutoscalerList_def
      split: prod.splits)

text \<open>The pointers that \<open>DeepCopyObject\<close> takes and returns.\<close>

lemma deep_copier_lists: "deep_copier (ok_at CAutoscalerList un_AutoscalerList ok_AutoscalerList)
    (addrs_at un_AutoscalerList addrs_AutoscalerList) (content_at un_AutoscalerList content_AutoscalerList) DeepCopyObject_AutoscalerList"
proof -
  have e: "DeepCopyObject_AutoscalerList = DeepCopy_AutoscalerList"
    by (intro ext) (simp add: DeepCopyObject_AutoscalerList_def split: prod.split option.split)
  show ?thesis unfolding e DeepCopy_AutoscalerList_def by (rule AutoscalerList.pointer) simp
qed

interpretation Lists: deep_copier "ok_at CAutoscalerList un_AutoscalerList ok_AutoscalerList"
    "addrs_at un_AutoscalerList addrs_AutoscalerList" "content_at un_AutoscalerList content_AutoscalerList"
    DeepCopyObject_AutoscalerList
  by (rule deep_copier_lists)

interpretation Statuses: deep_copier "ok_at CStatus un_Status ok_Status" "addrs_at un_Status addrs_Status"
    "content_at un_Status content_Status" DeepCopy_Status
  unfolding DeepCopy_Status_def by (rule Status.pointer) simp

section \<open>Status updates in place\<close>

text \<open>
  \<open>SetStatusCondition\<close> with its pointer into the slice: \<open>FindStatusCondition\<close> returns the address of an element, and the
  fields are assigned there. The resource's \<open>Status\<close> is the cell at address \<open>a\<close>, whose field \<open>Conditions\<close> the call updates.
\<close>

fun condition_index :: "Condition list \<Rightarrow> string \<Rightarrow> nat option" where
  "condition_index [] t = None"
| "condition_index (c # cs) t = (if cond_Type c = t then Some 0 else map_option Suc (condition_index cs t))"

definition assign_condition :: "time \<Rightarrow> Condition \<Rightarrow> Condition \<Rightarrow> Condition" where
  "assign_condition now new c0 =
     (let c1 = (if cond_Status c0 \<noteq> cond_Status new then
                  c0\<lparr>cond_Status := cond_Status new, cond_LastTransitionTime :=
                     (if cond_LastTransitionTime new \<noteq> 0 then cond_LastTransitionTime new else now)\<rparr> else c0);
          c2 = (if cond_Reason c1 \<noteq> cond_Reason new then c1\<lparr>cond_Reason := cond_Reason new\<rparr> else c1);
          c3 = (if cond_Message c2 \<noteq> cond_Message new then c2\<lparr>cond_Message := cond_Message new\<rparr> else c2)
      in if cond_ObservedGeneration c3 \<noteq> cond_ObservedGeneration new
         then c3\<lparr>cond_ObservedGeneration := cond_ObservedGeneration new\<rparr> else c3)"

definition slice_conditions :: "mem \<Rightarrow> ptr \<Rightarrow> Condition list" where
  "slice_conditions m p = (case p of None \<Rightarrow> [] | Some b \<Rightarrow> un_Conditions (m ! b))"

definition SetStatusCondition_mem :: "time \<Rightarrow> Condition \<Rightarrow> addr \<Rightarrow> mem \<Rightarrow> mem" where
  "SetStatusCondition_mem now new a m =
     (let st = un_Status (m ! a); cs = slice_conditions m (pst_Conditions st)
      in case (condition_index cs (cond_Type new), pst_Conditions st) of
           (Some i, Some b) \<Rightarrow> store b (CConditions (cs[i := assign_condition now new (cs ! i)])) m
         | _ \<Rightarrow>
            (let new1 = (if cond_LastTransitionTime new = 0 then new\<lparr>cond_LastTransitionTime := now\<rparr> else new);
                 (b, m1) = new_cell (CConditions (cs @ [new1])) m
             in store a (CStatus (st\<lparr>pst_Conditions := Some b\<rparr>)) m1))"

definition setAutoscalerCondition_mem ::
    "time \<Rightarrow> int \<Rightarrow> addr \<Rightarrow> string \<Rightarrow> condition_status \<Rightarrow> string \<Rightarrow> string \<Rightarrow> mem \<Rightarrow> mem" where
  "setAutoscalerCondition_mem now generation a ct st reason message m =
     SetStatusCondition_mem now
       \<lparr>cond_Type = ct, cond_Status = st, cond_ObservedGeneration = generation,
        cond_LastTransitionTime = 0, cond_Reason = reason, cond_Message = message\<rparr> a m"

text \<open>The assignments to the status that a reconcile makes, and \<open>reflect.DeepEqual\<close> of two statuses.\<close>

datatype status_step =
    SetCondition time string condition_status string string
  | SetPhase string
  | SetCAPIInstalled bool
  | SetDeployed bool
  | SetObservedGeneration

fun step_mem :: "int \<Rightarrow> addr \<Rightarrow> status_step \<Rightarrow> mem \<Rightarrow> mem" where
  "step_mem generation a (SetCondition now ct st r msg) m = setAutoscalerCondition_mem now generation a ct st r msg m"
| "step_mem generation a (SetPhase ph) m = store a (CStatus ((un_Status (m ! a))\<lparr>pst_Phase := ph\<rparr>)) m"
| "step_mem generation a (SetCAPIInstalled b) m = store a (CStatus ((un_Status (m ! a))\<lparr>pst_CAPIInstalled := b\<rparr>)) m"
| "step_mem generation a (SetDeployed b) m = store a (CStatus ((un_Status (m ! a))\<lparr>pst_ClusterAutoscalerDeployed := b\<rparr>)) m"
| "step_mem generation a SetObservedGeneration m =
     store a (CStatus ((un_Status (m ! a))\<lparr>pst_ObservedGeneration := generation\<rparr>)) m"

fun step_value :: "status_step \<Rightarrow> OCIClusterAutoscaler \<Rightarrow> OCIClusterAutoscaler" where
  "step_value (SetCondition now ct st r msg) i = setAutoscalerCondition now i ct st r msg"
| "step_value (SetPhase ph) i = set_Phase ph i"
| "step_value (SetCAPIInstalled b) i = set_CAPIInstalled b i"
| "step_value (SetDeployed b) i = set_Deployed b i"
| "step_value SetObservedGeneration i = set_ObservedGeneration i"

definition DeepEqual_Status :: "mem \<Rightarrow> addr \<Rightarrow> addr \<Rightarrow> bool" where
  "DeepEqual_Status m a b =
     (let s = un_Status (m ! a); t = un_Status (m ! b)
      in (pst_Conditions s = None \<longleftrightarrow> pst_Conditions t = None) \<and>
         slice_conditions m (pst_Conditions s) = slice_conditions m (pst_Conditions t) \<and>
         pst_Phase s = pst_Phase t \<and> pst_CAPIInstalled s = pst_CAPIInstalled t \<and>
         pst_ClusterAutoscalerDeployed s = pst_ClusterAutoscalerDeployed t \<and> pst_ObservedGeneration s = pst_ObservedGeneration t)"

lemma condition_index_Find: "condition_index cs t = None \<longleftrightarrow> FindStatusCondition cs t = None"
  by (induction cs) auto

lemma assign_condition_update:
  "cond_LastTransitionTime new = 0 \<Longrightarrow> condition_index cs (cond_Type new) = Some i \<Longrightarrow>
    i < length cs \<and> cs[i := assign_condition now new (cs ! i)] = update_condition now new cs"
  by (induction cs arbitrary: i) (auto simp: assign_condition_def Let_def)

lemma all_values [simp]:
  "ok_all ok_value m xs" "addrs_all addrs_value m xs = []" "content_all content_value m xs = xs"
  by (simp_all add: all_defs value_defs list_all_iff) (induction xs; simp add: content_value_def)

lemma slice_conditions_content:
  "or_empty (content_at un_Conditions (content_all content_value) m p) = slice_conditions m p"
  by (cases p) (simp_all add: or_empty_def at_defs slice_conditions_def)

lemma content_Status_fields:
  "st_Phase (content_Status m s) = pst_Phase s" "st_CAPIInstalled (content_Status m s) = pst_CAPIInstalled s"
  "st_ClusterAutoscalerDeployed (content_Status m s) = pst_ClusterAutoscalerDeployed s"
  "st_ObservedGeneration (content_Status m s) = pst_ObservedGeneration s"
  "st_Conditions (content_Status m s) = slice_conditions m (pst_Conditions s)"
  by (simp_all add: content_Status_def slice_conditions_content)

text \<open>The cell at \<open>a\<close> is a status, and what it stands for is the status of the resource \<open>i\<close>.\<close>

definition status_at :: "mem \<Rightarrow> addr \<Rightarrow> OCIClusterAutoscaler \<Rightarrow> bool" where
  "status_at m a i \<longleftrightarrow> ok_at CStatus un_Status ok_Status m (Some a) \<and> content_Status m (un_Status (m ! a)) = oca_Status i"

lemma status_atE:
  assumes "status_at m a i"
  obtains s where "a < length m" "m ! a = CStatus s" "pst_Phase s = oca_Phase i" "pst_CAPIInstalled s = st_CAPIInstalled (oca_Status i)"
    "pst_ClusterAutoscalerDeployed s = st_ClusterAutoscalerDeployed (oca_Status i)"
    "pst_ObservedGeneration s = st_ObservedGeneration (oca_Status i)" "slice_conditions m (pst_Conditions s) = oca_Conditions i"
    "\<And>b. pst_Conditions s = Some b \<Longrightarrow> b < length m \<and> b \<noteq> a \<and> m ! b = CConditions (oca_Conditions i)"
proof -
  from assms have w: "a < length m" "CStatus (un_Status (m ! a)) = m ! a" "ok_Status m (un_Status (m ! a))"
    "content_Status m (un_Status (m ! a)) = oca_Status i" by (auto simp: status_at_def ok_at_def)
  note f = content_Status_fields [of m "un_Status (m ! a)", unfolded w(4), symmetric]
  have b: "b < length m \<and> b \<noteq> a \<and> m ! b = CConditions (oca_Conditions i)" if "pst_Conditions (un_Status (m ! a)) = Some b" for b
  proof -
    from w(3) that have k: "b < length m" "CConditions (un_Conditions (m ! b)) = m ! b" by (auto simp: ok_Status_def ok_at_def)
    moreover have "b \<noteq> a" using k(2) w(2) by (cases "m ! a") auto
    ultimately show ?thesis using f(5) that by (simp add: slice_conditions_def)
  qed
  show thesis by (rule that [OF w(1) w(2) [symmetric] f b])
qed

lemma status_atI:
  assumes "a < length m" "m ! a = CStatus s" "pst_Phase s = oca_Phase i" "pst_CAPIInstalled s = st_CAPIInstalled (oca_Status i)"
    "pst_ClusterAutoscalerDeployed s = st_ClusterAutoscalerDeployed (oca_Status i)"
    "pst_ObservedGeneration s = st_ObservedGeneration (oca_Status i)" "slice_conditions m (pst_Conditions s) = oca_Conditions i"
    "\<And>b. pst_Conditions s = Some b \<Longrightarrow> b < length m \<and> m ! b = CConditions (oca_Conditions i)"
  shows "status_at m a i"
  using assms by (cases "pst_Conditions s")
    (auto simp: status_at_def ok_at_def ok_Status_def content_Status_def slice_conditions_content)

text \<open>
  One step: the status stands for the updated value, only the cells of the status change, and its conditions are
  afterwards nil only when they were, and never a new empty slice.
\<close>

definition conditions_nil :: "mem \<Rightarrow> addr \<Rightarrow> bool" where
  "conditions_nil m a \<longleftrightarrow> pst_Conditions (un_Status (m ! a)) = None"

definition status_addrs :: "mem \<Rightarrow> addr \<Rightarrow> addr set" where
  "status_addrs m a = set (addrs_at un_Status addrs_Status m (Some a))"

lemma status_addrs_eq:
  "status_addrs m a = insert a (case pst_Conditions (un_Status (m ! a)) of None \<Rightarrow> {} | Some b \<Rightarrow> {b})"
  by (auto simp: status_addrs_def addrs_at_def addrs_Status_def split: option.splits)

definition step_kept :: "mem \<Rightarrow> addr \<Rightarrow> mem \<Rightarrow> bool" where
  "step_kept m a m' \<longleftrightarrow> length m \<le> length m' \<and> same_at ({..<length m} - status_addrs m a) m m' \<and>
     status_addrs m' a \<subseteq> status_addrs m a \<union> {length m..}"

lemma store_status:
  assumes "status_at m a i" "pst_Conditions s' = pst_Conditions (un_Status (m ! a))"
    "pst_Phase s' = oca_Phase i'" "pst_CAPIInstalled s' = st_CAPIInstalled (oca_Status i')"
    "pst_ClusterAutoscalerDeployed s' = st_ClusterAutoscalerDeployed (oca_Status i')"
    "pst_ObservedGeneration s' = st_ObservedGeneration (oca_Status i')" "oca_Conditions i' = oca_Conditions i"
  shows "status_at (store a (CStatus s') m) a i'" "step_kept m a (store a (CStatus s') m)"
    "conditions_nil (store a (CStatus s') m) a = conditions_nil m a"
proof -
  from assms(1) obtain s where s: "a < length m" "m ! a = CStatus s" "slice_conditions m (pst_Conditions s) = oca_Conditions i"
    "\<And>b. pst_Conditions s = Some b \<Longrightarrow> b < length m \<and> b \<noteq> a \<and> m ! b = CConditions (oca_Conditions i)" by (rule status_atE) blast
  show "status_at (store a (CStatus s') m) a i'"
    by (rule status_atI [where s = s'], insert s assms)
      (auto simp: store_def slice_conditions_def nth_list_update split: option.splits)
  show "step_kept m a (store a (CStatus s') m)" using s assms(2)
    by (auto simp: step_kept_def status_addrs_eq same_at_def store_def nth_list_update)
  show "conditions_nil (store a (CStatus s') m) a = conditions_nil m a" using s assms(2) by (simp add: conditions_nil_def store_def)
qed

lemma set_condition_mem:
  assumes st: "status_at m a i" and z: "cond_LastTransitionTime new = 0"
    and i': "i' = set_Conditions (SetStatusCondition now (oca_Conditions i) new) i" and m': "m' = SetStatusCondition_mem now new a m"
  shows "status_at m' a i'" "step_kept m a m'" "\<not> conditions_nil m' a" "oca_Conditions i' \<noteq> []"
proof -
  from st obtain s where s: "a < length m" "m ! a = CStatus s" "pst_Phase s = oca_Phase i"
    "pst_CAPIInstalled s = st_CAPIInstalled (oca_Status i)"
    "pst_ClusterAutoscalerDeployed s = st_ClusterAutoscalerDeployed (oca_Status i)"
    "pst_ObservedGeneration s = st_ObservedGeneration (oca_Status i)" "slice_conditions m (pst_Conditions s) = oca_Conditions i"
    and b: "\<And>b. pst_Conditions s = Some b \<Longrightarrow> b < length m \<and> b \<noteq> a \<and> m ! b = CConditions (oca_Conditions i)"
    by (rule status_atE) blast
  have "status_at m' a i' \<and> step_kept m a m' \<and> \<not> conditions_nil m' a \<and> oca_Conditions i' \<noteq> []"
  proof (cases "condition_index (oca_Conditions i) (cond_Type new)")
    case None
    then have f: "FindStatusCondition (oca_Conditions i) (cond_Type new) = None" by (simp add: condition_index_Find)
    let ?cs = "oca_Conditions i @ [new\<lparr>cond_LastTransitionTime := now\<rparr>]"
    have e: "m' = (m @ [CConditions ?cs])[a := CStatus (s\<lparr>pst_Conditions := Some (length m)\<rparr>)]"
      using None s z m' by (simp add: SetStatusCondition_mem_def new_cell_def store_def Let_def)
    have v: "i' = set_Conditions ?cs i" using f i' by (simp add: SetStatusCondition_def)
    have "status_at m' a i'" unfolding v
      by (rule status_atI [where s = "s\<lparr>pst_Conditions := Some (length m)\<rparr>"])
        (use s in \<open>auto simp: e slice_conditions_def set_Conditions_def nth_list_update nth_append\<close>)
    then show ?thesis using s b
      by (auto simp: e v step_kept_def status_addrs_eq same_at_def conditions_nil_def nth_list_update nth_append set_Conditions_def)
  next
    case (Some k)
    then have f: "FindStatusCondition (oca_Conditions i) (cond_Type new) \<noteq> None" by (metis condition_index_Find option.distinct(1))
    then obtain p where p: "pst_Conditions s = Some p" using s(7) by (cases "pst_Conditions s") (auto simp: slice_conditions_def)
    note k = assign_condition_update [OF z Some, of now]
    let ?cs = "update_condition now new (oca_Conditions i)"
    have e: "m' = m[p := CConditions ?cs]" using Some s p m' k by (simp add: SetStatusCondition_mem_def store_def Let_def)
    have v: "i' = set_Conditions ?cs i" using f i' by (auto simp: SetStatusCondition_def)
    have "status_at m' a i'" unfolding v
      by (rule status_atI [where s = s]) (use s b [OF p] p in \<open>auto simp: e slice_conditions_def set_Conditions_def nth_list_update\<close>)
    moreover have "?cs \<noteq> []" using k by (metis length_list_update list.size(3) not_less_zero)
    ultimately show ?thesis using s b [OF p] p
      by (auto simp: e v step_kept_def status_addrs_eq same_at_def conditions_nil_def nth_list_update set_Conditions_def)
  qed
  then show "status_at m' a i'" "step_kept m a m'" "\<not> conditions_nil m' a" "oca_Conditions i' \<noteq> []" by simp_all
qed

text \<open>A whole run of steps; \<open>j\<close> is the resource when the snapshot was taken.\<close>

definition nil_related :: "mem \<Rightarrow> mem \<Rightarrow> addr \<Rightarrow> OCIClusterAutoscaler \<Rightarrow> bool" where
  "nil_related m0 m a i \<longleftrightarrow> conditions_nil m a = conditions_nil m0 a \<or> \<not> conditions_nil m a \<and> oca_Conditions i \<noteq> []"

lemma step_mem:
  assumes st: "status_at m a i" and g: "g = oca_Generation i" and m': "m' = step_mem g a x m" and i': "i' = step_value x i"
  shows "status_at m' a i'" "step_kept m a m'" "oca_Generation i' = g" "nil_related m0 m a i \<Longrightarrow> nil_related m0 m' a i'"
proof -
  obtain s where s: "m ! a = CStatus s" "pst_Phase s = oca_Phase i" "pst_CAPIInstalled s = st_CAPIInstalled (oca_Status i)"
    "pst_ClusterAutoscalerDeployed s = st_ClusterAutoscalerDeployed (oca_Status i)"
    "pst_ObservedGeneration s = st_ObservedGeneration (oca_Status i)" using st by (rule status_atE) blast
  note status_setters = set_Phase_def set_ObservedGeneration_def set_CAPIInstalled_def set_Deployed_def set_Conditions_def
  have "status_at m' a i' \<and> step_kept m a m' \<and> oca_Generation i' = g \<and> (nil_related m0 m a i \<longrightarrow> nil_related m0 m' a i')"
  proof (cases "\<exists>now ct cs r msg. x = SetCondition now ct cs r msg")
    case True
    then obtain now ct cs r msg where x: "x = SetCondition now ct cs r msg" by blast
    have "oca_Generation i' = g" by (simp add: i' x g setAutoscalerCondition_def status_setters)
    then show ?thesis
      using set_condition_mem [OF st _ refl refl, of "\<lparr>cond_Type = ct, cond_Status = cs, cond_ObservedGeneration = g,
        cond_LastTransitionTime = 0, cond_Reason = r, cond_Message = msg\<rparr>" now]
      by (simp add: m' i' x g setAutoscalerCondition_mem_def setAutoscalerCondition_def nil_related_def)
  next
    case False
    then obtain s' where e: "m' = store a (CStatus s') m" "pst_Conditions s' = pst_Conditions (un_Status (m ! a))"
      "pst_Phase s' = oca_Phase i'" "pst_CAPIInstalled s' = st_CAPIInstalled (oca_Status i')"
      "pst_ClusterAutoscalerDeployed s' = st_ClusterAutoscalerDeployed (oca_Status i')"
      "pst_ObservedGeneration s' = st_ObservedGeneration (oca_Status i')" "oca_Conditions i' = oca_Conditions i" "oca_Generation i' = g"
      using s unfolding m' i' g by (cases x) (auto simp: status_setters)
    show ?thesis using store_status [OF st e(2-7)] e(1,7,8) by (auto simp: nil_related_def)
  qed
  then show "status_at m' a i'" "step_kept m a m'" "oca_Generation i' = g" "nil_related m0 m a i \<Longrightarrow> nil_related m0 m' a i'" by simp_all
qed

lemma steps_mem:
  assumes "status_at m a i" "g = oca_Generation i" "nil_related m0 m a i" "Q \<subseteq> {..<length m}" "Q \<inter> status_addrs m a = {}"
  shows "status_at (fold (step_mem g a) xs m) a (fold step_value xs i) \<and> same_at Q m (fold (step_mem g a) xs m) \<and>
    nil_related m0 (fold (step_mem g a) xs m) a (fold step_value xs i)"
  using assms
proof (induction xs arbitrary: m i)
  case Nil
  then show ?case by (auto simp: same_at_def)
next
  case (Cons x xs)
  let ?m = "step_mem g a x m" and ?i = "step_value x i"
  note st = step_mem [where x = x, OF Cons.prems(1,2) refl refl]
  have k: "length m \<le> length ?m" "same_at Q m ?m" "Q \<inter> status_addrs ?m a = {}"
    using st(2) Cons.prems(4,5) by (fastforce simp: step_kept_def same_at_def)+
  have "status_at (fold (step_mem g a) xs ?m) a (fold step_value xs ?i) \<and> same_at Q ?m (fold (step_mem g a) xs ?m) \<and>
    nil_related m0 (fold (step_mem g a) xs ?m) a (fold step_value xs ?i)"
    by (rule Cons.IH [OF st(1) st(3) [symmetric] st(4) [OF Cons.prems(3)] _ k(3)]) (use Cons.prems(4) k(1) in auto)
  then show ?case using k(2) by (auto intro: same_at_trans)
qed

section \<open>Properties\<close>

text \<open>The list that the first property is about: one resource whose node bounds share one cell.\<close>

definition sample_memory :: mem where
  "sample_memory =
     [CInt32 3, CStrings [''a finalizer''],
      CAutoscalers [zero_Autoscaler
        \<lparr>poca_ObjectMeta := zero_ObjectMeta\<lparr>pmd_Name := ''pool'', pmd_Finalizers := Some 1\<rparr>,
         poca_Spec := zero_Spec\<lparr>psp_Autoscaling := zero_AutoscalingConfig\<lparr>pas_MinNodes := Some 0, pas_MaxNodes := Some 0\<rparr>\<rparr>\<rparr>],
      CAutoscalerList (zero_AutoscalerList\<lparr>pol_Items := Some 2\<rparr>)]"



lemma DeepCopy_Status_nil:
  assumes wf: "ok_at CStatus un_Status ok_Status m (Some a)" and copy: "DeepCopy_Status (Some a) m = (Some q, m1)"
  shows "conditions_nil m1 q = conditions_nil m a"
proof -
  let ?m = "m @ [CStatus zero_Status]" and ?s = "un_Status (m ! a)"
  from wf have a: "a < length m" "ok_Status m ?s" by (auto simp: ok_at_def)
  obtain x m2 where x: "DeepCopyInto_Status ?s ?m = (x, m2)" by (meson prod.exhaust)
  have "ok_Status ?m ?s" using Status.kept [OF a(2)] by simp
  from Status.copied [OF this x] have "length m < length m2" using prefix_length_le by fastforce
  moreover have "q = length m" "m1 = store q (CStatus x) m2"
    using copy x a(1) by (auto simp: DeepCopy_Status_def new_copy_def new_cell_def nth_append)
  moreover have "pst_Conditions x = None \<longleftrightarrow> pst_Conditions ?s = None"
    using x by (auto simp: DeepCopyInto_Status_def make_copy_def Let_def split: option.splits prod.splits)
  ultimately show ?thesis by (simp add: conditions_nil_def store_def)
qed

lemma DeepEqual_values:
  assumes "status_at m a i" "status_at m b j"
  shows "DeepEqual_Status m a b \<longleftrightarrow> conditions_nil m a = conditions_nil m b \<and> oca_Status i = oca_Status j"
    "conditions_nil m a \<Longrightarrow> oca_Conditions i = []"
proof -
  from assms have e: "oca_Status i = content_Status m (un_Status (m ! a))" "oca_Status j = content_Status m (un_Status (m ! b))"
    by (simp_all add: status_at_def)
  show "DeepEqual_Status m a b \<longleftrightarrow> conditions_nil m a = conditions_nil m b \<and> oca_Status i = oca_Status j"
    unfolding e by (auto simp: DeepEqual_Status_def conditions_nil_def content_Status_def slice_conditions_content Let_def)
  show "conditions_nil m a \<Longrightarrow> oca_Conditions i = []"
    by (simp add: e conditions_nil_def content_Status_fields slice_conditions_def)
qed

text \<open>
  C14. The snapshot of the status that \<open>Reconcile\<close> takes before it runs the stages. \<open>SetStatusCondition\<close> assigns through a
  pointer into the conditions of the resource. Whatever status updates follow the snapshot, in any order, the
  snapshot keeps standing for the status at that time, the resource stands for the value that the functional model
  computes, and \<open>reflect.DeepEqual\<close> of the two finds them equal exactly when the functional model's statuses are
  equal, nil and empty slices included. So the status is written exactly when the model says so.
\<close>

theorem status_snapshot_kept:
  assumes st: "status_at m a i" and copy: "DeepCopy_Status (Some a) m = (Some q, m1)"
    and run: "m2 = fold (step_mem (oca_Generation i) a) xs m1"
  shows "status_at m2 a (fold step_value xs i) \<and> content_Status m2 (un_Status (m2 ! q)) = oca_Status i \<and>
    (DeepEqual_Status m2 q a \<longleftrightarrow> oca_Status i = oca_Status (fold step_value xs i))"
proof -
  let ?i = "fold step_value xs i"
  have wf: "ok_at CStatus un_Status ok_Status m (Some a)" using st by (simp add: status_at_def)
  note c = Statuses.copied [OF wf copy]
  have ma: "m1 ! a = m ! a" using c wf by (auto simp: ok_at_def prefix_def nth_append)
  have k: "status_at m1 a i" "status_addrs m1 a = status_addrs m a" "conditions_nil m1 a = conditions_nil m a"
    using Statuses.kept [OF wf conjunct1 [OF c]] st ma
    by (auto simp: status_at_def content_at_def status_addrs_def conditions_nil_def)
  have q: "status_at m1 q i" using c st by (auto simp: status_at_def content_at_def)
  have nq: "conditions_nil m1 q = conditions_nil m a" by (rule DeepCopy_Status_nil [OF wf copy])
  let ?Q = "status_addrs m1 q"
  have Q: "?Q \<subseteq> {length m..<length m1}" using c by (simp add: fresh_addrs_def status_addrs_def)
  have "status_addrs m a \<subseteq> {..<length m}" using Statuses.bound [OF wf] by (simp add: status_addrs_def)
  then have d: "?Q \<inter> status_addrs m1 a = {}" using Q k(2) by fastforce
  have "?Q \<subseteq> {..<length m1}" using Q by auto
  from steps_mem [OF k(1) refl _ this d, of m1 xs] have r: "status_at m2 a ?i" "same_at ?Q m1 m2" "nil_related m1 m2 a ?i"
    unfolding run by (auto simp: nil_related_def)
  from q have okq: "ok_at CStatus un_Status ok_Status m1 (Some q)" by (simp add: status_at_def)
  from Statuses.frame [OF this, of m2] r(2) q have q2: "status_at m2 q i"
    by (auto simp: status_at_def status_addrs_def content_at_def)
  have "q \<in> ?Q" by (simp add: status_addrs_eq)
  with r(2) have nq2: "conditions_nil m2 q = conditions_nil m1 q" by (simp add: same_at_def conditions_nil_def)
  have "DeepEqual_Status m2 q a \<longleftrightarrow> oca_Status i = oca_Status ?i"
    using DeepEqual_values [OF q2 r(1)] nq nq2 k(3) r(3) by (auto simp: nil_related_def)
  then show ?thesis using q2 r(1) by (simp add: status_at_def)
qed

definition snapshot_memory :: mem where
  "snapshot_memory =
     [CStatus (zero_Status\<lparr>pst_Conditions := Some 1\<rparr>),
      CConditions [\<lparr>cond_Type = ConditionReady, cond_Status = ConditionFalse, cond_ObservedGeneration = 1,
        cond_LastTransitionTime = 10, cond_Reason = ''ReconcileError'', cond_Message = []\<rparr>]]"

definition snapshot_steps :: "status_step list" where
  "snapshot_steps = [SetObservedGeneration, SetPhase PhaseReady,
     SetCondition 60 ConditionReady ConditionTrue ReasonReconcileSuccess ''OCI CAPI autoscaler is ready'']"

theorem status_snapshot_kept_witness:
  "(let m2 = fold (step_mem 1 0) snapshot_steps (snd (DeepCopy_Status (Some 0) snapshot_memory))
    in content_Status m2 (un_Status (m2 ! 2)) = content_Status snapshot_memory (un_Status (snapshot_memory ! 0)) \<and>
       map cond_LastTransitionTime (slice_conditions m2 (Some 1)) = [60] \<and> \<not> DeepEqual_Status m2 2 0)"
proof -
  let ?i = "(sample_autoscaler [] ''pool'' 0 [])\<lparr>oca_Status := content_Status snapshot_memory (un_Status (snapshot_memory ! 0))\<rparr>"
  let ?m1 = "snd (DeepCopy_Status (Some 0) snapshot_memory)"
  have st: "status_at snapshot_memory 0 ?i" unfolding status_at_def by code_simp
  have "fst (DeepCopy_Status (Some 0) snapshot_memory) = Some 2" by code_simp
  then have c: "DeepCopy_Status (Some 0) snapshot_memory = (Some 2, ?m1)" by (metis prod.collapse)
  have "oca_Status ?i \<noteq> oca_Status (fold step_value snapshot_steps ?i)" by code_simp
  moreover have "map cond_LastTransitionTime (slice_conditions (fold (step_mem 1 0) snapshot_steps ?m1) (Some 1)) = [60]" by code_simp
  moreover have "oca_Generation ?i = 1" by code_simp
  ultimately show ?thesis using status_snapshot_kept [OF st c refl, of snapshot_steps] by (simp add: Let_def)
qed

end
