(* ===== verification/Owners.thy ===== *)
theory Owners
  imports Lifecycle
begin

text \<open>
  Owner references: how they are read from an object (apimachinery's \<open>GetOwnerReferences\<close>), and that no object
  \<open>Reconcile\<close> creates has one and no patch it sends changes them. The second is the instance of a contract for policies
  on the objects a reconcile writes (locale \<open>write_policy\<close>).
\<close>

section \<open>Reading owner references\<close>

definition optional_bool :: "object \<Rightarrow> string \<Rightarrow> bool option" where
  "optional_bool v f = (case NestedBool v [f] of Inl e \<Rightarrow> None | Inr b \<Rightarrow> b)"

definition extractOwnerReference :: "object \<Rightarrow> OwnerReference" where
  "extractOwnerReference v =
     \<lparr>owr_APIVersion = getNestedString v [''apiVersion''], owr_Kind = getNestedString v [''kind''],
      owr_Name = getNestedString v [''name''], owr_UID = getNestedString v [''uid''],
      owr_Controller = optional_bool v ''controller'', owr_BlockOwnerDeletion = optional_bool v ''blockOwnerDeletion''\<rparr>"

text \<open>A nil list of references is the empty one: the callers only range over it.\<close>

definition GetOwnerReferences :: "object \<Rightarrow> OwnerReference list" where
  "GetOwnerReferences u = (case NestedField u [''metadata'', ''ownerReferences''] of
      Inr (Some (JList original)) \<Rightarrow>
        (if list_all (\<lambda>x. as_map x \<noteq> None) original then map (\<lambda>x. extractOwnerReference (the (as_map x))) original else [])
    | _ \<Rightarrow> [])"

text \<open>The owners of any object; the kinds whose model has no metadata are not created by the operator.\<close>

definition obj_owners :: "kobj \<Rightarrow> OwnerReference list" where
  "obj_owners x = (case x of
      OUnstructured u \<Rightarrow> GetOwnerReferences u
    | _ \<Rightarrow> (case obj_meta x of None \<Rightarrow> [] | Some m \<Rightarrow> md_OwnerReferences m))"

section \<open>Changes that keep an object's identity\<close>

definition identity_kept :: "kobj \<Rightarrow> kobj \<Rightarrow> bool" where
  "identity_kept x y \<longleftrightarrow> obj_owners y = obj_owners x \<and> obj_kind y = obj_kind x \<and> obj_key y = obj_key x"

definition identity_paths :: "string list list" where
  "identity_paths = [[''apiVersion''], [''kind''], [''metadata'', ''name''], [''metadata'', ''namespace''],
     [''metadata'', ''ownerReferences'']]"

definition same_fields :: "object \<Rightarrow> object \<Rightarrow> bool" where
  "same_fields u v \<longleftrightarrow> list_all (\<lambda>p. NestedField v p = NestedField u p) identity_paths"

lemma same_fieldsI: "(\<And>p. p \<in> set identity_paths \<Longrightarrow> NestedField v p = NestedField u p) \<Longrightarrow> same_fields u v"
  by (simp add: same_fields_def list_all_iff)

lemma same_fields_trans: "same_fields u v \<Longrightarrow> same_fields v w \<Longrightarrow> same_fields u w"
  by (simp add: same_fields_def list_all_iff)

lemma same_fields_refl [simp]: "same_fields u u"
  by (simp add: same_fields_def list_all_iff)

lemma same_fields_identity: "same_fields u v \<Longrightarrow> identity_kept (OUnstructured u) (OUnstructured v)"
  by (simp add: same_fields_def identity_paths_def identity_kept_def obj_owners_def GetOwnerReferences_def GetAPIVersion_def
      GetKind_def GetName_def GetNamespace_def getNestedString_def NestedString_def nested_typed_def)

lemma identity_kept_step: "identity_kept x y \<Longrightarrow> identity_kept y z \<Longrightarrow> identity_kept x z"
  by (simp add: identity_kept_def)

lemma identity_kept_refl [simp]: "identity_kept x x"
  by (simp add: identity_kept_def)

lemma same_fields_labels [simp]:
  "same_fields u (SetLabels v l) = same_fields u v" "same_fields u (SetAnnotations v l) = same_fields u v"
  by (auto simp: same_fields_def identity_paths_def SetLabels_def SetAnnotations_def set_meta_apart)

lemma same_fields_spec [simp]: "same_fields u (fmupd ''spec'' x v) = same_fields u v"
  by (simp add: same_fields_def identity_paths_def NestedField_def)

lemma same_fields_status:
  "SetNestedField v x (''status'' # p) = Inr w \<Longrightarrow> same_fields u w = same_fields u v"
  by (auto simp: same_fields_def identity_paths_def nf.get_put_apart)

lemma labels_identity: "identity_kept x y \<Longrightarrow> identity_kept x (SetComponentLabels_obj i c l y)"
proof (rule identity_kept_step)
  show "identity_kept y (SetComponentLabels_obj i c l y)"
  proof (cases y)
    case (OUnstructured u)
    have "same_fields u (SetComponentLabels_u i c l u)" by (simp add: SetComponentLabels_u_def)
    then show ?thesis using OUnstructured by (simp add: SetComponentLabels_obj_def same_fields_identity)
  qed (simp_all add: SetComponentLabels_obj_def identity_kept_def obj_owners_def SetComponentLabels_def)
qed

section \<open>Requests that keep owners\<close>

text \<open>Kinds the controller is woken for otherwise: its own and the machines.\<close>

fun owners_kept :: "request \<Rightarrow> bool" where
  "owners_kept (ReqCreate x) = (obj_owners x = [] \<and> obj_kind x \<noteq> autoscaler_kind \<and> obj_kind x \<noteq> machine_kind)"
| "owners_kept (ReqPatch x y) = identity_kept x y"
| "owners_kept (ReqStatusPatch x y) = identity_kept x y"
| "owners_kept _ = True"

abbreviation kept_sent :: "request \<times> response \<Rightarrow> bool" where
  "kept_sent \<equiv> \<lambda>(q, a). owners_kept q"

definition unowned :: "kobj \<Rightarrow> bool" where
  "unowned x \<longleftrightarrow> obj_owners x = [] \<and> obj_kind x \<noteq> autoscaler_kind \<and> obj_kind x \<noteq> machine_kind"

interpretation ow: provisioner kept_sent identity_kept unowned
  by unfold_locales (simp_all add: unowned_def labels_identity, simp add: identity_kept_def)

abbreviation keeps_owners :: "'w mutate_fn \<Rightarrow> bool" where
  "keeps_owners \<equiv> behaves kept_sent identity_kept"

section \<open>The mutations keep owners\<close>

lemma keeps_fallible:
  "(\<And>x y. f x = Inr y \<Longrightarrow> identity_kept x y) \<Longrightarrow> keeps_owners (fallible_mutate f)"
  by (auto simp: behaves_def fallible_mutate_def split: sum.split)

lemma keeps_unstructured:
  assumes "\<And>u v. f u = Inr v \<Longrightarrow> same_fields u v"
  shows "keeps_owners (fallible_mutate (mutate_unstructured f))"
proof (rule keeps_fallible)
  fix x y assume "mutate_unstructured f x = Inr y"
  with assms same_fields_identity show "identity_kept x y" by (cases x) (auto split: sum.splits)
qed

lemma keeps_pure: "(\<And>x. identity_kept x (f x)) \<Longrightarrow> keeps_owners (pure_mutate f)"
  by (simp add: behaves_pure)

lemma typed_mutations:
  "identity_kept x (label_namespace i x)" "identity_kept x (mutate_scc us i b x)" "identity_kept x (mutate_auth_secret i auth x)"
  "identity_kept x (mutate_ClusterRole i x)" "identity_kept x (mutate_ClusterRoleBinding v i x)"
  "identity_kept x (mutate_OCICluster n cn i cfg ip x)" "identity_kept x (mutate_OCIClusterIdentity n i x)"
  by (cases x; simp add: identity_kept_def obj_owners_def SetDefaultLabels_def Let_def)+

lemma template_identity: "mutate_OCIMachineTemplate cn i cfg x = Inr y \<Longrightarrow> identity_kept x y"
  by (cases x) (auto simp: identity_kept_def obj_owners_def SetComponentLabels_def split: option.splits sum.splits)

lemma rendered_fields:
  "render_CAPICluster cn i cfg u = Inr v \<Longrightarrow> same_fields u v"
  "render_MachineDeployment cn i cfg u = Inr v \<Longrightarrow> same_fields u v"
  "render_MachineHealthCheck cn i cfg u = Inr v \<Longrightarrow> same_fields u v"
  by (auto simp: render_CAPICluster_def render_MachineDeployment_def render_MachineHealthCheck_def Let_def SetDefaultLabels_u_def
      split: sum.splits option.splits)

lemma keeps_rendered:
  "keeps_owners (fallible_mutate (mutate_unstructured (render_CAPICluster cn i cfg)))"
  "keeps_owners (fallible_mutate (mutate_unstructured (render_MachineDeployment cn i cfg)))"
  "keeps_owners (fallible_mutate (mutate_unstructured (render_MachineHealthCheck cn i cfg)))"
  by (rule keeps_unstructured, erule rendered_fields)+

lemma reads_kept_request: "read_only q \<Longrightarrow> owners_kept q"
  by (cases q) auto

lemma reads_kept: "emits (\<lambda>(q, a). read_only q) io io' \<Longrightarrow> emits kept_sent io io'"
  by (erule emits_mono) (auto dest: reads_kept_request)

lemma keeps_bootstrap: "keeps_owners (mutate_bootstrap srv i)"
proof (rule behavesI)
  fix x io r io'
  assume "mutate_bootstrap srv i x io = (r, io')"
  then show "emits kept_sent io io' \<and> (case r of Inl e \<Rightarrow> True | Inr y \<Rightarrow> identity_kept x y)"
    by (cases x) (auto simp: identity_kept_def obj_owners_def SetDefaultLabels_def split: prod.splits sum.splits
        dest!: GenerateIgnition_read_only [THEN reads_kept])
qed

lemma keeps_kubeconfig: "keeps_owners (mutate_kubeconfig srv a b c d i)"
proof (rule behavesI)
  fix x io r io'
  assume m: "mutate_kubeconfig srv a b c d i x io = (r, io')"
  have t: "emits kept_sent io io1" if "request_as srv resp_token (ReqToken n e t) io = (y, io1)" for n e t y io1
    using that by (rule emits_request_as) simp
  from m show "emits kept_sent io io' \<and> (case r of Inl e \<Rightarrow> True | Inr y \<Rightarrow> identity_kept x y)"
    by (cases x) (auto simp: Let_def identity_kept_def obj_owners_def SetDefaultLabels_def split: prod.splits sum.splits if_splits
        dest!: t discovery_read_only(5) [THEN reads_kept] intro: emits_trans)
qed

section \<open>The components keep owners\<close>

lemma desired_unowned:
  "unowned (ONamespace (new_meta [] n))" "unowned (OSCC (new_scc n))"
  "unowned (OSecret \<lparr>sec_meta = new_meta ns n, sec_Data = fmempty\<rparr>)"
  "unowned (OClusterRole \<lparr>cr_meta = new_meta [] n, cr_Rules = []\<rparr>)"
  "unowned (OClusterRoleBinding \<lparr>crb_meta = new_meta [] n, crb_RoleRef = r, crb_Subjects = []\<rparr>)"
  "unowned (OOCICluster \<lparr>oc_meta = new_meta ns n, oc_Spec = sp\<rparr>)"
  "unowned (OOCIClusterIdentity \<lparr>oci_meta = new_meta ns n, oci_Type = [], oci_AllowedNamespaces = []\<rparr>)"
  "unowned (OOCIMachineTemplate \<lparr>mt_meta = new_meta ns n, mt_Spec = tsp\<rparr>)"
  by (simp_all add: unowned_def obj_owners_def new_meta_def new_scc_def autoscaler_kind_def machine_kind_def)

lemma unstructured_unowned:
  assumes "k \<in> {''Cluster'', ''MachineDeployment'', ''MachineHealthCheck''}"
  shows "unowned (OUnstructured (new_unstructured k ns n))"
proof -
  have "GetOwnerReferences (new_unstructured k ns n) = []"
    by (simp add: GetOwnerReferences_def NestedField_def new_unstructured_def jmap_def)
  moreover have "GetAPIVersion (new_unstructured k ns n) = capiClusterAPIVersion" "GetKind (new_unstructured k ns n) = k"
    by (simp_all add: GetAPIVersion_def GetKind_def getNestedString_def NestedString_def nested_typed_def NestedField_def
        new_unstructured_def)
  ultimately show ?thesis using assms
    by (auto simp: unowned_def obj_owners_def autoscaler_kind_def machine_kind_def capiClusterAPIVersion_def)
qed

lemma owned_subcomponent:
  "unowned (fst x) \<Longrightarrow> keeps_owners (snd x) \<Longrightarrow> sub_behaves kept_sent identity_kept unowned (subcomponent n x)"
  by (simp add: sub_behaves_def subcomponent_def)

lemmas keeping_mutations = typed_mutations [THEN keeps_pure] keeps_fallible [OF template_identity]
  keeps_rendered keeps_bootstrap keeps_kubeconfig desired_unowned unstructured_unowned

lemma owned_components:
  "list_all (sub_behaves kept_sent identity_kept unowned) (comp_Subcomponents (GetComponents_enable srv a b c d i cfg ip))"
  "list_all (sub_behaves kept_sent identity_kept unowned) (comp_Subcomponents (GetComponents_capi a b c d i h))"
  "list_all (sub_behaves kept_sent identity_kept unowned) (comp_Subcomponents (GetComponents_capoci a i auth))"
  "list_all (sub_behaves kept_sent identity_kept unowned) (comp_Subcomponents (GetComponents_autoscaler v i))"
  by (auto simp: GetComponents_enable_def GetComponents_capi_def GetComponents_capoci_def GetComponents_autoscaler_def
      ManagedResourceNamespace_of_def BootstrapConfigSecret_def KubeConfigSecret_def OCIMachineTemplate_of_def
      MachineDeployment_def MachineHealthCheck_def OCICluster_of_def CAPICluster_def OCIClusterIdentity_of_def
      SecurityContextConstraints_of_def CAPINamespace_def Namespace_capoci_def AuthConfigSecret_def
      Namespace_autoscaler_def ClusterRole_of_def ClusterRoleBinding_of_def
      intro!: owned_subcomponent keeping_mutations)

lemma mark_initialized_fields:
  assumes "mark_initialized f now u = Inr (Some v)"
  shows "same_fields u v"
  using assms
  by (auto simp: mark_initialized_def setClusterStatusCondition_def SetNestedSlice_def initialized_path_def same_fields_status
      split: sum.splits option.splits if_splits)

lemma markExisting_kept: "markExistingClusterControlPlaneInitialized f srv ns c io = (r, io') \<Longrightarrow> emits kept_sent io io'"
proof (drule markExisting_sends, erule emits_mono)
  fix x :: "request \<times> response" assume "case x of (q, a) \<Rightarrow> marking q"
  then show "kept_sent x" by (auto elim!: marking.cases dest: reads_kept_request mark_initialized_fields [THEN same_fields_identity])
qed

section \<open>Policies on the objects a reconcile writes\<close>

fun object_write :: "request \<Rightarrow> bool" where
  "object_write (ReqCreate x) = True"
| "object_write (ReqPatch x y) = True"
| "object_write (ReqStatusPatch x y) = True"
| "object_write _ = False"

text \<open>
  A policy that only restricts how objects are created and patched, and that the components and the status of the cluster
  meet, is met by every run of \<open>Reconcile\<close>: nothing else in it creates or patches.
\<close>

locale write_policy =
  fixes srv :: "'w server" and permitted :: "request \<times> response \<Rightarrow> bool"
  assumes others: "\<not> object_write q \<Longrightarrow> permitted (q, a)"
    and capi: "reconcileComponents srv (GetComponents_capi n1 n2 n3 n4 i h) io = (r, io') \<Longrightarrow> emits permitted io io'"
    and capoci: "reconcileComponents srv (GetComponents_capoci n i auth) io = (r, io') \<Longrightarrow> emits permitted io io'"
    and chart: "reconcileComponents srv (GetComponents_autoscaler v i) io = (r, io') \<Longrightarrow> emits permitted io io'"
    and scaling: "reconcileComponents srv (GetComponents_enable srv n1 n2 n3 n4 i cfg h) io = (r, io') \<Longrightarrow> emits permitted io io'"
    and marking: "markExistingClusterControlPlaneInitialized f srv n1 n2 io = (r, io') \<Longrightarrow> emits permitted io io'"
begin

lemma harmless:
  "emits (\<lambda>(q, a). \<not> object_write q) io io' \<Longrightarrow> emits permitted io io'"
  by (erule emits_mono) (auto intro: others)

lemma classes:
  "emits (\<lambda>(q, a). read_only q) io io' \<Longrightarrow> emits permitted io io'"
  "emits looks io io' \<Longrightarrow> emits permitted io io'"
  "emits own_sent io io' \<Longrightarrow> emits permitted io io'"
  "emits removal_sent io io' \<Longrightarrow> emits permitted io io'"
  by (erule emits_mono, rule case_prodE, assumption, hypsubst, simp only: split, rule others, erule contrapos_pn,
      erule object_write.elims, simp_all)+

lemma installs: "InstallAutoscaler srv y i v io = (r, io') \<Longrightarrow> emits permitted io io'"
  by (drule InstallAutoscaler_sends, erule emits_mono) (auto elim!: helm_apply.elims simp: others)

lemma status_updates: "Status_Update srv i io = (c, i', io') \<Longrightarrow> emits permitted io io'"
  by (rule classes(3)) (rule own_emits(2))

lemma autoscaler_updates: "Update_autoscaler srv i io = (res, io') \<Longrightarrow> emits permitted io io'"
  by (auto simp: emits_def others dest!: Update_autoscaler_sent)

lemmas stage_steps = capi capoci chart scaling marking installs status_updates
  checkDeploymentAvailable_emits [THEN classes(1)] checkCAPIInstallation_emits [THEN classes(1)]
  clusterNameFor_emits [THEN classes(1)] SetAutoScalingConfig_read_only [THEN classes(1)]
  record_emits [where P = permitted]

lemma stages_permitted:
  "sends permitted (policy_stage srv r)" "sends permitted (capi_stage srv r)" "sends permitted (capoci_stage srv r)"
  "sends permitted (rollout_stage srv r)" "sends permitted (autoscaler_stage srv lib r)" "sends permitted (config_stage srv r)"
  by (rule sendsI; auto simp: policy_stage_def capi_stage_def capoci_stage_def rollout_stage_def autoscaler_stage_def
      config_stage_def Let_def split: option.splits prod.splits sum.splits if_splits dest!: stage_steps intro: emits_trans)+

lemma scaling_stage_permitted: "sends permitted (scaling_stage srv lib r x)"
proof (rule sendsI)
  fix i io y i' io' assume m: "scaling_stage srv lib r x (i, io) = (y, (i', io'))"
  have c: "call srv (ReqGet k n) io1 = (z, io2) \<Longrightarrow> emits permitted io1 io2" for k n io1 z io2
    by (erule emits_call) (simp add: others)
  from m show "emits permitted io io'"
    by (auto simp: scaling_stage_def Let_def split: option.splits prod.splits dest!: stage_steps c intro: emits_trans)
qed

lemma stack_permitted: "reconcileOCICapiStack srv lib r (i, io) = (res, (i', io')) \<Longrightarrow> emits permitted io io'"
proof -
  define m where "m = and_then (policy_stage srv r) (\<lambda>_.
           and_then (capi_stage srv r) (\<lambda>_.
           and_then (capoci_stage srv r) (\<lambda>_.
           and_then (rollout_stage srv r) (\<lambda>_.
           and_then (autoscaler_stage srv lib r) (\<lambda>_.
           and_then (config_stage srv r) (scaling_stage srv lib r))))))"
  have m: "sends permitted m" unfolding m_def by (intro sends_and_then stages_permitted scaling_stage_permitted)
  assume "reconcileOCICapiStack srv lib r (i, io) = (res, (i', io'))"
  then obtain x where "m (i, io) = (x, (i', io'))"
    by (auto simp: reconcileOCICapiStack_def m_def [symmetric] split: prod.splits sum.splits)
  with m show ?thesis by (rule sendsD)
qed

lemma reconcile_stack_permitted: "reconcile_stack srv lib r (i, io) = (res, io') \<Longrightarrow> emits permitted io io'"
  unfolding reconcile_stack_def Let_def
  by (auto split: prod.splits option.splits if_splits
      dest!: stack_permitted status_updates record_emits [where P = permitted] intro: emits_trans)

lemma reconcile_live_permitted:
  assumes "reconcile_live srv lib r (i, io) = (res, io')"
  shows "emits permitted io io'"
  using assms unfolding reconcile_live_def
  by (auto split: prod.splits sum.splits option.splits bool.splits if_splits
      dest!: singletonConflict_read_only [THEN classes(1)] block_conflict_emits [THEN classes(3)] autoscaler_updates
        reconcile_stack_permitted intro: emits_trans)

lemma release_permitted: "release srv r reason message (i, io) = (res, io') \<Longrightarrow> emits permitted io io'"
  unfolding release_def Let_def
  by (auto split: prod.splits option.splits dest!: status_updates autoscaler_updates record_emits [where P = permitted]
      intro: emits_trans)

lemma reconcile_deleting_permitted:
  assumes "reconcile_deleting srv lib r (i, io) = (res, io')"
  shows "emits permitted io io'"
  using reconcile_deleting_run [OF assms, THEN conjunct1]
  by (cases rule: deleting_run.cases)
    (auto dest!: isSingletonOwner_read_only [THEN classes(1)] classes(3) release_permitted cleanup_emits [THEN classes(4)]
      intro: emits_trans)

theorem Reconcile_permitted:
  assumes "Reconcile srv lib r req io = (res, io')"
  shows "emits permitted io io'"
  using assms
proof (cases rule: Reconcile_run)
  case 1
  then show ?thesis by (rule classes(3))
next
  case (2 i io1)
  from classes(3) [OF 2(1)] reconcile_live_permitted [OF 2(3)] show ?thesis by (rule emits_trans)
next
  case (3 i io1)
  from classes(3) [OF 3(1)] reconcile_deleting_permitted [OF 3(3)] show ?thesis by (rule emits_trans)
qed

end

interpretation kept: write_policy srv kept_sent for srv :: "'w server"
proof
  fix q a assume "\<not> object_write q"
  then show "kept_sent (q, a)" by (cases q rule: owners_kept.cases) simp_all
qed (rule ow.reconcileComponents_permitted [OF owned_components(2)] ow.reconcileComponents_permitted [OF owned_components(3)]
    ow.reconcileComponents_permitted [OF owned_components(4)] ow.reconcileComponents_permitted [OF owned_components(1)]
    markExisting_kept, assumption)+

lemma Reconcile_keeps_owners:
  "list_all kept_sent (sent io (snd (Reconcile srv lib r req io)))"
proof -
  obtain res io' where run: "Reconcile srv lib r req io = (res, io')" by fastforce
  from kept.Reconcile_permitted [OF this] run show ?thesis by (auto simp: emits_def sent_def)
qed

end
