(* ===== verification/Watches.thy ===== *)
theory Watches
  imports Owners
begin

text \<open>
  What wakes the controllers: the watches the two \<open>SetupWithManager\<close> functions register through controller-runtime's
  builder, and the reconcile requests its event handlers derive from an event. The informers that produce the events and
  the work queue that takes the requests are not modelled.
\<close>

section \<open>Events and handlers\<close>

text \<open>An update carries the object before and after it.\<close>

datatype watch_event = Created kobj | Updated kobj kobj | Deleted kobj | Generic kobj

fun event_objects :: "watch_event \<Rightarrow> kobj list" where
  "event_objects (Created x) = [x]"
| "event_objects (Updated x y) = [x, y]"
| "event_objects (Deleted x) = [x]"
| "event_objects (Generic x) = [x]"

text \<open>
  The handler for owners keeps the group and kind of the owner's type and whether only the controller reference counts; the
  one for a mapping keeps the function, which may send requests.
\<close>

datatype 'w event_handler =
    EnqueueRequestForObject
  | EnqueueRequestForOwner "string \<times> string" bool
  | EnqueueRequestsFromMapFunc "kobj \<Rightarrow> 'w io \<Rightarrow> nsname list \<times> 'w io"

definition GetControllerOf :: "OwnerReference list \<Rightarrow> OwnerReference option" where
  "GetControllerOf refs = find (\<lambda>r. owr_Controller r = Some True) refs"

definition getOwnersReferences :: "bool \<Rightarrow> kobj \<Rightarrow> OwnerReference list" where
  "getOwnersReferences isController x =
     (if \<not> isController then obj_owners x
      else case GetControllerOf (obj_owners x) of Some r \<Rightarrow> [r] | None \<Rightarrow> [])"

text \<open>The REST mapping of a group and kind at a version: an error, or whether it is cluster-scoped.\<close>

type_synonym rest_mapper = "string \<times> string \<Rightarrow> string \<Rightarrow> go_error + bool"

text \<open>The loop over the references; a version that does not parse and a failed mapping end it.\<close>

fun owner_requests :: "rest_mapper \<Rightarrow> string \<times> string \<Rightarrow> string \<Rightarrow> OwnerReference list \<Rightarrow> nsname list" where
  "owner_requests mapper groupKind namespace [] = []"
| "owner_requests mapper groupKind namespace (ref # refs) =
     (case ParseGroupVersion (owr_APIVersion ref) of
        Inl e \<Rightarrow> []
      | Inr (g, version) \<Rightarrow>
          if owr_Kind ref = snd groupKind \<and> g = fst groupKind then
            (case mapper groupKind version of
               Inl e \<Rightarrow> []
             | Inr root \<Rightarrow> \<lparr>nn_Namespace = (if root then [] else namespace), nn_Name = owr_Name ref\<rparr> #
                 owner_requests mapper groupKind namespace refs)
          else owner_requests mapper groupKind namespace refs)"

definition getOwnerReconcileRequest :: "rest_mapper \<Rightarrow> string \<times> string \<Rightarrow> bool \<Rightarrow> kobj \<Rightarrow> nsname list" where
  "getOwnerReconcileRequest mapper groupKind isController x =
     owner_requests mapper groupKind (nn_Namespace (obj_key x)) (getOwnersReferences isController x)"

text \<open>The requests one handler adds to the queue; those of one event are a set.\<close>

definition enqueue_object :: "watch_event \<Rightarrow> nsname list" where
  "enqueue_object ev = [obj_key (last (event_objects ev))]"

definition enqueue_owners :: "rest_mapper \<Rightarrow> string \<times> string \<Rightarrow> bool \<Rightarrow> watch_event \<Rightarrow> nsname list" where
  "enqueue_owners mapper groupKind isController ev =
     remdups (concat (map (getOwnerReconcileRequest mapper groupKind isController) (event_objects ev)))"

definition enqueue_mapped ::
    "(kobj \<Rightarrow> 'w io \<Rightarrow> nsname list \<times> 'w io) \<Rightarrow> watch_event \<Rightarrow> 'w io \<Rightarrow> nsname list \<times> 'w io" where
  "enqueue_mapped toRequests ev io =
     (let (rs, io') = run_all toRequests (event_objects ev) io in (remdups (concat rs), io'))"

fun enqueue :: "rest_mapper \<Rightarrow> 'w event_handler \<Rightarrow> watch_event \<Rightarrow> 'w io \<Rightarrow> nsname list \<times> 'w io" where
  "enqueue mapper EnqueueRequestForObject ev io = (enqueue_object ev, io)"
| "enqueue mapper (EnqueueRequestForOwner groupKind isController) ev io = (enqueue_owners mapper groupKind isController ev, io)"
| "enqueue mapper (EnqueueRequestsFromMapFunc toRequests) ev io = enqueue_mapped toRequests ev io"

lemmas handler_defs = enqueue_object_def enqueue_owners_def enqueue_mapped_def

section \<open>The builder\<close>

record 'w Builder =
  bl_For :: "string option"
  bl_ForErr :: check
  bl_Owns :: "string list"
  bl_Watches :: "(string \<times> 'w event_handler) list"

definition ControllerManagedBy :: "'w Builder" where
  "ControllerManagedBy = \<lparr>bl_For = None, bl_ForErr = None, bl_Owns = [], bl_Watches = []\<rparr>"

definition For :: "string \<Rightarrow> 'w Builder \<Rightarrow> 'w Builder" where
  "For object b = (case bl_For b of
      Some k \<Rightarrow> b\<lparr>bl_ForErr := Some (Errorf ''For(...) should only be called once, could not assign multiple objects for reconciliation'')\<rparr>
    | None \<Rightarrow> b\<lparr>bl_For := Some object, bl_ForErr := None\<rparr>)"

definition Owns :: "string \<Rightarrow> 'w Builder \<Rightarrow> 'w Builder" where
  "Owns object b = b\<lparr>bl_Owns := bl_Owns b @ [object]\<rparr>"

definition Watches_of :: "string \<Rightarrow> 'w event_handler \<Rightarrow> 'w Builder \<Rightarrow> 'w Builder" where
  "Watches_of object handler b = b\<lparr>bl_Watches := bl_Watches b @ [(object, handler)]\<rparr>"

text \<open>The group and the kind of a type, which the scheme knows by version.\<close>

definition kind_GroupKind :: "string \<Rightarrow> string \<times> string" where
  "kind_GroupKind k = (if count_list k (CHR ''/'') = 2 then takeWhile (\<lambda>c. c \<noteq> CHR ''/'') k else [],
     rev (takeWhile (\<lambda>c. c \<noteq> CHR ''/'') (rev k)))"

definition doWatch :: "'w Builder \<Rightarrow> go_error + (string \<times> 'w event_handler) list" where
  "doWatch b = (case bl_For b of
      None \<Rightarrow>
        if bl_Owns b \<noteq> [] then Inl (Errorf ''Owns() can only be used together with For()'')
        else if bl_Watches b = [] then Inl (Errorf ''there are no watches configured, controller will never get triggered. Use For(), Owns() or Watches() to set them up'')
        else Inr (bl_Watches b)
    | Some object \<Rightarrow> Inr ((object, EnqueueRequestForObject) #
        map (\<lambda>owned. (owned, EnqueueRequestForOwner (kind_GroupKind object) True)) (bl_Owns b) @ bl_Watches b))"

definition Complete :: "'w Builder \<Rightarrow> go_error + (string \<times> 'w event_handler) list" where
  "Complete b = (case bl_ForErr b of Some e \<Rightarrow> Inl e | None \<Rightarrow> doWatch b)"

section \<open>The controllers' watches\<close>

definition namespace_kind :: string where "namespace_kind = ''v1/Namespace''"
definition service_account_kind :: string where "service_account_kind = ''v1/ServiceAccount''"
definition scc_kind :: string where "scc_kind = ''security.openshift.io/v1/SecurityContextConstraints''"
definition cluster_role_kind :: string where "cluster_role_kind = ''rbac.authorization.k8s.io/v1/ClusterRole''"
definition cluster_role_binding_kind :: string where
  "cluster_role_binding_kind = ''rbac.authorization.k8s.io/v1/ClusterRoleBinding''"
definition validating_webhook_kind :: string where
  "validating_webhook_kind = ''admissionregistration.k8s.io/v1/ValidatingWebhookConfiguration''"
definition mutating_webhook_kind :: string where
  "mutating_webhook_kind = ''admissionregistration.k8s.io/v1/MutatingWebhookConfiguration''"
definition service_kind :: string where "service_kind = ''v1/Service''"

text \<open>The metadata a mapping function reads: the name and namespace, whatever the kind.\<close>

definition event_meta :: "kobj \<Rightarrow> objmeta" where
  "event_meta x = (case obj_meta x of Some m \<Rightarrow> m | None \<Rightarrow> new_meta (nn_Namespace (obj_key x)) (nn_Name (obj_key x)))"

definition SetupWithManager ::
    "'w server \<Rightarrow> OCIClusterAutoscalerReconciler \<Rightarrow> go_error + (string \<times> 'w event_handler) list" where
  "SetupWithManager srv r =
     Complete (Owns service_kind (Owns mutating_webhook_kind (Owns validating_webhook_kind
       (Owns cluster_role_binding_kind (Owns cluster_role_kind (Owns secret_kind (Owns scc_kind
       (Owns deployment_kind (Owns service_account_kind (Owns namespace_kind
       (Watches_of machine_kind (EnqueueRequestsFromMapFunc (\<lambda>x. requestsForOCIMachine srv r (Some (event_meta x))))
       (For autoscaler_kind ControllerManagedBy))))))))))))"

definition SetupWithManager_csr :: "go_error + (string \<times> 'w event_handler) list" where
  "SetupWithManager_csr = Complete (For csr_kind ControllerManagedBy)"

text \<open>The requests an event on an object adds: those of every watch on the object's kind.\<close>

definition event_kind :: "watch_event \<Rightarrow> string" where
  "event_kind ev = obj_kind (last (event_objects ev))"

definition deliver ::
    "rest_mapper \<Rightarrow> (string \<times> 'w event_handler) list \<Rightarrow> watch_event \<Rightarrow> 'w io \<Rightarrow> nsname list \<times> 'w io" where
  "deliver mapper watches ev io =
     (let (rs, io') = run_all (\<lambda>(k, h). enqueue mapper h ev) (filter (\<lambda>(k, h). k = event_kind ev) watches) io
      in (concat rs, io'))"

section \<open>What wakes the controller\<close>

abbreviation owned_kinds :: "string list" where
  "owned_kinds \<equiv> [namespace_kind, service_account_kind, deployment_kind, scc_kind, secret_kind, cluster_role_kind,
     cluster_role_binding_kind, validating_webhook_kind, mutating_webhook_kind, service_kind]"

lemmas watched_kinds = namespace_kind_def service_account_kind_def deployment_kind_def scc_kind_def secret_kind_def
  cluster_role_kind_def cluster_role_binding_kind_def validating_webhook_kind_def mutating_webhook_kind_def service_kind_def
  autoscaler_kind_def machine_kind_def csr_kind_def

lemma autoscaler_GroupKind: "kind_GroupKind autoscaler_kind = (''capi.openshift.io'', ''OCIClusterAutoscaler'')"
  by (simp add: kind_GroupKind_def autoscaler_kind_def)

lemma SetupWithManager_eq:
  "SetupWithManager srv r = Inr ((autoscaler_kind, EnqueueRequestForObject) #
     map (\<lambda>k. (k, EnqueueRequestForOwner (''capi.openshift.io'', ''OCIClusterAutoscaler'') True)) owned_kinds @
     [(machine_kind, EnqueueRequestsFromMapFunc (\<lambda>x. requestsForOCIMachine srv r (Some (event_meta x))))])"
  by (simp add: SetupWithManager_def Complete_def doWatch_def For_def Owns_def Watches_of_def ControllerManagedBy_def
      autoscaler_GroupKind)

lemma SetupWithManager_csr_eq: "SetupWithManager_csr = Inr [(csr_kind, EnqueueRequestForObject)]"
  by (simp add: SetupWithManager_csr_def Complete_def doWatch_def For_def ControllerManagedBy_def)

lemma run_all_quiet: "(\<And>x. x \<in> set xs \<Longrightarrow> act x io = ([], io)) \<Longrightarrow> run_all act xs io = (map (\<lambda>x. []) xs, io)"
  by (induction xs) simp_all

lemma remdups_single: "set ys \<subseteq> {k} \<Longrightarrow> remdups ys = (if ys = [] then [] else [k])"
  by (induction ys) (auto simp: subset_singleton_iff)

lemma run_all_cong: "(\<And>x io. x \<in> set xs \<Longrightarrow> act x io = act' x io) \<Longrightarrow> run_all act xs io = run_all act' xs io"
  by (induction xs arbitrary: io) simp_all

lemma event_meta_namespace [simp]: "md_Namespace (event_meta x) = nn_Namespace (obj_key x)"
  by (cases x) (simp_all add: event_meta_def new_meta_def)

lemma requestsForOCIMachine_namespace:
  assumes "md_Namespace m = md_Namespace m'"
  shows "requestsForOCIMachine srv r (Some m) = requestsForOCIMachine srv r (Some m')"
  unfolding requestsForOCIMachine_def option.case assms ..

lemma unowned_requests: "obj_owners x = [] \<Longrightarrow> getOwnerReconcileRequest mapper g b x = []"
  by (simp add: getOwnerReconcileRequest_def getOwnersReferences_def GetControllerOf_def)

text \<open>An object without owners, of another kind than the resource and the machines, wakes nobody.\<close>

lemma unowned_wakes_nobody:
  assumes "SetupWithManager srv r = Inr watches" and "\<forall>x \<in> set (event_objects ev). obj_owners x = []"
    and "event_kind ev \<noteq> autoscaler_kind" and "event_kind ev \<noteq> machine_kind"
  shows "deliver mapper watches ev io = ([], io)"
proof -
  let ?ws = "filter (\<lambda>(k, h). k = event_kind ev) watches"
  have "run_all (\<lambda>(k, h). enqueue mapper h ev) ?ws io = (map (\<lambda>w. []) ?ws, io)"
  proof (rule run_all_quiet)
    fix w assume "w \<in> set ?ws"
    with assms(1,3,4) obtain k g where "w = (k, EnqueueRequestForOwner g True)" by (auto simp: SetupWithManager_eq)
    then show "(case w of (k, h) \<Rightarrow> enqueue mapper h ev) io = ([], io)" using assms(2) by (simp add: handler_defs unowned_requests)
  qed
  then show ?thesis by (simp add: deliver_def)
qed

text \<open>An update that keeps the object's identity wakes nobody whom the object as it was would not wake.\<close>

lemma identity_update_wakes:
  assumes "SetupWithManager srv r = Inr watches" and "identity_kept x y"
  shows "deliver mapper watches (Updated x y) io = deliver mapper watches (Updated x x) io"
proof -
  from assms(2) have k: "event_kind (Updated x y) = event_kind (Updated x x)" by (simp add: event_kind_def identity_kept_def)
  have m: "requestsForOCIMachine srv r (Some (event_meta y)) = requestsForOCIMachine srv r (Some (event_meta x))"
    using assms(2) by (intro requestsForOCIMachine_namespace) (simp add: identity_kept_def)
  have w: "getOwnerReconcileRequest mapper g b y = getOwnerReconcileRequest mapper g b x" for g b
    using assms(2) by (simp add: getOwnerReconcileRequest_def getOwnersReferences_def identity_kept_def)
  have "enqueue mapper h (Updated x y) io = enqueue mapper h (Updated x x) io" if "(k, h) \<in> set watches" for k h io
    using that assms by (auto simp: SetupWithManager_eq handler_defs m w identity_kept_def)
  then have "run_all (\<lambda>(k, h). enqueue mapper h (Updated x y)) (filter (\<lambda>(k, h). k = event_kind (Updated x x)) watches) io =
      run_all (\<lambda>(k, h). enqueue mapper h (Updated x x)) (filter (\<lambda>(k, h). k = event_kind (Updated x x)) watches) io"
    by (intro run_all_cong) auto
  then show ?thesis by (simp add: deliver_def k)
qed

text \<open>What the events that a write gives rise to do.\<close>

fun wakes_nobody :: "rest_mapper \<Rightarrow> (string \<times> 'w event_handler) list \<Rightarrow> request \<Rightarrow> 'w io \<Rightarrow> bool" where
  "wakes_nobody mapper watches (ReqCreate x) io =
     (deliver mapper watches (Created x) io = ([], io) \<and> deliver mapper watches (Deleted x) io = ([], io))"
| "wakes_nobody mapper watches (ReqPatch x y) io =
     (deliver mapper watches (Updated x y) io = deliver mapper watches (Updated x x) io)"
| "wakes_nobody mapper watches (ReqStatusPatch x y) io =
     (deliver mapper watches (Updated x y) io = deliver mapper watches (Updated x x) io)"
| "wakes_nobody mapper watches q io = True"

lemma kept_wakes_nobody:
  assumes "SetupWithManager srv r = Inr watches" and "owners_kept q"
  shows "wakes_nobody mapper watches q io"
proof (cases q rule: owners_kept.cases)
  case (1 x)
  with assms(2) show ?thesis by (auto simp: event_kind_def intro!: unowned_wakes_nobody [OF assms(1)])
next
  case (2 x y)
  with assms(2) show ?thesis by (simp only: owners_kept.simps wakes_nobody.simps) (rule identity_update_wakes [OF assms(1)])
next
  case (3 x y)
  with assms(2) show ?thesis by (simp only: owners_kept.simps wakes_nobody.simps) (rule identity_update_wakes [OF assms(1)])
qed simp_all

text \<open>
  The watches do react to owner references: an object of an owned kind whose first controller reference names a resource of
  the operator's group and kind wakes that resource, in the object's namespace as the type is namespaced.
\<close>

lemma controller_reference_wakes:
  assumes "SetupWithManager srv r = Inr watches" and "obj_kind x \<in> set owned_kinds"
    and "GetControllerOf (obj_owners x) = Some ref" and "owr_Kind ref = ''OCIClusterAutoscaler''"
    and "ParseGroupVersion (owr_APIVersion ref) = Inr (''capi.openshift.io'', v)"
    and "mapper (''capi.openshift.io'', ''OCIClusterAutoscaler'') v = Inr False"
  shows "deliver mapper watches (Created x) io = ([\<lparr>nn_Namespace = nn_Namespace (obj_key x), nn_Name = owr_Name ref\<rparr>], io)"
proof -
  have "getOwnerReconcileRequest mapper (''capi.openshift.io'', ''OCIClusterAutoscaler'') True x =
      [\<lparr>nn_Namespace = nn_Namespace (obj_key x), nn_Name = owr_Name ref\<rparr>]"
    using assms(3-6) by (simp add: getOwnerReconcileRequest_def getOwnersReferences_def)
  then show ?thesis using assms(1,2)
    by (auto simp: deliver_def handler_defs SetupWithManager_eq event_kind_def watched_kinds deployment_kind_def secret_kind_def)
qed

text \<open>
  C23. The watches on managed objects never fire: for every server, whatever \<open>Reconcile\<close> does for a resource, the creation
  and the later deletion of an object it creates enqueue nothing through the watches that \<open>SetupWithManager\<close> registers, and
  a patch it sends enqueues what the unpatched object would. No object it creates has an owner reference, and these are all
  the handlers of the \<open>Owns\<close> watches look at.
\<close>

theorem reconcile_wakes_nobody:
  "case SetupWithManager srv r of
     Inl e \<Rightarrow> False
   | Inr watches \<Rightarrow>
       list_all (\<lambda>(q, a). wakes_nobody mapper watches q io1) (sent io (snd (Reconcile srv lib r req io)))"
proof -
  obtain watches where w: "SetupWithManager srv r = Inr watches" by (simp add: SetupWithManager_eq)
  have "list_all kept_sent (sent io (snd (Reconcile srv lib r req io)))" by (rule Reconcile_keeps_owners)
  then have "list_all (\<lambda>(q, a). wakes_nobody mapper watches q io1) (sent io (snd (Reconcile srv lib r req io)))"
    by (rule list.pred_mono_strong) (auto intro: kept_wakes_nobody [OF w])
  with w show ?thesis by simp
qed

text \<open>
  C17. Machines wake the elected resource: when the list of resources and the read of the elected one are answered, an event
  on a machine enqueues exactly that resource, once, if the machine (before or after an update) is in the namespace of the
  managed resources, and nothing otherwise.
\<close>

theorem machine_event_wakes_owner:
  assumes "SetupWithManager srv r = Inr watches" and "event_kind ev = machine_kind"
    and "\<And>w. srv_handle srv (ReqList autoscaler_kind [] fmempty) w = (RespList (map OAutoscaler items), w)"
    and "selectSingletonOwner items False = Some i"
    and "\<And>w. srv_handle srv (ReqGet autoscaler_kind (oca_key i)) w = (RespObj (OAutoscaler j), w)"
  shows "fst (deliver mapper watches ev io) =
    (if list_ex (\<lambda>x. nn_Namespace (obj_key x) = managedResourceNamespaceFor j (namespaces_of r)) (event_objects ev)
     then [oca_key i] else [])"
proof -
  let ?here = "\<lambda>x. nn_Namespace (obj_key x) = managedResourceNamespaceFor j (namespaces_of r)"
  have one: "fst (requestsForOCIMachine srv r (Some (event_meta x)) io) = (if ?here x then [oca_key i] else [])" for x io
    using assms(3-5)
    by (simp add: requestsForOCIMachine_def resolveSingletonOwnerName_def resolveSingletonOwner_def request_as_def call_def
        expect_def resp_items_autoscalers)
  have all: "fst (run_all (\<lambda>x. requestsForOCIMachine srv r (Some (event_meta x))) xs io) =
      map (\<lambda>x. if ?here x then [oca_key i] else []) xs" for xs io
    using one by (induction xs arbitrary: io) (auto split: prod.split dest: arg_cong [where f = fst])
  have "remdups (concat (map (\<lambda>x. if ?here x then [oca_key i] else []) xs)) = (if list_ex ?here xs then [oca_key i] else [])" for xs
    by (subst remdups_single [where k = "oca_key i"]) (auto simp: list_ex_iff)
  moreover obtain rs io' where rs: "run_all (\<lambda>x. requestsForOCIMachine srv r (Some (event_meta x))) (event_objects ev) io = (rs, io')"
    by fastforce
  moreover have "deliver mapper watches ev io = (remdups (concat rs), io')"
    using assms(1,2) rs by (auto simp: deliver_def handler_defs SetupWithManager_eq watched_kinds deployment_kind_def secret_kind_def)
  ultimately show ?thesis using all [of "event_objects ev" io] by simp
qed

definition machine_server :: "unit server" where
  "machine_server = \<lparr>srv_handle = (\<lambda>q w. (case q of
       ReqList k n l \<Rightarrow> RespList [OAutoscaler (sample_autoscaler ''n'' ''x'' 1 [])]
     | _ \<Rightarrow> RespObj (OAutoscaler (sample_autoscaler ''n'' ''x'' 1 [])), w)), srv_now = (\<lambda>w. 0)\<rparr>"

theorem machine_event_wakes_owner_witness:
  "\<exists>watches. SetupWithManager machine_server sample_reconciler = Inr watches \<and>
     fst (deliver (\<lambda>g v. Inr False) watches (Created (OOCIMachine (new_meta
       (managedResourceNamespaceFor (sample_autoscaler ''n'' ''x'' 1 []) (namespaces_of sample_reconciler)) ''m''))) (start_io ())) =
     [\<lparr>nn_Namespace = ''n'', nn_Name = ''x''\<rparr>]"
proof -
  let ?i = "sample_autoscaler ''n'' ''x'' 1 []"
  obtain watches where w: "SetupWithManager machine_server sample_reconciler = Inr watches" by (simp add: SetupWithManager_eq)
  have s: "selectSingletonOwner [?i] False = Some ?i" by code_simp
  have k: "oca_key ?i = \<lparr>nn_Namespace = ''n'', nn_Name = ''x''\<rparr>" by code_simp
  have h: "srv_handle machine_server (ReqList autoscaler_kind [] fmempty) u = (RespList (map OAutoscaler [?i]), u)"
    "srv_handle machine_server (ReqGet autoscaler_kind n) u = (RespObj (OAutoscaler ?i), u)" for u n
    by (simp_all add: machine_server_def)
  show ?thesis
    using w machine_event_wakes_owner [OF w _ h(1) s h(2), of "Created (OOCIMachine (new_meta
       (managedResourceNamespaceFor ?i (namespaces_of sample_reconciler)) ''m''))" "\<lambda>g v. Inr False" "start_io ()"]
    by (simp add: event_kind_def machine_kind_def k new_meta_def)
qed

end
