(* ===== verification/Spec2Isabelle.thy ===== *)
theory Spec2Isabelle
  imports Convergence ScalingSteady Manager Ownership StatusTypes Install DeepCopy Cidr Watches
begin

text \<open>
  A model of the OCI OpenShift autoscaling operator, a Kubernetes operator that installs Cluster API with its OCI provider
  (CAPOCI) and the cluster autoscaler on an OpenShift cluster, renders the resources of one autoscaled node pool, and approves the
  kubelet certificates of the machines that join.

  \<^bold>\<open>The program and its parts.\<close> Two controllers run in the manager. \<open>OCIClusterAutoscalerReconciler\<close>
  (\<open>internal/controllers/ociclusterautoscaler_controller.go\<close>) is called with the name of a custom resource; it elects one
  resource as the owner of the shared objects, then applies the provider manifests, waits for deployments, installs the
  autoscaler chart by Helm and applies the scaling objects, writing conditions (\<open>status.go\<close>) to the resource; for a deleting
  owner it removes the objects and then its finalizer. \<open>CertificateApprovalReconciler\<close> (\<open>cert_approval.go\<close>) is called with the
  name of a certificate signing request. The objects come from the packages under \<open>internal/components\<close> and \<open>internal/utils\<close>.

  \<^bold>\<open>State and effects.\<close> The API server, Helm and the clock are a \<open>server\<close> (\<open>Api_Types\<close>): a handler on an arbitrary world that
  answers one request, and a clock. A computation takes and returns an \<open>io\<close> state: the world, the log of requests with their answers, and
  the recorded events. Nothing is assumed of the server: theorems hold for every handler, also one that changes the world between
  two requests or answers with errors, unless they name hypotheses. What a run did is read off its log: \<open>sent io io'\<close> (\<open>Trace\<close>).
  Errors are values of \<open>go_error\<close>, with the wrapping and joining of Go; fallible functions return \<open>go_error + 'a\<close>, checks a
  \<open>go_error option\<close>. 32-bit integers are \<open>32 word\<close>, read by \<open>sint\<close>; Kubernetes' unstructured objects are the type \<open>json\<close>.

  \<^bold>\<open>The theories.\<close>
  \<^item> \<open>Prelude\<close>: Go strings, errors, formatting; shared lemmas and the named collections.
  \<^item> \<open>Unstructured\<close>: \<open>unstructured/helpers.go\<close> and accessors; the locale \<open>nested_access\<close> with the laws of nested reads and writes.
  \<^item> \<open>Api_Types\<close>: the types of \<open>api/v1alpha1\<close>, the Kubernetes types in use, requests, answers and the server.
  \<^item> \<open>Trace\<close>: \<open>emits\<close>, \<open>sent\<close>, loops over actions and the locale \<open>requester\<close> of actions that send only allowed requests.
  \<^item> \<open>Namespaces\<close>: \<open>namespaces.go\<close>. \<open>Conditions\<close>: \<open>status.go\<close>, with the locale \<open>condition_store\<close>. \<open>Singleton\<close>: the election of the owner,
    with the locale \<open>slice_order\<close> of sorting by a strict total order.
  \<^item> \<open>CertApproval\<close>: \<open>cert_approval.go\<close>. \<open>KubeApi\<close>: \<open>utils/kubeapi.go\<close>, \<open>logging/redact.go\<close>.
  \<^item> \<open>Config\<close>: \<open>enable_autoscaler/config.go\<close>. \<open>Components\<close>: provisioning and removal of components, \<open>CreateOrPatch\<close>,
    and the locale \<open>provisioner\<close>: what a policy on requests must grant for a component to meet it.
  \<^item> \<open>Providers\<close>: \<open>utils/clusterctl.go\<close>, \<open>components/capi\<close>, \<open>components/capoci\<close>, \<open>components/crds\<close>.
  \<^item> \<open>ClusterctlUpdate\<close>: updates of provider objects and of the cluster's status. \<open>Convergence\<close>: these updates settle.
  \<^item> \<open>Cidr\<close>: the CIDR parser and base64. \<open>Json\<close>: the text of \<open>encoding/json\<close> and a reader for it. \<open>Ignition\<close>:
    \<open>utils/ignition.go\<close> with the scripts it embeds. \<open>EnableAutoscaler\<close>: the scaling objects and their secrets.
  \<^item> \<open>AutoscalerChart\<close>: Helm release and RBAC of the autoscaler.
  \<^item> \<open>Reconcile\<close>: the stages of \<open>reconcileOCICapiStack\<close>, \<open>cleanup\<close> and \<open>Reconcile\<close>, one definition per stage or branch, composed
    by \<open>and_then\<close>. \<open>Steady\<close>: components applied to what they reconciled. \<open>Lifecycle\<close>: what whole reconciles do. \<open>Ownership\<close>: the state machine of resources
    and shared objects, and the refinement by \<open>Reconcile\<close>.
  \<^item> \<open>Install\<close>: a working cluster, and the installation that one reconcile completes on it.
  \<^item> \<open>ScalingSteady\<close>: the scaling component applied to what it reconciled.
  \<^item> \<open>StatusTypes\<close>: the typing of statuses, kept by every branch of \<open>Reconcile\<close>.
  \<^item> \<open>Owners\<close>: owner references, and the locale \<open>write_policy\<close> of policies on the objects a reconcile writes. \<open>Watches\<close>: the watches the
    controllers register (\<open>SetupWithManager\<close>) and what an event enqueues.
  \<^item> \<open>CrdInit\<close>: the \<open>init\<close> command (\<open>cmd/init.go\<close>). \<open>Startup\<close>: from the environment to the two controllers,
    and \<open>Manager\<close>: the process, its commands and exit status (\<open>cmd/main.go\<close>).
  \<^item> \<open>DeepCopy\<close>: the generated deep copies over a memory of cells, by the locale \<open>deep_copier\<close>, and status updates in place.

  \<^bold>\<open>What is shown.\<close>
  \<^item> Lifecycle: a stack run counts as complete only with an accepted policy and all three deployments seen available; an error of the
    stack is explained by the status; a resource that is not the owner touches only its own status; deletions and the removal of the finalizer
    need evidence in the log, and deletion comes to an end on a cooperative server.
  \<^item> Installation: on a working cluster with a new node pool and an installable configuration one reconcile goes through all stages and
    stores a ready status; an instance runs on a sample server that starts without any managed object.
  \<^item> Status: with a store of well-typed resources, each write of the resource has unique, documented condition types and a known phase.
  \<^item> Ownership: each run of \<open>Reconcile\<close> is a step of the machine, and in every history of user steps and runs shared objects have an
    owner with the finalizer. This needs runs one after the other (the work queue and the leader lease give it), answers
    that agree with the stored resources, creation times that order the resources, and no finalizers of others; without
    strictly increasing creation times it fails (\<open>same_second_orphans\<close>).
  \<^item> Election: the oldest candidate, independent of list order and sorting algorithm; mutual exclusion, and where it ends.
  \<^item> Certificates: an approval is the last request and justified by the answers before it; a matching request is approved.
  \<^item> Provider objects: an update is a conditional write that keeps what the cluster owns (addresses, node ports, CA bundles), a pass
    is bounded, and a second pass over its own result sends nothing; CRD upgrades replace exactly the mutable fields.
  \<^item> Steady state: a component whose objects are stored as it made them sends reads only; a namespace shared by several components never
    settles. The scaling component then writes its two secrets only: every rendering is idempotent on what it rendered.
  \<^item> Watches: a machine in the managed namespace wakes the elected resource; the watches on managed objects, which follow owner
    references, never fire for an object of \<open>Reconcile\<close>, since it creates all of them without one and no patch adds one.
  \<^item> Memory: a deep copy stands for the same value and shares no cell with its original; the status snapshot of \<open>Reconcile\<close> survives the
    in-place updates of conditions, which justifies that all other theories treat resources as values.
  \<^item> Startup: nothing starts, and \<open>init\<close> sends nothing, before versions, namespaces, credentials and shape passed their checks; the
    exit status reports every failure.
  \<^item> Configuration and rendering: validation accepts exactly the well-formed inputs; names fit their limits; the machine template
    follows the shape; discovered network blocks are lost.
  \<^item> User data: the exact size of the ignition text and so the largest certificate it has room for; a node that parses the
    text finds the scripts and the certificate that were put in.

  \<^bold>\<open>Parameters.\<close> Code that is not in the repository's own packages is a parameter: the API server and Helm (\<open>server\<close>), clusterctl
  (\<open>clusterctl\<close>), X.509 and PEM parsing (\<open>x509_lib\<close>), YAML (\<open>yaml_lib\<close>), typed
  decoding of deployments (\<open>scheme\<close>), formatting of time (\<open>libraries\<close>), conversion of managed fields and timestamps (\<open>meta_conv\<close>), REST mappings (\<open>rest_mapper\<close>). The functions of
  apimachinery and controller-runtime the operator calls (nested fields, conditions, label validation, \<open>CreateOrPatch\<close>, finalizers, watches and event handlers)
  are modelled from the vendored sources. No definition of the program needs fuel: every loop runs over a list. The JSON reader of \<open>Json\<close>, which only states a property,
  recurses to a depth of at most the length of its text, which exceeds the size of every value with that text.
  The reconcile loop applies only the prerequisites of the providers; \<open>reconcileClusterctlComponents\<close>, which the controller package only tests, is modelled as it stands.

  \<^bold>\<open>Not modelled.\<close> Log lines (their inputs are, where a function computes them), informers and the work queue, the bodies of cobra and envconfig (their
  outcomes are arguments of \<open>Manager\<close>), scheme registration, the meaning of the embedded shell scripts, YAML manifests, and tests.
\<close>

end
